(* ===== verification/NrPrelude.thy ===== *)
theory NrPrelude
  imports Main "HOL-Library.Word" "HOL-Library.Monad_Syntax"
begin

text \<open>
  Shared vocabulary of the development: the machine types of \<open>types.h\<close>, the kernel's
  status codes, the size macros of \<open>qmem.h\<close> and \<open>pmm.h\<close>, the conventions for code that
  may not return, and the word and list lemmas used by the component theories.

  Conventions. A C function that always returns is a HOL function from its arguments and
  the state it touches to its result and the new state. A C function that may fail to
  return (an unbounded loop, a spin on a held lock, a panic) has a result of type
  \<open>option\<close>, where \<open>None\<close> says that control never comes back to the caller.
  Pointers are \<open>u64\<close> values and \<open>NULL\<close> is 0.
\<close>

unbundle bit_operations_syntax

section \<open>Machine types\<close>

type_synonym u8 = "8 word"
type_synonym u16 = "16 word"
type_synonym u32 = "32 word"
type_synonym u64 = "64 word"
type_synonym i64 = "64 word"
type_synonym bytes = "u64 \<Rightarrow> u8"

abbreviation NULL :: u64 where
  "NULL \<equiv> 0"

named_theorems word_nat_simps \<open>moving word comparisons and arithmetic to nat\<close>
named_theorems frame_simps \<open>fields and memory an operation leaves alone\<close>

section \<open>Status codes\<close>

text \<open>\<open>NearStatus\<close> of \<open>nrstatus.h\<close>, in the order of the C enumeration.\<close>

datatype NearStatus =
    STATUS_SUCCESS | STATUS_UNKNOWN | STATUS_OUT_OF_MEMORY
  | STATUS_INIT_FAIL | STATUS_CANT_CREATE_ECS_COMP
  | STATUS_CANT_CREATE_ENTITY | STATUS_NOT_ENOUGH_MEMORY
  | STATUS_NO_VALID_MEMORY | STATUS_NOT_FOUND | STATUS_INVALID_PML_ENTRY
  | STATUS_NOT_MAPPED | STATUS_UACPI_INIT_FAIL | STATUS_ACPI_NAMESPACE_FAIL
  | STATUS_ACPI_GPE_FAIL | STATUS_REBOOT_FAILED | STATUS_SHUTDOWN_FAILED
  | STATUS_INVALID_ADDRESS | STATUS_ACCESS_DENIED | STATUS_CANT_FIND_HEADER
  | STATUS_PMM_FAIL | STATUS_VMM_FAIL | STATUS_GALLOC_FAIL | STATUS_TOO_LARGE
  | STATUS_INVALID_HANDLE | STATUS_INVALID_ENTITY | STATUS_NOT_IMPLEMENTED

text \<open>\<open>NR_SUCCESS(x)\<close> compares a status with \<open>STATUS_SUCCESS\<close>.\<close>

definition NR_SUCCESS :: "NearStatus \<Rightarrow> bool" where
  "NR_SUCCESS x \<longleftrightarrow> x = STATUS_SUCCESS"

text \<open>
  \<open>boolean\<close> is C's \<open>bool\<close>: converting a status to it gives \<open>FALSE\<close> exactly for the
  value 0, which is \<open>STATUS_SUCCESS\<close>.
\<close>

definition boolean_of_status :: "NearStatus \<Rightarrow> bool" where
  "boolean_of_status x \<longleftrightarrow> x \<noteq> STATUS_SUCCESS"

text \<open>The kernel's terminal message classes (\<open>term.h\<close>) and the log of \<open>KeTermPrint\<close> calls:
  the class, the format string and the integer arguments of each call.\<close>

datatype Status =
    TERM_STATUS_ERROR | TERM_STATUS_PASS | TERM_STATUS_WARNING
  | TERM_STATUS_INFO | TERM_STATUS_UNKNOWN | TERM_STATUS_IMPINFO

type_synonym klog = "(Status \<times> string \<times> u64 list) list"

section \<open>Sizes\<close>

definition PAGE_SIZE :: u64 where
  "PAGE_SIZE = 0x1000"

definition IN_PAGES :: "u64 \<Rightarrow> u64" where
  "IN_PAGES x = (x + (PAGE_SIZE - 1)) div PAGE_SIZE"

definition KB :: "u64 \<Rightarrow> u64" where
  "KB x = push_bit 10 x"

definition MB :: "u64 \<Rightarrow> u64" where
  "MB x = push_bit 20 x"

definition GB :: "u64 \<Rightarrow> u64" where
  "GB x = push_bit 30 x"

definition TB :: "u64 \<Rightarrow> u64" where
  "TB x = push_bit 40 x"

definition TO_KB :: "u64 \<Rightarrow> u64" where
  "TO_KB x = drop_bit 10 x"

definition TO_MB :: "u64 \<Rightarrow> u64" where
  "TO_MB x = drop_bit 20 x"

definition TO_GB :: "u64 \<Rightarrow> u64" where
  "TO_GB x = drop_bit 30 x"

definition TO_TB :: "u64 \<Rightarrow> u64" where
  "TO_TB x = drop_bit 40 x"

section \<open>Words as numbers\<close>

lemma unat_lt_2p64: "unat (x :: u64) < 18446744073709551616"
  using unsigned_less[of x] by simp

lemma unat_of_nat_u64 [word_nat_simps]:
  "n < 18446744073709551616 \<Longrightarrow> unat (of_nat n :: u64) = n"
  by (simp add: unat_of_nat)

lemma of_nat_eq_iff_u64:
  assumes "i < 18446744073709551616" and "j < 18446744073709551616"
  shows "(of_nat i :: u64) = of_nat j \<longleftrightarrow> i = j"
  using assms by (metis unat_of_nat_u64)

lemma unat_add_no_wrap [word_nat_simps]:
  "unat a + unat b < 18446744073709551616 \<Longrightarrow> unat (a + b :: u64) = unat a + unat b"
  by (simp add: unat_word_ariths)

lemma unat_mult_no_wrap:
  "unat a * unat b < 18446744073709551616 \<Longrightarrow> unat (a * b :: u64) = unat a * unat b"
  by (simp add: unat_word_ariths)

lemma unat_sub_le: "(b :: u64) \<le> a \<Longrightarrow> unat (a - b) = unat a - unat b"
  by (simp add: unat_sub)

lemma unat_div_u64 [word_nat_simps]: "unat (a div b :: u64) = unat a div unat b"
  by (simp add: unat_div)

lemma unat_mod_u64 [word_nat_simps]: "unat (a mod b :: u64) = unat a mod unat b"
  by (simp add: unat_mod)

lemma word_offset_cases:
  fixes x a :: u64
  shows "x = a + of_nat (unat (x - a))"
  by simp

lemma unat_of_nat_below:
  assumes "k < unat (w :: u64)"
  shows "unat (of_nat k :: u64) = k"
  using assms less_trans[OF assms unat_lt_2p64[of w]] by (simp add: unat_of_nat_u64)

lemma below_iff_of_nat: "(i :: u64) < w \<longleftrightarrow> (\<exists>k < unat w. i = of_nat k)"
proof
  assume "i < w"
  then have "unat i < unat w" and "i = of_nat (unat i)"
    by (simp_all add: word_less_nat_alt)
  then show "\<exists>k < unat w. i = of_nat k" by blast
next
  assume "\<exists>k < unat w. i = of_nat k"
  then obtain k where k: "k < unat w" "i = of_nat k" by blast
  then have "unat i = k" by (simp add: unat_of_nat_below)
  with k(1) show "i < w" by (simp add: word_less_nat_alt)
qed

lemma offset_range_iff:
  assumes "n \<le> 18446744073709551616"
  shows "(\<exists>j<n. k = (i :: u64) + of_nat j) \<longleftrightarrow> unat (k - i) < n"
proof
  assume "\<exists>j<n. k = i + of_nat j"
  then obtain j where "j < n" "k - i = of_nat j" by auto
  then show "unat (k - i) < n" using assms by (simp add: unat_of_nat_u64)
next
  assume "unat (k - i) < n"
  then show "\<exists>j<n. k = i + of_nat j"
    by (intro exI[of _ "unat (k - i)"]) simp
qed

lemma less_8_cases:
  "(k :: nat) < 8 \<Longrightarrow> k = 0 \<or> k = 1 \<or> k = 2 \<or> k = 3 \<or> k = 4 \<or> k = 5 \<or> k = 6 \<or> k = 7"
  by arith

lemma bit_u8_in_u64: "bit (ucast (w :: u8) :: u64) n \<longleftrightarrow> n < 8 \<and> bit w n"
  by (auto simp: bit_simps dest: bit_imp_le_length)

section \<open>Counted loops\<close>

text \<open>
  A C loop \<open>for(i = 0; i < n; i++)\<close> over a fixed bound runs its body for the indices
  \<open>0, \<dots>, n - 1\<close> in this order. \<open>for_upto n body s\<close> is that fold; the index is
  given to the body as the machine word it is in the code.
\<close>

definition for_upto :: "nat \<Rightarrow> (u64 \<Rightarrow> 's \<Rightarrow> 's) \<Rightarrow> 's \<Rightarrow> 's" where
  "for_upto n body s = fold (\<lambda>i. body (of_nat i)) [0..<n] s"

lemma for_upto_0 [simp]: "for_upto 0 body s = s"
  by (simp add: for_upto_def)

lemma for_upto_Suc [simp]:
  "for_upto (Suc n) body s = body (of_nat n) (for_upto n body s)"
  by (simp add: for_upto_def)

lemma for_upto_numeral [simp]:
  "for_upto (numeral n) body s = body (of_nat (pred_numeral n)) (for_upto (pred_numeral n) body s)"
  by (simp add: numeral_eq_Suc)

lemma for_upto_invariant:
  assumes "P s" and "\<And>i t. i < n \<Longrightarrow> P t \<Longrightarrow> P (body (of_nat i) t)"
  shows "P (for_upto n body s)"
proof -
  have "k \<le> n \<Longrightarrow> P (for_upto k body s)" for k
    by (induction k) (auto intro: assms)
  then show ?thesis by simp
qed

lemma for_upto_frame:
  assumes "\<And>i t. f (body i t) = f t"
  shows "f (for_upto n body s) = f s"
  by (induction n) (simp_all add: assms)

text \<open>The loop \<open>for(i = n; i > 0; i--)\<close> whose body uses the index \<open>i - 1\<close>.\<close>

definition for_downto :: "nat \<Rightarrow> (u64 \<Rightarrow> 's \<Rightarrow> 's) \<Rightarrow> 's \<Rightarrow> 's" where
  "for_downto n body s = fold (\<lambda>i. body (of_nat i)) (rev [0..<n]) s"

lemma for_downto_0 [simp]: "for_downto 0 body s = s"
  by (simp add: for_downto_def)

lemma for_downto_Suc [simp]:
  "for_downto (Suc n) body s = for_downto n body (body (of_nat n) s)"
  by (simp add: for_downto_def)

lemma for_downto_numeral [simp]:
  "for_downto (numeral n) body s = for_downto (pred_numeral n) body (body (of_nat (pred_numeral n)) s)"
  by (simp add: numeral_eq_Suc)

text \<open>A search loop that leaves at the first index satisfying a test.\<close>

definition for_find :: "nat \<Rightarrow> (u64 \<Rightarrow> bool) \<Rightarrow> u64 option" where
  "for_find n test = map_option of_nat (find (\<lambda>i. test (of_nat i)) [0..<n])"

lemma for_find_Some:
  assumes "for_find n test = Some r"
  obtains i where "i < n" and "r = of_nat i" and "test r" and "\<And>j. j < i \<Longrightarrow> \<not> test (of_nat j)"
proof -
  from assms obtain i where i: "find (\<lambda>i. test (of_nat i)) [0..<n] = Some i" "r = of_nat i"
    by (auto simp: for_find_def)
  from i(1) have "i < n" "test (of_nat i)" "\<And>j. j < i \<Longrightarrow> \<not> test (of_nat j)"
    by (auto simp: find_Some_iff)
  with i(2) that show thesis by blast
qed

lemma for_find_None: "for_find n test = None \<longleftrightarrow> (\<forall>i<n. \<not> test (of_nat i))"
  by (auto simp: for_find_def find_None_iff)

lemma for_find_least:
  assumes "i < n" and "test (of_nat i)" and "\<And>j. j < i \<Longrightarrow> \<not> test (of_nat j)"
  shows "for_find n test = Some (of_nat i)"
proof -
  have "find (\<lambda>i. test (of_nat i)) [0..<n] = Some i"
    using assms by (auto simp: find_Some_iff intro!: exI[of _ i])
  then show ?thesis by (simp add: for_find_def)
qed

text \<open>
  The loop \<open>for(j = lo; j < hi; j += PAGE_SIZE)\<close>. The step can wrap around past a bound
  in the last page of the address space, and then the loop does not end.
\<close>

partial_function (option) stride_loop ::
    "u64 \<Rightarrow> u64 \<Rightarrow> (u64 \<Rightarrow> 's \<Rightarrow> 's) \<Rightarrow> 's \<Rightarrow> 's option" where
  "stride_loop j hi body s =
     (if j < hi then stride_loop (j + PAGE_SIZE) hi body (body j s) else Some s)"

lemma for_upto_shift:
  "for_upto (Suc n) body s = for_upto n (\<lambda>i. body (i + 1)) (body 0 s)"
proof (induction n)
  case 0
  then show ?case by simp
next
  case (Suc n)
  have "for_upto (Suc (Suc n)) body s = body (of_nat (Suc n)) (for_upto (Suc n) body s)"
    by (rule for_upto_Suc)
  also have "\<dots> = body (of_nat n + 1) (for_upto n (\<lambda>i. body (i + 1)) (body 0 s))"
    by (simp only: Suc.IH of_nat_Suc add.commute)
  finally show ?case by (simp only: for_upto_Suc)
qed

lemma stride_count:
  assumes "(b :: nat) < a"
  shows "(a - b + 4095) div 4096 = Suc ((a - (b + 4096) + 4095) div 4096)"
proof -
  define d where "d = a - b"
  have d: "0 < d" and e: "a - (b + 4096) = d - 4096" using assms by (simp_all add: d_def)
  show ?thesis
  proof (cases "4096 \<le> d")
    case True
    then obtain c where "d = 4096 + c" using le_Suc_ex by blast
    then show ?thesis unfolding d_def [symmetric] e by simp
  next
    case False
    with d obtain c where "d = Suc c" "c < 4096" by (cases d) auto
    then show ?thesis unfolding d_def [symmetric] e by simp
  qed
qed

lemma stride_loop_result:
  assumes "unat hi \<le> 18446744073709547520"
  shows "stride_loop j hi body s =
    Some (for_upto ((unat hi - unat j + 4095) div 4096) (\<lambda>k. body (j + k * PAGE_SIZE)) s)"
proof (induction "unat hi - unat j" arbitrary: j s rule: less_induct)
  case less
  show ?case
  proof (cases "j < hi")
    case False
    then have "unat hi - unat j = 0" by (simp add: word_less_nat_alt)
    with False show ?thesis by (subst stride_loop.simps) simp
  next
    case True
    let ?n = "(unat hi - unat (j + PAGE_SIZE) + 4095) div 4096"
    have lt: "unat j < unat hi" using True by (simp add: word_less_nat_alt)
    have up: "unat (j + PAGE_SIZE) = unat j + 4096"
      using lt assms by (simp add: PAGE_SIZE_def unat_word_ariths)
    have n: "(unat hi - unat j + 4095) div 4096 = Suc ?n"
      using stride_count[OF lt] by (simp only: up)
    have shift: "(\<lambda>i. body (j + (i + 1) * PAGE_SIZE)) = (\<lambda>k. body (j + PAGE_SIZE + k * PAGE_SIZE))"
      "body (j + 0 * PAGE_SIZE) s = body j s"
      by (simp_all add: distrib_right add_ac)
    have "stride_loop (j + PAGE_SIZE) hi body (body j s) =
        Some (for_upto ?n (\<lambda>k. body (j + PAGE_SIZE + k * PAGE_SIZE)) (body j s))"
      by (rule less) (use lt up in simp)
    then show ?thesis
      using True unfolding n for_upto_shift
      by (subst stride_loop.simps) (simp only: if_True shift)
  qed
qed

text \<open>
  Loops whose body may fail: the loop stops at the first status other than
  \<open>STATUS_SUCCESS\<close>, which the function returns. \<open>for_try i n\<close> runs the indices
  \<open>i, \<dots>, i + n - 1\<close>; \<open>stride_try\<close> is the page-stride loop.
\<close>

fun for_try :: "nat \<Rightarrow> nat \<Rightarrow> (u64 \<Rightarrow> 's \<Rightarrow> NearStatus \<times> 's) \<Rightarrow> 's \<Rightarrow> NearStatus \<times> 's" where
  "for_try i 0 body s = (STATUS_SUCCESS, s)"
| "for_try i (Suc n) body s =
     (let (r, s1) = body (of_nat i) s
      in if \<not> NR_SUCCESS r then (r, s1) else for_try (Suc i) n body s1)"

partial_function (option) stride_try ::
    "u64 \<Rightarrow> u64 \<Rightarrow> (u64 \<Rightarrow> 's \<Rightarrow> NearStatus \<times> 's) \<Rightarrow> 's \<Rightarrow> (NearStatus \<times> 's) option" where
  "stride_try j hi body s =
     (if j < hi
      then (case body j s of (r, s1) \<Rightarrow>
              if \<not> NR_SUCCESS r then Some (r, s1) else stride_try (j + PAGE_SIZE) hi body s1)
      else Some (STATUS_SUCCESS, s))"

lemma for_try_invariant:
  assumes "P s" and "\<And>i t r t'. P t \<Longrightarrow> body i t = (r, t') \<Longrightarrow> P t'"
    and "for_try i n body s = (r, s')"
  shows "P s'"
  using assms(1,3)
proof (induction n arbitrary: i s)
  case 0
  then show ?case by simp
next
  case (Suc n)
  then show ?case by (auto split: prod.splits if_splits dest: assms(2))
qed

lemma stride_try_invariant:
  assumes "P s" and "\<And>i t r t'. P t \<Longrightarrow> body i t = (r, t') \<Longrightarrow> P t'"
    and "stride_try j hi body s = Some (r, s')"
  shows "P s'"
proof -
  let ?Q = "\<lambda>(j :: u64) (hi :: u64) b s q. b = body \<longrightarrow> P s \<longrightarrow> P (snd q)"
  have "?Q j hi body s (r, s')"
  proof (rule stride_try.raw_induct [where P = ?Q, OF _ assms(3)], intro impI)
    fix f j hi b s q
    assume IH: "\<And>j hi b s q. f j hi b s = Some q \<Longrightarrow> b = body \<longrightarrow> P s \<longrightarrow> P (snd q)"
      and eq: "(if j < hi then (case b j s of (r, s1) \<Rightarrow>
          if \<not> NR_SUCCESS r then Some (r, s1) else f (j + PAGE_SIZE) hi b s1)
        else Some (STATUS_SUCCESS, s)) = Some q"
      and b: "b = body" and s: "P s"
    obtain r s1 where r: "body j s = (r, s1)" by fastforce
    have s1: "P s1" using assms(2)[OF s r] .
    show "P (snd q)"
    proof (cases "j < hi")
      case False
      with eq have "q = (STATUS_SUCCESS, s)" by simp
      with s show ?thesis by simp
    next
      case True
      with eq have eq': "(if \<not> NR_SUCCESS r then Some (r, s1) else f (j + PAGE_SIZE) hi b s1) = Some q"
        by (simp only: b r if_True prod.case)
      show ?thesis
      proof (cases "NR_SUCCESS r")
        case False
        with eq' have "q = (r, s1)" by simp
        with s1 show ?thesis by simp
      next
        case True
        with eq' have "f (j + PAGE_SIZE) hi b s1 = Some q" by (simp only: simp_thms if_False)
        from IH[OF this] b s1 show ?thesis by blast
      qed
    qed
  qed
  with assms(1) show ?thesis by auto
qed

lemma stride_try_returns:
  assumes "unat hi \<le> 18446744073709547520"
  shows "\<exists>r s'. stride_try j hi body s = Some (r, s')"
proof (induction "unat hi - unat j" arbitrary: j s rule: less_induct)
  case less
  show ?case
  proof (cases "j < hi")
    case False
    then have "stride_try j hi body s = Some (STATUS_SUCCESS, s)"
      by (simp only: stride_try.simps [of j] if_False)
    then show ?thesis by blast
  next
    case True
    then have lt: "unat j < unat hi" by (simp add: word_less_nat_alt)
    then have "unat (j + PAGE_SIZE) = unat j + 4096"
      using assms by (simp add: PAGE_SIZE_def unat_word_ariths)
    then have "unat hi - unat (j + PAGE_SIZE) < unat hi - unat j" using lt by simp
    note IH = less.hyps [OF this]
    obtain r s1 where b: "body j s = (r, s1)" by fastforce
    obtain r' s' where "stride_try (j + PAGE_SIZE) hi body s1 = Some (r', s')" using IH by blast
    with True b have "stride_try j hi body s = Some (if NR_SUCCESS r then (r', s') else (r, s1))"
      by (simp add: stride_try.simps [of j])
    then show ?thesis by (metis surj_pair)
  qed
qed

text \<open>
  A failing loop that reaches its end with \<open>STATUS_SUCCESS\<close> has collected, for every index it ran,
  what one successful iteration establishes, as long as later iterations keep it.
\<close>

lemma for_try_collect:
  assumes "P s" and "for_try i n body s = (r, s')"
    and step: "\<And>i t r t'. P t \<Longrightarrow> body i t = (r, t') \<Longrightarrow>
      P t' \<and> (\<forall>w. R w t \<longrightarrow> R w t') \<and> (r = STATUS_SUCCESS \<longrightarrow> R (f i) t')"
  shows "P s' \<and> (\<forall>w. R w s \<longrightarrow> R w s') \<and>
    (r = STATUS_SUCCESS \<longrightarrow> (\<forall>k. i \<le> k \<and> k < i + n \<longrightarrow> R (f (of_nat k)) s'))"
  using assms(1,2)
proof (induction n arbitrary: i s)
  case 0
  then show ?case by auto
next
  case (Suc n)
  obtain r1 s1 where b: "body (of_nat i) s = (r1, s1)" by fastforce
  note st = step[OF Suc.prems(1) b]
  show ?case
  proof (cases "r1 = STATUS_SUCCESS")
    case False
    with Suc.prems(2) b have "r = r1" "s' = s1" by (simp_all add: NR_SUCCESS_def)
    with st False show ?thesis by simp
  next
    case True
    with Suc.prems(2) b have "for_try (Suc i) n body s1 = (r, s')" by (simp add: NR_SUCCESS_def)
    from Suc.IH[OF _ this] st have IH: "P s'" "\<forall>w. R w s1 \<longrightarrow> R w s'"
      "r = STATUS_SUCCESS \<longrightarrow> (\<forall>k. Suc i \<le> k \<and> k < Suc i + n \<longrightarrow> R (f (of_nat k)) s')" by auto
    moreover have "R (f (of_nat i)) s'" using st True IH(2) by blast
    ultimately show ?thesis
      using st by (metis Suc_leI add_Suc_right add_Suc_shift le_neq_implies_less)
  qed
qed

lemma stride_try_collect:
  assumes "unat hi \<le> 18446744073709547520" and "P s"
    and step: "\<And>i t r t'. P t \<Longrightarrow> body i t = (r, t') \<Longrightarrow>
      P t' \<and> (\<forall>w. R w t \<longrightarrow> R w t') \<and> (r = STATUS_SUCCESS \<longrightarrow> R (f i) t')"
  shows "\<exists>r s'. stride_try j hi body s = Some (r, s') \<and> P s' \<and> (\<forall>w. R w s \<longrightarrow> R w s') \<and>
    (r = STATUS_SUCCESS \<longrightarrow> (\<forall>k. unat j + k * 4096 < unat hi \<longrightarrow> R (f (j + of_nat k * PAGE_SIZE)) s'))"
  using assms(2)
proof (induction "unat hi - unat j" arbitrary: j s rule: less_induct)
  case less
  show ?case
  proof (cases "j < hi")
    case False
    then have "stride_try j hi body s = Some (STATUS_SUCCESS, s)"
      by (simp only: stride_try.simps [of j] if_False)
    then show ?thesis using less.prems False by (auto simp: word_less_nat_alt)
  next
    case True
    then have lt: "unat j < unat hi" by (simp add: word_less_nat_alt)
    then have up: "unat (j + PAGE_SIZE) = unat j + 4096"
      using assms(1) by (simp add: PAGE_SIZE_def unat_word_ariths)
    obtain r1 s1 where b: "body j s = (r1, s1)" by fastforce
    note st = step[OF less.prems b]
    show ?thesis
    proof (cases "r1 = STATUS_SUCCESS")
      case False
      with True b have "stride_try j hi body s = Some (r1, s1)"
        by (simp add: stride_try.simps [of j] NR_SUCCESS_def)
      with st False show ?thesis by auto
    next
      case ok: True
      have "unat hi - unat (j + PAGE_SIZE) < unat hi - unat j" using up lt by simp
      from less.hyps[OF this, of s1] st obtain r s' where
        IH: "stride_try (j + PAGE_SIZE) hi body s1 = Some (r, s')" "P s'" "\<forall>w. R w s1 \<longrightarrow> R w s'"
          "r = STATUS_SUCCESS \<longrightarrow> (\<forall>k. unat j + 4096 + k * 4096 < unat hi \<longrightarrow>
             R (f (j + PAGE_SIZE + of_nat k * PAGE_SIZE)) s')"
        by (auto simp: up)
      have eq: "stride_try j hi body s = Some (r, s')"
        using True b ok IH(1) by (simp add: stride_try.simps [of j] NR_SUCCESS_def)
      have "R (f (j + of_nat k * PAGE_SIZE)) s'" if "r = STATUS_SUCCESS" "unat j + k * 4096 < unat hi" for k
      proof (cases k)
        case 0
        then show ?thesis using st ok IH(3) by simp
      next
        case (Suc k')
        then show ?thesis using that IH(4) by (simp add: algebra_simps)
      qed
      with eq IH st show ?thesis by blast
    qed
  qed
qed

end
