(* ===== verification/NrMemory.thy ===== *)
theory NrMemory
  imports NrPrelude
begin

text \<open>
  The byte-addressed memory of the machine. A load or store of a 64-bit value is eight
  little-endian byte accesses, so that overlapping accesses, the byte loops of
  \<open>qmem.c\<close>, the page bitmap and the page tables all act on the same memory.
  The second half of the theory is about pages: which page an address lies in, and
  which accesses stay inside one page.
\<close>

section \<open>64-bit accesses\<close>

definition ld64 :: "bytes \<Rightarrow> u64 \<Rightarrow> u64" where
  "ld64 m a = ucast (m a) OR push_bit 8 (ucast (m (a + 1))) OR push_bit 16 (ucast (m (a + 2)))
     OR push_bit 24 (ucast (m (a + 3))) OR push_bit 32 (ucast (m (a + 4)))
     OR push_bit 40 (ucast (m (a + 5))) OR push_bit 48 (ucast (m (a + 6)))
     OR push_bit 56 (ucast (m (a + 7)))"

definition st64 :: "bytes \<Rightarrow> u64 \<Rightarrow> u64 \<Rightarrow> bytes" where
  "st64 m a v = m(a := ucast v, a + 1 := ucast (drop_bit 8 v), a + 2 := ucast (drop_bit 16 v),
     a + 3 := ucast (drop_bit 24 v), a + 4 := ucast (drop_bit 32 v), a + 5 := ucast (drop_bit 40 v),
     a + 6 := ucast (drop_bit 48 v), a + 7 := ucast (drop_bit 56 v))"

lemma bit_ld64:
  assumes "k < 8" and "r < 8"
  shows "bit (ld64 m a) (8 * k + r) \<longleftrightarrow> bit (m (a + of_nat k)) r"
  using less_8_cases[OF assms(1)] assms(2)
  by (elim disjE) (simp_all add: ld64_def bit_or_iff bit_push_bit_iff bit_u8_in_u64)

lemma bit_ld64':
  assumes "n < 64"
  shows "bit (ld64 m a) n \<longleftrightarrow> bit (m (a + of_nat (n div 8))) (n mod 8)"
  using bit_ld64[of "n div 8" "n mod 8" m a] assms by simp

lemma st64_apply:
  "st64 m a v x = (if unat (x - a) < 8 then ucast (drop_bit (8 * unat (x - a)) v) else m x)"
proof (cases "unat (x - a) < 8")
  case True
  then obtain k where k: "k < 8" "x = a + of_nat k"
    using word_offset_cases[of x a] by blast
  show ?thesis
    using less_8_cases[OF k(1)] unfolding k(2)
    by (elim disjE) (simp_all add: st64_def)
next
  case False
  then show ?thesis by (auto simp: st64_def)
qed

lemma st64_in: "k < 8 \<Longrightarrow> st64 m a v (a + of_nat k) = ucast (drop_bit (8 * k) v)"
  by (simp add: st64_apply unat_of_nat)

lemma st64_out: "8 \<le> unat (x - a) \<Longrightarrow> st64 m a v x = m x"
  by (simp add: st64_apply)

lemma ld64_cong:
  assumes "\<And>k. k < 8 \<Longrightarrow> m (a + of_nat k) = m' (a + of_nat k)"
  shows "ld64 m a = ld64 m' a"
proof (rule bit_word_eqI)
  fix n
  assume "n < LENGTH(64)"
  then show "bit (ld64 m a) n = bit (ld64 m' a) n"
    using assms[of "n div 8"] by (simp add: bit_ld64')
qed

lemma ld64_st64_same [simp]: "ld64 (st64 m a v) a = v"
proof (rule bit_word_eqI)
  fix n
  assume "n < LENGTH(64)"
  then show "bit (ld64 (st64 m a v) a) n = bit v n"
    by (simp add: bit_ld64' st64_in bit_simps)
qed

text \<open>Accesses that do not overlap, in terms of the distances between them.\<close>

lemma ld64_st64_apart:
  assumes "8 \<le> unat (b - a)" and "8 \<le> unat (a - b)"
  shows "ld64 (st64 m a v) b = ld64 m b"
proof (rule ld64_cong)
  fix k :: nat
  assume k: "k < 8"
  have "8 \<le> unat (b + of_nat k - a)"
  proof (rule ccontr)
    assume "\<not> 8 \<le> unat (b + of_nat k - a)"
    then obtain j where j: "j < 8" and eq: "b + of_nat k = a + of_nat j"
      using word_offset_cases[of "b + of_nat k" a] by (meson not_le)
    show False
    proof (cases "k \<le> j")
      case True
      then have "b - a = of_nat (j - k)"
        using eq by (simp add: of_nat_diff algebra_simps)
      then show False using j assms(1) by (simp add: unat_of_nat)
    next
      case False
      then have "a - b = of_nat (k - j)"
        using eq by (simp add: of_nat_diff algebra_simps)
      then show False using k assms(2) by (simp add: unat_of_nat)
    qed
  qed
  then show "st64 m a v (b + of_nat k) = m (b + of_nat k)"
    by (rule st64_out)
qed

section \<open>Pages\<close>

text \<open>The number of the 4 KiB page an address lies in, and page-aligned addresses.\<close>

definition pgno :: "u64 \<Rightarrow> nat" where
  "pgno a = unat a div 4096"

definition page_aligned :: "u64 \<Rightarrow> bool" where
  "page_aligned a \<longleftrightarrow> unat a mod 4096 = 0"

lemma pgno_less: "pgno a < 4503599627370496"
  unfolding pgno_def using unat_lt_2p64[of a] by linarith

lemma page_aligned_unat: "page_aligned a \<Longrightarrow> unat a = 4096 * pgno a"
  by (simp add: page_aligned_def pgno_def) (metis mult_div_mod_eq add_0_right)

lemma page_aligned_eq_iff:
  "page_aligned a \<Longrightarrow> page_aligned b \<Longrightarrow> a = b \<longleftrightarrow> pgno a = pgno b"
  by (metis page_aligned_unat word_unat_eq_iff)

lemma unat_in_page:
  assumes "page_aligned a" and "j < 4096"
  shows "unat (a + of_nat j) = unat a + j"
proof -
  have "unat a + j < 18446744073709551616"
    using page_aligned_unat[OF assms(1)] pgno_less[of a] assms(2) by simp
  then show ?thesis
    using assms(2) by (simp add: unat_word_ariths unat_of_nat)
qed

lemma pgno_in_page:
  assumes "page_aligned a" and "j < 4096"
  shows "pgno (a + of_nat j) = pgno a"
proof -
  have "unat (a + of_nat j) = 4096 * pgno a + j"
    using unat_in_page[OF assms] page_aligned_unat[OF assms(1)] by linarith
  then have "pgno (a + of_nat j) = (4096 * pgno a + j) div 4096"
    by (simp only: pgno_def[of "a + of_nat j"])
  then show ?thesis using assms(2) by simp
qed

text \<open>The entry with index \<open>i\<close> of a table of 512 entries that fills the page \<open>a\<close>.\<close>

definition entry_addr :: "u64 \<Rightarrow> u64 \<Rightarrow> u64" where
  "entry_addr a i = a + i * 8"

lemma entry_addr_of_nat:
  "unat i < 512 \<Longrightarrow> entry_addr a i = a + of_nat (unat i * 8)"
  by (simp add: entry_addr_def)

lemma pgno_entry:
  assumes "page_aligned a" and "unat i < 512" and "k < 8"
  shows "pgno (entry_addr a i + of_nat k) = pgno a"
proof -
  have "entry_addr a i + of_nat k = a + of_nat (unat i * 8 + k)"
    using assms(2) by (simp add: entry_addr_of_nat add.assoc)
  then show ?thesis
    using pgno_in_page[OF assms(1), of "unat i * 8 + k"] assms(2,3) by presburger
qed

text \<open>A store into a table changes no byte of another page, and no other entry.\<close>

lemma st64_entry_other_page:
  assumes "page_aligned a" and "unat i < 512" and "pgno x \<noteq> pgno a"
  shows "st64 m (entry_addr a i) v x = m x"
proof (rule st64_out, rule ccontr)
  assume "\<not> 8 \<le> unat (x - entry_addr a i)"
  then obtain k where "k < 8" "x = entry_addr a i + of_nat k"
    using word_offset_cases[of x "entry_addr a i"] by (meson not_le)
  then show False
    using pgno_entry[OF assms(1,2), of k] assms(3) by simp
qed

lemma ld64_entry_other_page:
  assumes "page_aligned a" and "page_aligned b" and "pgno a \<noteq> pgno b"
    and "unat i < 512" and "unat j < 512"
  shows "ld64 (st64 m (entry_addr a i) v) (entry_addr b j) = ld64 m (entry_addr b j)"
  by (rule ld64_cong, rule st64_entry_other_page)
    (use assms pgno_entry[of b j] in auto)

lemma ld64_entry_same_page:
  assumes "page_aligned a" and "unat i < 512" and "unat j < 512" and "i \<noteq> j"
  shows "ld64 (st64 m (entry_addr a i) v) (entry_addr a j) = ld64 m (entry_addr a j)"
proof -
  have ui: "unat (entry_addr a i) = unat a + unat i * 8"
    and uj: "unat (entry_addr a j) = unat a + unat j * 8"
    using assms(1-3) unat_in_page[of a "unat i * 8"] unat_in_page[of a "unat j * 8"]
    by (simp_all add: entry_addr_of_nat)
  have ne: "unat i \<noteq> unat j" using assms(4) by (simp add: word_unat_eq_iff)
  show ?thesis
  proof (rule ld64_st64_apart)
    show "8 \<le> unat (entry_addr a j - entry_addr a i)"
      and "8 \<le> unat (entry_addr a i - entry_addr a j)"
      using ui uj ne assms(2,3) by (auto simp: unat_sub_if')
  qed
qed

lemma ld64_same_page_bytes:
  assumes "page_aligned a" and "unat i < 512"
    and "\<And>x. pgno x = pgno a \<Longrightarrow> m x = m' x"
  shows "ld64 m (entry_addr a i) = ld64 m' (entry_addr a i)"
  by (rule ld64_cong) (use assms pgno_entry in auto)

end
