(* ===== verification/QMem.thy ===== *)
theory QMem
  imports NrMemory
begin

text \<open>
  The memory routines of \<open>qol/qmem.c\<close> (the same file in \<open>narnify\<close> and \<open>nearmonia\<close>):
  byte loops over the machine memory. Each returns the pointer the C function returns,
  with the memory it leaves. Overlap is not assumed away: a copy loop reads the bytes its
  own earlier iterations wrote.
\<close>

section \<open>Definitions\<close>

text \<open>One iteration of a copy loop, \<open>pdest[i] = psrc[i]\<close>, and of the fill loop.\<close>

definition copy_byte :: "u64 \<Rightarrow> u64 \<Rightarrow> u64 \<Rightarrow> bytes \<Rightarrow> bytes" where
  "copy_byte dest src i m = m(dest + i := m (src + i))"

definition fill_byte :: "u64 \<Rightarrow> u8 \<Rightarrow> u64 \<Rightarrow> bytes \<Rightarrow> bytes" where
  "fill_byte s c i m = m(s + i := c)"

lemma copy_byte_apply:
  "copy_byte dest src i m x = (if x = dest + i then m (src + i) else m x)"
  by (simp add: copy_byte_def)

lemma fill_byte_apply: "fill_byte s c i m x = (if x = s + i then c else m x)"
  by (simp add: fill_byte_def)

definition memcpy :: "u64 \<Rightarrow> u64 \<Rightarrow> u64 \<Rightarrow> bytes \<Rightarrow> u64 \<times> bytes" where
  "memcpy dest src n m = (dest, for_upto (unat n) (copy_byte dest src) m)"

definition memset :: "u64 \<Rightarrow> u32 \<Rightarrow> u64 \<Rightarrow> bytes \<Rightarrow> u64 \<times> bytes" where
  "memset s c n m = (s, for_upto (unat n) (fill_byte s (ucast c)) m)"

definition memmove :: "u64 \<Rightarrow> u64 \<Rightarrow> u64 \<Rightarrow> bytes \<Rightarrow> u64 \<times> bytes" where
  "memmove dest src n m =
     (if dest < src then (dest, for_upto (unat n) (copy_byte dest src) m)
      else if src < dest then (dest, for_downto (unat n) (copy_byte dest src) m)
      else (dest, m))"

definition memcmp :: "u64 \<Rightarrow> u64 \<Rightarrow> u64 \<Rightarrow> bytes \<Rightarrow> int" where
  "memcmp s1 s2 n m =
     (case for_find (unat n) (\<lambda>i. m (s1 + i) \<noteq> m (s2 + i)) of
        None \<Rightarrow> 0
      | Some i \<Rightarrow> if m (s1 + i) < m (s2 + i) then -1 else 1)"

section \<open>Filling\<close>

lemma offset_eq_iff: "x = (a :: u64) + b \<longleftrightarrow> x - a = b"
  by (auto simp: algebra_simps)

lemma unat_less_Suc_cases:
  assumes "n < 18446744073709551616"
  shows "unat (y :: u64) < Suc n \<longleftrightarrow> unat y < n \<or> y = of_nat n"
  using assms by (auto simp: less_Suc_eq unat_of_nat_u64)

lemma fill_loop:
  "k < 18446744073709551616 \<Longrightarrow>
   for_upto k (fill_byte s b) m x = (if unat (x - s) < k then b else m x)"
  by (induction k) (auto simp: fill_byte_apply unat_less_Suc_cases offset_eq_iff)

lemma memset_apply:
  "snd (memset s c n m) x = (if unat (x - s) < unat n then ucast c else m x)"
  by (simp add: memset_def fill_loop unat_lt_2p64)

lemma memset_fst [simp]: "fst (memset s c n m) = s"
  by (simp add: memset_def)

section \<open>Copying\<close>

text \<open>A forward copy is right as long as no iteration reads a byte written before it.\<close>

lemma copy_up_loop:
  assumes "k < 18446744073709551616"
    and "\<And>i j. i < k \<Longrightarrow> j < i \<Longrightarrow> src + of_nat i \<noteq> dest + of_nat j"
  shows "for_upto k (copy_byte dest src) m x =
           (if unat (x - dest) < k then m (src + (x - dest)) else m x)"
  using assms
proof (induction k arbitrary: x)
  case 0
  then show ?case by simp
next
  case (Suc k)
  let ?m = "for_upto k (copy_byte dest src) m"
  have IH: "?m y = (if unat (y - dest) < k then m (src + (y - dest)) else m y)" for y
    by (rule Suc.IH) (use Suc.prems in auto)
  have "\<not> unat (src + of_nat k - dest) < k"
  proof
    assume "unat (src + of_nat k - dest) < k"
    then show False
      using Suc.prems(2)[of k "unat (src + of_nat k - dest)"] by simp
  qed
  then have read: "?m (src + of_nat k) = m (src + of_nat k)"
    by (simp only: IH if_False)
  have "for_upto (Suc k) (copy_byte dest src) m x =
      (if x = dest + of_nat k then m (src + of_nat k)
       else if unat (x - dest) < k then m (src + (x - dest)) else m x)"
    by (simp only: for_upto_Suc copy_byte_apply IH [of x] read)
  then show ?case
    using Suc.prems(1) by (auto simp: unat_less_Suc_cases offset_eq_iff)
qed

lemma copy_down_loop:
  assumes "k \<le> n" and "n < 18446744073709551616"
    and "\<And>i j. j < n \<Longrightarrow> i < j \<Longrightarrow> src + of_nat i \<noteq> dest + of_nat j"
    and "\<And>y. t y = (if k \<le> unat (y - dest) \<and> unat (y - dest) < n then m (src + (y - dest)) else m y)"
  shows "for_downto k (copy_byte dest src) t x =
           (if unat (x - dest) < n then m (src + (x - dest)) else m x)"
  using assms(1,4)
proof (induction k arbitrary: t)
  case 0
  then show ?case by simp
next
  case (Suc k)
  let ?t = "copy_byte dest src (of_nat k) t"
  have notin: "\<not> (Suc k \<le> unat (src + of_nat k - dest) \<and> unat (src + of_nat k - dest) < n)"
  proof
    assume a: "Suc k \<le> unat (src + of_nat k - dest) \<and> unat (src + of_nat k - dest) < n"
    then show False
      using assms(3)[of "unat (src + of_nat k - dest)" k] by simp
  qed
  have read: "t (src + of_nat k) = m (src + of_nat k)"
    by (simp only: Suc.prems(2) notin if_False)
  have "?t y = (if k \<le> unat (y - dest) \<and> unat (y - dest) < n then m (src + (y - dest)) else m y)" for y
  proof (cases "y = dest + of_nat k")
    case True
    then show ?thesis
      using Suc.prems(1) assms(2) by (simp add: copy_byte_apply read unat_of_nat_u64)
  next
    case False
    then have "unat (y - dest) \<noteq> k"
      using word_offset_cases[of y dest] by auto
    then show ?thesis
      using False by (auto simp: copy_byte_apply Suc.prems(2))
  qed
  with Suc.prems(1) have "for_downto k (copy_byte dest src) ?t x =
      (if unat (x - dest) < n then m (src + (x - dest)) else m x)"
    by (intro Suc.IH) simp_all
  then show ?case by (simp only: for_downto_Suc)
qed

lemma word_add_of_nat_ne:
  assumes "unat a + i < unat b + j" and "unat b + j < 18446744073709551616"
  shows "(a :: u64) + of_nat i \<noteq> b + of_nat j"
proof -
  have "unat (a + of_nat i) = unat a + i" "unat (b + of_nat j) = unat b + j"
    using assms by (simp_all add: unat_word_ariths unat_of_nat)
  then show ?thesis using assms(1) by auto
qed

lemma memcpy_apply:
  assumes "unat n \<le> unat (src - dest)" and "unat n \<le> unat (dest - src)"
  shows "snd (memcpy dest src n m) x =
           (if unat (x - dest) < unat n then m (src + (x - dest)) else m x)"
proof -
  have "src + of_nat i \<noteq> dest + of_nat j" if "i < unat n" "j < i" for i j
  proof
    assume "src + of_nat i = dest + of_nat j"
    then have "dest - src = of_nat (i - j)"
      using that by (simp add: of_nat_diff algebra_simps)
    moreover have "unat (of_nat (i - j) :: u64) = i - j"
      using that unat_lt_2p64[of n] by (intro unat_of_nat_u64) linarith
    ultimately show False using that assms(2) by simp
  qed
  then show ?thesis
    by (simp add: memcpy_def copy_up_loop unat_lt_2p64)
qed

lemma memmove_apply:
  assumes "unat src + unat n \<le> 18446744073709551616" and "unat dest + unat n \<le> 18446744073709551616"
  shows "snd (memmove dest src n m) x =
           (if unat (x - dest) < unat n then m (src + (x - dest)) else m x)"
proof -
  consider "dest < src" | "src < dest" | "src = dest" by force
  then show ?thesis
  proof cases
    case 1
    then have "src + of_nat i \<noteq> dest + of_nat j" if "i < unat n" "j < i" for i j
      using that assms word_add_of_nat_ne[of dest j src i]
      by (force simp: word_less_nat_alt)
    with 1 show ?thesis by (simp add: memmove_def copy_up_loop unat_lt_2p64)
  next
    case 2
    then have "src + of_nat i \<noteq> dest + of_nat j" if "j < unat n" "i < j" for i j
      using that assms word_add_of_nat_ne[of src i dest j]
      by (simp add: word_less_nat_alt)
    then have "for_downto (unat n) (copy_byte dest src) m x =
        (if unat (x - dest) < unat n then m (src + (x - dest)) else m x)"
      by (intro copy_down_loop) (auto simp: unat_lt_2p64)
    moreover from 2 have "\<not> dest < src" by simp
    ultimately show ?thesis
      using 2 by (simp only: memmove_def if_False if_True snd_conv)
  next
    case 3
    then show ?thesis by (simp add: memmove_def)
  qed
qed

section \<open>Comparing\<close>

lemma memcmp_zero_iff:
  "memcmp s1 s2 n m = 0 \<longleftrightarrow> (\<forall>i < unat n. m (s1 + of_nat i) = m (s2 + of_nat i))"
  by (auto simp: memcmp_def for_find_None split: option.split elim!: for_find_Some)

lemma memcmp_first_difference:
  assumes "i < unat n" and "m (s1 + of_nat i) \<noteq> m (s2 + of_nat i)"
    and "\<And>j. j < i \<Longrightarrow> m (s1 + of_nat j) = m (s2 + of_nat j)"
  shows "memcmp s1 s2 n m = (if m (s1 + of_nat i) < m (s2 + of_nat i) then -1 else 1)"
  using for_find_least[of i "unat n" "\<lambda>i. m (s1 + i) \<noteq> m (s2 + i)"] assms
  by (simp add: memcmp_def)

end
