(* ===== verification/QMemProps.thy ===== *)
theory QMemProps
  imports QMem
begin

text \<open>
  The properties of the memory routines: what \<open>memmove\<close>, \<open>memcpy\<close> and \<open>memset\<close> leave in memory, and
  what \<open>memcmp\<close> compares.
\<close>

text \<open>
  C17: \<open>memmove\<close> copies the source bytes as they were before the call, whether or not the ranges overlap, changes
  nothing else and returns the destination, for ranges that do not wrap around.
\<close>

theorem memmove_correct:
  assumes "unat src + unat n \<le> 18446744073709551616" and "unat dest + unat n \<le> 18446744073709551616"
  shows "fst (memmove dest src n m) = dest \<and>
    (\<forall>x. snd (memmove dest src n m) x =
       (if unat (x - dest) < unat n then m (src + (x - dest)) else m x))"
  using memmove_apply[OF assms] by (simp add: memmove_def)

lemma memmove_correct_witness:
  "snd (memmove 0x101 0x100 3 (\<lambda>x. ucast x)) 0x103 = 2"
  using memmove_correct[of "0x100" 3 "0x101" "\<lambda>x. ucast x"] by simp

text \<open>
  \<open>memcpy\<close> copies the source range when the ranges do not overlap, and \<open>memset\<close> fills exactly its range with
  the low byte of its argument.
\<close>

theorem memcpy_memset_correct:
  assumes "unat n \<le> unat (src - dest)" and "unat n \<le> unat (dest - src)"
  shows "fst (memcpy dest src n m) = dest \<and>
    (\<forall>x. snd (memcpy dest src n m) x = (if unat (x - dest) < unat n then m (src + (x - dest)) else m x)) \<and>
    fst (memset dest c n m) = dest \<and>
    (\<forall>x. snd (memset dest c n m) x = (if unat (x - dest) < unat n then ucast c else m x))"
  using memcpy_apply[OF assms] by (simp add: memcpy_def memset_apply)

lemma memcpy_memset_correct_witness:
  "snd (memcpy 0x200 0x100 4 (\<lambda>x. ucast x)) 0x203 = 3 \<and> snd (memset 0x200 0x1FF 4 (\<lambda>_. 0)) 0x203 = 0xFF"
  using memcpy_memset_correct[of 4 "0x100" "0x200" "\<lambda>x. ucast x" 0]
    memcpy_memset_correct[of 4 "0x100" "0x200" "\<lambda>_. 0" "0x1FF"] by simp

text \<open>
  \<open>memcmp\<close> is 0 exactly for equal ranges, and otherwise its sign orders the ranges by their first differing
  byte, so that exchanging the ranges negates it.
\<close>

theorem memcmp_correct:
  "(memcmp s1 s2 n m = 0 \<longleftrightarrow> (\<forall>i < unat n. m (s1 + of_nat i) = m (s2 + of_nat i))) \<and>
   (memcmp s1 s2 n m < 0 \<longleftrightarrow> (\<exists>i < unat n. m (s1 + of_nat i) < m (s2 + of_nat i) \<and>
      (\<forall>j < i. m (s1 + of_nat j) = m (s2 + of_nat j)))) \<and>
   memcmp s2 s1 n m = - memcmp s1 s2 n m"
proof (cases "\<forall>i < unat n. m (s1 + of_nat i) = m (s2 + of_nat i)")
  case True
  then have z: "memcmp s1 s2 n m = 0" "memcmp s2 s1 n m = 0" by (simp_all add: memcmp_zero_iff)
  show ?thesis using True by (auto simp: z)
next
  case False
  define P where "P i \<longleftrightarrow> i < unat n \<and> m (s1 + of_nat i) \<noteq> m (s2 + of_nat i)" for i
  define i where "i = (LEAST i. P i)"
  have "\<exists>i. P i" using False by (auto simp: P_def)
  then have i: "P i" unfolding i_def by (rule LeastI_ex)
  have before: "m (s1 + of_nat j) = m (s2 + of_nat j)" if "j < i" for j
  proof -
    have "\<not> P j" using not_less_Least[of j P] that unfolding i_def .
    then show ?thesis using that i by (simp add: P_def)
  qed
  have r: "memcmp s1 s2 n m = (if m (s1 + of_nat i) < m (s2 + of_nat i) then -1 else 1)"
    "memcmp s2 s1 n m = (if m (s2 + of_nat i) < m (s1 + of_nat i) then -1 else 1)"
    using memcmp_first_difference[of i n m s1 s2] memcmp_first_difference[of i n m s2 s1] i before
    by (auto simp: P_def)
  have uniq: "k = i" if "k < unat n" "m (s1 + of_nat k) < m (s2 + of_nat k)"
      "\<forall>j < k. m (s1 + of_nat j) = m (s2 + of_nat j)" for k
    using that before i unfolding P_def by (metis linorder_neqE_nat order_less_irrefl)
  have "memcmp s1 s2 n m < 0 \<longleftrightarrow> m (s1 + of_nat i) < m (s2 + of_nat i)" by (simp add: r)
  then have neg: "memcmp s1 s2 n m < 0 \<longleftrightarrow> (\<exists>i < unat n. m (s1 + of_nat i) < m (s2 + of_nat i) \<and>
      (\<forall>j < i. m (s1 + of_nat j) = m (s2 + of_nat j)))"
    using uniq before i unfolding P_def by metis
  have "memcmp s2 s1 n m = - memcmp s1 s2 n m"
    using i by (simp add: r P_def) (metis linorder_neqE order_less_asym)
  with neg show ?thesis by (simp add: memcmp_zero_iff)
qed

lemma memcmp_correct_witness:
  "memcmp 0x100 0x200 1 (\<lambda>x. if x = 0x100 then 1 else 2) < 0"
  using memcmp_correct[of "0x100" "0x200" 1 "\<lambda>x. if x = 0x100 then 1 else 2"]
  by (auto intro!: exI[of _ 0])

end
