(* ===== verification/NrBoot.thy ===== *)
theory NrBoot
  imports NrPrelude
begin

text \<open>
  The boot information \<open>bootinfo.h\<close> that the loader \<open>nearmonia\<close> hands to the kernel
  \<open>narnify\<close>. The array \<open>memEntries\<close> is a list; \<open>amountOfEntries\<close> is kept as the
  field the loops of the code are bounded by.
\<close>

datatype BootMemoryEntryTypes = BOOT_MEM_TYPE_FREE | BOOT_MEM_TYPE_USED | BOOT_MEM_TYPE_ACPI

record BootMemoryMapEntry =
  me_base :: u64
  me_size :: u64
  me_type :: BootMemoryEntryTypes

record BootMemoryMap =
  memEntries :: "BootMemoryMapEntry list"
  amountOfEntries :: u64
  sizeOfEntireMemory :: u64
  mapKey :: u64

record BootGraphicsData =
  bg_init :: bool
  bg_framebufferBase :: u64
  bg_framebufferSize :: u64
  bg_width :: u32
  bg_height :: u32
  bg_pixelsPerScanLine :: u32

record BootInfo =
  graphicsData :: BootGraphicsData
  memMap :: BootMemoryMap
  hhdmOffset :: u64
  kernelLocVirt :: u64
  kernelLocPhys :: u64
  kernelSizeInPages :: u64
  typeOfBoot :: u64
  rsdp :: u64

text \<open>The entries a loop \<open>for(i = 0; i < amountOfEntries; i++)\<close> visits.\<close>

definition map_entries :: "BootMemoryMap \<Rightarrow> BootMemoryMapEntry list" where
  "map_entries mm = take (unat (amountOfEntries mm)) (memEntries mm)"

end
