(* ===== verification/PageInterface.thy ===== *)
theory PageInterface
  imports NrPrelude
begin

text \<open>
  The contract of \<open>pmm.h\<close> for single pages, as both physical memory managers provide it
  (\<open>pmms/bitmap.c\<close> and \<open>pmms/pagemap.c\<close>): which pages an allocator manages, which of
  them are in use, and what \<open>MmAllocateSinglePage\<close> and \<open>MmFreeSinglePage\<close> do to them.
\<close>

text \<open>Repeated allocation: up to \<open>n\<close> pages, stopping at the first \<open>NULL\<close>.\<close>

fun alloc_many :: "('s \<Rightarrow> u64 \<times> 's) \<Rightarrow> nat \<Rightarrow> 's \<Rightarrow> u64 list \<times> 's" where
  "alloc_many alloc 0 s = ([], s)"
| "alloc_many alloc (Suc n) s =
     (let (a, s1) = alloc s
      in if a = NULL then ([], s1)
         else let (as, s2) = alloc_many alloc n s1 in (a # as, s2))"

locale page_allocator =
  fixes alloc :: "'s \<Rightarrow> u64 \<times> 's"
    and free :: "u64 \<Rightarrow> 's \<Rightarrow> NearStatus \<times> 's"
    and managed :: "'s \<Rightarrow> u64 set"
    and inuse :: "'s \<Rightarrow> u64 set"
    and inv :: "'s \<Rightarrow> bool"
  assumes null_unmanaged: "inv s \<Longrightarrow> NULL \<notin> managed s"
    and alloc_null: "inv s \<Longrightarrow> alloc s = (NULL, s') \<Longrightarrow> s' = s \<and> managed s \<subseteq> inuse s"
    and alloc_page: "inv s \<Longrightarrow> alloc s = (a, s') \<Longrightarrow> a \<noteq> NULL \<Longrightarrow>
      a \<in> managed s \<and> a \<notin> inuse s \<and> inuse s' = insert a (inuse s) \<and>
      managed s' = managed s \<and> inv s'"
    and free_page: "inv s \<Longrightarrow> a \<in> managed s \<Longrightarrow> free a s = (st, s') \<Longrightarrow>
      st = STATUS_SUCCESS \<and> inuse s' = inuse s - {a} \<and> managed s' = managed s \<and> inv s'"
begin

lemma alloc_null_iff:
  assumes "inv s"
  shows "fst (alloc s) = NULL \<longleftrightarrow> managed s \<subseteq> inuse s"
proof (cases "alloc s")
  case (Pair a s')
  show ?thesis
  proof (cases "a = NULL")
    case True
    then show ?thesis using alloc_null[OF assms] Pair by simp
  next
    case False
    then show ?thesis using alloc_page[OF assms Pair] Pair by auto
  qed
qed

lemma alloc_then_free:
  assumes "inv s" and "alloc s = (a, s1)" and "a \<noteq> NULL"
  shows "fst (free a s1) = STATUS_SUCCESS \<and> inuse (snd (free a s1)) = inuse s"
proof -
  from alloc_page[OF assms] have 1: "inv s1" "a \<in> managed s1" "a \<notin> inuse s"
      "inuse s1 = insert a (inuse s)" by auto
  show ?thesis
    using free_page[OF 1(1,2), of "fst (free a s1)" "snd (free a s1)"] 1(3,4) by auto
qed

lemma free_then_alloc:
  assumes "inv s" and "a \<in> managed s"
  shows "fst (alloc (snd (free a s))) \<noteq> NULL"
proof -
  have "inv (snd (free a s))" "a \<in> managed (snd (free a s))" "a \<notin> inuse (snd (free a s))"
    using free_page[OF assms, of "fst (free a s)" "snd (free a s)"] assms(2) by auto
  then show ?thesis using alloc_null_iff by blast
qed

lemma alloc_many_inv:
  assumes "inv s" and "alloc_many alloc n s = (as, s')"
  shows "inv s' \<and> managed s' = managed s \<and> inuse s' = inuse s \<union> set as \<and>
    distinct as \<and> set as \<subseteq> managed s - inuse s"
  using assms
proof (induction n arbitrary: s as s')
  case 0
  then show ?case by simp
next
  case (Suc n)
  obtain a s1 where a: "alloc s = (a, s1)" by fastforce
  show ?case
  proof (cases "a = NULL")
    case True
    with a Suc.prems alloc_null[of s s1] show ?thesis by simp
  next
    case False
    obtain bs s2 where r: "alloc_many alloc n s1 = (bs, s2)" by fastforce
    from alloc_page[OF Suc.prems(1) a False] have 1: "inv s1" "a \<in> managed s" "a \<notin> inuse s"
        "inuse s1 = insert a (inuse s)" "managed s1 = managed s" by auto
    from Suc.IH[OF 1(1) r] Suc.prems(2) a r False 1 show ?thesis by auto
  qed
qed

lemma alloc_many_length:
  assumes "inv s" and "alloc_many alloc n s = (as, s')" and "length as < n"
  shows "managed s \<subseteq> inuse s'"
  using assms
proof (induction n arbitrary: s as s')
  case 0
  then show ?case by simp
next
  case (Suc n)
  obtain a s1 where a: "alloc s = (a, s1)" by fastforce
  show ?case
  proof (cases "a = NULL")
    case True
    with a Suc.prems alloc_null[of s s1] show ?thesis by simp
  next
    case False
    obtain bs s2 where r: "alloc_many alloc n s1 = (bs, s2)" by fastforce
    from alloc_page[OF Suc.prems(1) a False] have 1: "inv s1" "managed s1 = managed s" by auto
    from Suc.IH[OF 1(1) r] Suc.prems(2,3) a r False 1 show ?thesis by auto
  qed
qed

end

end
