(* ===== verification/PmmBitmap.thy ===== *)
theory PmmBitmap
  imports QMem NrBoot PageInterface
begin

text \<open>
  The bitmap physical memory manager \<open>mm/amd64pc/pmms/bitmap.c\<close>. The bitmap is not a
  separate array: it is the bytes of machine memory that start at the pointer
  \<open>bitmap\<close>, so that it can be overwritten like any other memory. The file's static
  variables and the memory are the record \<open>pmm\<close>.
\<close>

section \<open>State and bit access\<close>

record pmm =
  pageCount :: u64
  usablePageCount :: u64
  bitmapSize :: u64
  bitmap :: u64
  pageUsed :: u64
  pm_mem :: bytes

definition SET_BITMAP :: "u64 \<Rightarrow> pmm \<Rightarrow> pmm" where
  "SET_BITMAP b s = s\<lparr>pm_mem := (pm_mem s)(bitmap s + b div 8 :=
     pm_mem s (bitmap s + b div 8) OR push_bit (unat (b mod 8)) 1)\<rparr>"

definition CLEAR_BITMAP :: "u64 \<Rightarrow> pmm \<Rightarrow> pmm" where
  "CLEAR_BITMAP b s = s\<lparr>pm_mem := (pm_mem s)(bitmap s + b div 8 :=
     pm_mem s (bitmap s + b div 8) AND NOT (push_bit (unat (b mod 8)) 1))\<rparr>"

text \<open>The macro \<open>GET_BIT_IN_BITMAP\<close> is an \<open>int\<close> expression: it yields the masked byte,
  not 0 or 1.\<close>

definition GET_BIT_IN_BITMAP :: "u64 \<Rightarrow> pmm \<Rightarrow> u32" where
  "GET_BIT_IN_BITMAP b s = ucast (pm_mem s (bitmap s + b div 8)) AND push_bit (unat (b mod 8)) 1"

text \<open>\<open>SET\<close> and \<open>CLEAR\<close> are \<open>TRUE\<close> and \<open>FALSE\<close>, that is 1 and 0.\<close>

definition BIT_SET :: u32 where
  "BIT_SET = 1"

definition BIT_CLEAR :: u32 where
  "BIT_CLEAR = 0"

definition INCREMENT_PAGE_USAGE :: "pmm \<Rightarrow> pmm" where
  "INCREMENT_PAGE_USAGE s = (if pageUsed s < pageCount s then s\<lparr>pageUsed := pageUsed s + 1\<rparr> else s)"

definition DECREMENT_PAGE_USAGE :: "pmm \<Rightarrow> pmm" where
  "DECREMENT_PAGE_USAGE s = (if 0 < pageUsed s then s\<lparr>pageUsed := pageUsed s - 1\<rparr> else s)"

definition GetPageLocationFromAddress :: "u64 \<Rightarrow> u64" where
  "GetPageLocationFromAddress address = address div PAGE_SIZE"

definition GetAddressFromPageLocation :: "u64 \<Rightarrow> u64" where
  "GetAddressFromPageLocation pageLocation = pageLocation * PAGE_SIZE"

definition MarkBitInBitmapFromAddress :: "u64 \<Rightarrow> bool \<Rightarrow> pmm \<Rightarrow> pmm" where
  "MarkBitInBitmapFromAddress address setOrClear s =
     (let page = GetPageLocationFromAddress address
      in if setOrClear then SET_BITMAP page s else CLEAR_BITMAP page s)"

definition GetBit :: "u64 \<Rightarrow> pmm \<Rightarrow> bool" where
  "GetBit address s \<longleftrightarrow> GET_BIT_IN_BITMAP (GetPageLocationFromAddress address) s \<noteq> 0"

section \<open>Initialisation\<close>

text \<open>The first loop of \<open>MmInitPhysicalMemoryManager\<close>: count the pages of every entry.\<close>

definition count_entry :: "BootMemoryMapEntry \<Rightarrow> pmm \<Rightarrow> pmm" where
  "count_entry e s =
     (let isUseable = (me_type e = BOOT_MEM_TYPE_FREE);
          sizeInPages = IN_PAGES (me_size e)
      in for_upto (unat sizeInPages)
           (\<lambda>j s. let s1 = s\<lparr>pageCount := pageCount s + 1\<rparr>
                  in if isUseable then s1\<lparr>usablePageCount := usablePageCount s1 + 1\<rparr> else s1) s)"

text \<open>The second loop: the bitmap goes to the base of the first entry that is large
  enough, whatever the entry's type.\<close>

definition place_bitmap :: "BootMemoryMap \<Rightarrow> pmm \<Rightarrow> pmm" where
  "place_bitmap mm s =
     (case find (\<lambda>e. bitmapSize s \<le> me_size e) (map_entries mm) of
        None \<Rightarrow> s
      | Some e \<Rightarrow> s\<lparr>bitmap := me_base e\<rparr>)"

definition mark_entry :: "bool \<Rightarrow> BootMemoryMapEntry \<Rightarrow> pmm \<Rightarrow> pmm" where
  "mark_entry setOrClear e s =
     for_upto (unat (IN_PAGES (me_size e)))
       (\<lambda>j. MarkBitInBitmapFromAddress (me_base e + j * PAGE_SIZE) setOrClear) s"

definition MmInitPhysicalMemoryManager :: "BootMemoryMap \<Rightarrow> pmm \<Rightarrow> NearStatus \<times> pmm" where
  "MmInitPhysicalMemoryManager mm s =
     (let s1 = fold count_entry (map_entries mm) s;
          s2 = s1\<lparr>bitmapSize := pageCount s1 div 8\<rparr>
      in if bitmapSize s2 = 0 then (STATUS_NO_VALID_MEMORY, s2)
         else let bitmapSizeInPages = IN_PAGES (bitmapSize s2);
                  s3 = place_bitmap mm s2;
                  s4 = s3\<lparr>pm_mem := snd (memset (bitmap s3) 0xFF (bitmapSize s3) (pm_mem s3))\<rparr>;
                  s5 = fold (\<lambda>e s. if me_type e \<noteq> BOOT_MEM_TYPE_FREE then s
                                   else mark_entry False e s) (map_entries mm) s4;
                  s6 = fold (\<lambda>e s. if me_type e = BOOT_MEM_TYPE_FREE then s
                                   else mark_entry True e s) (map_entries mm) s5;
                  s7 = for_upto (unat bitmapSizeInPages)
                         (\<lambda>i s. MarkBitInBitmapFromAddress (bitmap s + i * PAGE_SIZE) True s) s6
              in (STATUS_SUCCESS, s7))"

section \<open>Allocation\<close>

definition MmAllocateSinglePage :: "pmm \<Rightarrow> u64 \<times> pmm" where
  "MmAllocateSinglePage s =
     (case for_find (unat (pageCount s))
             (\<lambda>i. GET_BIT_IN_BITMAP i s = BIT_CLEAR \<and> GetAddressFromPageLocation i \<noteq> 0) of
        None \<Rightarrow> (NULL, s)
      | Some i \<Rightarrow> (GetAddressFromPageLocation i, INCREMENT_PAGE_USAGE (SET_BITMAP i s)))"

text \<open>The test of the outer loop of \<open>MmAllocateMultiplePages\<close> at index \<open>i\<close>: the first page
  is clear and not page 0, and no inner iteration finds \<open>GET_BIT_IN_BITMAP(k) == SET\<close>.\<close>

definition range_accepted :: "pmm \<Rightarrow> u64 \<Rightarrow> u64 \<Rightarrow> bool" where
  "range_accepted s amount i \<longleftrightarrow>
     GET_BIT_IN_BITMAP i s = BIT_CLEAR \<and> GetAddressFromPageLocation i \<noteq> 0 \<and>
     for_find (unat amount) (\<lambda>j. GET_BIT_IN_BITMAP (i + j) s = BIT_SET) = None"

text \<open>
  The outer loop \<open>for(i = 0; i <= trueAmount; i++)\<close>. Its bound \<open>pageCount - amount\<close> is an
  unsigned difference: if it is \<open>2 ^ 64 - 1\<close> the guard never fails, which is why the loop
  is a partial function.
\<close>

partial_function (option) scan_ranges :: "pmm \<Rightarrow> u64 \<Rightarrow> u64 \<Rightarrow> u64 \<Rightarrow> u64 option option" where
  "scan_ranges s amount trueAmount i =
     (if i \<le> trueAmount
      then if range_accepted s amount i then Some (Some i)
           else scan_ranges s amount trueAmount (i + 1)
      else Some None)"

definition MmAllocateMultiplePages :: "u64 \<Rightarrow> pmm \<Rightarrow> (u64 \<times> pmm) option" where
  "MmAllocateMultiplePages amount s =
     (let trueAmount = pageCount s - amount
      in case scan_ranges s amount trueAmount 0 of
           None \<Rightarrow> None
         | Some None \<Rightarrow> Some (NULL, s)
         | Some (Some i) \<Rightarrow>
             Some (GetAddressFromPageLocation i,
                   for_upto (unat amount) (\<lambda>j s. INCREMENT_PAGE_USAGE (SET_BITMAP (i + j) s))
                     (SET_BITMAP i s)))"

definition MmFreeSinglePage :: "u64 \<Rightarrow> pmm \<Rightarrow> NearStatus \<times> pmm" where
  "MmFreeSinglePage pageAddress s =
     (STATUS_SUCCESS, DECREMENT_PAGE_USAGE (CLEAR_BITMAP (GetPageLocationFromAddress pageAddress) s))"

definition MmFreeMultiplePages :: "u64 \<Rightarrow> u64 \<Rightarrow> pmm \<Rightarrow> NearStatus \<times> pmm" where
  "MmFreeMultiplePages pageAddress amount s =
     (STATUS_SUCCESS,
      for_upto (unat amount)
        (\<lambda>i s. DECREMENT_PAGE_USAGE (CLEAR_BITMAP (GetPageLocationFromAddress pageAddress + i) s)) s)"

definition MmReturnPageUsed :: "pmm \<Rightarrow> u64" where
  "MmReturnPageUsed s = pageUsed s"

definition MmReturnPageAmount :: "pmm \<Rightarrow> u64" where
  "MmReturnPageAmount s = usablePageCount s"

section \<open>The bitmap as a set of pages\<close>

text \<open>Whether the bit of page \<open>k\<close> is set; the pages in use.\<close>

definition page_bit :: "pmm \<Rightarrow> u64 \<Rightarrow> bool" where
  "page_bit s k = bit (pm_mem s (bitmap s + k div 8)) (unat (k mod 8))"

lemma unat_mod8: "unat ((k :: u64) mod 8) = unat k mod 8"
  by (simp add: unat_mod)

lemma GET_BIT_clear_iff: "GET_BIT_IN_BITMAP k s = BIT_CLEAR \<longleftrightarrow> \<not> page_bit s k"
proof -
  have "unat (k mod 8) < 8" by (simp add: unat_mod8)
  then show ?thesis
    by (simp add: GET_BIT_IN_BITMAP_def BIT_CLEAR_def page_bit_def push_bit_of_1 and_exp_eq_0_iff_not_bit bit_simps)
qed

lemma GET_BIT_set_iff: "GET_BIT_IN_BITMAP k s = BIT_SET \<longleftrightarrow> page_bit s k \<and> unat k mod 8 = 0"
proof -
  let ?n = "unat (k mod 8)"
  have n: "?n < 8" by (simp add: unat_mod8)
  have "GET_BIT_IN_BITMAP k s = (if page_bit s k then 2 ^ ?n else 0)"
    unfolding GET_BIT_IN_BITMAP_def page_bit_def
    using n by (auto simp: push_bit_of_1 intro!: bit_word_eqI simp: bit_simps)
  moreover have "(2 :: u32) ^ ?n = 1 \<longleftrightarrow> ?n = 0"
    using less_8_cases[OF n] by (elim disjE) simp_all
  ultimately show ?thesis by (auto simp: BIT_SET_def unat_mod8)
qed

lemma bitmap_slot_eq:
  fixes j k :: u64
  shows "b + j div 8 = b + k div 8 \<and> unat (j mod 8) = unat (k mod 8) \<longleftrightarrow> j = k"
proof
  assume "b + j div 8 = b + k div 8 \<and> unat (j mod 8) = unat (k mod 8)"
  then have "j div 8 = k div 8" and "j mod 8 = k mod 8"
    by (simp, blast intro: word_unat_eq_iff [THEN iffD2])
  then show "j = k" by (metis div_mult_mod_eq)
qed simp

lemma page_bit_SET [simp]: "page_bit (SET_BITMAP j s) k \<longleftrightarrow> k = j \<or> page_bit s k"
proof (cases "k div 8 = j div 8")
  case True
  have "unat (k mod 8) < 8" "unat (j mod 8) < 8" by (simp_all add: unat_mod8)
  then show ?thesis
    using True bitmap_slot_eq[of 0 j k]
    by (auto simp: page_bit_def SET_BITMAP_def bit_simps)
next
  case False
  then show ?thesis by (auto simp: page_bit_def SET_BITMAP_def)
qed

lemma page_bit_CLEAR [simp]: "page_bit (CLEAR_BITMAP j s) k \<longleftrightarrow> k \<noteq> j \<and> page_bit s k"
proof (cases "k div 8 = j div 8")
  case True
  have "unat (k mod 8) < 8" "unat (j mod 8) < 8" by (simp_all add: unat_mod8)
  then show ?thesis
    using True bitmap_slot_eq[of 0 j k]
    by (auto simp: page_bit_def CLEAR_BITMAP_def bit_simps)
next
  case False
  then show ?thesis by (auto simp: page_bit_def CLEAR_BITMAP_def)
qed

definition used_pages :: "pmm \<Rightarrow> u64 set" where
  "used_pages s = {k. page_bit s k}"

lemma bitmap_fields [simp, frame_simps]:
  "pageCount (SET_BITMAP j s) = pageCount s"
  "usablePageCount (SET_BITMAP j s) = usablePageCount s"
  "bitmapSize (SET_BITMAP j s) = bitmapSize s"
  "bitmap (SET_BITMAP j s) = bitmap s"
  "pageUsed (SET_BITMAP j s) = pageUsed s"
  "pageCount (CLEAR_BITMAP j s) = pageCount s"
  "usablePageCount (CLEAR_BITMAP j s) = usablePageCount s"
  "bitmapSize (CLEAR_BITMAP j s) = bitmapSize s"
  "bitmap (CLEAR_BITMAP j s) = bitmap s"
  "pageUsed (CLEAR_BITMAP j s) = pageUsed s"
  by (simp_all add: SET_BITMAP_def CLEAR_BITMAP_def)

lemma usage_fields [simp, frame_simps]:
  "pageCount (INCREMENT_PAGE_USAGE s) = pageCount s"
  "usablePageCount (INCREMENT_PAGE_USAGE s) = usablePageCount s"
  "bitmapSize (INCREMENT_PAGE_USAGE s) = bitmapSize s"
  "bitmap (INCREMENT_PAGE_USAGE s) = bitmap s"
  "pm_mem (INCREMENT_PAGE_USAGE s) = pm_mem s"
  "pageCount (DECREMENT_PAGE_USAGE s) = pageCount s"
  "usablePageCount (DECREMENT_PAGE_USAGE s) = usablePageCount s"
  "bitmapSize (DECREMENT_PAGE_USAGE s) = bitmapSize s"
  "bitmap (DECREMENT_PAGE_USAGE s) = bitmap s"
  "pm_mem (DECREMENT_PAGE_USAGE s) = pm_mem s"
  by (simp_all add: INCREMENT_PAGE_USAGE_def DECREMENT_PAGE_USAGE_def)

lemma page_bit_usage [simp]:
  "page_bit (INCREMENT_PAGE_USAGE s) = page_bit s"
  "page_bit (DECREMENT_PAGE_USAGE s) = page_bit s"
  by (simp_all add: page_bit_def fun_eq_iff)

lemma SET_BITMAP_mem: "x \<noteq> bitmap s + j div 8 \<Longrightarrow> pm_mem (SET_BITMAP j s) x = pm_mem s x"
  by (simp add: SET_BITMAP_def)

lemma CLEAR_BITMAP_mem: "x \<noteq> bitmap s + j div 8 \<Longrightarrow> pm_mem (CLEAR_BITMAP j s) x = pm_mem s x"
  by (simp add: CLEAR_BITMAP_def)

text \<open>Runs of set and clear over a range of pages.\<close>

definition take_pages :: "u64 \<Rightarrow> nat \<Rightarrow> pmm \<Rightarrow> pmm" where
  "take_pages i n s = for_upto n (\<lambda>j s. INCREMENT_PAGE_USAGE (SET_BITMAP (i + j) s)) s"

definition give_pages :: "u64 \<Rightarrow> nat \<Rightarrow> pmm \<Rightarrow> pmm" where
  "give_pages i n s = for_upto n (\<lambda>j s. DECREMENT_PAGE_USAGE (CLEAR_BITMAP (i + j) s)) s"

lemma take_pages_fields [simp, frame_simps]:
  "pageCount (take_pages i n s) = pageCount s"
  "usablePageCount (take_pages i n s) = usablePageCount s"
  "bitmapSize (take_pages i n s) = bitmapSize s"
  "bitmap (take_pages i n s) = bitmap s"
  by (simp_all add: take_pages_def for_upto_frame)

lemma give_pages_fields [simp, frame_simps]:
  "pageCount (give_pages i n s) = pageCount s"
  "usablePageCount (give_pages i n s) = usablePageCount s"
  "bitmapSize (give_pages i n s) = bitmapSize s"
  "bitmap (give_pages i n s) = bitmap s"
  by (simp_all add: give_pages_def for_upto_frame)

lemma page_bit_take_pages:
  "page_bit (take_pages i n s) k \<longleftrightarrow> (\<exists>j<n. k = i + of_nat j) \<or> page_bit s k"
  unfolding take_pages_def by (induction n) (auto simp: less_Suc_eq)

lemma page_bit_give_pages:
  "page_bit (give_pages i n s) k \<longleftrightarrow> (\<forall>j<n. k \<noteq> i + of_nat j) \<and> page_bit s k"
  unfolding give_pages_def by (induction n) (auto simp: less_Suc_eq)

section \<open>The single-page allocator\<close>

text \<open>Page numbers below \<open>2 ^ 52\<close> have distinct, non-wrapping addresses.\<close>

definition pmm_wf :: "pmm \<Rightarrow> bool" where
  "pmm_wf s \<longleftrightarrow> pageCount s \<le> 0x10000000000000"

lemma unat_page_address:
  "unat i < 4503599627370496 \<Longrightarrow> unat (GetAddressFromPageLocation i) = 4096 * unat i"
  by (simp add: GetAddressFromPageLocation_def PAGE_SIZE_def unat_mult_no_wrap)

lemma page_address_props:
  assumes "unat i < 4503599627370496"
  shows "page_aligned (GetAddressFromPageLocation i)"
    and "pgno (GetAddressFromPageLocation i) = unat i"
    and "GetPageLocationFromAddress (GetAddressFromPageLocation i) = i"
    and "GetAddressFromPageLocation i = 0 \<longleftrightarrow> i = 0"
proof -
  note u = unat_page_address[OF assms]
  show "page_aligned (GetAddressFromPageLocation i)" "pgno (GetAddressFromPageLocation i) = unat i"
    by (simp_all add: page_aligned_def pgno_def u)
  show "GetPageLocationFromAddress (GetAddressFromPageLocation i) = i"
    by (simp add: GetPageLocationFromAddress_def word_unat_eq_iff unat_div u PAGE_SIZE_def)
  show "GetAddressFromPageLocation i = 0 \<longleftrightarrow> i = 0"
    using u by (auto simp: word_unat_eq_iff)
qed

lemma MmAllocateSinglePage_cases:
  assumes "pmm_wf s"
  shows "(MmAllocateSinglePage s = (NULL, s) \<and> (\<forall>i. 0 < i \<and> i < pageCount s \<longrightarrow> page_bit s i)) \<or>
    (\<exists>i. 0 < i \<and> i < pageCount s \<and> \<not> page_bit s i \<and> (\<forall>j. 0 < j \<and> j < i \<longrightarrow> page_bit s j) \<and>
      MmAllocateSinglePage s =
        (GetAddressFromPageLocation i, INCREMENT_PAGE_USAGE (SET_BITMAP i s)))"
proof -
  let ?t = "\<lambda>i. GET_BIT_IN_BITMAP i s = BIT_CLEAR \<and> GetAddressFromPageLocation i \<noteq> 0"
  have small: "unat i < 4503599627370496" if "i < pageCount s" for i
    using assms that by (simp add: pmm_wf_def word_le_nat_alt word_less_nat_alt)
  have test: "?t i \<longleftrightarrow> \<not> page_bit s i \<and> 0 < i" if "i < pageCount s" for i
    using page_address_props(4)[OF small[OF that]]
    by (simp add: GET_BIT_clear_iff word_gt_0)
  show ?thesis
  proof (cases "for_find (unat (pageCount s)) ?t")
    case None
    then have "\<forall>k < unat (pageCount s). \<not> ?t (of_nat k)" by (simp only: for_find_None)
    then have "\<forall>i. 0 < i \<and> i < pageCount s \<longrightarrow> page_bit s i"
      using test by (metis below_iff_of_nat)
    with None show ?thesis by (simp add: MmAllocateSinglePage_def)
  next
    case (Some r)
    then obtain k where k: "k < unat (pageCount s)" "r = of_nat k" "?t r"
        "\<And>j. j < k \<Longrightarrow> \<not> ?t (of_nat j)"
      by (rule for_find_Some) blast
    have r: "r < pageCount s" using k below_iff_of_nat by blast
    have "page_bit s j" if "0 < j" "j < r" for j
    proof -
      have "unat j < k"
        using that(2) k(1,2) unat_of_nat_below[OF k(1)] by (simp add: word_less_nat_alt)
      then have "\<not> ?t j" using k(4)[of "unat j"] by simp
      moreover have "j < pageCount s" using that(2) r by simp
      ultimately show ?thesis using test that(1) by blast
    qed
    then show ?thesis
      using Some r test[OF r] k(3) by (auto simp: MmAllocateSinglePage_def)
  qed
qed

text \<open>The managed pages and those in use, as addresses.\<close>

definition managed_pages :: "pmm \<Rightarrow> u64 set" where
  "managed_pages s = GetAddressFromPageLocation ` {i. 0 < i \<and> i < pageCount s}"

definition inuse_pages :: "pmm \<Rightarrow> u64 set" where
  "inuse_pages s = GetAddressFromPageLocation ` {i. 0 < i \<and> i < pageCount s \<and> page_bit s i}"

lemma page_small: "pmm_wf s \<Longrightarrow> i < pageCount s \<Longrightarrow> unat i < 4503599627370496"
  by (simp add: pmm_wf_def word_le_nat_alt word_less_nat_alt)

lemma page_address_inj:
  assumes "unat i < 4503599627370496" and "unat j < 4503599627370496"
  shows "GetAddressFromPageLocation i = GetAddressFromPageLocation j \<longleftrightarrow> i = j"
  using page_address_props(3)[OF assms(1)] page_address_props(3)[OF assms(2)] by metis

lemma managed_iff:
  assumes "pmm_wf s" and "unat i < 4503599627370496"
  shows "GetAddressFromPageLocation i \<in> managed_pages s \<longleftrightarrow> 0 < i \<and> i < pageCount s"
  using assms page_small page_address_inj by (auto simp: managed_pages_def)

lemma inuse_iff:
  assumes "pmm_wf s" and "unat i < 4503599627370496"
  shows "GetAddressFromPageLocation i \<in> inuse_pages s \<longleftrightarrow> 0 < i \<and> i < pageCount s \<and> page_bit s i"
  using assms page_small page_address_inj by (auto simp: inuse_pages_def)

interpretation bitmap_pmm: page_allocator MmAllocateSinglePage MmFreeSinglePage
  managed_pages inuse_pages pmm_wf
proof unfold_locales
  fix s
  assume wf: "pmm_wf s"
  show "NULL \<notin> managed_pages s"
    using page_small[OF wf] page_address_props(4) by (fastforce simp: managed_pages_def)
next
  fix s s'
  assume wf: "pmm_wf s" and a: "MmAllocateSinglePage s = (NULL, s')"
  from MmAllocateSinglePage_cases[OF wf] a
  have "s' = s" "\<forall>i. 0 < i \<and> i < pageCount s \<longrightarrow> page_bit s i"
    using page_small[OF wf] page_address_props(4) by auto
  then show "s' = s \<and> managed_pages s \<subseteq> inuse_pages s"
    by (auto simp: managed_pages_def inuse_pages_def)
next
  fix s a s'
  assume wf: "pmm_wf s" and a: "MmAllocateSinglePage s = (a, s')" and "a \<noteq> NULL"
  with MmAllocateSinglePage_cases[OF wf] obtain i where i: "0 < i" "i < pageCount s"
      "\<not> page_bit s i" "a = GetAddressFromPageLocation i"
      "s' = INCREMENT_PAGE_USAGE (SET_BITMAP i s)" by auto
  have "inuse_pages s' = insert a (inuse_pages s)"
    using i by (auto simp: inuse_pages_def)
  moreover have "managed_pages s' = managed_pages s" "pmm_wf s'"
    using wf by (simp_all add: i(5) managed_pages_def pmm_wf_def)
  ultimately show "a \<in> managed_pages s \<and> a \<notin> inuse_pages s \<and> inuse_pages s' = insert a (inuse_pages s) \<and>
      managed_pages s' = managed_pages s \<and> pmm_wf s'"
    using i page_small[OF wf i(2)] by (simp add: managed_iff[OF wf] inuse_iff[OF wf])
next
  fix s a st s'
  assume wf: "pmm_wf s" and "a \<in> managed_pages s" and f: "MmFreeSinglePage a s = (st, s')"
  then obtain i where i: "0 < i" "i < pageCount s" "a = GetAddressFromPageLocation i"
    by (auto simp: managed_pages_def)
  have s': "st = STATUS_SUCCESS" "s' = DECREMENT_PAGE_USAGE (CLEAR_BITMAP i s)"
    using f page_address_props(3)[OF page_small[OF wf i(2)]] by (auto simp: MmFreeSinglePage_def i(3))
  have "inuse_pages s' = inuse_pages s - {a}"
  proof (rule set_eqI)
    fix x
    show "x \<in> inuse_pages s' \<longleftrightarrow> x \<in> inuse_pages s - {a}"
      using page_address_inj page_small[OF wf] i(2) by (auto simp: inuse_pages_def s'(2) i(3))
  qed
  moreover have "managed_pages s' = managed_pages s" "pmm_wf s'"
    using wf by (simp_all add: s'(2) managed_pages_def pmm_wf_def)
  ultimately show "st = STATUS_SUCCESS \<and> inuse_pages s' = inuse_pages s - {a} \<and>
      managed_pages s' = managed_pages s \<and> pmm_wf s'"
    using s'(1) by simp
qed

section \<open>The range allocator\<close>

lemma range_accepted_iff:
  assumes "unat i < 4503599627370496"
  shows "range_accepted s amount i \<longleftrightarrow>
    \<not> page_bit s i \<and> 0 < i \<and>
    (\<forall>j < unat amount. \<not> (page_bit s (i + of_nat j) \<and> unat (i + of_nat j) mod 8 = 0))"
  by (simp add: range_accepted_def GET_BIT_clear_iff GET_BIT_set_iff for_find_None
      page_address_props(4)[OF assms] word_gt_0)

text \<open>The scan returns the least accepted index up to its bound, unless the bound is the
  largest word.\<close>

lemma scan_ranges_result:
  assumes "unat t < 18446744073709551615"
  shows "scan_ranges s amount t i =
    Some (if \<exists>k. i \<le> k \<and> k \<le> t \<and> range_accepted s amount k
          then Some (LEAST k. i \<le> k \<and> k \<le> t \<and> range_accepted s amount k) else None)"
proof (induction "unat t + 1 - unat i" arbitrary: i rule: less_induct)
  case less
  show ?case
  proof (cases "i \<le> t")
    case False
    then show ?thesis by (subst scan_ranges.simps) (auto dest: order_trans)
  next
    case True
    show ?thesis
    proof (cases "range_accepted s amount i")
      case acc: True
      have "(LEAST k. i \<le> k \<and> k \<le> t \<and> range_accepted s amount k) = i"
        using True acc by (intro Least_equality) auto
      then show ?thesis using True acc by (subst scan_ranges.simps) auto
    next
      case rej: False
      have up: "unat (i + 1) = unat i + 1"
        using True assms by (simp add: word_le_nat_alt unat_word_ariths)
      have *: "(i + 1 \<le> k \<and> k \<le> t \<and> range_accepted s amount k) \<longleftrightarrow>
               (i \<le> k \<and> k \<le> t \<and> range_accepted s amount k)" for k
        using rej up by (auto simp: word_le_nat_alt Suc_le_eq le_less word_unat_eq_iff [symmetric])
      have "scan_ranges s amount t (i + 1) =
        Some (if \<exists>k. i + 1 \<le> k \<and> k \<le> t \<and> range_accepted s amount k
          then Some (LEAST k. i + 1 \<le> k \<and> k \<le> t \<and> range_accepted s amount k) else None)"
        using True up by (intro less) (simp add: word_le_nat_alt)
      then show ?thesis using True rej by (subst scan_ranges.simps) (simp only: * if_True if_False)
    qed
  qed
qed

definition multi_result :: "u64 \<Rightarrow> pmm \<Rightarrow> u64 \<Rightarrow> pmm" where
  "multi_result amount s i = take_pages i (unat amount) (SET_BITMAP i s)"

lemma MmAllocateMultiplePages_cases:
  assumes wf: "pmm_wf s" and "amount \<le> pageCount s"
  shows "(MmAllocateMultiplePages amount s = Some (NULL, s) \<and>
       (\<forall>i. i \<le> pageCount s - amount \<longrightarrow> \<not> range_accepted s amount i)) \<or>
    (\<exists>i. i \<le> pageCount s - amount \<and> range_accepted s amount i \<and>
       (\<forall>k < i. \<not> range_accepted s amount k) \<and>
       MmAllocateMultiplePages amount s =
         Some (GetAddressFromPageLocation i, multi_result amount s i))"
proof -
  let ?t = "pageCount s - amount"
  let ?P = "\<lambda>k. 0 \<le> k \<and> k \<le> ?t \<and> range_accepted s amount k"
  have "unat ?t < 18446744073709551615"
    using assms by (simp add: unat_sub_le pmm_wf_def word_le_nat_alt)
  note scan = scan_ranges_result[OF this, of s amount 0]
  show ?thesis
  proof (cases "\<exists>k. ?P k")
    case False
    then show ?thesis using scan by (auto simp: MmAllocateMultiplePages_def)
  next
    case True
    define i where "i = (LEAST k. ?P k)"
    have i: "?P i" unfolding i_def using True by (rule LeastI_ex)
    have "\<not> range_accepted s amount k" if "k < i" for k
    proof
      assume "range_accepted s amount k"
      then have "?P k" using that i less_imp_le[OF that] by (auto intro: order_trans)
      then have "i \<le> k" unfolding i_def by (rule Least_le)
      then show False using that by simp
    qed
    moreover have "scan_ranges s amount ?t 0 = Some (Some i)"
      using scan True by (simp add: i_def)
    ultimately show ?thesis
      using i by (auto simp: MmAllocateMultiplePages_def multi_result_def take_pages_def)
  qed
qed

lemma multi_result_fields [simp, frame_simps]:
  "pageCount (multi_result n s i) = pageCount s"
  "usablePageCount (multi_result n s i) = usablePageCount s"
  "bitmapSize (multi_result n s i) = bitmapSize s"
  "bitmap (multi_result n s i) = bitmap s"
  by (simp_all add: multi_result_def)

lemma page_bit_multi_result:
  "page_bit (multi_result amount s i) k \<longleftrightarrow> k = i \<or> unat (k - i) < unat amount \<or> page_bit s k"
  using offset_range_iff[of "unat amount" k i] unat_lt_2p64[of amount]
  by (auto simp: multi_result_def page_bit_take_pages)

text \<open>
  While no page above the first free one is in use, the range scan is a bump allocator:
  it hands out the pages at the frontier and moves the frontier up.
\<close>

definition frontier :: "pmm \<Rightarrow> u64 \<Rightarrow> bool" where
  "frontier s f \<longleftrightarrow> 0 < f \<and> f \<le> pageCount s \<and>
     (\<forall>k. 0 < k \<and> k < f \<longrightarrow> page_bit s k) \<and>
     (\<forall>k. f \<le> k \<and> k < pageCount s \<longrightarrow> \<not> page_bit s k)"

lemma range_end:
  assumes "pmm_wf s" and "amount \<le> pageCount s" and "i \<le> pageCount s - amount" and "j < unat amount"
  shows "unat (i + of_nat j) = unat i + j" and "i + of_nat j < pageCount s"
proof -
  have "unat i + unat amount \<le> unat (pageCount s)"
    using assms(2,3) by (simp add: word_le_nat_alt unat_sub_le)
  then show 1: "unat (i + of_nat j) = unat i + j"
    using assms(4) unat_lt_2p64[of "pageCount s"]
    by (subst unat_add_no_wrap) (simp_all add: unat_of_nat_below)
  show "i + of_nat j < pageCount s"
    using 1 \<open>unat i + unat amount \<le> _\<close> assms(4) by (simp add: word_less_nat_alt)
qed

lemma frontier_range_accepted:
  assumes "pmm_wf s" and "frontier s f" and "amount \<le> pageCount s" and "0 < amount"
    and "i \<le> pageCount s - amount"
  shows "range_accepted s amount i \<longleftrightarrow> f \<le> i"
proof -
  have i: "i < pageCount s"
    using range_end(2)[OF assms(1,3,5), of 0] assms(4) by (simp add: word_less_nat_alt)
  note acc = range_accepted_iff[OF page_small[OF assms(1) i], of s amount]
  show ?thesis
  proof
    assume "range_accepted s amount i"
    then have "\<not> page_bit s i" and "0 < i" by (simp_all add: acc)
    then have "\<not> i < f" using assms(2) unfolding frontier_def by blast
    then show "f \<le> i" by simp
  next
    assume f: "f \<le> i"
    have "\<not> page_bit s (i + of_nat j)" if "j < unat amount" for j
    proof -
      have "f \<le> i + of_nat j"
        using f range_end(1)[OF assms(1,3,5) that] by (simp add: word_le_nat_alt)
      then show ?thesis
        using assms(2) range_end(2)[OF assms(1,3,5) that] by (simp add: frontier_def)
    qed
    moreover have "0 < i" using f assms(2) by (auto simp: frontier_def)
    moreover have "\<not> page_bit s i" using f i assms(2) by (simp add: frontier_def)
    ultimately show "range_accepted s amount i" by (simp add: acc)
  qed
qed

lemma frontier_multi:
  assumes "pmm_wf s" and "frontier s f" and "amount \<le> pageCount s" and "0 < amount"
  shows "MmAllocateMultiplePages amount s =
    (if f \<le> pageCount s - amount
     then Some (GetAddressFromPageLocation f, multi_result amount s f) else Some (NULL, s))"
proof (cases "f \<le> pageCount s - amount")
  case True
  have "range_accepted s amount f"
    using frontier_range_accepted[OF assms True] by simp
  with MmAllocateMultiplePages_cases[OF assms(1,3)] True obtain i where
    i: "i \<le> pageCount s - amount" "range_accepted s amount i" "\<forall>k < i. \<not> range_accepted s amount k"
      "MmAllocateMultiplePages amount s = Some (GetAddressFromPageLocation i, multi_result amount s i)"
    by blast
  have "f \<le> i" using frontier_range_accepted[OF assms i(1)] i(2) by simp
  moreover have "i \<le> f" using i(3) \<open>range_accepted s amount f\<close> by (meson not_le)
  ultimately show ?thesis using i(4) True by simp
next
  case False
  have "\<not> range_accepted s amount i" if "i \<le> pageCount s - amount" for i
    using frontier_range_accepted[OF assms that] that False by auto
  then show ?thesis
    using MmAllocateMultiplePages_cases[OF assms(1,3)] False by auto
qed

lemma frontier_multi_result:
  assumes "pmm_wf s" and "frontier s f" and "amount \<le> pageCount s" and "0 < amount"
    and "f \<le> pageCount s - amount"
  shows "frontier (multi_result amount s f) (f + amount)"
proof -
  have sum: "unat f + unat amount \<le> unat (pageCount s)"
    using assms(3,5) by (simp add: word_le_nat_alt unat_sub_le)
  then have u: "unat (f + amount) = unat f + unat amount"
    using unat_lt_2p64[of "pageCount s"] by (intro unat_add_no_wrap) linarith
  have near: "unat (k - f) < unat amount \<longleftrightarrow> f \<le> k \<and> k < f + amount" if "k < pageCount s" for k
  proof (cases "f \<le> k")
    case True
    then show ?thesis by (simp add: unat_sub_le word_less_nat_alt word_le_nat_alt u) linarith
  next
    case False
    then have "unat (k - f) = 18446744073709551616 + unat k - unat f"
      by (simp add: unat_sub_if' word_le_nat_alt)
    then show ?thesis
      using False sum unat_lt_2p64[of "pageCount s"] by (simp add: word_le_nat_alt)
  qed
  show ?thesis
    unfolding frontier_def
  proof (intro conjI allI impI)
    show "0 < f + amount" using u assms(4) by (simp add: word_gt_0 unat_gt_0 [symmetric])
    show "f + amount \<le> pageCount (multi_result amount s f)"
      using u sum by (simp add: word_le_nat_alt)
  next
    fix k
    assume k: "0 < k \<and> k < f + amount"
    then have "k < pageCount s" using u sum by (simp add: word_less_nat_alt)
    then show "page_bit (multi_result amount s f) k"
      using k near assms(2) by (force simp: page_bit_multi_result frontier_def)
  next
    fix k
    assume k: "f + amount \<le> k \<and> k < pageCount (multi_result amount s f)"
    then have "f < k" using u assms(4) by (simp add: word_le_nat_alt word_less_nat_alt)
    then show "\<not> page_bit (multi_result amount s f) k"
      using k near assms(2) by (auto simp: page_bit_multi_result frontier_def)
  qed
qed

section \<open>Memory outside the bitmap\<close>

text \<open>The bytes that hold the bits of the managed pages.\<close>

definition bitmap_bytes :: "pmm \<Rightarrow> u64 set" where
  "bitmap_bytes s = {bitmap s + k div 8 | k. k < pageCount s}"

text \<open>
  The bitmap reserves its own pages: every managed page that holds a byte of the bitmap is
  marked in use (page 0 is never handed out).
\<close>

definition bitmap_reserved :: "pmm \<Rightarrow> bool" where
  "bitmap_reserved s \<longleftrightarrow> (\<forall>x \<in> bitmap_bytes s. \<forall>k. 0 < k \<and> k < pageCount s \<and> unat k = pgno x \<longrightarrow> page_bit s k)"

definition pmm_inv :: "pmm \<Rightarrow> bool" where
  "pmm_inv s \<longleftrightarrow> pmm_wf s \<and> bitmap_reserved s"

lemma pmm_inv_wf: "pmm_inv s \<Longrightarrow> pmm_wf s"
  by (simp add: pmm_inv_def)

text \<open>What one single-page allocation does, as the other components use it.\<close>

lemma MmAllocateSinglePage_fresh:
  assumes inv: "pmm_inv s" and "MmAllocateSinglePage s = (a, s')" and "a \<noteq> NULL"
  obtains i where "0 < i" and "i < pageCount s" and "\<not> page_bit s i"
    and "a = GetAddressFromPageLocation i" and "page_aligned a" and "pgno a = unat i"
    and "\<And>k. page_bit s' k \<longleftrightarrow> k = i \<or> page_bit s k"
    and "\<And>x. x \<notin> bitmap_bytes s \<Longrightarrow> pm_mem s' x = pm_mem s x"
    and "\<And>x. pgno x = pgno a \<Longrightarrow> x \<notin> bitmap_bytes s"
    and "pageCount s' = pageCount s" and "bitmap s' = bitmap s" and "pmm_inv s'"
proof -
  note wf = pmm_inv_wf[OF inv]
  from MmAllocateSinglePage_cases[OF wf] assms(2,3) obtain i where
    i: "0 < i" "i < pageCount s" "\<not> page_bit s i" "a = GetAddressFromPageLocation i"
      "s' = INCREMENT_PAGE_USAGE (SET_BITMAP i s)" by auto
  note props = page_address_props[OF page_small[OF wf i(2)]]
  have fields: "pageCount s' = pageCount s" "bitmap s' = bitmap s" by (simp_all add: i(5))
  have bits: "page_bit s' k \<longleftrightarrow> k = i \<or> page_bit s k" for k by (simp add: i(5))
  have mem: "pm_mem s' x = pm_mem s x" if "x \<notin> bitmap_bytes s" for x
    using that i(2) by (auto simp: i(5) bitmap_bytes_def intro!: SET_BITMAP_mem)
  have page: "x \<notin> bitmap_bytes s" if "pgno x = pgno a" for x
    using inv i that props(2) by (auto simp: pmm_inv_def bitmap_reserved_def)
  have "pmm_inv s'"
    using inv by (auto simp: pmm_inv_def pmm_wf_def bitmap_reserved_def bitmap_bytes_def fields bits)
  with i props bits mem page fields that show thesis by metis
qed

lemma MmAllocateSinglePage_full:
  assumes "pmm_wf s" and "MmAllocateSinglePage s = (NULL, s')"
  shows "s' = s"
  using bitmap_pmm.alloc_null[OF assms] by simp

end
