(* ===== verification/PmmInit.thy ===== *)
theory PmmInit
  imports PmmBitmap
begin

text \<open>
  What \<open>MmInitPhysicalMemoryManager\<close> of \<open>pmms/bitmap.c\<close> leaves behind: the page counts,
  where the bitmap is placed, and for every page whether its bit is set.
\<close>

section \<open>Counting\<close>

lemma count_entry_eq:
  "count_entry e s = s\<lparr>pageCount := pageCount s + IN_PAGES (me_size e),
     usablePageCount := usablePageCount s +
       (if me_type e = BOOT_MEM_TYPE_FREE then IN_PAGES (me_size e) else 0)\<rparr>"
proof -
  let ?u = "me_type e = BOOT_MEM_TYPE_FREE"
  have "for_upto n (\<lambda>j s. let s1 = s\<lparr>pageCount := pageCount s + 1\<rparr>
            in if ?u then s1\<lparr>usablePageCount := usablePageCount s1 + 1\<rparr> else s1) s =
        s\<lparr>pageCount := pageCount s + of_nat n,
          usablePageCount := usablePageCount s + (if ?u then of_nat n else 0)\<rparr>" for n
    by (induction n) (auto simp: Let_def algebra_simps)
  then show ?thesis by (simp add: count_entry_def Let_def)
qed

definition pages_of :: "BootMemoryMapEntry list \<Rightarrow> u64" where
  "pages_of es = sum_list (map (\<lambda>e. IN_PAGES (me_size e)) es)"

lemma count_entries_eq:
  "fold count_entry es s = s\<lparr>pageCount := pageCount s + pages_of es,
     usablePageCount := usablePageCount s +
       pages_of (filter (\<lambda>e. me_type e = BOOT_MEM_TYPE_FREE) es)\<rparr>"
  by (induction es arbitrary: s) (auto simp: count_entry_eq pages_of_def algebra_simps)

section \<open>Marking\<close>

definition entry_pages :: "BootMemoryMapEntry \<Rightarrow> u64 set" where
  "entry_pages e = {GetPageLocationFromAddress (me_base e + j * PAGE_SIZE) | j. j < IN_PAGES (me_size e)}"

definition region_pages :: "u64 \<Rightarrow> u64 \<Rightarrow> u64 set" where
  "region_pages base n = {GetPageLocationFromAddress (base + i * PAGE_SIZE) | i. i < n}"

lemma mark_fields [simp, frame_simps]:
  "pageCount (MarkBitInBitmapFromAddress a b s) = pageCount s"
  "usablePageCount (MarkBitInBitmapFromAddress a b s) = usablePageCount s"
  "bitmapSize (MarkBitInBitmapFromAddress a b s) = bitmapSize s"
  "bitmap (MarkBitInBitmapFromAddress a b s) = bitmap s"
  "pageUsed (MarkBitInBitmapFromAddress a b s) = pageUsed s"
  by (simp_all add: MarkBitInBitmapFromAddress_def Let_def)

lemma page_bit_mark:
  "page_bit (MarkBitInBitmapFromAddress a b s) k \<longleftrightarrow>
     (if k = GetPageLocationFromAddress a then b else page_bit s k)"
  by (simp add: MarkBitInBitmapFromAddress_def Let_def)

lemma mark_entry_fields [simp, frame_simps]:
  "pageCount (mark_entry b e s) = pageCount s"
  "usablePageCount (mark_entry b e s) = usablePageCount s"
  "bitmapSize (mark_entry b e s) = bitmapSize s"
  "bitmap (mark_entry b e s) = bitmap s"
  "pageUsed (mark_entry b e s) = pageUsed s"
  by (simp_all add: mark_entry_def for_upto_frame)

lemma page_bit_mark_loop:
  "page_bit (for_upto n (\<lambda>j. MarkBitInBitmapFromAddress (base + j * PAGE_SIZE) b) s) k \<longleftrightarrow>
     (if \<exists>j<n. k = GetPageLocationFromAddress (base + of_nat j * PAGE_SIZE) then b else page_bit s k)"
  by (induction n) (auto simp: page_bit_mark less_Suc_eq)

lemma page_bit_mark_entry:
  "page_bit (mark_entry b e s) k \<longleftrightarrow> (if k \<in> entry_pages e then b else page_bit s k)"
proof -
  have "k \<in> entry_pages e \<longleftrightarrow> (\<exists>j < unat (IN_PAGES (me_size e)).
      k = GetPageLocationFromAddress (me_base e + of_nat j * PAGE_SIZE))"
    unfolding entry_pages_def below_iff_of_nat by blast
  then show ?thesis by (simp add: mark_entry_def page_bit_mark_loop)
qed

text \<open>A pass over the map that marks the entries satisfying a test.\<close>

definition mark_pass :: "(BootMemoryMapEntry \<Rightarrow> bool) \<Rightarrow> bool \<Rightarrow> BootMemoryMapEntry list \<Rightarrow> pmm \<Rightarrow> pmm" where
  "mark_pass skip b es s = fold (\<lambda>e s. if skip e then s else mark_entry b e s) es s"

lemma mark_pass_fields [simp, frame_simps]:
  "pageCount (mark_pass p b es s) = pageCount s"
  "usablePageCount (mark_pass p b es s) = usablePageCount s"
  "bitmapSize (mark_pass p b es s) = bitmapSize s"
  "bitmap (mark_pass p b es s) = bitmap s"
  "pageUsed (mark_pass p b es s) = pageUsed s"
  unfolding mark_pass_def by (induction es arbitrary: s) auto

lemma page_bit_mark_pass:
  "page_bit (mark_pass skip b es s) k \<longleftrightarrow>
     (if \<exists>e \<in> set es. \<not> skip e \<and> k \<in> entry_pages e then b else page_bit s k)"
  unfolding mark_pass_def
  by (induction es arbitrary: s) (auto simp: page_bit_mark_entry)

text \<open>The last loop marks the bitmap's own pages; it reads \<open>bitmap\<close> in each iteration.\<close>

lemma bitmap_loop:
  "for_upto n (\<lambda>i s. MarkBitInBitmapFromAddress (bitmap s + i * PAGE_SIZE) True s) s =
   for_upto n (\<lambda>i. MarkBitInBitmapFromAddress (bitmap s + i * PAGE_SIZE) True) s"
proof (induction n)
  case 0
  then show ?case by simp
next
  case (Suc n)
  have "bitmap (for_upto n (\<lambda>i. MarkBitInBitmapFromAddress (bitmap s + i * PAGE_SIZE) True) s) = bitmap s"
    by (rule for_upto_frame) simp
  then show ?case by (simp add: Suc)
qed

lemma page_bit_memset:
  "page_bit (s\<lparr>pm_mem := snd (memset (bitmap s) 0xFF (bitmapSize s) (pm_mem s))\<rparr>) k \<longleftrightarrow>
    k div 8 < bitmapSize s \<or> page_bit s k"
proof -
  have "unat (k mod 8) < 8" by (simp add: unat_mod8)
  from less_8_cases[OF this] have "bit (0xFF :: u8) (unat (k mod 8))"
    by (elim disjE) simp_all
  then show ?thesis
    by (simp add: page_bit_def memset_apply word_less_nat_alt)
qed

section \<open>The initialised state\<close>

definition init_counts :: "BootMemoryMap \<Rightarrow> pmm \<Rightarrow> pmm" where
  "init_counts mm s =
     (let s1 = fold count_entry (map_entries mm) s in s1\<lparr>bitmapSize := pageCount s1 div 8\<rparr>)"

lemma init_counts_eq:
  "init_counts mm s = s\<lparr>pageCount := pageCount s + pages_of (map_entries mm),
     usablePageCount := usablePageCount s +
       pages_of (filter (\<lambda>e. me_type e = BOOT_MEM_TYPE_FREE) (map_entries mm)),
     bitmapSize := (pageCount s + pages_of (map_entries mm)) div 8\<rparr>"
  by (simp add: init_counts_def count_entries_eq Let_def)

lemma place_bitmap_fields [simp, frame_simps]:
  "pageCount (place_bitmap mm s) = pageCount s"
  "usablePageCount (place_bitmap mm s) = usablePageCount s"
  "bitmapSize (place_bitmap mm s) = bitmapSize s"
  "pageUsed (place_bitmap mm s) = pageUsed s"
  "pm_mem (place_bitmap mm s) = pm_mem s"
  by (simp_all add: place_bitmap_def split: option.split)

lemma init_unfold:
  assumes "bitmapSize (init_counts mm s) \<noteq> 0"
  shows "MmInitPhysicalMemoryManager mm s =
    (let s3 = place_bitmap mm (init_counts mm s);
         s4 = s3\<lparr>pm_mem := snd (memset (bitmap s3) 0xFF (bitmapSize s3) (pm_mem s3))\<rparr>;
         s5 = mark_pass (\<lambda>e. me_type e \<noteq> BOOT_MEM_TYPE_FREE) False (map_entries mm) s4;
         s6 = mark_pass (\<lambda>e. me_type e = BOOT_MEM_TYPE_FREE) True (map_entries mm) s5
     in (STATUS_SUCCESS,
         for_upto (unat (IN_PAGES (bitmapSize s3)))
           (\<lambda>i. MarkBitInBitmapFromAddress (bitmap s6 + i * PAGE_SIZE) True) s6))"
  using assms
  by (simp add: MmInitPhysicalMemoryManager_def init_counts_def mark_pass_def bitmap_loop Let_def)

lemma init_fields:
  assumes "bitmapSize (init_counts mm s) \<noteq> 0"
  shows "fst (MmInitPhysicalMemoryManager mm s) = STATUS_SUCCESS"
    and "pageCount (snd (MmInitPhysicalMemoryManager mm s)) = pageCount (init_counts mm s)"
    and "usablePageCount (snd (MmInitPhysicalMemoryManager mm s)) = usablePageCount (init_counts mm s)"
    and "bitmapSize (snd (MmInitPhysicalMemoryManager mm s)) = bitmapSize (init_counts mm s)"
    and "bitmap (snd (MmInitPhysicalMemoryManager mm s)) = bitmap (place_bitmap mm (init_counts mm s))"
    and "pageUsed (snd (MmInitPhysicalMemoryManager mm s)) = pageUsed s"
  by (simp_all add: init_unfold[OF assms] Let_def for_upto_frame)
    (simp add: init_counts_eq)

lemma init_page_bit:
  assumes "bitmapSize (init_counts mm s) \<noteq> 0"
  defines "b \<equiv> bitmap (place_bitmap mm (init_counts mm s))"
    and "n \<equiv> bitmapSize (init_counts mm s)"
  shows "page_bit (snd (MmInitPhysicalMemoryManager mm s)) k \<longleftrightarrow>
    k \<in> region_pages b (IN_PAGES n) \<or>
    (\<exists>e \<in> set (map_entries mm). me_type e \<noteq> BOOT_MEM_TYPE_FREE \<and> k \<in> entry_pages e) \<or>
    ((\<forall>e \<in> set (map_entries mm). me_type e = BOOT_MEM_TYPE_FREE \<longrightarrow> k \<notin> entry_pages e) \<and>
       (k div 8 < n \<or> page_bit (place_bitmap mm (init_counts mm s)) k))"
proof -
  define s3 where "s3 = place_bitmap mm (init_counts mm s)"
  have s3: "b = bitmap s3" "n = bitmapSize s3"
    by (simp_all add: b_def n_def s3_def)
  have reg: "k \<in> region_pages (bitmap s3) (IN_PAGES (bitmapSize s3)) \<longleftrightarrow>
      (\<exists>i < unat (IN_PAGES (bitmapSize s3)). k = GetPageLocationFromAddress (bitmap s3 + of_nat i * PAGE_SIZE))"
    unfolding region_pages_def below_iff_of_nat by blast
  show ?thesis
    unfolding init_unfold[OF assms(1)] s3 s3_def [symmetric] reg
    by (auto simp: Let_def page_bit_mark_loop page_bit_mark_pass page_bit_memset)
qed

end
