(* ===== verification/PmmPageMap.thy ===== *)
theory PmmPageMap
  imports NrBoot PageInterface NrMemory
begin

text \<open>
  The alternative physical memory manager \<open>mm/amd64pc/pmms/pagemap.c\<close>, compiled instead of
  the bitmap one when \<open>PAGEMAP_PMM\<close> is defined. It keeps one record per page, in an
  array that it places in the first large enough free region. The array is a function
  from the index, because the code indexes it up to \<open>pageMapAmount\<close> whether or not it
  has filled that slot: slots it never filled hold what the memory held before.
\<close>

section \<open>State\<close>

record PageMap =
  pg_address :: u64
  pg_isFree :: bool

record pagemap =
  pageMapBase :: u64
  pageMap :: "u64 \<Rightarrow> PageMap"
  pageMapAmount :: u64
  mapPageUsed :: u64

text \<open>\<open>sizeof(PageMap)\<close>: the structure is packed, eight bytes and one bit-field byte.\<close>

definition SIZEOF_PAGEMAP :: u64 where
  "SIZEOF_PAGEMAP = 9"

definition INCREMENT_MAP_USAGE :: "pagemap \<Rightarrow> pagemap" where
  "INCREMENT_MAP_USAGE s =
     (if mapPageUsed s < pageMapAmount s then s\<lparr>mapPageUsed := mapPageUsed s + 1\<rparr> else s)"

definition DECREMENT_MAP_USAGE :: "pagemap \<Rightarrow> pagemap" where
  "DECREMENT_MAP_USAGE s = (if 0 < mapPageUsed s then s\<lparr>mapPageUsed := mapPageUsed s - 1\<rparr> else s)"

definition set_free :: "u64 \<Rightarrow> bool \<Rightarrow> pagemap \<Rightarrow> pagemap" where
  "set_free i b s = s\<lparr>pageMap := (pageMap s)(i := (pageMap s i)\<lparr>pg_isFree := b\<rparr>)\<rparr>"

section \<open>Initialisation\<close>

text \<open>A free region that starts at address 0 gives up its first page.\<close>

definition skip_page_zero :: "BootMemoryMapEntry \<Rightarrow> BootMemoryMapEntry" where
  "skip_page_zero e =
     (if me_base e = 0
      then e\<lparr>me_base := me_base e + PAGE_SIZE, me_size := me_size e - PAGE_SIZE\<rparr> else e)"

fun count_pass :: "BootMemoryMapEntry list \<Rightarrow> u64 \<Rightarrow> (BootMemoryMapEntry list \<times> u64) option" where
  "count_pass [] n = Some ([], n)"
| "count_pass (e # es) n =
     (if me_type e \<noteq> BOOT_MEM_TYPE_FREE
      then do { (es', n') \<leftarrow> count_pass es n; Some (e # es', n') }
      else let e' = skip_page_zero e
           in do { n1 \<leftarrow> stride_loop (me_base e') (me_base e' + me_size e') (\<lambda>j n. n + 1) n;
                   (es', n') \<leftarrow> count_pass es n1;
                   Some (e' # es', n') })"

text \<open>The second loop stops at the first region that can hold the array and shrinks it.\<close>

fun place_pass :: "u64 \<Rightarrow> BootMemoryMapEntry list \<Rightarrow> BootMemoryMapEntry list \<times> u64 option" where
  "place_pass amount [] = ([], None)"
| "place_pass amount (e # es) =
     (if me_type e \<noteq> BOOT_MEM_TYPE_FREE
      then (let (es', r) = place_pass amount es in (e # es', r))
      else let e' = skip_page_zero e;
               pagemapSize = amount * SIZEOF_PAGEMAP
           in if pagemapSize \<le> me_size e'
              then let pmsizeAligned = (pagemapSize + (PAGE_SIZE - 1)) AND NOT (PAGE_SIZE - 1)
                   in (e'\<lparr>me_size := me_size e' - pmsizeAligned,
                          me_base := me_base e' + pmsizeAligned\<rparr> # es, Some (me_base e'))
              else let (es', r) = place_pass amount es in (e' # es', r))"

fun fill_pass :: "BootMemoryMapEntry list \<Rightarrow> u64 \<Rightarrow> pagemap \<Rightarrow> (u64 \<times> pagemap) option" where
  "fill_pass [] cur s = Some (cur, s)"
| "fill_pass (e # es) cur s =
     (if me_type e \<noteq> BOOT_MEM_TYPE_FREE then fill_pass es cur s
      else let base = (me_base e + (PAGE_SIZE - 1)) AND NOT (PAGE_SIZE - 1);
               size = me_size e AND NOT (PAGE_SIZE - 1)
           in do { (cur1, s1) \<leftarrow> stride_loop base (base + size)
                     (\<lambda>j (cur, s).
                        (cur + 1,
                         s\<lparr>pageMap := (pageMap s)(cur := \<lparr>pg_address = j, pg_isFree = True\<rparr>)\<rparr>))
                     (cur, s);
                   fill_pass es cur1 s1 })"

definition PageMapInit :: "BootMemoryMap \<Rightarrow> pagemap \<Rightarrow>
    (NearStatus \<times> BootMemoryMap \<times> pagemap) option" where
  "PageMapInit mm s =
     do { (es1, n) \<leftarrow> count_pass (map_entries mm) (pageMapAmount s);
          let rest = drop (unat (amountOfEntries mm)) (memEntries mm);
              s1 = s\<lparr>pageMapAmount := n\<rparr>
          in if n = 0 then Some (STATUS_NO_VALID_MEMORY, mm\<lparr>memEntries := es1 @ rest\<rparr>, s1)
             else let (es2, r) = place_pass n es1;
                      mm2 = mm\<lparr>memEntries := es2 @ rest\<rparr>;
                      s2 = (case r of None \<Rightarrow> s1 | Some b \<Rightarrow> s1\<lparr>pageMapBase := b\<rparr>)
                  in if pageMapBase s2 = NULL then Some (STATUS_NOT_ENOUGH_MEMORY, mm2, s2)
                     else do { (cur, s3) \<leftarrow> fill_pass es2 0 s2; Some (STATUS_SUCCESS, mm2, s3) } }"

section \<open>Allocation\<close>

definition PageMapAllocateSinglePage :: "pagemap \<Rightarrow> u64 \<times> pagemap" where
  "PageMapAllocateSinglePage s =
     (case for_find (unat (pageMapAmount s)) (\<lambda>i. pg_isFree (pageMap s i)) of
        None \<Rightarrow> (NULL, s)
      | Some i \<Rightarrow> (pg_address (pageMap s i), INCREMENT_MAP_USAGE (set_free i False s)))"

text \<open>The inner loop: every page of the range is free and follows the one before it. The
  comparison is skipped while the previous address is 0.\<close>

fun range_good :: "pagemap \<Rightarrow> u64 \<Rightarrow> nat \<Rightarrow> nat \<Rightarrow> u64 \<Rightarrow> bool" where
  "range_good s base j 0 prevAddress = True"
| "range_good s base j (Suc n) prevAddress =
     (if \<not> pg_isFree (pageMap s (base + of_nat j)) then False
      else let curAddress = pg_address (pageMap s (base + of_nat j))
           in if prevAddress \<noteq> 0 \<and> curAddress - prevAddress \<noteq> PAGE_SIZE then False
              else range_good s base (Suc j) n curAddress)"

partial_function (option) pagemap_scan ::
    "pagemap \<Rightarrow> u64 \<Rightarrow> u64 \<Rightarrow> u64 \<Rightarrow> u64 option option" where
  "pagemap_scan s amount bound i =
     (if i \<le> bound
      then if pg_isFree (pageMap s i) \<and> range_good s i 0 (unat amount) 0 then Some (Some i)
           else pagemap_scan s amount bound (i + 1)
      else Some None)"

definition PageMapAllocateMultiplePages :: "u64 \<Rightarrow> pagemap \<Rightarrow> (u64 \<times> pagemap) option" where
  "PageMapAllocateMultiplePages amount s =
     (case pagemap_scan s amount (pageMapAmount s - amount) 0 of
        None \<Rightarrow> None
      | Some None \<Rightarrow> Some (1, s)
      | Some (Some i) \<Rightarrow>
          (let s1 = for_upto (unat amount) (\<lambda>j s. INCREMENT_MAP_USAGE (set_free (i + j) False s)) s
           in Some (pg_address (pageMap s1 i), s1)))"

definition PageMapFreeSinglePage :: "u64 \<Rightarrow> pagemap \<Rightarrow> NearStatus \<times> pagemap" where
  "PageMapFreeSinglePage pageAddress s =
     (case for_find (unat (pageMapAmount s)) (\<lambda>i. pg_address (pageMap s i) = pageAddress) of
        None \<Rightarrow> (STATUS_NOT_FOUND, s)
      | Some i \<Rightarrow> (STATUS_SUCCESS, DECREMENT_MAP_USAGE (set_free i True s)))"

definition PageMapFreeMultiplePages :: "u64 \<Rightarrow> u64 \<Rightarrow> pagemap \<Rightarrow> NearStatus \<times> pagemap" where
  "PageMapFreeMultiplePages pageAddress amount s =
     (case for_find (unat (pageMapAmount s - amount)) (\<lambda>i. pg_address (pageMap s i) = pageAddress) of
        None \<Rightarrow> (STATUS_NOT_FOUND, s)
      | Some i \<Rightarrow>
          (STATUS_SUCCESS,
           for_upto (unat amount) (\<lambda>j s. DECREMENT_MAP_USAGE (set_free (i + j) True s)) s))"

definition PageMapReturnPageUsed :: "pagemap \<Rightarrow> u64" where
  "PageMapReturnPageUsed s = mapPageUsed s"

definition PageMapReturnPageAmount :: "pagemap \<Rightarrow> u64" where
  "PageMapReturnPageAmount s = pageMapAmount s"

section \<open>The single-page contract\<close>

definition map_address :: "pagemap \<Rightarrow> u64 \<Rightarrow> u64" where
  "map_address s i = pg_address (pageMap s i)"

definition map_pages :: "pagemap \<Rightarrow> u64 set" where
  "map_pages s = map_address s ` {i. i < pageMapAmount s}"

definition map_inuse :: "pagemap \<Rightarrow> u64 set" where
  "map_inuse s = map_address s ` {i. i < pageMapAmount s \<and> \<not> pg_isFree (pageMap s i)}"

text \<open>The slots describe distinct pages, none of them at address 0.\<close>

definition map_inv :: "pagemap \<Rightarrow> bool" where
  "map_inv s \<longleftrightarrow> inj_on (map_address s) {i. i < pageMapAmount s} \<and> NULL \<notin> map_pages s"

lemma set_free_fields [simp, frame_simps]:
  "pageMapAmount (set_free i b s) = pageMapAmount s"
  "map_address (set_free i b s) = map_address s"
  "pg_isFree (pageMap (set_free i b s) k) = (if k = i then b else pg_isFree (pageMap s k))"
  by (simp_all add: set_free_def map_address_def fun_eq_iff)

lemma map_usage_fields [simp, frame_simps]:
  "pageMapAmount (INCREMENT_MAP_USAGE s) = pageMapAmount s"
  "pageMap (INCREMENT_MAP_USAGE s) = pageMap s"
  "map_address (INCREMENT_MAP_USAGE s) = map_address s"
  "pageMapAmount (DECREMENT_MAP_USAGE s) = pageMapAmount s"
  "pageMap (DECREMENT_MAP_USAGE s) = pageMap s"
  "map_address (DECREMENT_MAP_USAGE s) = map_address s"
  by (simp_all add: INCREMENT_MAP_USAGE_def DECREMENT_MAP_USAGE_def map_address_def fun_eq_iff)

lemma map_single_cases:
  "(PageMapAllocateSinglePage s = (NULL, s) \<and> (\<forall>i < pageMapAmount s. \<not> pg_isFree (pageMap s i))) \<or>
   (\<exists>i < pageMapAmount s. pg_isFree (pageMap s i) \<and>
      PageMapAllocateSinglePage s = (map_address s i, INCREMENT_MAP_USAGE (set_free i False s)))"
proof (cases "for_find (unat (pageMapAmount s)) (\<lambda>i. pg_isFree (pageMap s i))")
  case None
  then have "\<forall>i < pageMapAmount s. \<not> pg_isFree (pageMap s i)"
    by (auto simp: for_find_None below_iff_of_nat)
  with None show ?thesis by (simp add: PageMapAllocateSinglePage_def)
next
  case (Some r)
  then obtain k where "k < unat (pageMapAmount s)" "r = of_nat k" "pg_isFree (pageMap s r)"
    by (rule for_find_Some) blast
  then have "r < pageMapAmount s" using below_iff_of_nat by blast
  with Some \<open>pg_isFree (pageMap s r)\<close> show ?thesis
    by (auto simp: PageMapAllocateSinglePage_def map_address_def)
qed

lemma map_find_address:
  assumes "map_inv s" and "i < pageMapAmount s"
  shows "for_find (unat (pageMapAmount s)) (\<lambda>k. pg_address (pageMap s k) = map_address s i) = Some i"
proof -
  have "\<not> pg_address (pageMap s (of_nat j)) = map_address s i" if "j < unat i" for j
  proof -
    have j: "of_nat j < i" using that below_iff_of_nat by blast
    then have "of_nat j < pageMapAmount s" using assms(2) by simp
    then show ?thesis
      using assms j unfolding map_inv_def inj_on_def map_address_def by fastforce
  qed
  then have "for_find (unat (pageMapAmount s)) (\<lambda>k. pg_address (pageMap s k) = map_address s i) =
      Some (of_nat (unat i))"
    using assms(2) by (intro for_find_least) (auto simp: map_address_def word_less_nat_alt)
  then show ?thesis by simp
qed

interpretation map_pmm: page_allocator PageMapAllocateSinglePage PageMapFreeSinglePage
  map_pages map_inuse map_inv
proof unfold_locales
  fix s
  show "NULL \<notin> map_pages s" if "map_inv s"
    using that by (simp add: map_inv_def)
  fix s'
  assume inv: "map_inv s" and a: "PageMapAllocateSinglePage s = (NULL, s')"
  have "map_address s i \<noteq> NULL" if "i < pageMapAmount s" for i
    using inv that by (force simp: map_inv_def map_pages_def)
  with a map_single_cases[of s]
  show "s' = s \<and> map_pages s \<subseteq> map_inuse s"
    by (auto simp: map_pages_def map_inuse_def)
next
  fix s a s'
  assume inv: "map_inv s" and "PageMapAllocateSinglePage s = (a, s')" and "a \<noteq> NULL"
  with map_single_cases[of s] obtain i where i: "i < pageMapAmount s" "pg_isFree (pageMap s i)"
      "a = map_address s i" "s' = INCREMENT_MAP_USAGE (set_free i False s)" by auto
  have "a \<notin> map_inuse s"
    using inv i by (auto simp: map_inuse_def map_inv_def inj_on_def)
  moreover have "map_inuse s' = insert a (map_inuse s)"
    using i(1,3) by (auto simp: map_inuse_def i(4))
  ultimately show "a \<in> map_pages s \<and> a \<notin> map_inuse s \<and> map_inuse s' = insert a (map_inuse s) \<and>
      map_pages s' = map_pages s \<and> map_inv s'"
    using inv i(1,3) by (auto simp: map_pages_def map_inv_def i(4))
next
  fix s a st s'
  assume inv: "map_inv s" and "a \<in> map_pages s" and f: "PageMapFreeSinglePage a s = (st, s')"
  then obtain i where i: "i < pageMapAmount s" "a = map_address s i"
    by (auto simp: map_pages_def)
  have s': "st = STATUS_SUCCESS" "s' = DECREMENT_MAP_USAGE (set_free i True s)"
    using f map_find_address[OF inv i(1)] by (auto simp: PageMapFreeSinglePage_def i(2))
  have "map_inuse s' = map_inuse s - {a}"
    using inv i by (auto simp: map_inuse_def s'(2) map_inv_def inj_on_def)
  then show "st = STATUS_SUCCESS \<and> map_inuse s' = map_inuse s - {a} \<and>
      map_pages s' = map_pages s \<and> map_inv s'"
    using inv s' by (simp add: map_pages_def map_inv_def)
qed

section \<open>Ranges\<close>

lemma range_good_free:
  "range_good s base j n p \<Longrightarrow> k < n \<Longrightarrow> pg_isFree (pageMap s (base + of_nat (j + k)))"
proof (induction n arbitrary: j k p)
  case 0
  then show ?case by simp
next
  case (Suc n)
  show ?case
  proof (cases k)
    case 0
    with Suc.prems show ?thesis by (auto split: if_splits)
  next
    case (Suc k')
    from Suc.prems(1) have "range_good s base (Suc j) n (pg_address (pageMap s (base + of_nat j)))"
      by (auto simp: Let_def split: if_splits)
    from Suc.IH[OF this, of k'] Suc.prems(2) Suc show ?thesis by simp
  qed
qed

lemma range_good_consecutive:
  assumes "\<And>k. k < n \<Longrightarrow> pg_address (pageMap s (base + of_nat (j + k))) \<noteq> 0"
    and "range_good s base j n p" and "p \<noteq> 0" and "k < n"
  shows "pg_address (pageMap s (base + of_nat (j + k))) = p + of_nat (Suc k) * PAGE_SIZE"
  using assms
proof (induction n arbitrary: j k p)
  case 0
  then show ?case by simp
next
  case (Suc n)
  let ?a = "pg_address (pageMap s (base + of_nat j))"
  have good: "range_good s base (Suc j) n ?a" and a: "?a = p + PAGE_SIZE"
    using Suc.prems(2,3) by (auto simp: Let_def algebra_simps split: if_splits)
  show ?case
  proof (cases k)
    case 0
    with a show ?thesis by simp
  next
    case (Suc k')
    have "?a \<noteq> 0" using Suc.prems(1)[of 0] by simp
    moreover have "pg_address (pageMap s (base + of_nat (Suc j + i))) \<noteq> 0" if "i < n" for i
      using Suc.prems(1)[of "Suc i"] that by simp
    ultimately have "pg_address (pageMap s (base + of_nat (Suc j + k'))) =
        ?a + of_nat (Suc k') * PAGE_SIZE"
      using Suc.IH[OF _ good, of k'] Suc.prems(4) Suc by simp
    then show ?thesis using Suc a by (simp add: algebra_simps)
  qed
qed

lemma pagemap_scan_Some:
  assumes "pagemap_scan s amount bound i = Some (Some r)"
  shows "r \<le> bound \<and> pg_isFree (pageMap s r) \<and> range_good s r 0 (unat amount) 0"
proof -
  let ?P = "\<lambda>s amount bound (i :: u64) q. case q of None \<Rightarrow> True
     | Some r \<Rightarrow> r \<le> bound \<and> pg_isFree (pageMap s r) \<and> range_good s r 0 (unat amount) 0"
  have "?P s amount bound i (Some r)"
    by (rule pagemap_scan.raw_induct [where P = ?P, OF _ assms])
      (auto split: if_splits option.splits)
  then show ?thesis by simp
qed

definition take_map_pages :: "u64 \<Rightarrow> nat \<Rightarrow> pagemap \<Rightarrow> pagemap" where
  "take_map_pages i n s = for_upto n (\<lambda>j s. INCREMENT_MAP_USAGE (set_free (i + j) False s)) s"

lemma take_map_pages_fields [simp, frame_simps]:
  "pageMapAmount (take_map_pages i n s) = pageMapAmount s"
  "map_address (take_map_pages i n s) = map_address s"
  by (simp_all add: take_map_pages_def for_upto_frame)

lemma take_map_pages_free:
  "pg_isFree (pageMap (take_map_pages i n s) k) \<longleftrightarrow>
     pg_isFree (pageMap s k) \<and> (\<forall>j<n. k \<noteq> i + of_nat j)"
  unfolding take_map_pages_def by (induction n) (auto simp: less_Suc_eq)

lemma PageMapAllocateMultiplePages_cases:
  assumes "PageMapAllocateMultiplePages amount s = Some (a, s')"
  shows "(a = 1 \<and> s' = s) \<or>
    (\<exists>i \<le> pageMapAmount s - amount. range_good s i 0 (unat amount) 0 \<and>
       a = map_address s i \<and> s' = take_map_pages i (unat amount) s)"
proof -
  have *: "pg_address (pageMap (take_map_pages i n s) i) = map_address s i" for i n
    by (metis map_address_def take_map_pages_fields(2))
  show ?thesis
    using assms pagemap_scan_Some[of s amount "pageMapAmount s - amount" 0]
    unfolding PageMapAllocateMultiplePages_def take_map_pages_def [symmetric]
    by (auto simp: * Let_def split: option.splits)
qed

lemma range_index:
  assumes "(n :: u64) \<le> count" and "i \<le> count - n" and "j < unat n"
  shows "i + of_nat j < count"
proof -
  have "unat i + unat n \<le> unat count"
    using assms(1,2) by (simp add: word_le_nat_alt unat_sub_le)
  then have "unat (i + of_nat j) = unat i + j"
    using assms(3) unat_lt_2p64[of count]
    by (subst unat_add_no_wrap) (simp_all add: unat_of_nat_below)
  then show ?thesis
    using \<open>unat i + unat n \<le> unat count\<close> assms(3) by (simp add: word_less_nat_alt)
qed

lemma map_range_address:
  assumes inv: "map_inv s" and "amount \<le> pageMapAmount s" and "i \<le> pageMapAmount s - amount"
    and good: "range_good s i 0 (unat amount) 0" and "k < unat amount"
  shows "map_address s (i + of_nat k) = map_address s i + of_nat k * PAGE_SIZE"
proof -
  have nz: "pg_address (pageMap s (i + of_nat j)) \<noteq> 0" if "j < unat amount" for j
    using inv range_index[OF assms(2,3) that]
    by (force simp: map_inv_def map_pages_def map_address_def)
  show ?thesis
  proof (cases k)
    case 0
    then show ?thesis by simp
  next
    case (Suc k')
    obtain n where n: "unat amount = Suc n" using assms(5) by (cases "unat amount") auto
    have "range_good s i (Suc 0) n (map_address s i)"
      using good n by (auto simp: Let_def map_address_def split: if_splits)
    then have "pg_address (pageMap s (i + of_nat (Suc 0 + k'))) =
        map_address s i + of_nat (Suc k') * PAGE_SIZE"
      using nz[of 0] nz[of "Suc _"] n assms(5) Suc
      by (intro range_good_consecutive) (auto simp: map_address_def)
    then show ?thesis using Suc by (simp add: map_address_def)
  qed
qed

end
