(* ===== verification/PmmProps.thy ===== *)
theory PmmProps
  imports PmmInit PmmPageMap
begin

text \<open>
  The properties of the two physical memory managers, with an application of each at a
  concrete machine state. The states at the beginning are the inputs of these
  applications: a machine with one free region of sixteen pages at 64 KiB.
\<close>

section \<open>Sample states\<close>

definition sample_map :: BootMemoryMap where
  "sample_map = \<lparr>memEntries = [\<lparr>me_base = 0x10000, me_size = 0x10000, me_type = BOOT_MEM_TYPE_FREE\<rparr>],
     amountOfEntries = 1, sizeOfEntireMemory = 0x20000, mapKey = 0\<rparr>"

definition boot_pmm :: pmm where
  "boot_pmm = \<lparr>pageCount = 0, usablePageCount = 0, bitmapSize = 0, bitmap = 0, pageUsed = 0,
     pm_mem = (\<lambda>_. 0)\<rparr>"

text \<open>Sixteen pages whose bits are in the first two bytes of page 1; \<open>b\<close> is the first byte.\<close>

definition sample_pmm :: "u8 \<Rightarrow> pmm" where
  "sample_pmm b = \<lparr>pageCount = 16, usablePageCount = 16, bitmapSize = 2, bitmap = 0x1000, pageUsed = 1,
     pm_mem = (\<lambda>_. 0)(0x1000 := b)\<rparr>"

lemma sample_pmm_wf: "pmm_wf (sample_pmm b)"
  by (simp add: sample_pmm_def pmm_wf_def)

lemma sample_pmm_fields [simp]:
  "pageCount (sample_pmm b) = 16" "pageUsed (sample_pmm b) = 1"
  by (simp_all add: sample_pmm_def)

lemma page_bit_sample:
  "page_bit (sample_pmm b) k \<longleftrightarrow> k div 8 = 0 \<and> bit b (unat (k mod 8))"
  by (simp add: page_bit_def sample_pmm_def)

text \<open>Two slots that describe the pages at 64 KiB.\<close>

definition sample_pagemap :: pagemap where
  "sample_pagemap = \<lparr>pageMapBase = 0x1000,
     pageMap = (\<lambda>i. \<lparr>pg_address = 0x10000 + i * PAGE_SIZE, pg_isFree = True\<rparr>),
     pageMapAmount = 2, mapPageUsed = 0\<rparr>"

lemma less_two_u64: "(i :: u64) < 2 \<longleftrightarrow> i = 0 \<or> i = 1"
proof
  assume "i < 2"
  then have "unat i < 2" by (simp add: word_less_nat_alt)
  then have "unat i = 0 \<or> unat i = 1" by linarith
  then show "i = 0 \<or> i = 1" by (simp add: word_unat_eq_iff)
qed auto

lemma sample_pagemap_inv: "map_inv sample_pagemap"
  unfolding map_inv_def map_pages_def inj_on_def
  by (simp add: sample_pagemap_def map_address_def less_two_u64 PAGE_SIZE_def)
    (auto simp: less_two_u64)


section \<open>Initialisation of the bitmap\<close>

text \<open>
  Placing the bitmap at a page-aligned region with room for a bit per page makes the
  allocator's invariant hold: no page it will hand out holds a byte of the bitmap.
\<close>

lemma IN_PAGES_region:
  assumes "unat k < 4096 * unat n" and "page_aligned b"
    and "unat b + 4096 * unat n \<le> 18446744073709551616" and "unat p = pgno (b + k)"
  shows "p \<in> region_pages b n"
proof -
  let ?i = "k div PAGE_SIZE"
  have i: "unat ?i < unat n" using assms(1) by (simp add: PAGE_SIZE_def unat_div less_mult_imp_div_less mult.commute)
  have ub: "unat b = 4096 * pgno b" using page_aligned_unat[OF assms(2)] .
  have uk: "unat (b + k) = unat b + unat k"
    using assms(1,3) by (intro unat_add_no_wrap) linarith
  have um: "unat (?i * PAGE_SIZE) = unat ?i * 4096"
    using i assms(3) by (subst unat_mult_no_wrap) (simp_all add: PAGE_SIZE_def)
  have ua: "unat (b + ?i * PAGE_SIZE) = unat b + unat ?i * 4096"
    using i assms(3) um by (subst unat_add_no_wrap) simp_all
  have "unat p = pgno b + unat k div 4096"
    using assms(4) by (simp add: pgno_def uk) (simp add: ub)
  moreover have "unat (GetPageLocationFromAddress (b + ?i * PAGE_SIZE)) = pgno b + unat ?i"
    unfolding GetPageLocationFromAddress_def unat_div ua by (simp add: ub PAGE_SIZE_def)
  ultimately have "p = GetPageLocationFromAddress (b + ?i * PAGE_SIZE)"
    by (simp add: word_unat_eq_iff PAGE_SIZE_def unat_div)
  with i show ?thesis
    unfolding region_pages_def by (auto simp: word_less_nat_alt intro!: exI[of _ ?i])
qed

text \<open>
  \<open>MmInitPhysicalMemoryManager\<close> of the bitmap manager leaves every page of a free entry
  clear unless it holds the bitmap or also lies in an entry that is not free, marks every
  page of an entry that is not free, marks the pages the map does not mention, and
  reports the page counts; a map of fewer than eight pages is refused.
\<close>

theorem bitmap_init_marks:
  assumes "0 < bitmapSize (init_counts mm s)"
  shows "let (r, s') = MmInitPhysicalMemoryManager mm s in
    r = STATUS_SUCCESS \<and>
    pageCount s' = pageCount s + pages_of (map_entries mm) \<and>
    usablePageCount s' = usablePageCount s +
      pages_of (filter (\<lambda>e. me_type e = BOOT_MEM_TYPE_FREE) (map_entries mm)) \<and>
    (\<forall>e \<in> set (map_entries mm). me_type e = BOOT_MEM_TYPE_FREE \<longrightarrow> (\<forall>k \<in> entry_pages e.
       page_bit s' k \<longleftrightarrow> k \<in> region_pages (bitmap s') (IN_PAGES (bitmapSize s')) \<or>
         (\<exists>e' \<in> set (map_entries mm). me_type e' \<noteq> BOOT_MEM_TYPE_FREE \<and> k \<in> entry_pages e'))) \<and>
    (\<forall>e \<in> set (map_entries mm). me_type e \<noteq> BOOT_MEM_TYPE_FREE \<longrightarrow> (\<forall>k \<in> entry_pages e. page_bit s' k)) \<and>
    (\<forall>k. k div 8 < bitmapSize s' \<longrightarrow> (\<forall>e \<in> set (map_entries mm). k \<notin> entry_pages e) \<longrightarrow> page_bit s' k)"
proof -
  have nz: "bitmapSize (init_counts mm s) \<noteq> 0" using assms by auto
  define s' where "s' = snd (MmInitPhysicalMemoryManager mm s)"
  have eq: "MmInitPhysicalMemoryManager mm s = (STATUS_SUCCESS, s')"
    using init_fields(1)[OF nz] by (simp add: s'_def prod_eq_iff)
  note f = init_fields(2-5)[OF nz, folded s'_def]
  note bit = init_page_bit[OF nz, folded s'_def f(4,3)]
  show ?thesis
    unfolding eq Let_def prod.case bit
    by (intro conjI refl) (auto simp: f init_counts_eq)
qed

lemma bitmap_init_marks_witness:
  "let (r, s') = MmInitPhysicalMemoryManager sample_map boot_pmm in
    r = STATUS_SUCCESS \<and> pageCount s' = 16 \<and> usablePageCount s' = 16"
proof -
  have "0 < bitmapSize (init_counts sample_map boot_pmm)"
    by (simp add: init_counts_eq sample_map_def boot_pmm_def map_entries_def pages_of_def IN_PAGES_def PAGE_SIZE_def)
  from bitmap_init_marks[OF this] show ?thesis
    by (auto simp: Let_def sample_map_def boot_pmm_def map_entries_def pages_of_def IN_PAGES_def PAGE_SIZE_def)
qed

text \<open>
  C32: initialisation establishes the invariant that the bitmap's own pages are never handed
  out, when the chosen region is page-aligned, does not wrap and has room for one bit per
  page.
\<close>

theorem bitmap_init_invariant:
  assumes "0 < bitmapSize (init_counts mm s)" and "pmm_wf (init_counts mm s)"
    and "page_aligned (bitmap (place_bitmap mm (init_counts mm s)))"
    and "unat (bitmap (place_bitmap mm (init_counts mm s))) +
      4096 * unat (IN_PAGES (bitmapSize (init_counts mm s))) \<le> 18446744073709551616"
    and "unat (pageCount (init_counts mm s)) \<le> 8 * 4096 * unat (IN_PAGES (bitmapSize (init_counts mm s)))"
  shows "pmm_inv (snd (MmInitPhysicalMemoryManager mm s))"
proof -
  have nz: "bitmapSize (init_counts mm s) \<noteq> 0" using assms by auto
  define s' where "s' = snd (MmInitPhysicalMemoryManager mm s)"
  note f = init_fields(2-5)[OF nz, folded s'_def]
  note bit = init_page_bit[OF nz, folded s'_def f(4,3)]
  have "page_bit s' k" if "x \<in> bitmap_bytes s'" and "unat k = pgno x" for x k
  proof -
    obtain p where p: "x = bitmap s' + p div 8" "p < pageCount s'"
      using \<open>x \<in> bitmap_bytes s'\<close> by (auto simp: bitmap_bytes_def)
    have "unat p < 8 * (4096 * unat (IN_PAGES (bitmapSize s')))"
      using p(2) assms(5) by (simp add: f word_less_nat_alt)
    then have "unat (p div 8) < 4096 * unat (IN_PAGES (bitmapSize s'))"
      by (simp add: unat_div less_mult_imp_div_less mult.commute)
    then have "k \<in> region_pages (bitmap s') (IN_PAGES (bitmapSize s'))"
      using assms(3,4) that(2) p(1) by (intro IN_PAGES_region[of "p div 8"]) (simp_all add: f)
    then show ?thesis by (simp add: bit)
  qed
  moreover have "pmm_wf s'" using assms(2) by (simp add: pmm_wf_def f)
  ultimately show ?thesis by (simp add: pmm_inv_def bitmap_reserved_def flip: s'_def)
qed

lemma bitmap_init_invariant_witness:
  "pmm_inv (snd (MmInitPhysicalMemoryManager sample_map boot_pmm))"
  by (rule bitmap_init_invariant)
    (simp_all add: init_counts_eq sample_map_def boot_pmm_def map_entries_def pages_of_def
      IN_PAGES_def PAGE_SIZE_def place_bitmap_def pmm_wf_def page_aligned_def)


section \<open>Single pages\<close>

text \<open>
  C5: any run of \<open>MmAllocateSinglePage\<close> calls returns distinct pages that the manager manages and
  that were not in use, puts exactly them in use, and stops early only when every managed
  page is in use.
\<close>

theorem single_pages_distinct:
  assumes "pmm_wf s" and "alloc_many MmAllocateSinglePage n s = (as, s')"
  shows "distinct as \<and> set as \<subseteq> managed_pages s - inuse_pages s \<and>
    inuse_pages s' = inuse_pages s \<union> set as \<and> managed_pages s' = managed_pages s \<and>
    (length as < n \<longrightarrow> managed_pages s \<subseteq> inuse_pages s')"
  using bitmap_pmm.alloc_many_inv[OF assms] bitmap_pmm.alloc_many_length[OF assms] by blast

lemma single_pages_distinct_witness:
  "\<exists>as s'. alloc_many MmAllocateSinglePage 20 (sample_pmm 3) = (as, s') \<and> distinct as"
  using single_pages_distinct[OF sample_pmm_wf [of 3], of 20] by (metis surj_pair)

lemma CLEAR_SET_restore:
  assumes "\<not> page_bit s i"
  shows "CLEAR_BITMAP i (SET_BITMAP i s) = s"
proof -
  have "(pm_mem s (bitmap s + i div 8) OR push_bit (unat (i mod 8)) 1) AND NOT (push_bit (unat (i mod 8)) 1)
      = pm_mem s (bitmap s + i div 8)"
    using assms by (intro bit_word_eqI) (auto simp: page_bit_def bit_simps)
  then show ?thesis by (simp add: CLEAR_BITMAP_def SET_BITMAP_def)
qed

lemma usage_swap:
  "CLEAR_BITMAP j (INCREMENT_PAGE_USAGE s) = INCREMENT_PAGE_USAGE (CLEAR_BITMAP j s)"
  by (simp add: INCREMENT_PAGE_USAGE_def CLEAR_BITMAP_def)

lemma usage_restore:
  assumes "pageUsed s < pageCount s"
  shows "DECREMENT_PAGE_USAGE (INCREMENT_PAGE_USAGE s) = s"
proof -
  have "unat (pageUsed s + 1) = unat (pageUsed s) + 1"
    using assms unat_lt_2p64[of "pageCount s"]
    by (subst unat_add_no_wrap) (simp_all add: word_less_nat_alt)
  then have "0 < pageUsed s + 1" by (simp add: word_less_nat_alt)
  then show ?thesis using assms by (simp add: INCREMENT_PAGE_USAGE_def DECREMENT_PAGE_USAGE_def)
qed

text \<open>
  C22: in a manager of at most \<open>2 ^ 52\<close> pages, freeing the page that \<open>MmAllocateSinglePage\<close> has just returned restores the whole state, every byte of
  the bitmap included. While the usage counter is below the number of pages it is restored as well; a counter that has already
  reached it is not incremented by the allocation but still decremented by the free, so it ends one lower.
\<close>

theorem single_page_roundtrip:
  assumes "pmm_wf s" and "MmAllocateSinglePage s = (a, s1)" and "a \<noteq> NULL"
  shows "MmFreeSinglePage a s1 =
    (STATUS_SUCCESS, if pageUsed s < pageCount s then s else s\<lparr>pageUsed := pageUsed s - 1\<rparr>)"
proof -
  from MmAllocateSinglePage_cases[OF assms(1)] assms(2,3) obtain i where
    i: "i < pageCount s" "\<not> page_bit s i" "a = GetAddressFromPageLocation i"
      "s1 = INCREMENT_PAGE_USAGE (SET_BITMAP i s)" by auto
  from page_address_props(3)[OF page_small[OF assms(1) i(1)]]
  have freed: "MmFreeSinglePage a s1 = (STATUS_SUCCESS, DECREMENT_PAGE_USAGE (INCREMENT_PAGE_USAGE s))"
    using i by (simp add: MmFreeSinglePage_def usage_swap CLEAR_SET_restore)
  show ?thesis
  proof (cases "pageUsed s < pageCount s")
    case True
    then show ?thesis by (simp add: freed usage_restore)
  next
    case False
    then have "0 < pageUsed s" using i(1) by (simp add: word_less_nat_alt)
    with False show ?thesis by (simp add: freed INCREMENT_PAGE_USAGE_def DECREMENT_PAGE_USAGE_def)
  qed
qed

lemma sample_alloc: "fst (MmAllocateSinglePage (sample_pmm 3)) = 0x2000"
proof -
  have bits: "\<not> GET_BIT_IN_BITMAP (of_nat j) (sample_pmm 3) = BIT_CLEAR" if "j < 2" for j
    using that by (auto simp: GET_BIT_clear_iff page_bit_sample less_2_cases_iff)
  have "for_find 16 (\<lambda>i. GET_BIT_IN_BITMAP i (sample_pmm 3) = BIT_CLEAR \<and>
      GetAddressFromPageLocation i \<noteq> 0) = Some (of_nat 2)"
    by (rule for_find_least)
      (use bits in \<open>auto simp: GET_BIT_clear_iff page_bit_sample GetAddressFromPageLocation_def PAGE_SIZE_def\<close>)
  moreover have "unat (pageCount (sample_pmm 3)) = 16" by (simp add: sample_pmm_def)
  ultimately show ?thesis
    by (simp add: MmAllocateSinglePage_def GetAddressFromPageLocation_def PAGE_SIZE_def)
qed

lemma single_page_roundtrip_witness:
  "MmFreeSinglePage 0x2000 (snd (MmAllocateSinglePage (sample_pmm 3))) = (STATUS_SUCCESS, sample_pmm 3)"
proof -
  have "MmAllocateSinglePage (sample_pmm 3) = (0x2000, snd (MmAllocateSinglePage (sample_pmm 3)))"
    by (simp add: prod_eq_iff sample_alloc)
  from single_page_roundtrip[OF sample_pmm_wf this] show ?thesis by (simp add: sample_pmm_def)
qed

text \<open>
  With the invariant, a page that \<open>MmAllocateSinglePage\<close> returns holds no byte of the bitmap,
  the call changes nothing outside the bitmap, and whatever the caller then writes into
  its page, no page's bit changes.
\<close>

theorem single_page_contents_private:
  assumes "pmm_inv s" and "MmAllocateSinglePage s = (a, s')" and "a \<noteq> NULL"
  shows "pmm_inv s' \<and> page_aligned a \<and>
    (\<forall>x. x \<notin> bitmap_bytes s \<longrightarrow> pm_mem s' x = pm_mem s x) \<and>
    (\<forall>m k. (\<forall>x. pgno x \<noteq> pgno a \<longrightarrow> m x = pm_mem s' x) \<longrightarrow> k < pageCount s' \<longrightarrow>
       page_bit (s'\<lparr>pm_mem := m\<rparr>) k = page_bit s' k)"
proof -
  obtain i where i: "page_aligned a" "\<And>x. x \<notin> bitmap_bytes s \<Longrightarrow> pm_mem s' x = pm_mem s x"
      "\<And>x. pgno x = pgno a \<Longrightarrow> x \<notin> bitmap_bytes s"
      "pageCount s' = pageCount s" "bitmap s' = bitmap s" "pmm_inv s'"
    by (rule MmAllocateSinglePage_fresh[OF assms]) blast
  have "page_bit (s'\<lparr>pm_mem := m\<rparr>) k = page_bit s' k"
    if m: "\<forall>x. pgno x \<noteq> pgno a \<longrightarrow> m x = pm_mem s' x" and k: "k < pageCount s'" for m k
  proof -
    have "bitmap s + k div 8 \<in> bitmap_bytes s" using k i(4) by (auto simp: bitmap_bytes_def)
    then have "pgno (bitmap s + k div 8) \<noteq> pgno a" using i(3) by blast
    then show ?thesis using m by (simp add: page_bit_def i(5))
  qed
  with i show ?thesis by blast
qed

lemma sample_pmm_inv: "pmm_inv (sample_pmm 3)"
proof -
  have "unat (p div 8) < 4096 \<and> pgno (0x1000 + p div 8) = 1" if "p < 16" for p :: u64
  proof -
    have "unat (p div 8) < 2" using that by (simp add: unat_div word_less_nat_alt)
    then show ?thesis by (simp add: pgno_def unat_add_no_wrap)
  qed
  then have "unat k = 1" if "x \<in> bitmap_bytes (sample_pmm 3)" "unat k = pgno x" for x k
    using that by (auto simp: bitmap_bytes_def sample_pmm_def)
  then have "k = 1" if "x \<in> bitmap_bytes (sample_pmm 3)" "unat k = pgno x" for x and k :: u64
    using that by (metis unat_1 word_unat_eq_iff)
  moreover have "page_bit (sample_pmm 3) 1" by (simp add: page_bit_sample)
  ultimately show ?thesis
    unfolding pmm_inv_def bitmap_reserved_def using sample_pmm_wf by metis
qed

lemma single_page_contents_private_witness:
  "page_aligned 0x2000 \<and> pmm_inv (snd (MmAllocateSinglePage (sample_pmm 3)))"
  using single_page_contents_private[OF sample_pmm_inv, of "0x2000" "snd (MmAllocateSinglePage (sample_pmm 3))"]
  by (simp add: prod_eq_iff sample_alloc)


section \<open>Ranges of pages\<close>

text \<open>
  As long as no page above the first free one is in use, \<open>MmAllocateMultiplePages\<close> refines a bump
  allocator: it returns the pages at the frontier, marks exactly them and moves the
  frontier up by the amount, or returns \<open>NULL\<close> and changes nothing when they do not fit.
\<close>

theorem multiple_pages_bump:
  assumes "pmm_wf s" and "frontier s f" and "amount \<le> pageCount s" and "0 < amount"
  shows "\<exists>a s'. MmAllocateMultiplePages amount s = Some (a, s') \<and>
    (if f \<le> pageCount s - amount
     then a = GetAddressFromPageLocation f \<and> frontier s' (f + amount) \<and>
       (\<forall>k. page_bit s' k \<longleftrightarrow> page_bit s k \<or> unat (k - f) < unat amount)
     else a = NULL \<and> s' = s)"
proof (cases "f \<le> pageCount s - amount")
  case True
  have "page_bit (multi_result amount s f) k \<longleftrightarrow> page_bit s k \<or> unat (k - f) < unat amount" for k
    using assms(4) by (auto simp: page_bit_multi_result word_less_nat_alt)
  with True show ?thesis
    using frontier_multi[OF assms] frontier_multi_result[OF assms True] by auto
next
  case False
  then show ?thesis using frontier_multi[OF assms] by auto
qed

lemma sample_frontier: "frontier (sample_pmm 3) 2"
proof -
  have "k < 2 \<longleftrightarrow> k div 8 = 0 \<and> (bit (3 :: u8) (unat (k mod 8)))" for k :: u64
  proof
    assume "k < 2"
    then have "k = 0 \<or> k = 1" by (simp add: less_two_u64)
    then show "k div 8 = 0 \<and> bit (3 :: u8) (unat (k mod 8))" by auto
  next
    assume *: "k div 8 = 0 \<and> bit (3 :: u8) (unat (k mod 8))"
    then have "unat (k div 8) = 0" by simp
    then have "unat k < 8" by (simp add: unat_div)
    with * show "k < 2"
      using less_8_cases[of "unat k"] by (auto simp: word_less_nat_alt unat_mod8)
  qed
  then have "page_bit (sample_pmm 3) k \<longleftrightarrow> k < 2" for k by (simp add: page_bit_sample)
  then show ?thesis by (simp add: frontier_def not_less)
qed

lemma multiple_pages_bump_witness:
  "\<exists>s'. MmAllocateMultiplePages 4 (sample_pmm 3) = Some (0x2000, s') \<and> frontier s' 6"
  using multiple_pages_bump[OF sample_pmm_wf sample_frontier, of 4]
  by (auto simp: GetAddressFromPageLocation_def PAGE_SIZE_def)

text \<open>
  C38: \<open>MmAllocateMultiplePages\<close> compares the masked byte of a page with \<open>SET = 1\<close>, so that inside a range it
  sees a page in use only when its number is a multiple of 8. If the first free page is
  followed by a page in use whose number is not such a multiple, a request for two pages
  returns both, the second already in use by somebody else.
\<close>

theorem multiple_pages_overlap:
  assumes "pmm_wf s" and "2 \<le> pageCount s" and "i \<le> pageCount s - 2" and "0 < i"
    and "\<forall>k. 0 < k \<and> k < i \<longrightarrow> page_bit s k" and "\<not> page_bit s i"
    and "page_bit s (i + 1)" and "unat (i + 1) mod 8 \<noteq> 0"
  shows "MmAllocateMultiplePages 2 s = Some (GetAddressFromPageLocation i, multi_result 2 s i) \<and>
    GetAddressFromPageLocation (i + 1) \<in> inuse_pages s"
proof -
  note range = range_end[OF assms(1-3)]
  have "i < pageCount s" "i + 1 < pageCount s" using range(2)[of 0] range(2)[of 1] by simp_all
  note small = page_small[OF assms(1) this(1)] page_small[OF assms(1) this(2)]
  have "range_accepted s 2 i"
    using assms(4,6,8) unfolding range_accepted_iff[OF small(1)]
    by (auto simp: less_2_cases_iff)
  moreover have "\<not> range_accepted s 2 k" if "k < i" for k
  proof -
    have "unat k < 4503599627370496" using that small(1) by (simp add: word_less_nat_alt)
    from range_accepted_iff[OF this] show ?thesis using that assms(5) by blast
  qed
  moreover note MmAllocateMultiplePages_cases[OF assms(1,2)] assms(3)
  ultimately have "MmAllocateMultiplePages 2 s = Some (GetAddressFromPageLocation i, multi_result 2 s i)"
    by (metis linorder_less_linear)
  moreover have "0 < i + 1" using range(1)[of 1] by (simp add: word_less_nat_alt)
  ultimately show ?thesis
    using assms(7) \<open>i + 1 < pageCount s\<close> inuse_iff[OF assms(1) small(2)] by simp
qed

lemma multiple_pages_overlap_witness:
  "fst (the (MmAllocateMultiplePages 2 (sample_pmm 0xC))) = 0x1000 \<and>
   GetAddressFromPageLocation 2 \<in> inuse_pages (sample_pmm 0xC)"
  using multiple_pages_overlap[of "sample_pmm 0xC" 1, OF sample_pmm_wf]
  by (auto simp: page_bit_sample less_two_u64 GetAddressFromPageLocation_def PAGE_SIZE_def word_gt_0)

text \<open>The scan with the largest bound.\<close>

lemma scan_ranges_accepted:
  "scan_ranges s amount t i = Some (Some r) \<Longrightarrow> range_accepted s amount r"
proof -
  let ?P = "\<lambda>s amount (t :: u64) (i :: u64) q. case q of None \<Rightarrow> True | Some r \<Rightarrow> range_accepted s amount r"
  assume a: "scan_ranges s amount t i = Some (Some r)"
  have "?P s amount t i (Some r)"
    by (rule scan_ranges.raw_induct [where P = ?P, OF _ a]) (auto split: if_splits option.splits)
  then show ?thesis by simp
qed

lemma scan_ranges_not_none:
  "scan_ranges s amount 0xFFFFFFFFFFFFFFFF i \<noteq> Some None"
proof
  let ?P = "\<lambda>(s :: pmm) (amount :: u64) (t :: u64) (i :: u64) (q :: u64 option). t = 0xFFFFFFFFFFFFFFFF \<longrightarrow> q \<noteq> None"
  have top: "i \<le> 0xFFFFFFFFFFFFFFFF" for i :: u64
    using unat_lt_2p64[of i] by (simp add: word_le_nat_alt)
  assume a: "scan_ranges s amount 0xFFFFFFFFFFFFFFFF i = Some None"
  have "?P s amount 0xFFFFFFFFFFFFFFFF i None"
    by (rule scan_ranges.raw_induct [where P = ?P, OF _ a])
      (use top in \<open>auto split: if_splits option.splits\<close>)
  then show False by simp
qed

lemma scan_ranges_finds:
  assumes "range_accepted s amount k" and "i \<le> k" and "k \<le> t"
  shows "\<exists>r. scan_ranges s amount t i = Some (Some r)"
  using assms(2)
proof (induction "unat k - unat i" arbitrary: i rule: less_induct)
  case less
  show ?case
  proof (cases "range_accepted s amount i")
    case True
    then show ?thesis using less.prems assms(3) by (subst scan_ranges.simps) simp
  next
    case False
    then have "i \<noteq> k" using assms(1) by auto
    then have lt: "unat i < unat k" using less.prems by (simp add: word_le_nat_alt word_unat_eq_iff)
    then have up: "unat (i + 1) = unat i + 1"
      using unat_lt_2p64[of k] by (subst unat_add_no_wrap) simp_all
    have "\<exists>r. scan_ranges s amount t (i + 1) = Some (Some r)"
      by (rule less) (use lt up in \<open>simp_all add: word_le_nat_alt\<close>)
    moreover have "i \<le> t" using less.prems assms(3) by simp
    ultimately show ?thesis using False by (subst scan_ranges.simps) simp
  qed
qed

text \<open>
  C37: \<open>MmAllocateMultiplePages\<close> returns for every amount except \<open>pageCount + 1\<close>; for that one the unsigned bound
  of its loop is the largest word, and the call returns only if some range is accepted.
\<close>

theorem multiple_pages_returns_iff:
  "MmAllocateMultiplePages amount s = None \<longleftrightarrow>
     amount = pageCount s + 1 \<and> (\<forall>i. \<not> range_accepted s amount i)"
proof (cases "amount = pageCount s + 1")
  case False
  have "unat (pageCount s - amount) < 18446744073709551615"
  proof (rule ccontr)
    assume "\<not> ?thesis"
    then have "unat (pageCount s - amount) = unat (- 1 :: u64)"
      using unat_lt_2p64[of "pageCount s - amount"] by (simp add: unsigned_minus_1_eq_mask mask_eq_exp_minus_1)
    then have "pageCount s - amount = - 1" by (simp only: word_unat_eq_iff)
    then show False using False by (simp add: algebra_simps)
  qed
  from scan_ranges_result[OF this, of s amount 0] False show ?thesis
    by (auto simp: MmAllocateMultiplePages_def Let_def split: option.splits)
next
  case True
  have b: "pageCount s - amount = 0xFFFFFFFFFFFFFFFF" unfolding True by simp
  have top: "k \<le> 0xFFFFFFFFFFFFFFFF" for k :: u64
    using unat_lt_2p64[of k] by (simp add: word_le_nat_alt)
  have "scan_ranges s amount 0xFFFFFFFFFFFFFFFF 0 = None \<longleftrightarrow> (\<forall>i. \<not> range_accepted s amount i)"
    using scan_ranges_finds[OF _ _ top, of s amount _ 0] scan_ranges_accepted[of s amount _ 0]
      scan_ranges_not_none[of s amount 0]
    by (metis not_Some_eq option.exhaust word_zero_le)
  then show ?thesis
    unfolding True [symmetric]
    by (simp add: MmAllocateMultiplePages_def b True [symmetric] split: option.split) auto
qed


section \<open>The page map\<close>

text \<open>
  The page-map manager hands out distinct pages too: a run of \<open>MmAllocateSinglePage\<close> calls returns
  distinct described pages that were free, and freeing a described page makes it
  available again.
\<close>

theorem pagemap_pages_distinct:
  assumes "map_inv s" and "alloc_many PageMapAllocateSinglePage n s = (as, s')"
  shows "distinct as \<and> set as \<subseteq> map_pages s - map_inuse s \<and>
    map_inuse s' = map_inuse s \<union> set as \<and>
    (length as < n \<longrightarrow> map_pages s \<subseteq> map_inuse s') \<and>
    (\<forall>a \<in> map_pages s. fst (PageMapFreeSinglePage a s) = STATUS_SUCCESS \<and>
       map_inuse (snd (PageMapFreeSinglePage a s)) = map_inuse s - {a} \<and>
       fst (PageMapAllocateSinglePage (snd (PageMapFreeSinglePage a s))) \<noteq> NULL)"
proof -
  have "\<forall>a \<in> map_pages s. fst (PageMapFreeSinglePage a s) = STATUS_SUCCESS \<and>
       map_inuse (snd (PageMapFreeSinglePage a s)) = map_inuse s - {a} \<and>
       fst (PageMapAllocateSinglePage (snd (PageMapFreeSinglePage a s))) \<noteq> NULL"
  proof
    fix a
    assume a: "a \<in> map_pages s"
    show "fst (PageMapFreeSinglePage a s) = STATUS_SUCCESS \<and>
       map_inuse (snd (PageMapFreeSinglePage a s)) = map_inuse s - {a} \<and>
       fst (PageMapAllocateSinglePage (snd (PageMapFreeSinglePage a s))) \<noteq> NULL"
      using map_pmm.free_page[OF assms(1) a, of "fst (PageMapFreeSinglePage a s)"
          "snd (PageMapFreeSinglePage a s)"] map_pmm.free_then_alloc[OF assms(1) a] by simp
  qed
  then show ?thesis
    using map_pmm.alloc_many_inv[OF assms] map_pmm.alloc_many_length[OF assms] by blast
qed

lemma pagemap_pages_distinct_witness:
  "\<exists>as s'. alloc_many PageMapAllocateSinglePage 2 sample_pagemap = (as, s') \<and> distinct as \<and>
     set as \<subseteq> map_pages sample_pagemap"
proof -
  obtain as s' where r: "alloc_many PageMapAllocateSinglePage 2 sample_pagemap = (as, s')"
    by (rule prod.exhaust)
  have "distinct as" "set as \<subseteq> map_pages sample_pagemap - map_inuse sample_pagemap"
    using pagemap_pages_distinct[OF sample_pagemap_inv r] by (rule conjunct1, elim conjE)
  then have "distinct as" "set as \<subseteq> map_pages sample_pagemap" by auto
  with r show ?thesis by (intro exI conjI)
qed

text \<open>
  A range that the page-map manager returns consists of free described pages at consecutive
  page addresses, and exactly they become used; if there is none the call returns the
  address 1 and changes nothing.
\<close>

theorem pagemap_range_contiguous:
  assumes "map_inv s" and "amount \<le> pageMapAmount s" and "0 < amount"
    and "PageMapAllocateMultiplePages amount s = Some (a, s')"
  shows "(a = 1 \<and> s' = s) \<or>
    (\<forall>k < unat amount. a + of_nat k * PAGE_SIZE \<in> map_pages s - map_inuse s) \<and>
    map_inuse s' = map_inuse s \<union> {a + of_nat k * PAGE_SIZE | k. k < unat amount}"
  using PageMapAllocateMultiplePages_cases[OF assms(4)]
proof (elim disjE exE conjE)
  fix i
  assume i: "i \<le> pageMapAmount s - amount" and good: "range_good s i 0 (unat amount) 0"
    and a: "a = map_address s i" and s': "s' = take_map_pages i (unat amount) s"
  note idx = range_index[OF assms(2) i]
  have addr: "map_address s (i + of_nat k) = a + of_nat k * PAGE_SIZE" if "k < unat amount" for k
    using map_range_address[OF assms(1,2) i good that] a by simp
  have inj: "inj_on (map_address s) {i. i < pageMapAmount s}"
    using assms(1) by (simp add: map_inv_def)
  have free: "pg_isFree (pageMap s (i + of_nat k))" if "k < unat amount" for k
    using range_good_free[OF good that] by simp
  have "a + of_nat k * PAGE_SIZE \<in> map_pages s - map_inuse s" if k: "k < unat amount" for k
  proof -
    have "map_address s (i + of_nat k) \<notin> map_inuse s"
      using inj idx[OF k] free[OF k] by (auto simp: map_inuse_def inj_on_def)
    moreover have "map_address s (i + of_nat k) \<in> map_pages s"
      using idx[OF k] by (simp add: map_pages_def)
    ultimately show ?thesis by (simp add: addr[OF k])
  qed
  moreover have "map_inuse s' = map_inuse s \<union> {a + of_nat k * PAGE_SIZE | k. k < unat amount}"
  proof -
    have "{x. x < pageMapAmount s \<and> \<not> pg_isFree (pageMap s' x)} =
        {x. x < pageMapAmount s \<and> \<not> pg_isFree (pageMap s x)} \<union> {i + of_nat k | k. k < unat amount}"
      using idx by (auto simp: s' take_map_pages_free)
    then have "map_inuse s' = map_inuse s \<union> map_address s ` {i + of_nat k | k. k < unat amount}"
      by (simp add: map_inuse_def s' image_Un)
    also have "map_address s ` {i + of_nat k | k. k < unat amount} =
        {a + of_nat k * PAGE_SIZE | k. k < unat amount}"
      using addr by (auto simp: image_iff) (metis addr)+
    finally show ?thesis .
  qed
  ultimately show ?thesis by blast
qed simp

lemma pagemap_scan_first:
  "pg_isFree (pageMap s 0) \<Longrightarrow> range_good s 0 0 (unat amount) 0 \<Longrightarrow>
   pagemap_scan s amount b 0 = Some (Some 0)"
  by (subst pagemap_scan.simps) simp

lemma pagemap_range_contiguous_witness:
  "\<exists>s'. PageMapAllocateMultiplePages 2 sample_pagemap = Some (0x10000, s') \<and>
     0x11000 \<in> map_pages sample_pagemap - map_inuse sample_pagemap"
proof -
  have "range_good sample_pagemap 0 0 2 0"
    by (simp add: numeral_2_eq_2 sample_pagemap_def PAGE_SIZE_def)
  then have "pagemap_scan sample_pagemap 2 0 0 = Some (Some 0)"
    by (intro pagemap_scan_first) (simp_all add: sample_pagemap_def)
  moreover have fields: "pageMapAmount sample_pagemap = 2" "pg_address (pageMap sample_pagemap 0) = 0x10000"
    by (simp_all add: sample_pagemap_def)
  ultimately have "\<exists>s'. PageMapAllocateMultiplePages 2 sample_pagemap = Some (0x10000, s')"
    using fun_cong[OF take_map_pages_fields(2) [of 0 2 sample_pagemap, unfolded map_address_def], of 0] fields
    unfolding PageMapAllocateMultiplePages_def Let_def take_map_pages_def [symmetric]
    by simp
  then obtain s' where "PageMapAllocateMultiplePages 2 sample_pagemap = Some (0x10000, s')" by blast
  with pagemap_range_contiguous[OF sample_pagemap_inv _ _ this] show ?thesis
    by (force simp: sample_pagemap_def PAGE_SIZE_def dest: spec [of _ 1])
qed

text \<open>
  \<open>MmFreeMultiplePages\<close> of the page map searches the slots below \<open>pageMapAmount - amount\<close> only, so that a
  range that was returned from the last slots cannot be freed: the call answers
  \<open>STATUS_NOT_FOUND\<close> and leaves the pages in use.
\<close>

theorem pagemap_last_range_not_freed:
  assumes "map_inv s" and "0 < amount" and "amount \<le> pageMapAmount s"
  shows "PageMapFreeMultiplePages (map_address s (pageMapAmount s - amount)) amount s =
    (STATUS_NOT_FOUND, s)"
proof -
  let ?i = "pageMapAmount s - amount"
  have "?i < pageMapAmount s"
    using assms(2,3) by (simp add: word_less_nat_alt unat_sub_le word_le_nat_alt)
  have "pg_address (pageMap s (of_nat k)) \<noteq> map_address s ?i" if "k < unat ?i" for k
  proof -
    have "of_nat k < ?i" using that below_iff_of_nat by blast
    then show ?thesis
      using assms(1) \<open>?i < pageMapAmount s\<close> unfolding map_inv_def inj_on_def map_address_def
      by (metis (no_types, lifting) less_irrefl mem_Collect_eq order_less_trans)
  qed
  then have "for_find (unat ?i) (\<lambda>k. pg_address (pageMap s k) = map_address s ?i) = None"
    by (simp add: for_find_None)
  then show ?thesis by (simp add: PageMapFreeMultiplePages_def)
qed

lemma pagemap_last_range_not_freed_witness:
  "PageMapFreeMultiplePages 0x11000 1 sample_pagemap = (STATUS_NOT_FOUND, sample_pagemap)"
  using pagemap_last_range_not_freed[OF sample_pagemap_inv, of 1]
  by (simp add: sample_pagemap_def map_address_def PAGE_SIZE_def)

end
