(* ===== verification/Vmm.thy ===== *)
theory Vmm
  imports PmmBitmap
begin

text \<open>
  The kernel's virtual memory manager \<open>mm/amd64pc/vmm.c\<close>: four-level page tables that live
  in the same byte memory as the page bitmap, in pages taken from the single-page
  allocator. The kernel's page table, the register \<open>cr3\<close> written by \<open>MmUpdateCr3\<close> and the
  addresses passed to \<open>invlpg\<close> by \<open>MmInvalidatePage\<close> complete the state.
\<close>

section \<open>Definitions\<close>

definition PG_PRESENT :: u64 where
  "PG_PRESENT = 1"

definition PG_READ_WRITE :: u64 where
  "PG_READ_WRITE = 2"

definition GET_PML4_ENTRY :: "u64 \<Rightarrow> u64" where
  "GET_PML4_ENTRY x = drop_bit 39 (x AND push_bit 39 0x1ff)"

definition GET_PDPT_ENTRY :: "u64 \<Rightarrow> u64" where
  "GET_PDPT_ENTRY x = drop_bit 30 (x AND push_bit 30 0x1ff)"

definition GET_PD_ENTRY :: "u64 \<Rightarrow> u64" where
  "GET_PD_ENTRY x = drop_bit 21 (x AND push_bit 21 0x1ff)"

definition GET_PT_ENTRY :: "u64 \<Rightarrow> u64" where
  "GET_PT_ENTRY x = drop_bit 12 (x AND push_bit 12 0x1ff)"

definition PARSE_ENTRY_VALUE :: "u64 \<Rightarrow> u64" where
  "PARSE_ENTRY_VALUE x = x AND NOT 0xFFF"

record PageTable =
  pml4 :: u64

text \<open>Reading and writing \<open>pml[entry]\<close> in memory.\<close>

definition get_entry :: "pmm \<Rightarrow> u64 \<Rightarrow> u64 \<Rightarrow> u64" where
  "get_entry s pml entry = ld64 (pm_mem s) (entry_addr pml entry)"

definition set_entry :: "u64 \<Rightarrow> u64 \<Rightarrow> u64 \<Rightarrow> pmm \<Rightarrow> pmm" where
  "set_entry pml entry v s = s\<lparr>pm_mem := st64 (pm_mem s) (entry_addr pml entry) v\<rparr>"

definition clear_page :: "u64 \<Rightarrow> pmm \<Rightarrow> pmm" where
  "clear_page a s = s\<lparr>pm_mem := snd (memset a 0 PAGE_SIZE (pm_mem s))\<rparr>"

definition GetNextLevel :: "u64 \<Rightarrow> u64 \<Rightarrow> u64 \<Rightarrow> pmm \<Rightarrow> NearStatus \<times> pmm" where
  "GetNextLevel pml entry flags s =
     (if 512 \<le> entry then (STATUS_INVALID_PML_ENTRY, s)
      else let (address, s1) = MmAllocateSinglePage s
           in if address = NULL then (STATUS_OUT_OF_MEMORY, s1)
              else let s2 = clear_page address s1
                   in (STATUS_SUCCESS,
                       set_entry pml entry (address OR PG_PRESENT OR PG_READ_WRITE) s2))"

definition MmMapPage :: "PageTable \<Rightarrow> u64 \<Rightarrow> u64 \<Rightarrow> u64 \<Rightarrow> pmm \<Rightarrow> NearStatus \<times> pmm" where
  "MmMapPage table physAddr virtAddr flags s =
     (let pml4Entry = GET_PML4_ENTRY virtAddr;
          pdptEntry = GET_PDPT_ENTRY virtAddr;
          pdEntry = GET_PD_ENTRY virtAddr;
          ptEntry = GET_PT_ENTRY virtAddr;
          (r1, s1) = (if get_entry s (pml4 table) pml4Entry = 0
                      then GetNextLevel (pml4 table) pml4Entry (flags OR PG_READ_WRITE) s
                      else (STATUS_SUCCESS, s))
      in if \<not> NR_SUCCESS r1 then (r1, s1) else
      let pdpt = PARSE_ENTRY_VALUE (get_entry s1 (pml4 table) pml4Entry);
          (r2, s2) = (if get_entry s1 pdpt pdptEntry = 0
                      then GetNextLevel pdpt pdptEntry (flags OR PG_READ_WRITE) s1
                      else (STATUS_SUCCESS, s1))
      in if \<not> NR_SUCCESS r2 then (r2, s2) else
      let pd = PARSE_ENTRY_VALUE (get_entry s2 pdpt pdptEntry);
          (r3, s3) = (if get_entry s2 pd pdEntry = 0
                      then GetNextLevel pd pdEntry flags s2
                      else (STATUS_SUCCESS, s2))
      in if \<not> NR_SUCCESS r3 then (r3, s3) else
      let pt = PARSE_ENTRY_VALUE (get_entry s3 pd pdEntry)
      in (STATUS_SUCCESS, set_entry pt ptEntry (physAddr OR PG_PRESENT OR PG_READ_WRITE) s3))"

text \<open>The state of the file: \<open>kernPTable\<close>, the physical memory manager it calls, \<open>cr3\<close> and
  the pages invalidated so far, most recent first.\<close>

record vmm =
  kernPTable :: PageTable
  vm_pm :: pmm
  cr3 :: u64
  invalidated :: "u64 list"

definition MmInvalidatePage :: "u64 \<Rightarrow> vmm \<Rightarrow> vmm" where
  "MmInvalidatePage virtAddr v = v\<lparr>invalidated := virtAddr # invalidated v\<rparr>"

definition MmUpdateCr3 :: "u64 \<Rightarrow> vmm \<Rightarrow> vmm" where
  "MmUpdateCr3 pml4Addr v = v\<lparr>cr3 := pml4Addr\<rparr>"

definition MmUnmapPage :: "PageTable \<Rightarrow> u64 \<Rightarrow> vmm \<Rightarrow> NearStatus \<times> vmm" where
  "MmUnmapPage table virtAddr v =
     (let s = vm_pm v;
          pml4Entry = GET_PML4_ENTRY virtAddr;
          pdptEntry = GET_PDPT_ENTRY virtAddr;
          pdEntry = GET_PD_ENTRY virtAddr;
          ptEntry = GET_PT_ENTRY virtAddr
      in if get_entry s (pml4 table) pml4Entry = 0 then (STATUS_NOT_MAPPED, v) else
      let pdpt = PARSE_ENTRY_VALUE (get_entry s (pml4 table) pml4Entry)
      in if get_entry s pdpt pdptEntry = 0 then (STATUS_NOT_MAPPED, v) else
      let pd = PARSE_ENTRY_VALUE (get_entry s pdpt pdptEntry)
      in if get_entry s pd pdEntry = 0 then (STATUS_NOT_MAPPED, v) else
      let pt = PARSE_ENTRY_VALUE (get_entry s pd pdEntry);
          v1 = v\<lparr>vm_pm := set_entry pt ptEntry 0 s\<rparr>
      in (STATUS_SUCCESS, MmInvalidatePage virtAddr v1))"

definition MmCheckIfPageIsMapped :: "PageTable \<Rightarrow> u64 \<Rightarrow> pmm \<Rightarrow> bool" where
  "MmCheckIfPageIsMapped table virtAddr s =
     (let pml4Entry = GET_PML4_ENTRY virtAddr;
          pdptEntry = GET_PDPT_ENTRY virtAddr;
          pdEntry = GET_PD_ENTRY virtAddr;
          ptEntry = GET_PT_ENTRY virtAddr
      in if get_entry s (pml4 table) pml4Entry = 0 then False else
      let pdpt = PARSE_ENTRY_VALUE (get_entry s (pml4 table) pml4Entry)
      in if get_entry s pdpt pdptEntry = 0 then False else
      let pd = PARSE_ENTRY_VALUE (get_entry s pdpt pdptEntry)
      in if get_entry s pd pdEntry = 0 then False else
      let pt = PARSE_ENTRY_VALUE (get_entry s pd pdEntry)
      in if get_entry s pt ptEntry = 0 then False else True)"

definition MmReturnKernelPageTable :: "vmm \<Rightarrow> PageTable" where
  "MmReturnKernelPageTable v = kernPTable v"

text \<open>\<open>MmMapPage(&kernPTable, ...)\<close> as the initialisation calls it.\<close>

definition map_kernel_page :: "u64 \<Rightarrow> u64 \<Rightarrow> vmm \<Rightarrow> NearStatus \<times> vmm" where
  "map_kernel_page physAddr virtAddr v =
     (let (r, s) = MmMapPage (kernPTable v) physAddr virtAddr PG_READ_WRITE (vm_pm v)
      in (r, v\<lparr>vm_pm := s\<rparr>))"

fun map_regions :: "BootMemoryMapEntry list \<Rightarrow> vmm \<Rightarrow> (NearStatus \<times> vmm) option" where
  "map_regions [] v = Some (STATUS_SUCCESS, v)"
| "map_regions (e # es) v =
     do { (r, v1) \<leftarrow> stride_try 0 (me_size e)
                        (\<lambda>j. map_kernel_page (me_base e + j) (me_base e + j)) v;
          if \<not> NR_SUCCESS r then Some (r, v1) else map_regions es v1 }"

text \<open>
  \<open>rdmsr\<close> stands for the assembly routine \<open>ArRdmsr\<close>; the frame buffer's address and size
  are the fields of \<open>KeGraphicsReturnData()\<close>.
\<close>

definition MmInitVirtualMemoryManager ::
    "(u64 \<Rightarrow> u64) \<Rightarrow> u64 \<Rightarrow> u64 \<Rightarrow> BootInfo \<Rightarrow> vmm \<Rightarrow> (NearStatus \<times> vmm) option" where
  "MmInitVirtualMemoryManager rdmsr framebufferBase framebufferSize info v =
     (let v1 = (if pml4 (kernPTable v) \<noteq> NULL
                then v\<lparr>vm_pm := snd (MmFreeSinglePage (pml4 (kernPTable v)) (vm_pm v))\<rparr> else v);
          (a, s) = MmAllocateSinglePage (vm_pm v1);
          v2 = v1\<lparr>kernPTable := \<lparr>pml4 = a\<rparr>, vm_pm := clear_page a s\<rparr>;
          (r, v3) = for_try 0 (unat (kernelSizeInPages info))
                      (\<lambda>i. map_kernel_page (kernelLocPhys info + i * PAGE_SIZE)
                                           (kernelLocVirt info + i * PAGE_SIZE)) v2
      in if \<not> NR_SUCCESS r then Some (r, v3) else
      do { (r, v4) \<leftarrow> map_regions (map_entries (memMap info)) v3;
           if \<not> NR_SUCCESS r then Some (r, v4) else
           do { v5 \<leftarrow> stride_loop 0 framebufferSize
                        (\<lambda>i v. snd (map_kernel_page (framebufferBase + i) (framebufferBase + i) v)) v4;
                let lapicBase = rdmsr 0x1B AND 0xFFFFF000;
                    v6 = snd (map_kernel_page lapicBase lapicBase v5);
                    v7 = snd (map_kernel_page lapicBase (lapicBase + PAGE_SIZE) v6)
                in Some (STATUS_SUCCESS, MmUpdateCr3 (pml4 (kernPTable v7)) v7) } })"

end
