(* ===== verification/PageTables.thy ===== *)
theory PageTables
  imports Vmm
begin

text \<open>
  Four-level page tables as a tree, for the kernel's \<open>mm/amd64pc/vmm.c\<close> and the loader's \<open>mm/amd64pc/vmm.c\<close>, which walk and extend
  them in the same way over different allocators. A table is reached from the root by the indices of the walk, most recent first.
  The locale \<open>page_tables\<close> states what the walk needs of the memory and of the allocator.
\<close>

section \<open>Indices\<close>

lemma mask9: "(0x1ff :: u64) = mask 9"
  by (simp add: mask_eq_exp_minus_1)

lemma index_bits:
  "GET_PML4_ENTRY v = take_bit 9 (drop_bit 39 v)"
  "GET_PDPT_ENTRY v = take_bit 9 (drop_bit 30 v)"
  "GET_PD_ENTRY v = take_bit 9 (drop_bit 21 v)"
  "GET_PT_ENTRY v = take_bit 9 (drop_bit 12 v)"
  unfolding GET_PML4_ENTRY_def GET_PDPT_ENTRY_def GET_PD_ENTRY_def GET_PT_ENTRY_def mask9
  by (auto intro!: bit_word_eqI simp: bit_simps)

lemma unat_take9: "unat (take_bit 9 (x :: u64)) < 512"
  using take_bit_nat_less_exp[of 9 "unat x"] by (simp add: unsigned_take_bit_eq)

lemma index_less [simp]:
  "unat (GET_PML4_ENTRY v) < 512" "unat (GET_PDPT_ENTRY v) < 512"
  "unat (GET_PD_ENTRY v) < 512" "unat (GET_PT_ENTRY v) < 512"
  by (simp_all add: index_bits unat_take9)

lemma index_not_512 [simp]: "unat i < 512 \<Longrightarrow> \<not> (512 :: u64) \<le> i"
  by (simp add: word_le_nat_alt)

text \<open>Two virtual addresses that a four-level walk cannot tell apart: bits 12 to 47 agree.\<close>

definition same_slot :: "u64 \<Rightarrow> u64 \<Rightarrow> bool" where
  "same_slot v w \<longleftrightarrow> take_bit 36 (drop_bit 12 v) = take_bit 36 (drop_bit 12 w)"

definition path_of :: "u64 \<Rightarrow> u64 list" where
  "path_of v = [GET_PD_ENTRY v, GET_PDPT_ENTRY v, GET_PML4_ENTRY v]"

lemma take_bit_eq_bits:
  "take_bit n (drop_bit k v) = take_bit n (drop_bit k (w :: u64)) \<longleftrightarrow>
     (\<forall>i<n. bit v (k + i) = bit w (k + i))"
proof
  assume "take_bit n (drop_bit k v) = take_bit n (drop_bit k w)"
  then have "bit (take_bit n (drop_bit k v)) i = bit (take_bit n (drop_bit k w)) i" for i by simp
  then show "\<forall>i<n. bit v (k + i) = bit w (k + i)" by (auto simp: bit_simps)
qed (auto intro!: bit_word_eqI simp: bit_simps)

lemma same_slot_iff:
  "same_slot v w \<longleftrightarrow> path_of v = path_of w \<and> GET_PT_ENTRY v = GET_PT_ENTRY w"
proof -
  let ?b = "\<lambda>k. bit v k = bit w k"
  have "(\<forall>i<36. ?b (12 + i)) \<longleftrightarrow>
    (\<forall>i<9. ?b (12 + i)) \<and> (\<forall>i<9. ?b (21 + i)) \<and> (\<forall>i<9. ?b (30 + i)) \<and> (\<forall>i<9. ?b (39 + i))"
    (is "?L \<longleftrightarrow> ?A \<and> ?B \<and> ?C \<and> ?D")
  proof
    assume L: "\<forall>i<36. ?b (12 + i)"
    have "?b (12 + i)" "?b (21 + i)" "?b (30 + i)" "?b (39 + i)" if "i < 9" for i
      using that L[rule_format, of i] L[rule_format, of "9 + i"]
        L[rule_format, of "18 + i"] L[rule_format, of "27 + i"] by simp_all
    then show "?A \<and> ?B \<and> ?C \<and> ?D" by blast
  next
    assume R: "?A \<and> ?B \<and> ?C \<and> ?D"
    show ?L
    proof (intro allI impI)
      fix i :: nat
      assume "i < 36"
      then consider "i < 9" | "9 \<le> i" "i - 9 < 9" | "18 \<le> i" "i - 18 < 9" | "27 \<le> i" "i - 27 < 9"
        by linarith
      then show "?b (12 + i)"
      proof cases
        case 1 then show ?thesis using R by blast
      next
        case 2 with R have "?b (21 + (i - 9))" by blast
        with 2 show ?thesis by simp
      next
        case 3 with R have "?b (30 + (i - 18))" by blast
        with 3 show ?thesis by simp
      next
        case 4 with R have "?b (39 + (i - 27))" by blast
        with 4 show ?thesis by simp
      qed
    qed
  qed
  then show ?thesis
    by (auto simp: same_slot_def path_of_def index_bits take_bit_eq_bits)
qed

section \<open>Entries\<close>

lemma parse_page:
  assumes "page_aligned a"
  shows "PARSE_ENTRY_VALUE (a OR PG_PRESENT OR PG_READ_WRITE) = a"
    and "a OR PG_PRESENT OR PG_READ_WRITE \<noteq> 0"
proof -
  have m: "(0xFFF :: u64) = mask 12" by (simp add: mask_eq_exp_minus_1)
  have low: "\<not> bit a n" if "n < 12" for n
  proof -
    have "take_bit 12 a = 0"
      using assms by (simp add: page_aligned_def take_bit_eq_mod word_unat_eq_iff unat_mod)
    then have "\<not> bit (take_bit 12 a) n" by simp
    then show ?thesis using that by (simp add: bit_simps)
  qed
  have c: "PG_PRESENT OR PG_READ_WRITE = mask 2"
    by (simp add: PG_PRESENT_def PG_READ_WRITE_def mask_eq_exp_minus_1)
  show "PARSE_ENTRY_VALUE (a OR PG_PRESENT OR PG_READ_WRITE) = a"
    unfolding PARSE_ENTRY_VALUE_def or.assoc c m
    by (rule bit_word_eqI) (use low in \<open>auto simp: bit_simps\<close>)
  have "bit (a OR PG_PRESENT OR PG_READ_WRITE) 0"
    unfolding or.assoc c by (simp add: bit_simps)
  then show "a OR PG_PRESENT OR PG_READ_WRITE \<noteq> 0" by auto
qed


lemma leaf_nonzero: "physAddr OR PG_PRESENT OR PG_READ_WRITE \<noteq> 0"
proof
  assume "physAddr OR PG_PRESENT OR PG_READ_WRITE = 0"
  then have "bit (physAddr OR PG_PRESENT OR PG_READ_WRITE) 0 = bit (0 :: u64) 0" by simp
  then show False by (simp add: PG_PRESENT_def bit_simps)
qed

text \<open>Entries of tables that fill a page: after a store to one, and after a page is cleared.\<close>

lemma ld64_st64_entry:
  assumes "page_aligned t" "page_aligned u" "unat i < 512" "unat j < 512"
  shows "ld64 (st64 m (entry_addr t i) v) (entry_addr u j) = (if u = t \<and> j = i then v else ld64 m (entry_addr u j))"
  using assms ld64_entry_same_page[of t i j] ld64_entry_other_page[of t u i j] page_aligned_eq_iff[of t u] by auto

lemma memset_page:
  assumes "page_aligned a"
  shows "snd (memset a 0 0x1000 m) x = (if pgno x = pgno a then 0 else m x)"
proof -
  have "unat (x - a) < 4096 \<longleftrightarrow> pgno x = pgno a"
  proof
    assume "unat (x - a) < 4096"
    then show "pgno x = pgno a" using pgno_in_page[OF assms, of "unat (x - a)"] by simp
  next
    assume eq: "pgno x = pgno a"
    have "unat a = 4096 * pgno a" using page_aligned_unat[OF assms] .
    moreover have "unat x = 4096 * pgno x + unat x mod 4096" by (simp add: pgno_def)
    ultimately have "a \<le> x" "unat x - unat a < 4096" using eq by (simp_all add: word_le_nat_alt)
    then show "unat (x - a) < 4096" by (simp add: unat_sub_le)
  qed
  then show ?thesis by (simp add: memset_apply)
qed

lemma ld64_memset_page:
  assumes "page_aligned a" "page_aligned u" "unat j < 512"
  shows "ld64 (snd (memset a 0 0x1000 m)) (entry_addr u j) = (if u = a then 0 else ld64 m (entry_addr u j))"
proof (cases "u = a")
  case True
  have "ld64 (snd (memset a 0 0x1000 m)) (entry_addr a j) = ld64 (\<lambda>_. 0) (entry_addr a j)"
    by (rule ld64_same_page_bytes) (use assms True in \<open>simp_all add: memset_page\<close>)
  then show ?thesis using True by (simp add: ld64_def)
next
  case False
  then have "pgno u \<noteq> pgno a" using assms page_aligned_eq_iff by blast
  then have "ld64 (snd (memset a 0 0x1000 m)) (entry_addr u j) = ld64 m (entry_addr u j)"
    by (intro ld64_same_page_bytes) (use assms in \<open>simp_all add: memset_page\<close>)
  with False show ?thesis by simp
qed

section \<open>The tree\<close>

text \<open>\<open>ent\<close> gives the entries of a table in the current memory.\<close>

fun table_at :: "(u64 \<Rightarrow> u64 \<Rightarrow> u64) \<Rightarrow> u64 \<Rightarrow> u64 list \<Rightarrow> u64 option" where
  "table_at ent root [] = Some root"
| "table_at ent root (i # p) =
     (case table_at ent root p of
        None \<Rightarrow> None
      | Some t \<Rightarrow> if ent t i = 0 then None else Some (PARSE_ENTRY_VALUE (ent t i)))"

definition valid_path :: "u64 list \<Rightarrow> bool" where
  "valid_path p \<longleftrightarrow> length p \<le> 3 \<and> (\<forall>i \<in> set p. unat i < 512)"

text \<open>The entry that a walk for \<open>v\<close> ends at, 0 when a level is missing.\<close>

definition translation :: "(u64 \<Rightarrow> u64 \<Rightarrow> u64) \<Rightarrow> u64 \<Rightarrow> u64 \<Rightarrow> u64" where
  "translation ent root v = (case table_at ent root (path_of v) of None \<Rightarrow> 0 | Some pt \<Rightarrow> ent pt (GET_PT_ENTRY v))"

text \<open>The tables of the tree are pages that may hold one, and each is reached by one path only.\<close>

definition is_tree :: "(u64 \<Rightarrow> bool) \<Rightarrow> (u64 \<Rightarrow> u64 \<Rightarrow> u64) \<Rightarrow> u64 \<Rightarrow> bool" where
  "is_tree pg ent root \<longleftrightarrow>
     (\<forall>p t. valid_path p \<longrightarrow> table_at ent root p = Some t \<longrightarrow> pg t) \<and>
     (\<forall>p q t. valid_path p \<longrightarrow> valid_path q \<longrightarrow> table_at ent root p = Some t \<longrightarrow> table_at ent root q = Some t \<longrightarrow> p = q)"

lemma valid_path_of: "valid_path (path_of v)"
  by (simp add: valid_path_def path_of_def)

lemma valid_path_tl: "valid_path (i # p) \<Longrightarrow> valid_path p \<and> unat i < 512 \<and> length p \<le> 2"
  by (simp add: valid_path_def)

lemma is_tree_page: "is_tree pg ent root \<Longrightarrow> valid_path p \<Longrightarrow> table_at ent root p = Some t \<Longrightarrow> pg t"
  by (simp add: is_tree_def)

lemma is_tree_distinct:
  "is_tree pg ent root \<Longrightarrow> valid_path p \<Longrightarrow> valid_path q \<Longrightarrow> table_at ent root p = Some t \<Longrightarrow> table_at ent root q = Some t \<Longrightarrow> p = q"
  unfolding is_tree_def by blast

lemma table_at_cong:
  assumes "\<And>p t i. valid_path (i # p) \<Longrightarrow> table_at ent root p = Some t \<Longrightarrow> ent' t i = ent t i"
  shows "valid_path p \<Longrightarrow> table_at ent' root p = table_at ent root p"
proof (induction p)
  case Nil
  then show ?case by simp
next
  case (Cons i p)
  from Cons.IH valid_path_tl[OF Cons.prems] have "table_at ent' root p = table_at ent root p" by blast
  then show ?case using assms[OF Cons.prems] by (simp split: option.split)
qed

text \<open>Entries and pages that stay the same keep the tree.\<close>

lemma same_entries:
  assumes "is_tree pg ent root" and "\<And>u. pg u \<Longrightarrow> pg' u" and "\<And>u j. pg u \<Longrightarrow> unat j < 512 \<Longrightarrow> ent' u j = ent u j"
  shows "valid_path p \<Longrightarrow> table_at ent' root p = table_at ent root p"
    and "is_tree pg' ent' root" and "translation ent' root v = translation ent root v"
proof -
  show tab: "table_at ent' root p = table_at ent root p" if "valid_path p" for p
    by (rule table_at_cong[OF _ that]) (use assms(3) is_tree_page[OF assms(1)] valid_path_tl in blast)
  show "is_tree pg' ent' root"
    unfolding is_tree_def using tab assms(2) is_tree_page[OF assms(1)] is_tree_distinct[OF assms(1)] by metis
  show "translation ent' root v = translation ent root v"
    using tab[OF valid_path_of] assms(3) is_tree_page[OF assms(1) valid_path_of] by (simp add: translation_def split: option.split)
qed

text \<open>An empty root table is a tree.\<close>

lemma empty_root:
  assumes "pg a" and z: "\<And>j. unat j < 512 \<Longrightarrow> ent a j = 0"
  shows "is_tree pg ent a"
proof -
  have one: "p = [] \<and> t = a" if "valid_path p" "table_at ent a p = Some t" for p t
    using that
  proof (induction p arbitrary: t)
    case (Cons i p)
    then obtain u where u: "table_at ent a p = Some u" by (auto split: option.splits)
    with Cons valid_path_tl[OF Cons.prems(1)] have "u = a" by blast
    with Cons.prems u valid_path_tl[OF Cons.prems(1)] show ?case by (simp add: z)
  qed simp
  with assms(1) show ?thesis unfolding is_tree_def by metis
qed

section \<open>Writing an entry\<close>

lemma write_leaf:
  assumes tree: "is_tree pg ent root" and p: "valid_path p" "length p = 3" and t: "table_at ent root p = Some t"
    and ent': "\<And>u i. pg u \<Longrightarrow> unat i < 512 \<Longrightarrow> ent' u i = (if u = t \<and> i = j then v else ent u i)"
  shows "is_tree pg ent' root"
    and "valid_path q \<Longrightarrow> table_at ent' root q = table_at ent root q"
    and "translation ent' root w = (if path_of w = p \<and> GET_PT_ENTRY w = j then v else translation ent root w)"
proof -
  have keep: "ent' u i = ent u i" if "valid_path (i # q)" "table_at ent root q = Some u" for q u i
  proof -
    note q = valid_path_tl[OF that(1)]
    have "u \<noteq> t" using is_tree_distinct[OF tree _ p(1) that(2)] q t p(2) by fastforce
    then show ?thesis using q ent' is_tree_page[OF tree _ that(2)] by simp
  qed
  show tab: "table_at ent' root q = table_at ent root q" if "valid_path q" for q
    by (rule table_at_cong[OF _ that]) (rule keep)
  show "is_tree pg ent' root"
    unfolding is_tree_def using tab is_tree_page[OF tree] is_tree_distinct[OF tree] by metis
  show "translation ent' root w = (if path_of w = p \<and> GET_PT_ENTRY w = j then v else translation ent root w)"
  proof (cases "table_at ent root (path_of w)")
    case None
    then show ?thesis using t by (auto simp: translation_def tab valid_path_of)
  next
    case (Some u)
    then have "u = t \<longleftrightarrow> path_of w = p"
      using is_tree_distinct[OF tree valid_path_of p(1) Some] t by auto
    then show ?thesis
      using Some ent' is_tree_page[OF tree valid_path_of Some] by (auto simp: translation_def tab valid_path_of)
  qed
qed

text \<open>Entering a new, empty table \<open>a\<close> at an entry that was 0.\<close>

lemma new_level_table_at:
  assumes tree: "is_tree pg ent root" and ip: "valid_path (i # p)" and t: "table_at ent root p = Some t" and z: "ent t i = 0"
    and ti: "ent' t i \<noteq> 0" "PARSE_ENTRY_VALUE (ent' t i) = a"
    and az: "\<And>j. unat j < 512 \<Longrightarrow> ent' a j = 0"
    and keep: "\<And>u j. pg u \<Longrightarrow> unat j < 512 \<Longrightarrow> u \<noteq> t \<or> j \<noteq> i \<Longrightarrow> ent' u j = ent u j"
  shows "valid_path q \<Longrightarrow> table_at ent' root q = (if q = i # p then Some a else table_at ent root q)"
proof (induction q)
  case Nil
  then show ?case by simp
next
  case (Cons j q)
  note q = valid_path_tl[OF Cons.prems]
  then have IH: "table_at ent' root q = (if q = i # p then Some a else table_at ent root q)"
    using Cons.IH by blast
  show ?case
  proof (cases "q = i # p")
    case True
    then have "table_at ent root q = None" using t z by simp
    then show ?thesis using True IH az q by auto
  next
    case False
    show ?thesis
    proof (cases "table_at ent root q")
      case None
      then show ?thesis using IH False t by auto
    next
      case (Some u)
      have pu: "pg u" using is_tree_page[OF tree _ Some] q by blast
      have "u = t \<longleftrightarrow> q = p"
      proof
        assume "u = t"
        with t have "table_at ent root p = Some u" by simp
        then show "q = p" using is_tree_distinct[OF tree, of q p u] Some q valid_path_tl[OF ip] by blast
      next
        assume "q = p"
        with t Some show "u = t" by simp
      qed
      moreover have "table_at ent' root q = Some u" using IH False Some by simp
      ultimately show ?thesis
        using Some keep[OF pu, of j] q ti t by (cases "q = p"; cases "j = i"; simp)
    qed
  qed
qed

lemma new_level:
  assumes tree: "is_tree pg ent root" and p: "valid_path (i # p)" and t: "table_at ent root p = Some t" and z: "ent t i = 0"
    and a: "page_aligned a" "pg' a" "\<not> pg a" and pages: "\<And>u. pg u \<Longrightarrow> pg' u"
    and ti: "ent' t i = a OR PG_PRESENT OR PG_READ_WRITE"
    and az: "\<And>j. unat j < 512 \<Longrightarrow> ent' a j = 0"
    and keep: "\<And>u j. pg u \<Longrightarrow> unat j < 512 \<Longrightarrow> u \<noteq> t \<or> j \<noteq> i \<Longrightarrow> ent' u j = ent u j"
  shows "is_tree pg' ent' root"
    and "valid_path q \<Longrightarrow> table_at ent root q = Some u \<Longrightarrow> table_at ent' root q = Some u"
    and "translation ent' root v = translation ent root v"
    and "table_at ent' root (i # p) = Some (PARSE_ENTRY_VALUE (ent' t i))"
proof -
  have tab: "table_at ent' root q = (if q = i # p then Some a else table_at ent root q)" if "valid_path q" for q
    by (rule new_level_table_at[OF tree p t z _ _ az keep that]) (simp_all add: ti parse_page[OF a(1)])
  have old: "u \<noteq> a" if "valid_path q" "table_at ent root q = Some u" for q u
    using is_tree_page[OF tree that] a(3) by auto
  have none: "table_at ent root (i # p) = None" using t z by simp
  show "is_tree pg' ent' root"
    unfolding is_tree_def
  proof (intro conjI allI impI)
    show "pg' u" if "valid_path q" "table_at ent' root q = Some u" for q u
      using that is_tree_page[OF tree] pages a(2) by (auto simp: tab split: if_splits)
    show "q = q'" if "valid_path q" "valid_path q'" "table_at ent' root q = Some u" "table_at ent' root q' = Some u" for q q' u
      using that is_tree_distinct[OF tree that(1,2)] old[OF that(1)] old[OF that(2)] by (metis tab option.inject)
  qed
  show "table_at ent' root q = Some u" if "valid_path q" "table_at ent root q = Some u"
    using that none by (auto simp: tab)
  show "table_at ent' root (i # p) = Some (PARSE_ENTRY_VALUE (ent' t i))"
    using tab[OF p] ti parse_page[OF a(1)] by simp
  show "translation ent' root v = translation ent root v"
  proof (cases "table_at ent root (path_of v)")
    case None
    then show ?thesis by (simp add: translation_def tab valid_path_of az split: option.split)
  next
    case (Some u)
    have "u \<noteq> t"
    proof
      assume "u = t"
      then have "path_of v = p" using is_tree_distinct[OF tree valid_path_of _ Some] t valid_path_tl[OF p] by blast
      then have "length p = 3" by (auto simp: path_of_def)
      then show False using valid_path_tl[OF p] by simp
    qed
    moreover have "path_of v \<noteq> i # p" using Some none by auto
    ultimately show ?thesis
      using Some keep[OF is_tree_page[OF tree valid_path_of Some], of "GET_PT_ENTRY v"]
      by (simp add: translation_def tab valid_path_of)
  qed
qed

section \<open>The walk that maps a page\<close>

text \<open>\<open>get\<close> and \<open>put\<close> read and write an entry; \<open>new\<close> gets an empty page.\<close>

definition walk_level ::
    "('s \<Rightarrow> u64 \<Rightarrow> u64 \<Rightarrow> u64) \<Rightarrow> (u64 \<Rightarrow> u64 \<Rightarrow> u64 \<Rightarrow> 's \<Rightarrow> 's) \<Rightarrow> ('s \<Rightarrow> u64 option \<times> 's) \<Rightarrow> u64 \<Rightarrow> u64 \<Rightarrow> 's \<Rightarrow> bool \<times> 's" where
  "walk_level get put new t i s =
     (if get s t i = 0
      then case new s of (None, s) \<Rightarrow> (False, s) | (Some a, s) \<Rightarrow> (True, put t i (a OR PG_PRESENT OR PG_READ_WRITE) s)
      else (True, s))"

definition map_walk ::
    "('s \<Rightarrow> u64 \<Rightarrow> u64 \<Rightarrow> u64) \<Rightarrow> (u64 \<Rightarrow> u64 \<Rightarrow> u64 \<Rightarrow> 's \<Rightarrow> 's) \<Rightarrow> ('s \<Rightarrow> u64 option \<times> 's) \<Rightarrow>
      u64 \<Rightarrow> u64 \<Rightarrow> u64 \<Rightarrow> 's \<Rightarrow> bool \<times> 's" where
  "map_walk get put new root phys virt s =
     (let (r1, s1) = walk_level get put new root (GET_PML4_ENTRY virt) s
      in if \<not> r1 then (False, s1) else
      let pdpt = PARSE_ENTRY_VALUE (get s1 root (GET_PML4_ENTRY virt));
          (r2, s2) = walk_level get put new pdpt (GET_PDPT_ENTRY virt) s1
      in if \<not> r2 then (False, s2) else
      let pd = PARSE_ENTRY_VALUE (get s2 pdpt (GET_PDPT_ENTRY virt));
          (r3, s3) = walk_level get put new pd (GET_PD_ENTRY virt) s2
      in if \<not> r3 then (False, s3) else
      let pt = PARSE_ENTRY_VALUE (get s3 pd (GET_PD_ENTRY virt))
      in (True, put pt (GET_PT_ENTRY virt) (phys OR PG_PRESENT OR PG_READ_WRITE) s3))"

text \<open>
  What the walk needs: entries of pages that may hold tables behave as an array of arrays, and the allocator gives an empty page that
  no table is in, without touching the others. \<open>room\<close> is a lower bound on how many pages it still has.
\<close>

locale page_tables =
  fixes get :: "'s \<Rightarrow> u64 \<Rightarrow> u64 \<Rightarrow> u64"
    and put :: "u64 \<Rightarrow> u64 \<Rightarrow> u64 \<Rightarrow> 's \<Rightarrow> 's"
    and new :: "'s \<Rightarrow> u64 option \<times> 's"
    and ok :: "'s \<Rightarrow> bool"
    and page :: "'s \<Rightarrow> u64 \<Rightarrow> bool"
    and room :: "'s \<Rightarrow> nat"
  assumes put_ok: "ok s \<Longrightarrow> page s t \<Longrightarrow> unat i < 512 \<Longrightarrow> ok (put t i v s)"
    and put_page: "ok s \<Longrightarrow> page s t \<Longrightarrow> unat i < 512 \<Longrightarrow> page (put t i v s) u \<longleftrightarrow> page s u"
    and put_room: "ok s \<Longrightarrow> page s t \<Longrightarrow> unat i < 512 \<Longrightarrow> room (put t i v s) = room s"
    and get_put: "ok s \<Longrightarrow> page s t \<Longrightarrow> page s u \<Longrightarrow> unat i < 512 \<Longrightarrow> unat j < 512 \<Longrightarrow>
      get (put t i v s) u j = (if u = t \<and> j = i then v else get s u j)"
    and new_ok: "ok s \<Longrightarrow> new s = (r, s') \<Longrightarrow> ok s'"
    and new_pages: "ok s \<Longrightarrow> new s = (r, s') \<Longrightarrow> page s u \<Longrightarrow> page s' u"
    and new_get: "ok s \<Longrightarrow> new s = (r, s') \<Longrightarrow> page s u \<Longrightarrow> unat j < 512 \<Longrightarrow> get s' u j = get s u j"
    and new_none: "ok s \<Longrightarrow> new s = (None, s') \<Longrightarrow> room s = 0"
    and new_some: "ok s \<Longrightarrow> new s = (Some a, s') \<Longrightarrow> page_aligned a \<and> \<not> page s a \<and> page s' a \<and> room s \<le> Suc (room s')"
    and new_empty: "ok s \<Longrightarrow> new s = (Some a, s') \<Longrightarrow> unat j < 512 \<Longrightarrow> get s' a j = 0"
begin

lemma level_result:
  assumes ok: "ok s" and tree: "is_tree (page s) (get s) root" and p: "valid_path (i # p)" and t: "table_at (get s) root p = Some t"
    and e: "walk_level get put new t i s = (r, s')"
  shows "ok s'" and "is_tree (page s') (get s') root"
    and "\<And>v. translation (get s') root v = translation (get s) root v"
    and "r \<Longrightarrow> table_at (get s') root (i # p) = Some (PARSE_ENTRY_VALUE (get s' t i))"
    and "room s \<le> Suc (room s')" and "\<not> r \<Longrightarrow> room s = 0"
proof -
  note q = valid_path_tl[OF p]
  have pt: "page s t" using is_tree_page[OF tree _ t] q by blast
  have "ok s' \<and> is_tree (page s') (get s') root \<and> (\<forall>v. translation (get s') root v = translation (get s) root v) \<and>
    (r \<longrightarrow> table_at (get s') root (i # p) = Some (PARSE_ENTRY_VALUE (get s' t i))) \<and> room s \<le> Suc (room s') \<and> (\<not> r \<longrightarrow> room s = 0)"
  proof (cases "get s t i = 0")
    case False
    then have "s' = s" r using e by (simp_all add: walk_level_def)
    with False show ?thesis using ok tree t by simp
  next
    case z: True
    obtain x s1 where n: "new s = (x, s1)" by fastforce
    have s1: "ok s1" "\<And>u. page s u \<Longrightarrow> page s1 u" "\<And>u j. page s u \<Longrightarrow> unat j < 512 \<Longrightarrow> get s1 u j = get s u j"
      using new_ok[OF ok n] new_pages[OF ok n] new_get[OF ok n] by blast+
    show ?thesis
    proof (cases x)
      case None
      then have "s' = s1" "\<not> r" using e z n by (simp_all add: walk_level_def)
      with s1(1) same_entries[OF tree s1(2,3)] new_none[OF ok n[unfolded None]] show ?thesis by simp
    next
      case (Some a)
      then have r: r and s': "s' = put t i (a OR PG_PRESENT OR PG_READ_WRITE) s1" using e z n by (simp_all add: walk_level_def)
      note a = new_some[OF ok n[unfolded Some]]
      note pt1 = s1(2)[OF pt]
      have i: "unat i < 512" using q by blast
      have g: "get s' u j = (if u = t \<and> j = i then a OR PG_PRESENT OR PG_READ_WRITE else get s1 u j)" if "page s1 u" "unat j < 512" for u j
        unfolding s' by (rule get_put[OF s1(1) pt1 that(1) i that(2)])
      have pg: "page s' u \<longleftrightarrow> page s1 u" for u unfolding s' by (rule put_page[OF s1(1) pt1 i])
      have ta: "t \<noteq> a" using a pt by blast
      have lev: "page_aligned a" "page s' a" "\<not> page s a" "\<And>u. page s u \<Longrightarrow> page s' u"
        "get s' t i = a OR PG_PRESENT OR PG_READ_WRITE" "\<And>j. unat j < 512 \<Longrightarrow> get s' a j = 0"
        "\<And>u j. page s u \<Longrightarrow> unat j < 512 \<Longrightarrow> u \<noteq> t \<or> j \<noteq> i \<Longrightarrow> get s' u j = get s u j"
        using a s1 g pg pt1 i ta new_empty[OF ok n[unfolded Some]] by auto
      note l = new_level[where pg' = "page s'" and ent' = "get s'", OF tree p t z lev]
      have "ok s'" unfolding s' by (rule put_ok[OF s1(1) pt1 i])
      moreover have "room s \<le> Suc (room s')" using a unfolding s' put_room[OF s1(1) pt1 i] by blast
      ultimately show ?thesis using l(1,3,4) r by blast
    qed
  qed
  then show "ok s'" "is_tree (page s') (get s') root" "\<And>v. translation (get s') root v = translation (get s) root v"
    "r \<Longrightarrow> table_at (get s') root (i # p) = Some (PARSE_ENTRY_VALUE (get s' t i))" "room s \<le> Suc (room s')" "\<not> r \<Longrightarrow> room s = 0"
    by blast+
qed

lemma leaf_result:
  assumes ok: "ok s" and tree: "is_tree (page s) (get s) root" and p: "valid_path p" "length p = 3"
    and t: "table_at (get s) root p = Some t" and j: "unat j < 512"
  shows "ok (put t j v s)" and "is_tree (page (put t j v s)) (get (put t j v s)) root"
    and "valid_path q \<Longrightarrow> table_at (get (put t j v s)) root q = table_at (get s) root q"
    and "translation (get (put t j v s)) root w = (if path_of w = p \<and> GET_PT_ENTRY w = j then v else translation (get s) root w)"
    and "room (put t j v s) = room s"
proof -
  have pt: "page s t" by (rule is_tree_page[OF tree p(1) t])
  have pg: "page (put t j v s) = page s" using put_page[OF ok pt j] by (simp add: fun_eq_iff)
  note l = write_leaf[where ent' = "get (put t j v s)" and j = j and v = v, OF tree p t get_put[OF ok pt _ j]]
  show "ok (put t j v s)" by (rule put_ok[OF ok pt j])
  show "is_tree (page (put t j v s)) (get (put t j v s)) root" unfolding pg by (rule l(1))
  show "valid_path q \<Longrightarrow> table_at (get (put t j v s)) root q = table_at (get s) root q" by (rule l(2))
  show "translation (get (put t j v s)) root w = (if path_of w = p \<and> GET_PT_ENTRY w = j then v else translation (get s) root w)"
    by (rule l(3))
  show "room (put t j v s) = room s" by (rule put_room[OF ok pt j])
qed

text \<open>The whole walk.\<close>

lemma map_result:
  assumes ok: "ok s" and tree: "is_tree (page s) (get s) root" and m: "map_walk get put new root phys virt s = (r, s')"
  shows "ok s' \<and> is_tree (page s') (get s') root \<and>
    (\<forall>w. translation (get s') root w =
       (if r \<and> same_slot w virt then phys OR PG_PRESENT OR PG_READ_WRITE else translation (get s) root w)) \<and>
    (3 \<le> room s \<longrightarrow> r) \<and> room s \<le> room s' + 3"
proof -
  let ?i1 = "GET_PML4_ENTRY virt" and ?i2 = "GET_PDPT_ENTRY virt" and ?i3 = "GET_PD_ENTRY virt" and ?i4 = "GET_PT_ENTRY virt"
  have v: "valid_path [?i1]" "valid_path [?i2, ?i1]" "valid_path [?i3, ?i2, ?i1]" by (simp_all add: valid_path_def)
  obtain r1 s1 where 1: "walk_level get put new root ?i1 s = (r1, s1)" by fastforce
  have t0: "table_at (get s) root [] = Some root" by simp
  note l1 = level_result[OF ok tree v(1) t0 1]
  show ?thesis
  proof (cases r1)
    case False
    with m 1 have "\<not> r" "s' = s1" by (simp_all add: map_walk_def)
    with False l1 show ?thesis by simp
  next
    case r1: True
    define t1 where "t1 = PARSE_ENTRY_VALUE (get s1 root ?i1)"
    have t1: "table_at (get s1) root [?i1] = Some t1" using l1(4) r1 by (simp add: t1_def)
    obtain r2 s2 where 2: "walk_level get put new t1 ?i2 s1 = (r2, s2)" by fastforce
    note l2 = level_result[OF l1(1,2) v(2) t1 2]
    show ?thesis
    proof (cases r2)
      case False
      with m 1 2 r1 have "\<not> r" "s' = s2" by (simp_all add: map_walk_def Let_def flip: t1_def)
      with False l1 l2 show ?thesis by simp
    next
      case r2: True
      define t2 where "t2 = PARSE_ENTRY_VALUE (get s2 t1 ?i2)"
      have t2: "table_at (get s2) root [?i2, ?i1] = Some t2" using l2(4) r2 by (simp add: t2_def)
      obtain r3 s3 where 3: "walk_level get put new t2 ?i3 s2 = (r3, s3)" by fastforce
      note l3 = level_result[OF l2(1,2) v(3) t2 3]
      show ?thesis
      proof (cases r3)
        case False
        with m 1 2 3 r1 r2 have "\<not> r" "s' = s3" by (simp_all add: map_walk_def Let_def flip: t1_def t2_def)
        with False l1 l2 l3 show ?thesis by simp
      next
        case r3: True
        define t3 where "t3 = PARSE_ENTRY_VALUE (get s3 t2 ?i3)"
        have t3: "table_at (get s3) root [?i3, ?i2, ?i1] = Some t3" using l3(4) r3 by (simp add: t3_def)
        have s': r "s' = put t3 ?i4 (phys OR PG_PRESENT OR PG_READ_WRITE) s3"
          using m 1 2 3 r1 r2 r3 by (simp_all add: map_walk_def Let_def flip: t1_def t2_def t3_def)
        note leaf = leaf_result[OF l3(1,2) v(3) _ t3, of ?i4]
        show ?thesis
          using leaf(1,2,4,5) l1(3,5) l2(3,5) l3(3,5) by (simp add: s' same_slot_iff path_of_def [of virt] del: conj_assoc)
      qed
    qed
  qed
qed

end

end
