(* ===== verification/VmmTree.thy ===== *)
theory VmmTree
  imports PageTables
begin

text \<open>
  The kernel's page tables as a tree: the tables of one tree are distinct pages that the physical memory manager holds
  in use and that share no byte with its bitmap. The theory discharges the laws of \<open>page_tables\<close> for the bitmap physical memory manager.
\<close>

section \<open>Entries\<close>

lemma set_entry_fields [simp, frame_simps]:
  "pageCount (set_entry t i v s) = pageCount s"
  "bitmap (set_entry t i v s) = bitmap s"
  "pageCount (clear_page a s) = pageCount s"
  "bitmap (clear_page a s) = bitmap s"
  by (simp_all add: set_entry_def clear_page_def)

lemma get_entry_set:
  assumes "page_aligned t" "page_aligned u" "unat i < 512" "unat j < 512"
  shows "get_entry (set_entry t i v s) u j = (if u = t \<and> j = i then v else get_entry s u j)"
  using ld64_st64_entry[OF assms] by (simp add: get_entry_def set_entry_def)

lemma clear_page_mem:
  assumes "page_aligned a"
  shows "pm_mem (clear_page a s) x = (if pgno x = pgno a then 0 else pm_mem s x)"
  using memset_page[OF assms] by (simp add: clear_page_def PAGE_SIZE_def)

lemma get_entry_clear:
  assumes "page_aligned a" "page_aligned u" "unat j < 512"
  shows "get_entry (clear_page a s) u j = (if u = a then 0 else get_entry s u j)"
  using ld64_memset_page[OF assms] by (simp add: get_entry_def clear_page_def PAGE_SIZE_def)

section \<open>The tree\<close>

text \<open>A page that the physical memory manager holds in use, apart from its bitmap.\<close>

definition table_page :: "pmm \<Rightarrow> u64 \<Rightarrow> bool" where
  "table_page s t \<longleftrightarrow> page_aligned t \<and> (\<exists>k < pageCount s. page_bit s k \<and> unat k = pgno t) \<and>
     (\<forall>x. pgno x = pgno t \<longrightarrow> x \<notin> bitmap_bytes s)"

definition tree_inv :: "pmm \<Rightarrow> u64 \<Rightarrow> bool" where
  "tree_inv s root \<longleftrightarrow> pmm_inv s \<and> is_tree (table_page s) (get_entry s) root"

definition vmm_lookup :: "pmm \<Rightarrow> u64 \<Rightarrow> u64 \<Rightarrow> u64" where
  "vmm_lookup s root v = translation (get_entry s) root v"

text \<open>The managed pages that are not in use.\<close>

definition free_set :: "pmm \<Rightarrow> u64 set" where
  "free_set s = {k. 0 < k \<and> k < pageCount s \<and> \<not> page_bit s k}"

text \<open>What \<open>GetNextLevel\<close> does before it writes the entry.\<close>

definition kernel_new :: "pmm \<Rightarrow> u64 option \<times> pmm" where
  "kernel_new s = (let (a, s1) = MmAllocateSinglePage s in if a = NULL then (None, s1) else (Some a, clear_page a s1))"

lemma bitmap_bytes_cong:
  "pageCount s' = pageCount s \<Longrightarrow> bitmap s' = bitmap s \<Longrightarrow> bitmap_bytes s' = bitmap_bytes s"
  by (simp add: bitmap_bytes_def)

text \<open>Writing inside a page that holds no byte of the bitmap keeps every page's bit.\<close>

lemma pmm_inv_outside:
  assumes "pmm_inv s" and "pageCount s' = pageCount s" and "bitmap s' = bitmap s"
    and "\<And>x. x \<in> bitmap_bytes s \<Longrightarrow> pm_mem s' x = pm_mem s x"
  shows "pmm_inv s'" and "k < pageCount s \<Longrightarrow> page_bit s' k = page_bit s k"
proof -
  show bits: "page_bit s' k = page_bit s k" if "k < pageCount s" for k
  proof -
    have "bitmap s + k div 8 \<in> bitmap_bytes s" using that by (auto simp: bitmap_bytes_def)
    then show ?thesis by (simp add: page_bit_def assms(3,4))
  qed
  show "pmm_inv s'"
    using assms(1,2) bits bitmap_bytes_cong[OF assms(2,3)]
    by (auto simp: pmm_inv_def pmm_wf_def bitmap_reserved_def)
qed

lemma set_entry_laws:
  assumes inv: "pmm_inv s" and t: "table_page s t" and i: "unat i < 512"
  shows "pmm_inv (set_entry t i v s)" and "table_page (set_entry t i v s) u \<longleftrightarrow> table_page s u"
    and "free_set (set_entry t i v s) = free_set s"
proof -
  let ?s = "set_entry t i v s"
  have mem: "pm_mem ?s x = pm_mem s x" if "x \<in> bitmap_bytes s" for x
    using that t i unfolding set_entry_def table_page_def by (auto intro: st64_entry_other_page)
  note out = pmm_inv_outside[of s ?s, OF inv _ _ mem]
  show "pmm_inv ?s" using out(1) by simp
  show "table_page ?s u \<longleftrightarrow> table_page s u" using out(2) bitmap_bytes_cong[of ?s s] by (auto simp: table_page_def)
  show "free_set ?s = free_set s" using out(2) by (auto simp: free_set_def)
qed

lemma kernel_new_full:
  assumes "pmm_inv s" and "kernel_new s = (None, s')"
  shows "s' = s" and "free_set s = {}"
proof -
  obtain a s1 where al: "MmAllocateSinglePage s = (a, s1)" by fastforce
  with assms(2) have a: "a = NULL" "s' = s1" by (auto simp: kernel_new_def split: if_splits)
  then show "s' = s" using al MmAllocateSinglePage_full pmm_inv_wf[OF assms(1)] by blast
  show "free_set s = {}"
    using bitmap_pmm.alloc_null_iff[OF pmm_inv_wf[OF assms(1)]] al a
      inuse_iff[OF pmm_inv_wf[OF assms(1)] page_small[OF pmm_inv_wf[OF assms(1)]]]
    by (auto simp: free_set_def managed_pages_def)
qed

lemma kernel_new_page:
  assumes inv: "pmm_inv s" and n: "kernel_new s = (Some a, s')"
  shows "pmm_inv s'" and "page_aligned a" and "\<not> table_page s a" and "table_page s' a"
    and "card (free_set s) \<le> Suc (card (free_set s'))"
    and "table_page s u \<Longrightarrow> table_page s' u"
    and "unat j < 512 \<Longrightarrow> get_entry s' a j = 0"
    and "table_page s u \<Longrightarrow> unat j < 512 \<Longrightarrow> get_entry s' u j = get_entry s u j"
proof -
  obtain s1 where al: "MmAllocateSinglePage s = (a, s1)" and a: "a \<noteq> NULL" and s': "s' = clear_page a s1"
    using n by (auto simp: kernel_new_def split: prod.splits if_splits)
  obtain k where k: "k < pageCount s" "\<not> page_bit s k" "pgno a = unat k" "page_aligned a"
    and bits: "\<And>l. page_bit s1 l \<longleftrightarrow> l = k \<or> page_bit s l"
    and mem: "\<And>x. x \<notin> bitmap_bytes s \<Longrightarrow> pm_mem s1 x = pm_mem s x"
    and priv: "\<And>x. pgno x = pgno a \<Longrightarrow> x \<notin> bitmap_bytes s"
    and f1: "pageCount s1 = pageCount s" "bitmap s1 = bitmap s" and inv1: "pmm_inv s1"
    by (rule MmAllocateSinglePage_fresh[OF inv al a]) blast
  have f': "pageCount s' = pageCount s" "bitmap s' = bitmap s" by (simp_all add: s' f1)
  have bb: "bitmap_bytes s1 = bitmap_bytes s" "bitmap_bytes s' = bitmap_bytes s" using bitmap_bytes_cong f1 f' by blast+
  have mem': "pm_mem s' x = pm_mem s1 x" if "x \<in> bitmap_bytes s1" for x
    using that priv clear_page_mem[OF k(4)] by (auto simp: s' bb)
  note out = pmm_inv_outside[of s1 s', OF inv1 _ _ mem']
  show "pmm_inv s'" using out(1) f1 f' by simp
  have bits': "page_bit s' l \<longleftrightarrow> l = k \<or> page_bit s l" if "l < pageCount s" for l
    using out(2) f1 f' that bits by simp
  show "page_aligned a" by (rule k(4))
  have unused: "\<not> (\<exists>k < pageCount s. page_bit s k \<and> unat k = pgno a)" using k by (metis word_unat_eq_iff)
  then show "\<not> table_page s a" by (auto simp: table_page_def)
  show "table_page s' a" using k priv bits' by (auto simp: table_page_def f' bb)
  have "free_set s' = free_set s - {k}" using bits' by (auto simp: free_set_def f')
  then show "card (free_set s) \<le> Suc (card (free_set s'))"
    using card_Diff_singleton_if[of "free_set s"] by (auto simp: card_gt_0_iff)
  show "table_page s' u" if "table_page s u" using that bits' by (auto simp: table_page_def f' bb)
  show "get_entry s' a j = 0" if "unat j < 512" using that k(4) by (simp add: s' get_entry_clear)
  show "get_entry s' u j = get_entry s u j" if "table_page s u" "unat j < 512"
  proof -
    have u: "page_aligned u" "u \<noteq> a" using that(1) unused by (auto simp: table_page_def)
    have "get_entry s' u j = get_entry s1 u j" using u that(2) k(4) by (simp add: s' get_entry_clear)
    also have "\<dots> = get_entry s u j"
      unfolding get_entry_def by (rule ld64_same_page_bytes[OF u(1) that(2)], rule mem) (use that(1) in \<open>simp add: table_page_def\<close>)
    finally show ?thesis .
  qed
qed

lemma kernel_new_keeps:
  assumes inv: "pmm_inv s" and n: "kernel_new s = (r, s')"
  shows "pmm_inv s'" and "table_page s u \<Longrightarrow> table_page s' u"
    and "table_page s u \<Longrightarrow> unat j < 512 \<Longrightarrow> get_entry s' u j = get_entry s u j"
proof -
  have "pmm_inv s' \<and> (table_page s u \<longrightarrow> table_page s' u) \<and> (table_page s u \<and> unat j < 512 \<longrightarrow> get_entry s' u j = get_entry s u j)"
  proof (cases r)
    case None
    then show ?thesis using kernel_new_full(1)[OF inv] n inv by simp
  next
    case (Some a)
    note p = kernel_new_page[OF inv n[unfolded Some]]
    show ?thesis using p(1) p(6)[of u] p(8)[of u j] by simp
  qed
  then show "pmm_inv s'" "table_page s u \<Longrightarrow> table_page s' u"
    "table_page s u \<Longrightarrow> unat j < 512 \<Longrightarrow> get_entry s' u j = get_entry s u j" by simp_all
qed

lemma page_entries:
  assumes "table_page s t" and "table_page s u" and "unat i < 512" and "unat j < 512"
  shows "get_entry (set_entry t i v s) u j = (if u = t \<and> j = i then v else get_entry s u j)"
  using assms by (intro get_entry_set) (simp_all add: table_page_def)

interpretation kernel_tables: page_tables get_entry set_entry kernel_new pmm_inv table_page "\<lambda>s. card (free_set s)"
proof (unfold_locales, goal_cases)
  case (5 s r s')
  then show ?case by (rule kernel_new_keeps(1))
next
  case (6 s r s' u)
  then show ?case by (rule kernel_new_keeps(2))
next
  case (7 s r s' u j)
  then show ?case by (rule kernel_new_keeps(3))
next
  case (8 s s')
  then show ?case by (simp add: kernel_new_full(2))
next
  case (9 s a s')
  note p = kernel_new_page[OF this]
  show ?case using p(2-5) by simp
next
  case (10 s a s' j)
  then show ?case by (rule kernel_new_page(7))
qed (simp_all add: set_entry_laws page_entries)

lemma set_leaf:
  assumes "tree_inv s root" and "valid_path p" "length p = 3" and "table_at (get_entry s) root p = Some t" and "unat j < 512"
  shows "tree_inv (set_entry t j v s) root"
    and "valid_path q \<Longrightarrow> table_at (get_entry (set_entry t j v s)) root q = table_at (get_entry s) root q"
    and "vmm_lookup (set_entry t j v s) root w = (if path_of w = p \<and> GET_PT_ENTRY w = j then v else vmm_lookup s root w)"
  using kernel_tables.leaf_result[OF _ _ assms(2-5)] assms(1) by (simp_all add: tree_inv_def vmm_lookup_def)

section \<open>The whole walk\<close>

text \<open>\<open>MmMapPage\<close> is the walk, with the status that its result stands for.\<close>

lemma GetNextLevel_step:
  assumes "unat i < 512"
  shows "(if get_entry s t i = 0 then GetNextLevel t i flags s else (STATUS_SUCCESS, s)) =
    (case walk_level get_entry set_entry kernel_new t i s of (r, s') \<Rightarrow> (if r then STATUS_SUCCESS else STATUS_OUT_OF_MEMORY, s'))"
proof (cases "get_entry s t i = 0")
  case False
  then show ?thesis by (simp add: walk_level_def)
next
  case True
  obtain a s1 where "MmAllocateSinglePage s = (a, s1)" by fastforce
  with True assms show ?thesis by (cases "a = NULL") (simp_all add: walk_level_def GetNextLevel_def kernel_new_def)
qed

lemma MmMapPage_walk:
  "MmMapPage table physAddr virtAddr flags s =
     (case map_walk get_entry set_entry kernel_new (pml4 table) physAddr virtAddr s of
        (r, s') \<Rightarrow> (if r then STATUS_SUCCESS else STATUS_OUT_OF_MEMORY, s'))"
proof -
  let ?i1 = "GET_PML4_ENTRY virtAddr" and ?i2 = "GET_PDPT_ENTRY virtAddr" and ?i3 = "GET_PD_ENTRY virtAddr" and ?root = "pml4 table"
  let ?wl = "walk_level get_entry set_entry kernel_new"
  obtain r1 s1 where 1: "?wl ?root ?i1 s = (r1, s1)" by fastforce
  define t1 where "t1 = PARSE_ENTRY_VALUE (get_entry s1 ?root ?i1)"
  obtain r2 s2 where 2: "?wl t1 ?i2 s1 = (r2, s2)" by fastforce
  define t2 where "t2 = PARSE_ENTRY_VALUE (get_entry s2 t1 ?i2)"
  obtain r3 s3 where 3: "?wl t2 ?i3 s2 = (r3, s3)" by fastforce
  show ?thesis
    unfolding MmMapPage_def map_walk_def Let_def GetNextLevel_step[OF index_less(1)] 1 prod.case t1_def [symmetric]
      GetNextLevel_step[OF index_less(2)] 2 t2_def [symmetric] GetNextLevel_step[OF index_less(3)] 3
    by (cases r1; cases r2; cases r3) (simp_all only: NR_SUCCESS_def prod.case if_True if_False simp_thms NearStatus.distinct)
qed

lemma MmMapPage_result:
  assumes inv: "tree_inv s (pml4 table)" and m: "MmMapPage table physAddr virtAddr flags s = (r, s')"
  shows "tree_inv s' (pml4 table) \<and> (r = STATUS_SUCCESS \<or> r = STATUS_OUT_OF_MEMORY) \<and>
    (\<forall>w. vmm_lookup s' (pml4 table) w =
       (if r = STATUS_SUCCESS \<and> same_slot w virtAddr then physAddr OR PG_PRESENT OR PG_READ_WRITE
        else vmm_lookup s (pml4 table) w)) \<and>
    (3 \<le> card (free_set s) \<longrightarrow> r = STATUS_SUCCESS)"
proof -
  obtain b where w: "map_walk get_entry set_entry kernel_new (pml4 table) physAddr virtAddr s = (b, s')"
    and r: "r = (if b then STATUS_SUCCESS else STATUS_OUT_OF_MEMORY)"
    using m by (auto simp: MmMapPage_walk split: prod.splits)
  from inv kernel_tables.map_result[OF _ _ w] show ?thesis by (simp add: tree_inv_def vmm_lookup_def r)
qed

text \<open>An empty root table is a tree.\<close>

lemma empty_tree:
  assumes "pmm_inv s" and "table_page s a" and "\<And>j. unat j < 512 \<Longrightarrow> get_entry s a j = 0"
  shows "tree_inv s a"
  using assms empty_root[of "table_page s" a "get_entry s"] by (simp add: tree_inv_def)

lemma fresh_root:
  assumes "pmm_inv s" and "MmAllocateSinglePage s = (a, s1)" and "a \<noteq> NULL"
  shows "tree_inv (clear_page a s1) a"
proof -
  have "kernel_new s = (Some a, clear_page a s1)" using assms(2,3) by (simp add: kernel_new_def)
  note n = kernel_new_page[OF assms(1) this]
  show ?thesis by (rule empty_tree[OF n(1,4,7)])
qed

section \<open>Mapping the kernel and the memory map\<close>

definition vmm_ok :: "vmm \<Rightarrow> bool" where
  "vmm_ok v \<longleftrightarrow> tree_inv (vm_pm v) (pml4 (kernPTable v))"

definition vmm_maps :: "u64 \<Rightarrow> vmm \<Rightarrow> bool" where
  "vmm_maps w v \<longleftrightarrow> vmm_lookup (vm_pm v) (pml4 (kernPTable v)) w \<noteq> 0"

lemma map_kernel_page_step:
  assumes "vmm_ok v" and "map_kernel_page physAddr virtAddr v = (r, v')"
  shows "vmm_ok v' \<and> (\<forall>w. vmm_maps w v \<longrightarrow> vmm_maps w v') \<and>
    (r = STATUS_SUCCESS \<longrightarrow> vmm_maps virtAddr v')"
proof -
  obtain s where m: "MmMapPage (kernPTable v) physAddr virtAddr PG_READ_WRITE (vm_pm v) = (r, s)"
    and v': "v' = v\<lparr>vm_pm := s\<rparr>"
    using assms(2) by (auto simp: map_kernel_page_def split: prod.splits)
  have "same_slot virtAddr virtAddr" by (simp add: same_slot_def)
  with MmMapPage_result[OF _ m] assms(1) leaf_nonzero show ?thesis
    by (simp add: vmm_ok_def vmm_maps_def v')
qed

definition entry_covered :: "BootMemoryMapEntry \<Rightarrow> vmm \<Rightarrow> bool" where
  "entry_covered e v \<longleftrightarrow> (\<forall>k. k * 4096 < unat (me_size e) \<longrightarrow> vmm_maps (me_base e + of_nat k * PAGE_SIZE) v)"

lemma map_regions_result:
  assumes "vmm_ok v" and "\<forall>e \<in> set es. unat (me_size e) \<le> 18446744073709547520"
  shows "\<exists>r v'. map_regions es v = Some (r, v') \<and> vmm_ok v' \<and> (\<forall>w. vmm_maps w v \<longrightarrow> vmm_maps w v') \<and>
    (r = STATUS_SUCCESS \<longrightarrow> (\<forall>e \<in> set es. entry_covered e v'))"
  using assms
proof (induction es arbitrary: v)
  case Nil
  then show ?case by simp
next
  case (Cons e es)
  obtain r v1 where 1: "stride_try 0 (me_size e) (\<lambda>j. map_kernel_page (me_base e + j) (me_base e + j)) v = Some (r, v1)"
    "vmm_ok v1" "\<forall>w. vmm_maps w v \<longrightarrow> vmm_maps w v1"
    "r = STATUS_SUCCESS \<longrightarrow> entry_covered e v1"
  proof -
    have "unat (me_size e) \<le> 18446744073709547520" using Cons.prems(2) by simp
    from stride_try_collect[where P = vmm_ok and R = vmm_maps and f = "\<lambda>j. me_base e + j" and j = 0
          and body = "\<lambda>j. map_kernel_page (me_base e + j) (me_base e + j)",
        OF this Cons.prems(1) map_kernel_page_step, of "\<lambda>i _ _ _. me_base e + i"]
    show ?thesis by (auto simp: entry_covered_def intro: that)
  qed
  show ?case
  proof (cases "r = STATUS_SUCCESS")
    case False
    with 1 show ?thesis by (auto simp: NR_SUCCESS_def)
  next
    case True
    from Cons.IH[OF 1(2)] Cons.prems(2) obtain r' v' where 2: "map_regions es v1 = Some (r', v')"
      "vmm_ok v'" "\<forall>w. vmm_maps w v1 \<longrightarrow> vmm_maps w v'"
      "r' = STATUS_SUCCESS \<longrightarrow> (\<forall>e \<in> set es. entry_covered e v')" by auto
    have "entry_covered e v'" using 1(4) True 2(3) by (simp add: entry_covered_def)
    with 1 2 True show ?thesis by (auto simp: NR_SUCCESS_def)
  qed
qed

end
