(* ===== verification/VmmProps.thy ===== *)
theory VmmProps
  imports VmmTree
begin

text \<open>
  The properties of the virtual memory manager: mapping, unmapping and the mapped-page test
  against the function from virtual addresses to leaf entries that they implement, and
  what the boot-time initialisation maps.
\<close>

section \<open>Sample state\<close>

text \<open>Sixteen pages, pages 0 to 2 in use: the bitmap in page 1, an empty root table in page 2.\<close>

definition sample_vm_pmm :: pmm where
  "sample_vm_pmm = \<lparr>pageCount = 16, usablePageCount = 16, bitmapSize = 2, bitmap = 0x1000, pageUsed = 2,
     pm_mem = (\<lambda>_. 0)(0x1000 := 7)\<rparr>"

definition sample_table :: PageTable where
  "sample_table = \<lparr>pml4 = 0x2000\<rparr>"

definition sample_vmm :: vmm where
  "sample_vmm = \<lparr>kernPTable = \<lparr>pml4 = NULL\<rparr>, vm_pm = sample_vm_pmm, cr3 = 0, invalidated = []\<rparr>"

lemma sample_bitmap_bytes: "x \<in> bitmap_bytes sample_vm_pmm \<Longrightarrow> pgno x = 1"
proof -
  have "pgno (0x1000 + p div 8) = 1" if "p < 16" for p :: u64
  proof -
    have "unat (p div 8) < 2" using that by (simp add: unat_div word_less_nat_alt)
    then show ?thesis by (simp add: pgno_def unat_add_no_wrap)
  qed
  then show "x \<in> bitmap_bytes sample_vm_pmm \<Longrightarrow> pgno x = 1"
    by (auto simp: bitmap_bytes_def sample_vm_pmm_def)
qed

lemma sample_vm_bit:
  "page_bit sample_vm_pmm 1" "page_bit sample_vm_pmm 2" "\<not> page_bit sample_vm_pmm 3"
  "pageCount sample_vm_pmm = 16"
  by (simp_all add: page_bit_def sample_vm_pmm_def)

lemma sample_vm_inv: "pmm_inv sample_vm_pmm"
proof -
  have "k = 1" if "x \<in> bitmap_bytes sample_vm_pmm" "unat k = pgno x" for x and k :: u64
    using that sample_bitmap_bytes by (metis unat_1 word_unat_eq_iff)
  then show ?thesis
    unfolding pmm_inv_def pmm_wf_def bitmap_reserved_def using sample_vm_bit by auto
qed

lemma sample_vm_entry: "unat j < 512 \<Longrightarrow> get_entry sample_vm_pmm 0x2000 j = 0"
proof -
  assume j: "unat j < 512"
  have "ld64 (pm_mem sample_vm_pmm) (entry_addr 0x2000 j) = ld64 (\<lambda>_. 0) (entry_addr 0x2000 j)"
    by (rule ld64_same_page_bytes[OF _ j]) (auto simp: page_aligned_def sample_vm_pmm_def pgno_def)
  then show ?thesis by (simp add: get_entry_def ld64_def)
qed

lemma sample_tree: "tree_inv sample_vm_pmm (pml4 sample_table)"
proof -
  have "table_page sample_vm_pmm 0x2000"
    unfolding table_page_def
  proof (intro conjI)
    show "\<exists>k < pageCount sample_vm_pmm. page_bit sample_vm_pmm k \<and> unat k = pgno 0x2000"
      using sample_vm_bit by (intro exI[of _ 2]) (simp add: pgno_def)
    show "\<forall>x. pgno x = pgno 0x2000 \<longrightarrow> x \<notin> bitmap_bytes sample_vm_pmm"
      using sample_bitmap_bytes by (force simp: pgno_def [of "0x2000"])
  qed (simp add: page_aligned_def)
  then show ?thesis
    using empty_tree[OF sample_vm_inv] sample_vm_entry by (simp add: sample_table_def)
qed

section \<open>Mapping and unmapping\<close>

text \<open>
  C1: \<open>MmMapPage\<close> keeps the page tables a tree of distinct pages the physical memory manager holds in use
  and its bitmap intact; on success exactly the addresses of the mapped page translate to
  the new physical page with the present and write bits, and when it runs out of memory, its
  only failure, every translation is as before. With three free pages it succeeds.
\<close>

theorem map_page_refines:
  assumes "tree_inv s (pml4 table)" and "MmMapPage table physAddr virtAddr flags s = (r, s')"
  shows "tree_inv s' (pml4 table) \<and> r \<in> {STATUS_SUCCESS, STATUS_OUT_OF_MEMORY} \<and>
    vmm_lookup s' (pml4 table) =
      (if r = STATUS_SUCCESS
       then (\<lambda>w. if same_slot w virtAddr then physAddr OR PG_PRESENT OR PG_READ_WRITE
                 else vmm_lookup s (pml4 table) w)
       else vmm_lookup s (pml4 table)) \<and>
    (3 \<le> card (free_set s) \<longrightarrow> r = STATUS_SUCCESS)"
  using MmMapPage_result[OF assms] by (auto simp: fun_eq_iff)

lemma map_page_refines_witness:
  "tree_inv (snd (MmMapPage sample_table 0xB8000 0x400000 2 sample_vm_pmm)) 0x2000"
  using map_page_refines[OF sample_tree prod.collapse [symmetric], of "0xB8000" "0x400000" 2]
  by (simp add: sample_table_def)

lemma walk_unfold:
  "MmUnmapPage table v m =
     (case table_at (get_entry (vm_pm m)) (pml4 table) (path_of v) of
        None \<Rightarrow> (STATUS_NOT_MAPPED, m)
      | Some pt \<Rightarrow> (STATUS_SUCCESS,
          MmInvalidatePage v (m\<lparr>vm_pm := set_entry pt (GET_PT_ENTRY v) 0 (vm_pm m)\<rparr>)))"
  "MmCheckIfPageIsMapped table v s \<longleftrightarrow> vmm_lookup s (pml4 table) v \<noteq> 0"
  by (simp_all add: MmUnmapPage_def MmCheckIfPageIsMapped_def vmm_lookup_def translation_def path_of_def Let_def)

text \<open>
  C24: \<open>MmUnmapPage\<close> removes the translation of exactly the addresses of the page and invalidates the
  address, or answers \<open>STATUS_NOT_MAPPED\<close> and changes nothing when a level of the walk is missing, in which
  case the address had no translation; it keeps the tree invariant.
\<close>

theorem unmap_page_refines:
  assumes "tree_inv (vm_pm m) (pml4 table)" and "MmUnmapPage table v m = (r, m')"
  shows "tree_inv (vm_pm m') (pml4 table) \<and>
    (if r = STATUS_SUCCESS
     then invalidated m' = v # invalidated m \<and>
       vmm_lookup (vm_pm m') (pml4 table) =
         (\<lambda>w. if same_slot w v then 0 else vmm_lookup (vm_pm m) (pml4 table) w)
     else r = STATUS_NOT_MAPPED \<and> m' = m \<and> vmm_lookup (vm_pm m) (pml4 table) v = 0)"
proof (cases "table_at (get_entry (vm_pm m)) (pml4 table) (path_of v)")
  case None
  then show ?thesis using assms by (simp add: walk_unfold vmm_lookup_def translation_def)
next
  case (Some pt)
  have "length (path_of v) = 3" by (simp add: path_of_def)
  note leaf = set_leaf[OF assms(1) valid_path_of this Some, where j = "GET_PT_ENTRY v" and v = 0]
  show ?thesis
    using assms(2) Some leaf(1,3)
    by (auto simp: walk_unfold MmInvalidatePage_def same_slot_iff fun_eq_iff)
qed

lemma unmap_page_refines_witness:
  "tree_inv (vm_pm (snd (MmUnmapPage sample_table 0x400000 (sample_vmm)))) 0x2000"
  using unmap_page_refines[of sample_vmm sample_table "0x400000", OF _ prod.collapse [symmetric]] sample_tree
  by (simp add: sample_vmm_def sample_table_def)

text \<open>
  C23: after a successful \<open>MmMapPage\<close>, \<open>MmCheckIfPageIsMapped\<close> answers yes for the page and \<open>MmUnmapPage\<close> succeeds; after that it
  answers no for the page, and every page outside it answers as it did before the mapping.
\<close>

theorem map_check_unmap_roundtrip:
  assumes "tree_inv (vm_pm m) (pml4 table)"
    and "MmMapPage table physAddr v flags (vm_pm m) = (STATUS_SUCCESS, s1)"
    and "MmUnmapPage table v (m\<lparr>vm_pm := s1\<rparr>) = (r, m2)"
  shows "MmCheckIfPageIsMapped table v s1 \<and> r = STATUS_SUCCESS \<and>
    \<not> MmCheckIfPageIsMapped table v (vm_pm m2) \<and>
    (\<forall>w. \<not> same_slot w v \<longrightarrow>
       MmCheckIfPageIsMapped table w (vm_pm m2) = MmCheckIfPageIsMapped table w (vm_pm m))"
proof -
  note map = MmMapPage_result[OF assms(1,2)]
  have same: "same_slot v v" by (simp add: same_slot_def)
  have mapped: "vmm_lookup s1 (pml4 table) v \<noteq> 0" using map leaf_nonzero same by simp
  have t1: "tree_inv (vm_pm (m\<lparr>vm_pm := s1\<rparr>)) (pml4 table)" using map by simp
  obtain pt where pt: "table_at (get_entry s1) (pml4 table) (path_of v) = Some pt"
    using mapped by (auto simp: vmm_lookup_def translation_def split: option.splits)
  have "length (path_of v) = 3" by (simp add: path_of_def)
  note leaf = set_leaf[OF _ valid_path_of this pt, where j = "GET_PT_ENTRY v" and v = 0]
  show ?thesis
    using assms(3) pt leaf(3) map mapped same
    by (auto simp: walk_unfold MmInvalidatePage_def same_slot_iff)
qed


lemma sample_free: "3 \<le> card (free_set sample_vm_pmm)"
proof -
  have "{3, 4, 5} \<subseteq> free_set sample_vm_pmm"
    by (simp add: free_set_def sample_vm_pmm_def page_bit_def)
  from card_mono[OF _ this] show ?thesis by simp
qed

lemma map_check_unmap_roundtrip_witness:
  "\<exists>s1. MmMapPage sample_table 0xB8000 0x400000 2 sample_vm_pmm = (STATUS_SUCCESS, s1) \<and>
     MmCheckIfPageIsMapped sample_table 0x400000 s1"
proof -
  have "\<exists>s1. MmMapPage sample_table 0xB8000 0x400000 2 sample_vm_pmm = (STATUS_SUCCESS, s1)"
    using MmMapPage_result[OF sample_tree prod.collapse [symmetric], of "0xB8000" "0x400000" 2] sample_free
    by (metis prod.collapse)
  then obtain s1 where s1: "MmMapPage sample_table 0xB8000 0x400000 2 (vm_pm sample_vmm) = (STATUS_SUCCESS, s1)"
    by (auto simp: sample_vmm_def)
  have "tree_inv (vm_pm sample_vmm) (pml4 sample_table)" using sample_tree by (simp add: sample_vmm_def)
  from map_check_unmap_roundtrip[OF this s1 prod.collapse [symmetric]] s1 show ?thesis
    by (auto simp: sample_vmm_def)
qed

section \<open>Initialisation\<close>

text \<open>
  C14: \<open>MmInitVirtualMemoryManager\<close>, started without a root table and with a free page, returns when no region reaches into
  the last page of the address space; the tables it leaves are a tree, and if it reports
  success, \<open>cr3\<close> holds their root and every page of the kernel image and every page of every
  memory-map entry is mapped.
\<close>

theorem init_vmm_maps_memory:
  assumes "pmm_inv (vm_pm v)" and "pml4 (kernPTable v) = NULL"
    and "fst (MmAllocateSinglePage (vm_pm v)) \<noteq> NULL"
    and "\<forall>e \<in> set (map_entries (memMap info)). unat (me_size e) \<le> 18446744073709547520"
    and "unat fbSize \<le> 18446744073709547520"
  shows "\<exists>r v'. MmInitVirtualMemoryManager rdmsr fbBase fbSize info v = Some (r, v') \<and>
    tree_inv (vm_pm v') (pml4 (kernPTable v')) \<and>
    (r = STATUS_SUCCESS \<longrightarrow> cr3 v' = pml4 (kernPTable v') \<and>
      (\<forall>i < kernelSizeInPages info.
         MmCheckIfPageIsMapped (kernPTable v') (kernelLocVirt info + i * PAGE_SIZE) (vm_pm v')) \<and>
      (\<forall>e \<in> set (map_entries (memMap info)). \<forall>k. k * 4096 < unat (me_size e) \<longrightarrow>
         MmCheckIfPageIsMapped (kernPTable v') (me_base e + of_nat k * PAGE_SIZE) (vm_pm v')))"
proof -
  obtain a s where al: "MmAllocateSinglePage (vm_pm v) = (a, s)" by fastforce
  define v2 where "v2 = v\<lparr>kernPTable := \<lparr>pml4 = a\<rparr>, vm_pm := clear_page a s\<rparr>"
  have ok2: "vmm_ok v2" using fresh_root[OF assms(1) al] al assms(3) by (simp add: vmm_ok_def v2_def)
  define kern where "kern = (\<lambda>i. kernelLocVirt info + i * PAGE_SIZE)"
  obtain r3 v3 where 3: "for_try 0 (unat (kernelSizeInPages info))
      (\<lambda>i. map_kernel_page (kernelLocPhys info + i * PAGE_SIZE) (kern i)) v2 = (r3, v3)"
    by fastforce
  have k3: "vmm_ok v3" "r3 = STATUS_SUCCESS \<longrightarrow> (\<forall>k < unat (kernelSizeInPages info). vmm_maps (kern (of_nat k)) v3)"
    using for_try_collect[where P = vmm_ok and R = vmm_maps and f = kern, OF ok2 3 map_kernel_page_step]
    by auto
  note unfold = MmInitVirtualMemoryManager_def assms(2) al Let_def prod.case v2_def [symmetric] 3 [unfolded kern_def]
  show ?thesis
  proof (cases "r3 = STATUS_SUCCESS")
    case False
    then have "MmInitVirtualMemoryManager rdmsr fbBase fbSize info v = Some (r3, v3)"
      by (simp add: unfold NR_SUCCESS_def)
    with False k3 show ?thesis by (simp add: vmm_ok_def)
  next
    case r3: True
    obtain r4 v4 where 4: "map_regions (map_entries (memMap info)) v3 = Some (r4, v4)" "vmm_ok v4"
        "\<forall>w. vmm_maps w v3 \<longrightarrow> vmm_maps w v4"
        "r4 = STATUS_SUCCESS \<longrightarrow> (\<forall>e \<in> set (map_entries (memMap info)). entry_covered e v4)"
      using map_regions_result[OF k3(1) assms(4)] by blast
    show ?thesis
    proof (cases "r4 = STATUS_SUCCESS")
      case False
      then have "MmInitVirtualMemoryManager rdmsr fbBase fbSize info v = Some (r4, v4)"
        using r3 4(1) by (simp add: unfold NR_SUCCESS_def)
      with False 4 show ?thesis by (simp add: vmm_ok_def)
    next
      case r4: True
      let ?P = "\<lambda>u. vmm_ok u \<and> (\<forall>w. vmm_maps w v4 \<longrightarrow> vmm_maps w u)"
      have step: "?P (snd (map_kernel_page p q u))" if "?P u" for p q u
        using map_kernel_page_step[OF _ prod.collapse [symmetric], of u p q] that by blast
      obtain v5 where 5: "stride_loop 0 fbSize (\<lambda>i v. snd (map_kernel_page (fbBase + i) (fbBase + i) v)) v4 = Some v5"
        and P5: "?P v5"
        using stride_loop_result[OF assms(5), of 0 "\<lambda>i v. snd (map_kernel_page (fbBase + i) (fbBase + i) v)" v4]
          for_upto_invariant[of ?P v4 _ "\<lambda>k v. snd (map_kernel_page (fbBase + (0 + k * PAGE_SIZE)) (fbBase + (0 + k * PAGE_SIZE)) v)"]
          step 4(2) by blast
      define l where "l = rdmsr 0x1B AND 0xFFFFF000"
      define v7 where "v7 = snd (map_kernel_page l (l + PAGE_SIZE) (snd (map_kernel_page l l v5)))"
      have P7: "?P v7" unfolding v7_def by (intro step P5)
      have "MmInitVirtualMemoryManager rdmsr fbBase fbSize info v =
          Some (STATUS_SUCCESS, MmUpdateCr3 (pml4 (kernPTable v7)) v7)"
        using r3 r4 4(1) 5 by (simp add: unfold NR_SUCCESS_def v7_def l_def)
      moreover have "vmm_maps (kern i) v7" if "i < kernelSizeInPages info" for i
        using that k3(2) r3 4(3) P7 by (auto simp: below_iff_of_nat)
      moreover have "entry_covered e v7" if "e \<in> set (map_entries (memMap info))" for e
        using that 4(4) r4 P7 by (simp add: entry_covered_def)
      ultimately show ?thesis
        using P7 by (simp add: MmUpdateCr3_def vmm_ok_def walk_unfold vmm_maps_def entry_covered_def kern_def)
    qed
  qed
qed

definition sample_info :: BootInfo where
  "sample_info = \<lparr>graphicsData = \<lparr>bg_init = True, bg_framebufferBase = 0, bg_framebufferSize = 0,
       bg_width = 0, bg_height = 0, bg_pixelsPerScanLine = 0\<rparr>,
     memMap = \<lparr>memEntries = [\<lparr>me_base = 0x10000, me_size = 0x10000, me_type = BOOT_MEM_TYPE_FREE\<rparr>],
       amountOfEntries = 1, sizeOfEntireMemory = 0x20000, mapKey = 0\<rparr>,
     hhdmOffset = 0, kernelLocVirt = 0xFFFFFFFF80000000, kernelLocPhys = 0x200000,
     kernelSizeInPages = 2, typeOfBoot = 0, rsdp = 0\<rparr>"

lemma init_vmm_maps_memory_witness:
  "\<exists>r v'. MmInitVirtualMemoryManager (\<lambda>_. 0xFEE00900) 0xE0000000 0x1000 sample_info sample_vmm = Some (r, v') \<and>
     tree_inv (vm_pm v') (pml4 (kernPTable v'))"
proof -
  have "fst (MmAllocateSinglePage sample_vm_pmm) \<noteq> NULL"
  proof
    assume "fst (MmAllocateSinglePage sample_vm_pmm) = NULL"
    then have "GetAddressFromPageLocation 3 \<in> inuse_pages sample_vm_pmm"
      using bitmap_pmm.alloc_null_iff[OF pmm_inv_wf[OF sample_vm_inv]] sample_vm_bit
      by (auto simp: managed_pages_def)
    then show False
      using inuse_iff[OF pmm_inv_wf[OF sample_vm_inv], of 3] sample_vm_bit by simp
  qed
  then show ?thesis
    using init_vmm_maps_memory[of sample_vmm sample_info "0x1000" "\<lambda>_. 0xFEE00900" "0xE0000000"] sample_vm_inv
    by (auto simp: sample_vmm_def sample_info_def map_entries_def)
qed

end
