(* ===== verification/SpinLock.thy ===== *)
theory SpinLock
  imports NrPrelude
begin

text \<open>
  The spin lock \<open>ke/amd64pc/spinlock.c\<close>, an \<open>atomic_flag\<close>. Two views: the functions as a single
  processor runs them, where acquiring a held lock never returns, and a step relation of
  any number of processors that interleave the atomic operations of \<open>KeAcquireSpinLock\<close> and
  \<open>KeReleaseSpinLock\<close>.
\<close>

section \<open>The functions\<close>

record SpinLock =
  lock :: bool

text \<open>\<open>atomic_flag_test_and_set_explicit\<close>: the old value, and the flag set.\<close>

definition test_and_set :: "SpinLock \<Rightarrow> bool \<times> SpinLock" where
  "test_and_set l = (lock l, l\<lparr>lock := True\<rparr>)"

definition KeCreateSpinLock :: SpinLock where
  "KeCreateSpinLock = \<lparr>lock = False\<rparr>"

partial_function (option) KeAcquireSpinLock :: "SpinLock \<Rightarrow> SpinLock option" where
  "KeAcquireSpinLock l =
     (case test_and_set l of (old, l') \<Rightarrow> if old then KeAcquireSpinLock l' else Some l')"

definition KeReleaseSpinLock :: "SpinLock \<Rightarrow> SpinLock" where
  "KeReleaseSpinLock l = l\<lparr>lock := False\<rparr>"

lemma KeAcquireSpinLock_held: "lock l \<Longrightarrow> KeAcquireSpinLock l = None"
proof (rule ccontr)
  assume l: "lock l" and "KeAcquireSpinLock l \<noteq> None"
  then obtain r where r: "KeAcquireSpinLock l = Some r" by blast
  have "\<not> lock l"
    by (rule KeAcquireSpinLock.raw_induct [where P = "\<lambda>l r. \<not> lock l", OF _ r])
      (fastforce simp: test_and_set_def split: if_splits)
  with l show False by simp
qed

lemma KeAcquireSpinLock_eq:
  "KeAcquireSpinLock l = (if lock l then None else Some (l\<lparr>lock := True\<rparr>))"
  using KeAcquireSpinLock_held
  by (cases "lock l") (simp_all add: KeAcquireSpinLock.simps [of l] test_and_set_def)

section \<open>Processors that share a lock\<close>

datatype cpu_pc = Outside | Spinning | Critical

record smp =
  the_lock :: SpinLock
  pc :: "nat \<Rightarrow> cpu_pc"

definition smp_start :: smp where
  "smp_start = \<lparr>the_lock = KeCreateSpinLock, pc = (\<lambda>_. Outside)\<rparr>"

inductive smp_step :: "smp \<Rightarrow> smp \<Rightarrow> bool" where
  call: "pc s c = Outside \<Longrightarrow> smp_step s (s\<lparr>pc := (pc s)(c := Spinning)\<rparr>)"
| spin: "pc s c = Spinning \<Longrightarrow> test_and_set (the_lock s) = (True, l) \<Longrightarrow>
    smp_step s (s\<lparr>the_lock := l\<rparr>)"
| enter: "pc s c = Spinning \<Longrightarrow> test_and_set (the_lock s) = (False, l) \<Longrightarrow>
    smp_step s (s\<lparr>the_lock := l, pc := (pc s)(c := Critical)\<rparr>)"
| leave: "pc s c = Critical \<Longrightarrow>
    smp_step s (s\<lparr>the_lock := KeReleaseSpinLock (the_lock s), pc := (pc s)(c := Outside)\<rparr>)"

inductive_cases smp_stepE: "smp_step s s'"

inductive smp_reach :: "smp \<Rightarrow> bool" where
  start: "smp_reach smp_start"
| step: "smp_reach s \<Longrightarrow> smp_step s s' \<Longrightarrow> smp_reach s'"

definition smp_inv :: "smp \<Rightarrow> bool" where
  "smp_inv s \<longleftrightarrow> (\<forall>c d. pc s c = Critical \<longrightarrow> pc s d = Critical \<longrightarrow> c = d) \<and>
     (lock (the_lock s) \<longleftrightarrow> (\<exists>c. pc s c = Critical))"

lemma smp_step_inv: "smp_step s s' \<Longrightarrow> smp_inv s \<Longrightarrow> smp_inv s'"
proof (induction rule: smp_step.induct)
  case (call s c)
  then show ?case unfolding smp_inv_def by (simp; metis cpu_pc.distinct)
next
  case (spin s c l)
  then show ?case by (auto simp: smp_inv_def test_and_set_def)
next
  case (enter s c l)
  then show ?case by (auto simp: smp_inv_def test_and_set_def)
next
  case (leave s c)
  then show ?case by (auto simp: smp_inv_def KeReleaseSpinLock_def)
qed

lemma smp_reach_inv: "smp_reach s \<Longrightarrow> smp_inv s"
proof (induction rule: smp_reach.induct)
  case start
  show ?case by (simp add: smp_inv_def smp_start_def KeCreateSpinLock_def)
next
  case (step s s')
  then show ?case using smp_step_inv by blast
qed

section \<open>Properties\<close>

text \<open>
  C7: however the processors interleave, at most one is between \<open>KeAcquireSpinLock\<close> and \<open>KeReleaseSpinLock\<close>, and the flag is
  set exactly while one is; a processor that spins can always enter after the holder, if
  any, releases.
\<close>

theorem spinlock_mutual_exclusion:
  assumes "smp_reach s"
  shows "(\<forall>c d. pc s c = Critical \<longrightarrow> pc s d = Critical \<longrightarrow> c = d) \<and>
    (lock (the_lock s) \<longleftrightarrow> (\<exists>c. pc s c = Critical)) \<and>
    (\<forall>c. pc s c = Spinning \<longrightarrow> (\<exists>s'. smp_step\<^sup>*\<^sup>* s s' \<and> pc s' c = Critical))"
proof -
  have inv: "smp_inv s" using smp_reach_inv[OF assms] .
  have enter: "\<exists>u'. smp_step u u' \<and> pc u' c = Critical"
    if "pc u c = Spinning" "\<not> lock (the_lock u)" for u c
    using smp_step.enter[of u c "(the_lock u)\<lparr>lock := True\<rparr>"] that
    by (intro exI conjI) (auto simp: test_and_set_def)
  have "\<exists>s'. smp_step\<^sup>*\<^sup>* s s' \<and> pc s' c = Critical" if c: "pc s c = Spinning" for c
  proof (cases "lock (the_lock s)")
    case False
    then show ?thesis using enter[OF c] by blast
  next
    case True
    then obtain d where d: "pc s d = Critical" using inv by (auto simp: smp_inv_def)
    let ?u = "s\<lparr>the_lock := KeReleaseSpinLock (the_lock s), pc := (pc s)(d := Outside)\<rparr>"
    have "d \<noteq> c" using c d by auto
    then have "pc ?u c = Spinning" "\<not> lock (the_lock ?u)" using c by (auto simp: KeReleaseSpinLock_def)
    from enter[OF this] smp_step.leave[OF d] show ?thesis
      by (meson converse_rtranclp_into_rtranclp r_into_rtranclp)
  qed
  with inv show ?thesis unfolding smp_inv_def by blast
qed

lemma spinlock_mutual_exclusion_witness:
  "\<exists>s'. smp_step\<^sup>*\<^sup>* (smp_start\<lparr>pc := (pc smp_start)(0 := Spinning)\<rparr>) s' \<and> pc s' 0 = Critical"
proof -
  have "smp_reach (smp_start\<lparr>pc := (pc smp_start)(0 := Spinning)\<rparr>)"
    by (rule smp_reach.step[OF smp_reach.start smp_step.call]) (simp add: smp_start_def)
  from spinlock_mutual_exclusion[OF this] show ?thesis by simp
qed

text \<open>
  On one processor, \<open>KeAcquireSpinLock\<close> returns exactly when the lock is free and then leaves it held, so that a
  second acquisition without a release never returns, and a release makes it available.
\<close>

theorem spinlock_not_reentrant:
  "KeAcquireSpinLock l = (if lock l then None else Some (l\<lparr>lock := True\<rparr>)) \<and>
   Option.bind (KeAcquireSpinLock l) KeAcquireSpinLock = None \<and>
   KeAcquireSpinLock (KeReleaseSpinLock l) \<noteq> None"
  by (simp add: KeAcquireSpinLock_eq KeReleaseSpinLock_def)

end
