(* ===== verification/DList.thy ===== *)
theory DList
  imports NrPrelude
begin

text \<open>
  Intrusive doubly linked lists. \<open>mm/amd64pc/alloc.c\<close> keeps two of them, of block headers and
  of free allocation headers, with the same four pieces of code: append at the tail,
  unlink, and loops that follow the \<open>next\<close> pointers. The interface states what the
  append and the unlink do to the pointers; the clients' lemmas say that the pointers
  represent a list.
\<close>

section \<open>Pointers that represent a list\<close>

definition first_of :: "u64 list \<Rightarrow> u64" where
  "first_of xs = (case xs of [] \<Rightarrow> NULL | x # _ \<Rightarrow> x)"

lemma first_of_simps [simp]: "first_of [] = NULL" "first_of (x # xs) = x"
  by (simp_all add: first_of_def)

fun linked :: "(u64 \<Rightarrow> u64) \<Rightarrow> (u64 \<Rightarrow> u64) \<Rightarrow> u64 \<Rightarrow> u64 list \<Rightarrow> bool" where
  "linked nx pv p [] \<longleftrightarrow> True"
| "linked nx pv p (x # xs) \<longleftrightarrow> x \<noteq> NULL \<and> pv x = p \<and> nx x = first_of xs \<and> linked nx pv x xs"

definition dlist :: "u64 \<Rightarrow> u64 \<Rightarrow> (u64 \<Rightarrow> u64) \<Rightarrow> (u64 \<Rightarrow> u64) \<Rightarrow> u64 list \<Rightarrow> bool" where
  "dlist head tail nx pv xs \<longleftrightarrow> distinct xs \<and> linked nx pv NULL xs \<and>
     head = first_of xs \<and> tail = (if xs = [] then NULL else last xs)"

lemma linked_not_null: "linked nx pv p xs \<Longrightarrow> x \<in> set xs \<Longrightarrow> x \<noteq> NULL"
  by (induction xs arbitrary: p) auto

lemma linked_cong:
  assumes "\<And>x. x \<in> set xs \<Longrightarrow> nx' x = nx x" and "\<And>x. x \<in> set xs \<Longrightarrow> pv' x = pv x"
  shows "linked nx' pv' p xs = linked nx pv p xs"
  using assms by (induction xs arbitrary: p) auto

text \<open>
  Appending and unlinking, with the element before the list as a parameter. The pointer
  updates are written without the tests for \<open>NULL\<close>: they then also change the entries of
  \<open>NULL\<close>, which is in no list.
\<close>

lemma linked_snoc:
  assumes "linked nx pv p xs" and "h \<noteq> NULL" and "h \<notin> set xs" and "distinct xs" and "p \<notin> set xs"
    and "l = last (p # xs)"
  shows "linked (nx(l := h, h := NULL)) (pv(h := l)) p (xs @ [h])"
  using assms
proof (induction xs arbitrary: p)
  case Nil
  then show ?case by simp
next
  case (Cons x xs)
  have IH: "linked (nx(l := h, h := NULL)) (pv(h := l)) x (xs @ [h])"
    by (rule Cons.IH) (use Cons.prems in auto)
  have f: "first_of (xs @ [h]) = (if xs = [] then h else first_of xs)" by (cases xs) simp_all
  have ne: "xs \<noteq> [] \<Longrightarrow> l \<noteq> x" using Cons.prems(4,6) by auto
  have "(nx(l := h, h := NULL)) x = first_of (xs @ [h])" "(pv(h := l)) x = p" "x \<noteq> NULL"
    using Cons.prems f ne by auto
  with IH show ?case by (simp del: fun_upd_apply)
qed

lemma linked_remove:
  assumes "linked nx pv p xs" and "h \<in> set xs" and "distinct xs" and "p \<notin> set xs"
  shows "\<exists>ys zs. xs = ys @ h # zs \<and> pv h = last (p # ys) \<and> nx h = first_of zs \<and>
    linked (nx(pv h := nx h, h := NULL)) (pv(nx h := pv h, h := NULL)) p (ys @ zs)"
  using assms
proof (induction xs arbitrary: p)
  case Nil
  then show ?case by simp
next
  case (Cons x xs)
  show ?case
  proof (cases "x = h")
    case True
    then have h: "pv h = p" "nx h = first_of xs" "linked nx pv h xs" "h \<notin> set xs" "p \<notin> set xs"
      "distinct xs" using Cons.prems by auto
    have "linked (nx(p := nx h, h := NULL)) (pv(nx h := p, h := NULL)) p xs"
    proof (cases xs)
      case Nil
      then show ?thesis by simp
    next
      case (Cons y zs)
      have "linked (nx(p := nx h, h := NULL)) (pv(nx h := p, h := NULL)) y zs = linked nx pv y zs"
        by (rule linked_cong) (use h Cons in auto)
      then show ?thesis using h Cons by auto
    qed
    with True h show ?thesis by - (rule exI[of _ "[]"], rule exI[of _ xs], simp del: fun_upd_apply)
  next
    case False
    then have "h \<in> set xs" "linked nx pv x xs" "x \<notin> set xs" "distinct xs"
      using Cons.prems by auto
    from Cons.IH[OF this(2,1,4,3)] obtain ys zs where
      IH: "xs = ys @ h # zs" "pv h = last (x # ys)" "nx h = first_of zs"
        "linked (nx(pv h := nx h, h := NULL)) (pv(nx h := pv h, h := NULL)) x (ys @ zs)" by blast
    have "x \<noteq> NULL" "x \<notin> set zs" using Cons.prems IH(1) by auto
    then have "nx h \<noteq> x" using IH(3) by (cases zs) auto
    have first: "(nx(pv h := nx h, h := NULL)) x = first_of (ys @ zs)"
    proof (cases ys)
      case Nil
      then show ?thesis using IH(2,3) False by simp
    next
      case (Cons y ys')
      then have "pv h \<in> set xs" using IH(1,2) by auto
      then have "pv h \<noteq> x" using \<open>x \<notin> set xs\<close> by blast
      then show ?thesis using Cons.prems(1) Cons IH(1) False by simp
    qed
    then have "linked (nx(pv h := nx h, h := NULL)) (pv(nx h := pv h, h := NULL)) p ((x # ys) @ zs)"
      using IH(4) Cons.prems(1) False \<open>nx h \<noteq> x\<close> by simp
    with IH show ?thesis by - (rule exI[of _ "x # ys"], rule exI[of _ zs], simp del: fun_upd_apply)
  qed
qed

section \<open>Following the pointers\<close>

text \<open>
  The loop \<open>while(header != NULL)\<close> that looks for a header and otherwise goes to
  \<open>header->next\<close>. It need not end when the pointers form a cycle.
\<close>

partial_function (option) follow :: "(u64 \<Rightarrow> u64) \<Rightarrow> (u64 \<Rightarrow> bool) \<Rightarrow> u64 \<Rightarrow> u64 option option" where
  "follow nx test h =
     (if h = NULL then Some None else if test h then Some (Some h) else follow nx test (nx h))"

lemma follow_linked:
  "linked nx pv p xs \<Longrightarrow> follow nx test (first_of xs) = Some (find test xs)"
proof (induction xs arbitrary: p)
  case Nil
  then show ?case by (simp add: follow.simps)
next
  case (Cons x xs)
  then show ?case by (subst follow.simps) auto
qed

section \<open>The interface\<close>

text \<open>
  What the code's append and unlink do to the head, the tail and the pointers, and the
  client's lemmas: they append to and remove from the represented list.
\<close>

locale linked_list =
  fixes add :: "u64 \<Rightarrow> 's \<Rightarrow> 's" and remove :: "u64 \<Rightarrow> 's \<Rightarrow> 's"
    and head :: "'s \<Rightarrow> u64" and tail :: "'s \<Rightarrow> u64"
    and nxt :: "'s \<Rightarrow> u64 \<Rightarrow> u64" and prv :: "'s \<Rightarrow> u64 \<Rightarrow> u64"
  assumes head_add: "head (add h s) = (if head s = NULL then h else head s)"
    and tail_add: "tail (add h s) = h"
    and nxt_add: "nxt (add h s) = ((if tail s = NULL then nxt s else (nxt s)(tail s := h)))(h := NULL)"
    and prv_add: "prv (add h s) = (prv s)(h := tail s)"
    and head_remove: "head (remove h s) = (if head s = h then nxt s h else head s)"
    and tail_remove: "tail (remove h s) = (if tail s = h then prv s h else tail s)"
    and nxt_remove: "x \<noteq> NULL \<Longrightarrow> nxt (remove h s) x = ((nxt s)(prv s h := nxt s h, h := NULL)) x"
    and prv_remove: "x \<noteq> NULL \<Longrightarrow> prv (remove h s) x = ((prv s)(nxt s h := prv s h, h := NULL)) x"
begin

definition repr :: "'s \<Rightarrow> u64 list \<Rightarrow> bool" where
  "repr s xs \<longleftrightarrow> dlist (head s) (tail s) (nxt s) (prv s) xs"

lemma repr_not_null: "repr s xs \<Longrightarrow> x \<in> set xs \<Longrightarrow> x \<noteq> NULL"
  by (auto simp: repr_def dlist_def dest: linked_not_null)

lemma repr_distinct: "repr s xs \<Longrightarrow> distinct xs"
  by (simp add: repr_def dlist_def)

lemma repr_head: "repr s xs \<Longrightarrow> head s = first_of xs"
  by (simp add: repr_def dlist_def)

lemma repr_cong:
  assumes "repr s xs" and "head s' = head s" and "tail s' = tail s"
    and "\<And>x. x \<in> set xs \<Longrightarrow> nxt s' x = nxt s x" and "\<And>x. x \<in> set xs \<Longrightarrow> prv s' x = prv s x"
  shows "repr s' xs"
  using assms linked_cong[of xs "nxt s'" "nxt s" "prv s'" "prv s"]
  by (simp add: repr_def dlist_def)

lemma repr_next:
  assumes "repr s (ys @ x # zs)"
  shows "nxt s x = first_of zs"
proof -
  have "linked nx pv p (ys @ x # zs) \<Longrightarrow> nx x = first_of zs" for nx pv p
    by (induction ys arbitrary: p) auto
  then show ?thesis using assms by (auto simp: repr_def dlist_def)
qed

lemma repr_follow: "repr s xs \<Longrightarrow> follow (nxt s) test (head s) = Some (find test xs)"
  by (auto simp: repr_def dlist_def follow_linked)

lemma repr_add:
  assumes r: "repr s xs" and "h \<noteq> NULL" and "h \<notin> set xs"
  shows "repr (add h s) (xs @ [h])"
proof -
  have tail: "tail s = last (NULL # xs)" and null: "NULL \<notin> set xs"
    using r repr_not_null by (auto simp: repr_def dlist_def)
  have "linked ((nxt s)(tail s := h, h := NULL)) ((prv s)(h := tail s)) NULL (xs @ [h])"
    by (rule linked_snoc) (use assms null tail in \<open>auto simp: repr_def dlist_def\<close>)
  moreover have "linked (nxt (add h s)) (prv (add h s)) NULL (xs @ [h]) =
      linked ((nxt s)(tail s := h, h := NULL)) ((prv s)(h := tail s)) NULL (xs @ [h])"
    by (rule linked_cong) (use null assms(2) in \<open>auto simp: nxt_add prv_add\<close>)
  moreover have "head (add h s) = first_of (xs @ [h])"
    using r null by (cases xs) (auto simp: head_add repr_def dlist_def)
  ultimately show ?thesis
    using r assms(3) by (simp add: repr_def dlist_def tail_add)
qed

lemma repr_remove:
  assumes r: "repr s xs" and h: "h \<in> set xs"
  shows "repr (remove h s) (remove1 h xs)"
proof -
  have d: "distinct xs" and null: "NULL \<notin> set xs" and l: "linked (nxt s) (prv s) NULL xs"
    using r repr_not_null by (auto simp: repr_def dlist_def)
  from linked_remove[OF l h d null] obtain ys zs where
    x: "xs = ys @ h # zs" "prv s h = last (NULL # ys)" "nxt s h = first_of zs"
      "linked ((nxt s)(prv s h := nxt s h, h := NULL)) ((prv s)(nxt s h := prv s h, h := NULL)) NULL (ys @ zs)"
    by blast
  have r1: "remove1 h xs = ys @ zs" using d x(1) by (simp add: remove1_append)
  have "linked (nxt (remove h s)) (prv (remove h s)) NULL (ys @ zs)"
    using linked_cong[of "ys @ zs" "nxt (remove h s)" _ "prv (remove h s)", OF nxt_remove prv_remove] x(1,4) null
    by (metis Un_iff list.set_intros(2) set_append)
  moreover have "head (remove h s) = first_of (ys @ zs)"
    using r x d by (cases ys) (auto simp: head_remove repr_def dlist_def)
  moreover have "tail (remove h s) = (if ys @ zs = [] then NULL else last (ys @ zs))"
    using r x d by (auto simp: tail_remove repr_def dlist_def)
  ultimately show ?thesis
    using d x(1) unfolding r1 repr_def dlist_def by auto
qed

end

end
