(* ===== verification/GenAlloc.thy ===== *)
theory GenAlloc
  imports PmmBitmap DList SpinLock "HOL-Library.Signed_Division"
begin

text \<open>
  The kernel's general memory allocator \<open>mm/amd64pc/alloc.c\<close>: blocks of pages from the physical
  memory manager, carved into chunks with an allocation header in front of each, and a
  free list of allocation headers searched first-fit. The headers are typed heaps, one
  function from addresses per header type; the file's static variables, its spin lock,
  the physical memory manager and the messages it prints complete the state.
\<close>

section \<open>State\<close>

definition MEM_SPLIT :: u64 where
  "MEM_SPLIT = 16"

definition SPLIT_SAFE :: "u64 \<Rightarrow> u64" where
  "SPLIT_SAFE x = ((x + (MEM_SPLIT - 1)) div MEM_SPLIT) * MEM_SPLIT"

definition SIZEOF_BLOCK_HEADER :: u64 where
  "SIZEOF_BLOCK_HEADER = 48"

definition SIZEOF_ALLOC_HEADER :: u64 where
  "SIZEOF_ALLOC_HEADER = 48"

record BlockHeader =
  bh_base :: u64
  bh_size :: u64
  amountUsed :: u64
  allocCounter :: i64
  bh_next :: u64
  bh_prev :: u64

record AllocHeader =
  ah_header :: u64
  ah_base :: u64
  ah_size :: u64
  ah_next :: u64
  ah_prev :: u64
  isFree :: bool

record galloc =
  bHead :: u64
  bTail :: u64
  aHead :: u64
  aTail :: u64
  blk :: "u64 \<Rightarrow> BlockHeader"
  alc :: "u64 \<Rightarrow> AllocHeader"
  allocSpinLock :: SpinLock
  ga_pm :: pmm
  ga_log :: klog

definition upd_blk :: "u64 \<Rightarrow> (BlockHeader \<Rightarrow> BlockHeader) \<Rightarrow> galloc \<Rightarrow> galloc" where
  "upd_blk h f s = s\<lparr>blk := (blk s)(h := f (blk s h))\<rparr>"

definition upd_alc :: "u64 \<Rightarrow> (AllocHeader \<Rightarrow> AllocHeader) \<Rightarrow> galloc \<Rightarrow> galloc" where
  "upd_alc h f s = s\<lparr>alc := (alc s)(h := f (alc s h))\<rparr>"

definition ga_print :: "Status \<Rightarrow> string \<Rightarrow> u64 list \<Rightarrow> galloc \<Rightarrow> galloc" where
  "ga_print st msg args s = s\<lparr>ga_log := ga_log s @ [(st, msg, args)]\<rparr>"

section \<open>The two lists\<close>

definition AddBlockHeader :: "u64 \<Rightarrow> galloc \<Rightarrow> galloc" where
  "AddBlockHeader hdr s =
     (let s1 = (if bHead s = NULL then s\<lparr>bHead := hdr\<rparr> else s);
          s2 = upd_blk hdr (\<lambda>b. b\<lparr>bh_prev := bTail s1\<rparr>) s1;
          s3 = (if bTail s2 \<noteq> NULL then upd_blk (bTail s2) (\<lambda>b. b\<lparr>bh_next := hdr\<rparr>) s2 else s2);
          s4 = s3\<lparr>bTail := hdr\<rparr>
      in upd_blk hdr (\<lambda>b. b\<lparr>bh_next := NULL\<rparr>) s4)"

definition RemoveBlockHeader :: "u64 \<Rightarrow> galloc \<Rightarrow> NearStatus \<times> galloc" where
  "RemoveBlockHeader hdr s =
     (let prev = bh_prev (blk s hdr);
          nxt = bh_next (blk s hdr);
          s1 = (if bHead s = hdr then s\<lparr>bHead := nxt\<rparr> else s);
          s2 = (if bTail s1 = hdr then s1\<lparr>bTail := prev\<rparr> else s1);
          s3 = (if prev \<noteq> NULL then upd_blk prev (\<lambda>b. b\<lparr>bh_next := nxt\<rparr>) s2 else s2);
          s4 = (if nxt \<noteq> NULL then upd_blk nxt (\<lambda>b. b\<lparr>bh_prev := prev\<rparr>) s3 else s3);
          s5 = upd_blk hdr (\<lambda>b. b\<lparr>bh_prev := NULL\<rparr>) s4
      in (STATUS_SUCCESS, upd_blk hdr (\<lambda>b. b\<lparr>bh_next := NULL\<rparr>) s5))"

definition AddAllocHeader :: "u64 \<Rightarrow> galloc \<Rightarrow> galloc" where
  "AddAllocHeader hdr s =
     (let s1 = (if aHead s = NULL then s\<lparr>aHead := hdr\<rparr> else s);
          s2 = upd_alc hdr (\<lambda>a. a\<lparr>ah_prev := aTail s1\<rparr>) s1;
          s3 = (if aTail s2 \<noteq> NULL then upd_alc (aTail s2) (\<lambda>a. a\<lparr>ah_next := hdr\<rparr>) s2 else s2);
          s4 = s3\<lparr>aTail := hdr\<rparr>
      in upd_alc hdr (\<lambda>a. a\<lparr>ah_next := NULL\<rparr>) s4)"

definition RemoveAllocHeader :: "u64 \<Rightarrow> galloc \<Rightarrow> galloc" where
  "RemoveAllocHeader hdr s =
     (let prev = ah_prev (alc s hdr);
          nxt = ah_next (alc s hdr);
          s1 = (if aHead s = hdr then s\<lparr>aHead := nxt\<rparr> else s);
          s2 = (if aTail s1 = hdr then s1\<lparr>aTail := prev\<rparr> else s1);
          s3 = (if prev \<noteq> NULL then upd_alc prev (\<lambda>a. a\<lparr>ah_next := nxt\<rparr>) s2 else s2);
          s4 = (if nxt \<noteq> NULL then upd_alc nxt (\<lambda>a. a\<lparr>ah_prev := prev\<rparr>) s3 else s3);
          s5 = upd_alc hdr (\<lambda>a. a\<lparr>ah_prev := NULL\<rparr>) s4
      in upd_alc hdr (\<lambda>a. a\<lparr>ah_next := NULL\<rparr>) s5)"

section \<open>Blocks\<close>

definition CreateBlock :: "u64 \<Rightarrow> galloc \<Rightarrow> (NearStatus \<times> galloc) option" where
  "CreateBlock allocSize s =
     (let sz = SPLIT_SAFE allocSize;
          headerSize = SPLIT_SAFE SIZEOF_BLOCK_HEADER;
          sizeInPages = IN_PAGES sz
      in do { (mem, pm) \<leftarrow> MmAllocateMultiplePages sizeInPages (ga_pm s);
              let s1 = s\<lparr>ga_pm := pm\<rparr>
              in if mem = NULL then Some (STATUS_OUT_OF_MEMORY, s1)
                 else let s2 = upd_blk mem (\<lambda>b. b\<lparr>bh_size := sz - headerSize,
                                 bh_base := mem + headerSize, amountUsed := 0, allocCounter := 0\<rparr>) s1
                      in Some (STATUS_SUCCESS, AddBlockHeader mem s2) })"

definition DeleteBlockHeader :: "u64 \<Rightarrow> galloc \<Rightarrow> NearStatus \<times> galloc" where
  "DeleteBlockHeader hdr s =
     (let headerSize = SPLIT_SAFE SIZEOF_BLOCK_HEADER;
          sz = SPLIT_SAFE (bh_size (blk s hdr) + headerSize);
          sizeInPages = IN_PAGES sz;
          (status, s1) = RemoveBlockHeader hdr s
      in if \<not> NR_SUCCESS status then (status, s1)
         else let mem = bh_base (blk s1 hdr) - headerSize;
                  (status, pm) = MmFreeMultiplePages mem sizeInPages (ga_pm s1)
              in (status, s1\<lparr>ga_pm := pm\<rparr>))"

definition CarveMemoryFromBlock :: "u64 \<Rightarrow> u64 \<Rightarrow> galloc \<Rightarrow> u64 \<times> galloc" where
  "CarveMemoryFromBlock hdr sz s =
     (bh_base (blk s hdr) + amountUsed (blk s hdr),
      upd_blk hdr (\<lambda>b. b\<lparr>amountUsed := amountUsed b + sz\<rparr>) s)"

section \<open>Allocation\<close>

text \<open>The two tests of the free-list loop: an exact fit, and a header that can be split.\<close>

definition exact_fit :: "u64 \<Rightarrow> AllocHeader \<Rightarrow> bool" where
  "exact_fit sz a \<longleftrightarrow> ah_size a = sz \<or> ah_size a = sz + SPLIT_SAFE SIZEOF_ALLOC_HEADER"

definition split_fit :: "u64 \<Rightarrow> AllocHeader \<Rightarrow> bool" where
  "split_fit sz a \<longleftrightarrow> ah_size a > sz \<and> \<not> sz \<le> SPLIT_SAFE SIZEOF_ALLOC_HEADER \<and>
     \<not> ah_size a - sz \<le> SPLIT_SAFE SIZEOF_ALLOC_HEADER"

definition take_whole :: "u64 \<Rightarrow> galloc \<Rightarrow> u64 \<times> galloc" where
  "take_whole hdr s =
     (let bHeader = ah_header (alc s hdr);
          s1 = upd_alc hdr (\<lambda>a. a\<lparr>isFree := False\<rparr>) s;
          s2 = upd_blk bHeader (\<lambda>b. b\<lparr>allocCounter := allocCounter b + 1\<rparr>) s1;
          s3 = RemoveAllocHeader hdr s2
      in (ah_base (alc s3 hdr), s3))"

definition take_split :: "u64 \<Rightarrow> u64 \<Rightarrow> galloc \<Rightarrow> u64 \<times> galloc" where
  "take_split sz hdr s =
     (let aHeaderSize = SPLIT_SAFE SIZEOF_ALLOC_HEADER;
          bHeader = ah_header (alc s hdr);
          s1 = upd_alc hdr (\<lambda>a. a\<lparr>isFree := False\<rparr>) s;
          s2 = upd_blk bHeader (\<lambda>b. b\<lparr>allocCounter := allocCounter b + 1\<rparr>) s1;
          oldSize = ah_size (alc s2 hdr);
          s3 = upd_alc hdr (\<lambda>a. a\<lparr>ah_size := sz\<rparr>) s2;
          s4 = RemoveAllocHeader hdr s3;
          whatToReturn = ah_base (alc s4 hdr);
          newHeader = ah_base (alc s4 hdr) + sz;
          s5 = upd_alc newHeader (\<lambda>a. a\<lparr>ah_size := SPLIT_SAFE ((oldSize - sz) - aHeaderSize),
                 ah_base := newHeader + aHeaderSize, isFree := True, ah_header := bHeader\<rparr>) s4
      in (whatToReturn, AddAllocHeader newHeader s5))"

definition GetMemoryFromFreeList :: "u64 \<Rightarrow> galloc \<Rightarrow> (u64 \<times> galloc) option" where
  "GetMemoryFromFreeList allocSize s =
     (let sz = SPLIT_SAFE allocSize
      in do { found \<leftarrow> follow (\<lambda>h. ah_next (alc s h))
                (\<lambda>h. exact_fit sz (alc s h) \<or> split_fit sz (alc s h)) (aHead s);
              case found of
                None \<Rightarrow> Some (NULL, s)
              | Some h \<Rightarrow> Some (if exact_fit sz (alc s h) then take_whole h s else take_split sz h s) })"

text \<open>
  The test of the block loop: \<open>remaining\<close> is signed and clamped at 0, and compared with the
  unsigned size.
\<close>

definition block_fits :: "u64 \<Rightarrow> BlockHeader \<Rightarrow> bool" where
  "block_fits sz b \<longleftrightarrow>
     (let remaining = bh_size b - amountUsed b;
          remaining = (if remaining \<le>s 0 then 0 else remaining)
      in sz \<le> remaining)"

definition take_fresh :: "u64 \<Rightarrow> u64 \<Rightarrow> galloc \<Rightarrow> u64 \<times> galloc" where
  "take_fresh sz hdr s =
     (let aHeaderSize = SPLIT_SAFE SIZEOF_ALLOC_HEADER;
          (aHeader, s1) = CarveMemoryFromBlock hdr sz s;
          mem = aHeader + aHeaderSize;
          s2 = upd_alc aHeader (\<lambda>a. a\<lparr>ah_size := sz - aHeaderSize, ah_base := mem, isFree := False,
                 ah_header := hdr\<rparr>) s1
      in (mem, upd_blk hdr (\<lambda>b. b\<lparr>allocCounter := allocCounter b + 1\<rparr>) s2))"

definition AllocateFreshMemory :: "u64 \<Rightarrow> galloc \<Rightarrow> (u64 \<times> galloc) option" where
  "AllocateFreshMemory allocSize s =
     do { (freedMem, s1) \<leftarrow> GetMemoryFromFreeList allocSize s;
          if freedMem \<noteq> NULL then Some (freedMem, s1)
          else let sz = SPLIT_SAFE (allocSize + SPLIT_SAFE SIZEOF_ALLOC_HEADER)
               in do { found \<leftarrow> follow (\<lambda>h. bh_next (blk s1 h)) (\<lambda>h. block_fits sz (blk s1 h)) (bHead s1);
                       case found of
                         None \<Rightarrow> Some (NULL, s1)
                       | Some h \<Rightarrow> Some (take_fresh sz h s1) } }"

definition MmInitGeneralAllocator :: "galloc \<Rightarrow> (NearStatus \<times> galloc) option" where
  "MmInitGeneralAllocator s = CreateBlock 10 (s\<lparr>allocSpinLock := KeCreateSpinLock\<rparr>)"

definition ga_acquire :: "galloc \<Rightarrow> galloc option" where
  "ga_acquire s = map_option (\<lambda>l. s\<lparr>allocSpinLock := l\<rparr>) (KeAcquireSpinLock (allocSpinLock s))"

definition ga_release :: "galloc \<Rightarrow> galloc" where
  "ga_release s = s\<lparr>allocSpinLock := KeReleaseSpinLock (allocSpinLock s)\<rparr>"

definition MmAllocateGeneralMemory :: "u64 \<Rightarrow> galloc \<Rightarrow> (u64 \<times> galloc) option" where
  "MmAllocateGeneralMemory allocSize s =
     do { s0 \<leftarrow> ga_acquire s;
          (mem, s1) \<leftarrow> AllocateFreshMemory allocSize s0;
          if mem = NULL
          then do { (status, s2) \<leftarrow> CreateBlock (allocSize + PAGE_SIZE) s1;
                    if \<not> NR_SUCCESS status
                    then Some (NULL, ga_release (ga_print TERM_STATUS_ERROR ''it failed??'' [] s2))
                    else do { (mem, s3) \<leftarrow> AllocateFreshMemory allocSize s2;
                              Some (mem, ga_release s3) } }
          else Some (mem, ga_release s1) }"

section \<open>Freeing\<close>

text \<open>The loop that takes every free header of a block off the free list.\<close>

partial_function (option) sweep_free_list :: "u64 \<Rightarrow> u64 \<Rightarrow> galloc \<Rightarrow> galloc option" where
  "sweep_free_list bHeader aHeaderL s =
     (if aHeaderL = NULL then Some s
      else if ah_header (alc s aHeaderL) = bHeader
           then let nxt = ah_next (alc s aHeaderL)
                in sweep_free_list bHeader nxt (RemoveAllocHeader aHeaderL s)
           else sweep_free_list bHeader (ah_next (alc s aHeaderL)) s)"

definition MmFreeGeneralMemory :: "u64 \<Rightarrow> galloc \<Rightarrow> (NearStatus \<times> galloc) option" where
  "MmFreeGeneralMemory address s =
     do { s0 \<leftarrow> ga_acquire s;
          if address = NULL then Some (STATUS_INVALID_ADDRESS, ga_release s0)
          else let aHeader = address - SPLIT_SAFE SIZEOF_ALLOC_HEADER
               in if isFree (alc s0 aHeader)
                  then Some (STATUS_ACCESS_DENIED, ga_release
                    (ga_print TERM_STATUS_ERROR ''[GENALLOC] someone tried to double free!!'' [] s0))
                  else let bHeader = ah_header (alc s0 aHeader);
                           s1 = upd_blk bHeader (\<lambda>b. b\<lparr>allocCounter := allocCounter b - 1\<rparr>) s0
                       in if allocCounter (blk s1 bHeader) \<le>s 0
                          then do { s2 \<leftarrow> sweep_free_list bHeader (aHead s1) s1;
                                    let s3 = snd (DeleteBlockHeader bHeader s2)
                                    in Some (STATUS_SUCCESS, ga_release s3) }
                          else let s2 = upd_alc aHeader (\<lambda>a. a\<lparr>isFree := True\<rparr>) s1
                               in Some (STATUS_SUCCESS, ga_release (AddAllocHeader aHeader s2)) }"

end
