(* ===== verification/GenAllocInv.thy ===== *)
theory GenAllocInv
  imports GenAlloc
begin

text \<open>
  The invariant of the general allocator: the two header lists are well-formed, the chunks
  it has carved tile the used part of their blocks without overlap, the free list holds
  exactly the chunks marked free, and each block counts its live chunks. Every operation
  of the allocator is shown to keep it.
\<close>

section \<open>The lists\<close>

interpretation blocks: linked_list AddBlockHeader "\<lambda>h s. snd (RemoveBlockHeader h s)" bHead bTail
  "\<lambda>s h. bh_next (blk s h)" "\<lambda>s h. bh_prev (blk s h)"
  by unfold_locales
    (auto simp: AddBlockHeader_def RemoveBlockHeader_def upd_blk_def Let_def fun_eq_iff)

interpretation frees: linked_list AddAllocHeader RemoveAllocHeader aHead aTail
  "\<lambda>s h. ah_next (alc s h)" "\<lambda>s h. ah_prev (alc s h)"
  by unfold_locales
    (auto simp: AddAllocHeader_def RemoveAllocHeader_def upd_alc_def Let_def fun_eq_iff)

lemma upd_fields [simp, frame_simps]:
  "bHead (upd_blk h f s) = bHead s" "bTail (upd_blk h f s) = bTail s"
  "aHead (upd_blk h f s) = aHead s" "aTail (upd_blk h f s) = aTail s"
  "alc (upd_blk h f s) = alc s" "ga_pm (upd_blk h f s) = ga_pm s"
  "allocSpinLock (upd_blk h f s) = allocSpinLock s" "ga_log (upd_blk h f s) = ga_log s"
  "blk (upd_blk h f s) x = (if x = h then f (blk s h) else blk s x)"
  "bHead (upd_alc h g s) = bHead s" "bTail (upd_alc h g s) = bTail s"
  "aHead (upd_alc h g s) = aHead s" "aTail (upd_alc h g s) = aTail s"
  "blk (upd_alc h g s) = blk s" "ga_pm (upd_alc h g s) = ga_pm s"
  "allocSpinLock (upd_alc h g s) = allocSpinLock s" "ga_log (upd_alc h g s) = ga_log s"
  "alc (upd_alc h g s) x = (if x = h then g (alc s h) else alc s x)"
  by (simp_all add: upd_blk_def upd_alc_def)

text \<open>What the list operations leave alone: everything but the link fields.\<close>

definition same_core :: "galloc \<Rightarrow> galloc \<Rightarrow> bool" where
  "same_core s s' \<longleftrightarrow>
     (\<forall>h. bh_base (blk s' h) = bh_base (blk s h) \<and> bh_size (blk s' h) = bh_size (blk s h) \<and>
        amountUsed (blk s' h) = amountUsed (blk s h) \<and> allocCounter (blk s' h) = allocCounter (blk s h)) \<and>
     (\<forall>h. ah_header (alc s' h) = ah_header (alc s h) \<and> ah_base (alc s' h) = ah_base (alc s h) \<and>
        ah_size (alc s' h) = ah_size (alc s h) \<and> isFree (alc s' h) = isFree (alc s h))"

lemma same_core_refl [simp]: "same_core s s"
  by (simp add: same_core_def)

lemma same_core_trans: "same_core s t \<Longrightarrow> same_core t u \<Longrightarrow> same_core s u"
  by (simp add: same_core_def)

definition same_rest :: "galloc \<Rightarrow> galloc \<Rightarrow> bool" where
  "same_rest s s' \<longleftrightarrow> ga_pm s' = ga_pm s \<and> allocSpinLock s' = allocSpinLock s \<and> ga_log s' = ga_log s"

lemma same_rest_refl [simp]: "same_rest s s"
  by (simp add: same_rest_def)

lemma link_update_core:
  "same_core s t \<Longrightarrow> same_core s (upd_blk h (\<lambda>b. b\<lparr>bh_next := x\<rparr>) t)"
  "same_core s t \<Longrightarrow> same_core s (upd_blk h (\<lambda>b. b\<lparr>bh_prev := x\<rparr>) t)"
  "same_core s t \<Longrightarrow> same_core s (upd_alc h (\<lambda>a. a\<lparr>ah_next := x\<rparr>) t)"
  "same_core s t \<Longrightarrow> same_core s (upd_alc h (\<lambda>a. a\<lparr>ah_prev := x\<rparr>) t)"
  "same_core s t \<Longrightarrow> same_core s (t\<lparr>bHead := x\<rparr>)" "same_core s t \<Longrightarrow> same_core s (t\<lparr>bTail := x\<rparr>)"
  "same_core s t \<Longrightarrow> same_core s (t\<lparr>aHead := x\<rparr>)" "same_core s t \<Longrightarrow> same_core s (t\<lparr>aTail := x\<rparr>)"
  "same_core s t \<Longrightarrow> same_core s u \<Longrightarrow> same_core s (if c then t else u)"
  by (simp_all add: same_core_def)

lemma link_update_rest:
  "same_rest s t \<Longrightarrow> same_rest s (upd_blk h f t)" "same_rest s t \<Longrightarrow> same_rest s (upd_alc h g t)"
  "same_rest s t \<Longrightarrow> same_rest s (t\<lparr>bHead := x\<rparr>)" "same_rest s t \<Longrightarrow> same_rest s (t\<lparr>bTail := x\<rparr>)"
  "same_rest s t \<Longrightarrow> same_rest s (t\<lparr>aHead := x\<rparr>)" "same_rest s t \<Longrightarrow> same_rest s (t\<lparr>aTail := x\<rparr>)"
  "same_rest s t \<Longrightarrow> same_rest s u \<Longrightarrow> same_rest s (if c then t else u)"
  by (simp_all add: same_rest_def)

lemma list_ops_core:
  "same_core s (AddBlockHeader h s)" "same_core s (snd (RemoveBlockHeader h s))"
  "same_core s (AddAllocHeader h s)" "same_core s (RemoveAllocHeader h s)"
  unfolding AddBlockHeader_def RemoveBlockHeader_def AddAllocHeader_def RemoveAllocHeader_def Let_def snd_conv
  by (intro link_update_core same_core_refl)+

lemma list_ops_rest:
  "same_rest s (AddBlockHeader h s)" "same_rest s (snd (RemoveBlockHeader h s))"
  "same_rest s (AddAllocHeader h s)" "same_rest s (RemoveAllocHeader h s)"
  unfolding AddBlockHeader_def RemoveBlockHeader_def AddAllocHeader_def RemoveAllocHeader_def Let_def snd_conv
  by (intro link_update_rest same_rest_refl)+

text \<open>The block operations do not touch the free list, and the other way round.\<close>

lemma repr_other:
  "frees.repr (AddBlockHeader h s) xs \<longleftrightarrow> frees.repr s xs"
  "frees.repr (snd (RemoveBlockHeader h s)) xs \<longleftrightarrow> frees.repr s xs"
  "blocks.repr (AddAllocHeader h s) xs \<longleftrightarrow> blocks.repr s xs"
  "blocks.repr (RemoveAllocHeader h s) xs \<longleftrightarrow> blocks.repr s xs"
  by (simp_all add: frees.repr_def blocks.repr_def AddBlockHeader_def RemoveBlockHeader_def
      AddAllocHeader_def RemoveAllocHeader_def upd_blk_def upd_alc_def Let_def)

lemma repr_upd:
  "frees.repr (upd_blk h f s) xs \<longleftrightarrow> frees.repr s xs"
  "blocks.repr (upd_alc h g s) xs \<longleftrightarrow> blocks.repr s xs"
  by (simp_all add: frees.repr_def blocks.repr_def)

lemma repr_upd_same:
  "(\<And>b. bh_next (f b) = bh_next b) \<Longrightarrow> (\<And>b. bh_prev (f b) = bh_prev b) \<Longrightarrow>
     blocks.repr (upd_blk h f s) xs \<longleftrightarrow> blocks.repr s xs"
  "(\<And>a. ah_next (g a) = ah_next a) \<Longrightarrow> (\<And>a. ah_prev (g a) = ah_prev a) \<Longrightarrow>
     frees.repr (upd_alc h g s) xs \<longleftrightarrow> frees.repr s xs"
proof -
  assume "\<And>b. bh_next (f b) = bh_next b" "\<And>b. bh_prev (f b) = bh_prev b"
  then have "(\<lambda>x. bh_next (blk (upd_blk h f s) x)) = (\<lambda>x. bh_next (blk s x))"
    "(\<lambda>x. bh_prev (blk (upd_blk h f s) x)) = (\<lambda>x. bh_prev (blk s x))" by (auto simp: fun_eq_iff)
  then show "blocks.repr (upd_blk h f s) xs \<longleftrightarrow> blocks.repr s xs"
    by (simp only: blocks.repr_def upd_fields)
next
  assume "\<And>a. ah_next (g a) = ah_next a" "\<And>a. ah_prev (g a) = ah_prev a"
  then have "(\<lambda>x. ah_next (alc (upd_alc h g s) x)) = (\<lambda>x. ah_next (alc s x))"
    "(\<lambda>x. ah_prev (alc (upd_alc h g s) x)) = (\<lambda>x. ah_prev (alc s x))" by (auto simp: fun_eq_iff)
  then show "frees.repr (upd_alc h g s) xs \<longleftrightarrow> frees.repr s xs"
    by (simp only: frees.repr_def upd_fields)
qed

section \<open>Sizes\<close>

lemma header_sizes [simp]:
  "SPLIT_SAFE SIZEOF_ALLOC_HEADER = 48" "SPLIT_SAFE SIZEOF_BLOCK_HEADER = 48"
  by (simp_all add: SPLIT_SAFE_def SIZEOF_ALLOC_HEADER_def SIZEOF_BLOCK_HEADER_def MEM_SPLIT_def)

lemma unat_SPLIT_SAFE_no_wrap:
  assumes "unat x \<le> 18446744073709551600"
  shows "unat (SPLIT_SAFE x) = ((unat x + 15) div 16) * 16"
proof -
  have 1: "unat (x + 15) = unat x + 15" using assms by (subst unat_add_no_wrap) simp_all
  then have q: "unat ((x + 15) div 16) = (unat x + 15) div 16" by (simp add: unat_div)
  have "((unat x + 15) div 16) * 16 < 18446744073709551616"
    using div_times_less_eq_dividend[of "unat x + 15" 16] assms by linarith
  then have "unat ((x + 15) div 16 * 16) = ((unat x + 15) div 16) * 16"
    using unat_mult_no_wrap[of "(x + 15) div 16" 16] q by simp
  then show ?thesis by (simp add: SPLIT_SAFE_def MEM_SPLIT_def)
qed

lemma unat_SPLIT_SAFE:
  "unat x \<le> 0x4000000000000000 \<Longrightarrow> unat (SPLIT_SAFE x) = ((unat x + 15) div 16) * 16"
  by (rule unat_SPLIT_SAFE_no_wrap) simp

lemma SPLIT_SAFE_bounds:
  assumes "unat x \<le> 0x4000000000000000"
  shows "unat x \<le> unat (SPLIT_SAFE x)" and "unat (SPLIT_SAFE x) < unat x + 16"
    and "unat (SPLIT_SAFE x) mod 16 = 0"
proof -
  show "unat x \<le> unat (SPLIT_SAFE x)" and "unat (SPLIT_SAFE x) < unat x + 16"
    unfolding unat_SPLIT_SAFE[OF assms] by presburger+
  show "unat (SPLIT_SAFE x) mod 16 = 0" unfolding unat_SPLIT_SAFE[OF assms] by simp
qed

lemma SPLIT_SAFE_multiple:
  assumes "unat x mod 16 = 0"
  shows "SPLIT_SAFE x = x"
proof -
  from assms obtain k where k: "unat x = 16 * k" by (metis mult_div_mod_eq add_0_right)
  then have "k < 1152921504606846976" using unat_lt_2p64[of x] by linarith
  then have x: "unat x \<le> 18446744073709551600" using k by simp
  have "(unat x + 15) div 16 * 16 = unat x" by (simp add: k)
  with unat_SPLIT_SAFE_no_wrap[OF x] show ?thesis by (simp add: word_unat_eq_iff)
qed

section \<open>The invariant\<close>

text \<open>The end of the used part of a block, the room after it that the block loop sees, and
  the end of a chunk, as numbers.\<close>

definition used_end :: "galloc \<Rightarrow> u64 \<Rightarrow> nat" where
  "used_end s b = unat (bh_base (blk s b)) + unat (amountUsed (blk s b))"

definition room :: "galloc \<Rightarrow> u64 \<Rightarrow> nat" where
  "room s b = (let r = bh_size (blk s b) - amountUsed (blk s b) in if r \<le>s 0 then 0 else unat r)"

definition block_end :: "galloc \<Rightarrow> u64 \<Rightarrow> nat" where
  "block_end s b = used_end s b + room s b"

definition chunk_end :: "galloc \<Rightarrow> u64 \<Rightarrow> nat" where
  "chunk_end s h = unat h + 48 + unat (ah_size (alc s h))"

definition block_ok :: "galloc \<Rightarrow> u64 \<Rightarrow> bool" where
  "block_ok s b \<longleftrightarrow> bh_base (blk s b) = b + 48 \<and> unat b + 48 \<le> 18446744073709551615 \<and>
     unat b mod 16 = 0 \<and> unat (amountUsed (blk s b)) mod 16 = 0 \<and>
     block_end s b \<le> 18446744073709551615"

definition chunk_ok :: "galloc \<Rightarrow> u64 set \<Rightarrow> u64 \<Rightarrow> bool" where
  "chunk_ok s bs h \<longleftrightarrow> ah_header (alc s h) \<in> bs \<and> ah_base (alc s h) = h + 48 \<and>
     unat h mod 16 = 0 \<and> unat (ah_size (alc s h)) mod 16 = 0 \<and>
     unat (ah_header (alc s h)) + 48 \<le> unat h \<and> chunk_end s h \<le> used_end s (ah_header (alc s h))"

definition live_in :: "galloc \<Rightarrow> u64 set \<Rightarrow> u64 \<Rightarrow> u64 set" where
  "live_in s cs b = {h \<in> cs. \<not> isFree (alc s h) \<and> ah_header (alc s h) = b}"

definition core_inv :: "galloc \<Rightarrow> u64 set \<Rightarrow> u64 set \<Rightarrow> u64 set \<Rightarrow> bool" where
  "core_inv s bs fs cs \<longleftrightarrow>
     (\<forall>b \<in> bs. block_ok s b \<and> sint (allocCounter (blk s b)) = int (card (live_in s cs b))) \<and>
     (\<forall>b \<in> bs. \<forall>c \<in> bs. b \<noteq> c \<longrightarrow> block_end s b \<le> unat c \<or> block_end s c \<le> unat b) \<and>
     (\<forall>h \<in> cs. chunk_ok s bs h) \<and>
     (\<forall>h \<in> cs. \<forall>k \<in> cs. h \<noteq> k \<longrightarrow> chunk_end s h \<le> unat k \<or> chunk_end s k \<le> unat h) \<and>
     fs = {h \<in> cs. isFree (alc s h)}"

definition ga_inv :: "galloc \<Rightarrow> u64 list \<Rightarrow> u64 list \<Rightarrow> u64 set \<Rightarrow> bool" where
  "ga_inv s bs fs cs \<longleftrightarrow> blocks.repr s bs \<and> frees.repr s fs \<and> core_inv s (set bs) (set fs) cs"

definition live_chunks :: "galloc \<Rightarrow> u64 set \<Rightarrow> u64 set" where
  "live_chunks s cs = {h \<in> cs. \<not> isFree (alc s h)}"

lemmas core_defs = used_end_def room_def block_end_def chunk_end_def block_ok_def chunk_ok_def
  live_in_def core_inv_def live_chunks_def

lemma same_core_measures:
  assumes "same_core s s'"
  shows "used_end s' = used_end s" "room s' = room s" "block_end s' = block_end s"
    "chunk_end s' = chunk_end s" "block_ok s' = block_ok s" "chunk_ok s' = chunk_ok s"
    "live_in s' = live_in s" "live_chunks s' = live_chunks s"
  using assms by (auto simp: core_defs same_core_def fun_eq_iff)

lemma core_inv_same:
  "same_core s s' \<Longrightarrow> core_inv s' bs fs cs \<longleftrightarrow> core_inv s bs fs cs"
  using same_core_measures[of s s'] by (simp add: core_inv_def same_core_def)


lemma core_inv_intro:
  assumes "\<And>b. b \<in> bs \<Longrightarrow> block_ok s b"
    and "\<And>b. b \<in> bs \<Longrightarrow> sint (allocCounter (blk s b)) = int (card (live_in s cs b))"
    and "\<And>b c. b \<in> bs \<Longrightarrow> c \<in> bs \<Longrightarrow> b \<noteq> c \<Longrightarrow> block_end s b \<le> unat c \<or> block_end s c \<le> unat b"
    and "\<And>h. h \<in> cs \<Longrightarrow> chunk_ok s bs h"
    and "\<And>h k. h \<in> cs \<Longrightarrow> k \<in> cs \<Longrightarrow> h \<noteq> k \<Longrightarrow> chunk_end s h \<le> unat k \<or> chunk_end s k \<le> unat h"
    and "fs = {h \<in> cs. isFree (alc s h)}"
  shows "core_inv s bs fs cs"
  using assms unfolding core_inv_def by blast

lemma core_invD:
  assumes "core_inv s bs fs cs"
  shows "b \<in> bs \<Longrightarrow> block_ok s b"
    and "b \<in> bs \<Longrightarrow> sint (allocCounter (blk s b)) = int (card (live_in s cs b))"
    and "b \<in> bs \<Longrightarrow> c \<in> bs \<Longrightarrow> b \<noteq> c \<Longrightarrow> block_end s b \<le> unat c \<or> block_end s c \<le> unat b"
    and "h \<in> cs \<Longrightarrow> chunk_ok s bs h"
    and "h \<in> cs \<Longrightarrow> k \<in> cs \<Longrightarrow> h \<noteq> k \<Longrightarrow> chunk_end s h \<le> unat k \<or> chunk_end s k \<le> unat h"
    and "fs = {h \<in> cs. isFree (alc s h)}"
  using assms unfolding core_inv_def by blast+

text \<open>Chunk headers are 16-aligned, so there are fewer of them than the counters can hold.\<close>

lemma card_chunks:
  assumes "core_inv s bs fs cs"
  shows "card cs \<le> 1152921504606846976"
proof -
  have "inj_on (\<lambda>h. unat h div 16) cs"
  proof (rule inj_onI)
    fix h k
    assume "h \<in> cs" "k \<in> cs" and eq: "unat h div 16 = unat k div 16"
    then have "unat h mod 16 = unat k mod 16"
      using core_invD(4)[OF assms] by (simp add: chunk_ok_def)
    then show "h = k" using eq by (metis div_mult_mod_eq word_unat_eq_iff)
  qed
  moreover have "(\<lambda>h. unat h div 16) ` cs \<subseteq> {..<1152921504606846976}"
  proof
    fix n
    assume "n \<in> (\<lambda>h. unat h div 16) ` cs"
    then obtain h :: u64 where "n = unat h div 16" by blast
    then show "n \<in> {..<1152921504606846976}"
      using unat_lt_2p64[of h] by (simp add: less_mult_imp_div_less)
  qed
  ultimately have "card cs \<le> card {..<1152921504606846976::nat}"
    by (intro card_inj_on_le) auto
  then show ?thesis by simp
qed

lemma sint_succ:
  assumes "sint (x :: i64) < 9223372036854775807"
  shows "sint (x + 1) = sint x + 1"
proof -
  have "- (2 ^ 63) \<le> sint x" using sint_ge[of x] by simp
  then show ?thesis
    using assms by (simp add: sint_word_ariths signed_take_bit_int_eq_self)
qed

lemma sint_pred:
  assumes "0 \<le> sint (x :: i64)"
  shows "sint (x - 1) = sint x - 1"
proof -
  have "sint x < 2 ^ 63" using sint_lt[of x] by simp
  then show ?thesis
    using assms by (simp add: sint_word_ariths signed_take_bit_int_eq_self)
qed

section \<open>Steps on the core\<close>

text \<open>A chunk becomes live, or free, and its block's counter follows.\<close>

definition set_live :: "u64 \<Rightarrow> galloc \<Rightarrow> galloc" where
  "set_live h s = upd_blk (ah_header (alc s h)) (\<lambda>b. b\<lparr>allocCounter := allocCounter b + 1\<rparr>)
     (upd_alc h (\<lambda>a. a\<lparr>isFree := False\<rparr>) s)"

lemma measures_counter [simp]:
  "used_end (upd_blk b (\<lambda>b. b\<lparr>allocCounter := f b\<rparr>) s) = used_end s"
  "room (upd_blk b (\<lambda>b. b\<lparr>allocCounter := f b\<rparr>) s) = room s"
  "block_end (upd_blk b (\<lambda>b. b\<lparr>allocCounter := f b\<rparr>) s) = block_end s"
  "chunk_end (upd_blk b g s) = chunk_end s"
  "block_ok (upd_blk b (\<lambda>b. b\<lparr>allocCounter := f b\<rparr>) s) = block_ok s"
  "chunk_ok (upd_blk b (\<lambda>b. b\<lparr>allocCounter := f b\<rparr>) s) = chunk_ok s"
  "live_in (upd_blk b g s) = live_in s"
  "live_chunks (upd_blk b g s) = live_chunks s"
  by (auto simp: core_defs fun_eq_iff)

lemma measures_isFree [simp]:
  "chunk_end (upd_alc h (\<lambda>a. a\<lparr>isFree := c\<rparr>) s) = chunk_end s"
  "chunk_ok (upd_alc h (\<lambda>a. a\<lparr>isFree := c\<rparr>) s) = chunk_ok s"
  "used_end (upd_alc h g s) = used_end s"
  "room (upd_alc h g s) = room s"
  "block_end (upd_alc h g s) = block_end s"
  "block_ok (upd_alc h g s) = block_ok s"
  by (auto simp: core_defs fun_eq_iff)

lemma live_in_isFree:
  assumes "h \<in> cs"
  shows "live_in (upd_alc h (\<lambda>a. a\<lparr>isFree := c\<rparr>) s) cs b =
    (if ah_header (alc s h) = b then (if c then live_in s cs b - {h} else insert h (live_in s cs b))
     else live_in s cs b)"
  using assms by (auto simp: live_in_def)

lemma finite_live [simp]: "finite (live_in s cs b)"
  by simp

lemma core_set_live:
  assumes inv: "core_inv s bs fs cs" and h: "h \<in> fs"
  shows "core_inv (set_live h s) bs (fs - {h}) cs"
    and "live_chunks (set_live h s) cs = insert h (live_chunks s cs)"
proof -
  note D = core_invD[OF inv]
  have hc: "h \<in> cs" "isFree (alc s h)" using D(6) h by auto
  let ?b = "ah_header (alc s h)"
  have hb: "?b \<in> bs" using D(4)[OF hc(1)] by (simp add: chunk_ok_def)
  have notin: "h \<notin> live_in s cs ?b" using hc by (simp add: live_in_def)
  have "live_in s cs ?b \<subseteq> cs" by (auto simp: live_in_def)
  then have "card (live_in s cs ?b) \<le> card cs" by (intro card_mono) auto
  then have "sint (allocCounter (blk s ?b)) < 9223372036854775807"
    using D(2)[OF hb] card_chunks[OF inv] by linarith
  then have cnt: "sint (allocCounter (blk s ?b) + 1) = int (card (insert h (live_in s cs ?b)))"
    using D(2)[OF hb] notin by (simp add: sint_succ)
  show "core_inv (set_live h s) bs (fs - {h}) cs"
    by (rule core_inv_intro)
      (use D hc cnt in \<open>auto simp: set_live_def live_in_isFree\<close>)
  show "live_chunks (set_live h s) cs = insert h (live_chunks s cs)"
    using hc by (auto simp: live_chunks_def set_live_def)
qed

definition set_freed :: "u64 \<Rightarrow> galloc \<Rightarrow> galloc" where
  "set_freed h s = upd_alc h (\<lambda>a. a\<lparr>isFree := True\<rparr>)
     (upd_blk (ah_header (alc s h)) (\<lambda>b. b\<lparr>allocCounter := allocCounter b - 1\<rparr>) s)"

lemma live_count:
  assumes inv: "core_inv s bs fs cs" and h: "h \<in> cs" "\<not> isFree (alc s h)"
  shows "sint (allocCounter (blk s (ah_header (alc s h))) - 1) =
    int (card (live_in s cs (ah_header (alc s h)) - {h}))"
proof -
  let ?b = "ah_header (alc s h)"
  note D = core_invD[OF inv]
  have "?b \<in> bs" using D(4)[OF h(1)] by (simp add: chunk_ok_def)
  from D(2)[OF this] have c: "sint (allocCounter (blk s ?b)) = int (card (live_in s cs ?b))" .
  have "h \<in> live_in s cs ?b" using h by (simp add: live_in_def)
  then have "card (live_in s cs ?b) = Suc (card (live_in s cs ?b - {h}))"
    by (intro card.remove) simp_all
  with c show ?thesis by (simp add: sint_pred)
qed

lemma core_set_freed:
  assumes inv: "core_inv s bs fs cs" and h: "h \<in> cs" "\<not> isFree (alc s h)"
  shows "core_inv (set_freed h s) bs (insert h fs) cs"
    and "live_chunks (set_freed h s) cs = live_chunks s cs - {h}"
proof -
  note D = core_invD[OF inv]
  show "core_inv (set_freed h s) bs (insert h fs) cs"
    by (rule core_inv_intro)
      (use D h live_count[OF assms] in \<open>auto simp: set_freed_def live_in_isFree\<close>)
  show "live_chunks (set_freed h s) cs = live_chunks s cs - {h}"
    using h by (auto simp: live_chunks_def set_freed_def)
qed

text \<open>A chunk is shortened.\<close>

lemma core_shrink:
  assumes inv: "core_inv s bs fs cs" and h: "h \<in> cs"
    and z: "unat z \<le> unat (ah_size (alc s h))" "unat z mod 16 = 0"
  shows "core_inv (upd_alc h (\<lambda>a. a\<lparr>ah_size := z\<rparr>) s) bs fs cs"
proof -
  let ?s = "upd_alc h (\<lambda>a. a\<lparr>ah_size := z\<rparr>) s"
  note D = core_invD[OF inv]
  have ends: "chunk_end ?s k \<le> chunk_end s k" for k
    using z by (simp add: chunk_end_def)
  have live: "live_in ?s cs = live_in s cs" by (auto simp: live_in_def fun_eq_iff)
  show ?thesis
  proof (rule core_inv_intro)
    show "chunk_ok ?s bs k" if "k \<in> cs" for k
      using D(4)[OF that] ends[of k] z by (auto simp: chunk_ok_def intro: order_trans)
    show "chunk_end ?s k \<le> unat l \<or> chunk_end ?s l \<le> unat k" if "k \<in> cs" "l \<in> cs" "k \<noteq> l" for k l
      using D(5)[OF that] ends[of k] ends[of l] by linarith
  qed (use D live in auto)
qed

text \<open>Room at the end of a block becomes used.\<close>

lemma sint_small: "unat (r :: u64) < 9223372036854775808 \<Longrightarrow> sint r = int (unat r)"
proof -
  assume r: "unat r < 9223372036854775808"
  have u: "uint r = int (unat r)" by simp
  have "0 \<le> uint r" by simp
  then have "- (2 ^ 63) \<le> uint r" by (rule order_trans [rotated]) simp
  moreover have "int (unat r) < int 9223372036854775808" using r by (simp only: of_nat_less_iff)
  then have "uint r < 2 ^ 63" by simp
  ultimately have "signed_take_bit 63 (uint r) = uint r" by (intro signed_take_bit_int_eq_self)
  with u show ?thesis by (simp add: sint_uint)
qed

lemma sint_large: "\<not> unat (r :: u64) < 9223372036854775808 \<Longrightarrow> sint r < 0"
proof -
  assume r: "\<not> unat r < 9223372036854775808"
  have "unat r div 9223372036854775808 = 1"
    using r unat_lt_2p64[of r] by (intro div_nat_eqI) simp_all
  then have "uint r div 9223372036854775808 = 1"
    by (metis of_nat_1 of_nat_numeral uint_nat zdiv_int)
  then have "bit (uint r) 63" by (simp add: bit_iff_odd)
  then show ?thesis by (simp add: sint_uint signed_take_bit_negative_iff)
qed

lemma room_eq:
  "room s b = (if unat (bh_size (blk s b) - amountUsed (blk s b)) < 9223372036854775808
    then unat (bh_size (blk s b) - amountUsed (blk s b)) else 0)"
proof -
  have "(if r \<le>s 0 then 0 else unat r) = (if unat r < 9223372036854775808 then unat r else 0)" for r :: u64
  proof (cases "unat r < 9223372036854775808")
    case True
    from sint_small[OF this] have "sint r \<le> 0 \<longleftrightarrow> unat r = 0" by linarith
    with True show ?thesis by (simp add: word_sle_eq del: unat_eq_zero)
  next
    case False
    from sint_large[OF this] have "r \<le>s 0" by (simp add: word_sle_eq)
    with False show ?thesis by simp
  qed
  then show ?thesis by (simp add: room_def Let_def)
qed

lemma block_fits_room:
  assumes "z \<noteq> 0" and "block_fits z (blk s b)"
  shows "unat z \<le> room s b"
  using assms by (auto simp: block_fits_def room_def Let_def word_le_nat_alt split: if_splits)

lemma core_carve:
  assumes inv: "core_inv s bs fs cs" and b: "b \<in> bs"
    and z: "unat z \<le> room s b" "unat z mod 16 = 0"
  defines "s' \<equiv> upd_blk b (\<lambda>b. b\<lparr>amountUsed := amountUsed b + z\<rparr>) s"
  shows "core_inv s' bs fs cs" and "used_end s' b = used_end s b + unat z"
proof -
  note D = core_invD[OF inv]
  let ?r = "bh_size (blk s b) - amountUsed (blk s b)"
  have le: "unat (amountUsed (blk s b)) + unat z \<le> 18446744073709551615"
    using D(1)[OF b] z(1) by (simp add: block_ok_def block_end_def used_end_def)
  then have uz: "unat (amountUsed (blk s b) + z) = unat (amountUsed (blk s b)) + unat z"
    by (intro unat_add_no_wrap) linarith
  show ue: "used_end s' b = used_end s b + unat z"
    by (simp add: used_end_def s'_def uz)
  have uo: "used_end s' c = used_end s c" if "c \<noteq> b" for c
    using that by (simp add: used_end_def s'_def)
  have rb: "room s' b = room s b - unat z"
  proof (cases "unat ?r < 9223372036854775808")
    case False
    then have "room s b = 0" by (simp add: room_eq)
    with z(1) have "z = 0" by (simp add: unat_eq_0)
    then show ?thesis by (simp add: room_def s'_def)
  next
    case True
    then have "unat (?r - z) = unat ?r - unat z"
      using z(1) by (simp add: room_eq unat_sub_le word_le_nat_alt)
    then show ?thesis using True z(1) by (simp add: room_eq s'_def diff_diff_add)
  qed
  have bk: "blk s' c = (if c = b then (blk s b)\<lparr>amountUsed := amountUsed (blk s b) + z\<rparr> else blk s c)" for c
    by (simp add: s'_def)
  have be: "block_end s' = block_end s"
  proof
    fix c
    show "block_end s' c = block_end s c"
      using ue uo rb z(1) by (cases "c = b") (auto simp: block_end_def room_def s'_def)
  qed
  show "core_inv s' bs fs cs"
  proof (rule core_inv_intro)
    show "block_ok s' c" if "c \<in> bs" for c
    proof -
      have "(unat (amountUsed (blk s c)) + unat z) mod 16 = 0" if "c = b"
        using z(2) D(1)[OF b] that by (simp add: block_ok_def mod_add_eq [symmetric])
      then show ?thesis using D(1)[OF that] by (auto simp: block_ok_def be bk uz)
    qed
    have "used_end s c \<le> used_end s' c" for c using ue uo by (cases "c = b") auto
    then show "chunk_ok s' bs k" if "k \<in> cs" for k
      using D(4)[OF that] by (auto simp: chunk_ok_def s'_def intro: order_trans)
    show "sint (allocCounter (blk s' c)) = int (card (live_in s' cs c))" if "c \<in> bs" for c
      using D(2)[OF that] by (auto simp: s'_def)
  qed (use D be in \<open>auto simp: s'_def\<close>)
qed

text \<open>A free chunk is written into a part of a block that no chunk occupies.\<close>

lemma core_add_chunk:
  assumes inv: "core_inv s bs fs cs"
    and a: "ah_header (f (alc s n)) \<in> bs" "ah_base (f (alc s n)) = n + 48" "isFree (f (alc s n))"
      "unat (ah_size (f (alc s n))) mod 16 = 0" "unat n mod 16 = 0"
    and inside: "unat (ah_header (f (alc s n))) + 48 \<le> unat n"
      "unat n + 48 + unat (ah_size (f (alc s n))) \<le> used_end s (ah_header (f (alc s n)))"
    and apart: "\<And>k. k \<in> cs \<Longrightarrow> chunk_end s k \<le> unat n \<or>
      unat n + 48 + unat (ah_size (f (alc s n))) \<le> unat k"
  shows "core_inv (upd_alc n f s) bs (insert n fs) (insert n cs)"
    and "n \<notin> cs"
proof -
  note D = core_invD[OF inv]
  let ?s = "upd_alc n f s"
  show n: "n \<notin> cs"
    using apart[of n] by (auto simp: chunk_end_def)
  have nf: "n \<notin> fs" using n D(6) by auto
  have ends: "chunk_end ?s k = (if k = n then unat n + 48 + unat (ah_size (f (alc s n))) else chunk_end s k)" for k
    by (simp add: chunk_end_def)
  have live: "live_in ?s (insert n cs) b = live_in s cs b" for b
    using n a(3) by (auto simp: live_in_def)
  show "core_inv ?s bs (insert n fs) (insert n cs)"
  proof (rule core_inv_intro)
    show "chunk_ok ?s bs k" if "k \<in> insert n cs" for k
      using that D(4)[of k] a inside by (auto simp: chunk_ok_def ends)
    show "chunk_end ?s h \<le> unat k \<or> chunk_end ?s k \<le> unat h"
      if "h \<in> insert n cs" "k \<in> insert n cs" "h \<noteq> k" for h k
      using that D(5)[of h k] apart[of h] apart[of k] unfolding ends by auto
  qed (use D a n live in auto)
qed

text \<open>A new block, and the end of a block with all its chunks.\<close>

lemma core_new_block:
  assumes inv: "core_inv s bs fs cs" and m: "m \<notin> bs"
    and f: "bh_base (f (blk s m)) = m + 48" "amountUsed (f (blk s m)) = 0" "allocCounter (f (blk s m)) = 0"
    and al: "unat m mod 16 = 0" and le: "48 \<le> len" "unat m + len \<le> 18446744073709551615"
    and sz: "unat (bh_size (f (blk s m))) < 9223372036854775808 \<Longrightarrow> 48 + unat (bh_size (f (blk s m))) \<le> len"
    and apart: "\<And>b. b \<in> bs \<Longrightarrow> block_end s b \<le> unat m \<or> unat m + len \<le> unat b"
  shows "core_inv (upd_blk m f s) (insert m bs) fs cs"
proof -
  note D = core_invD[OF inv]
  let ?s = "upd_blk m f s"
  have um: "unat (m + 48) = unat m + 48" using le by (subst unat_add_no_wrap) simp_all
  have old: "used_end ?s b = used_end s b" "room ?s b = room s b" "block_end ?s b = block_end s b"
      "block_ok ?s b = block_ok s b" if "b \<noteq> m" for b
    using that by (simp_all add: core_defs)
  have rm: "room ?s m \<le> len - 48"
    using sz le by (auto simp: room_eq f)
  have em: "used_end ?s m = unat m + 48" by (simp add: used_end_def f um)
  then have bm: "block_end ?s m \<le> unat m + len" "unat m + 48 \<le> block_end ?s m"
    using rm le by (simp_all add: block_end_def)
  have hdr: "ah_header (alc s h) \<noteq> m" if "h \<in> cs" for h
    using D(4)[OF that] m by (auto simp: chunk_ok_def)
  then have live: "live_in ?s cs m = {}" by (auto simp: live_in_def)
  show ?thesis
  proof (rule core_inv_intro)
    show "block_ok ?s b" if "b \<in> insert m bs" for b
      using that D(1)[of b] old(4)[of b] al le bm um by (cases "b = m") (auto simp: block_ok_def f)
    show "sint (allocCounter (blk ?s b)) = int (card (live_in ?s cs b))" if "b \<in> insert m bs" for b
      using that D(2)[of b] live by (cases "b = m") (auto simp: f)
    show "block_end ?s b \<le> unat c \<or> block_end ?s c \<le> unat b"
      if "b \<in> insert m bs" "c \<in> insert m bs" "b \<noteq> c" for b c
      using that D(3)[of b c] apart[of b] apart[of c] old(3)[of b] old(3)[of c] bm
      by (cases "b = m"; cases "c = m") auto
    show "chunk_ok ?s (insert m bs) h" if "h \<in> cs" for h
      using D(4)[OF that] old(1)[OF hdr[OF that]] by (auto simp: chunk_ok_def)
  qed (use D in auto)
qed

lemma core_drop_block:
  assumes inv: "core_inv s bs fs cs"
  shows "core_inv s (bs - {b}) {h \<in> fs. ah_header (alc s h) \<noteq> b} {h \<in> cs. ah_header (alc s h) \<noteq> b}"
proof -
  note D = core_invD[OF inv]
  have live: "live_in s {h \<in> cs. ah_header (alc s h) \<noteq> b} c = live_in s cs c" if "c \<noteq> b" for c
    using that by (auto simp: live_in_def)
  show ?thesis
    by (rule core_inv_intro) (use D live in \<open>auto simp: chunk_ok_def\<close>)
qed

end
