(* ===== verification/GenAllocOps.thy ===== *)
theory GenAllocOps
  imports GenAllocInv
begin

text \<open>
  What the allocator's operations do under its invariant: where the memory they return comes
  from, which chunks are live afterwards, and that nothing the clients hold is moved,
  resized or handed out again.
\<close>

section \<open>The result of an allocation\<close>

text \<open>The request fits the chunk at \<open>p - 48\<close>, which was not live; the live chunks are the old
  ones, unchanged, and this one.\<close>

definition alloc_result :: "u64 \<Rightarrow> galloc \<Rightarrow> u64 set \<Rightarrow> u64 \<Rightarrow> galloc \<Rightarrow> u64 set \<Rightarrow> bool" where
  "alloc_result n s cs p s' cs' \<longleftrightarrow>
     p \<noteq> NULL \<and> p - 48 \<notin> live_chunks s cs \<and> live_chunks s' cs' = insert (p - 48) (live_chunks s cs) \<and>
     unat n \<le> unat (ah_size (alc s' (p - 48))) \<and>
     (\<forall>h \<in> live_chunks s cs. ah_size (alc s' h) = ah_size (alc s h) \<and> ah_header (alc s' h) = ah_header (alc s h))"

lemma chunk_bounds:
  assumes inv: "core_inv s bs fs cs" and h: "h \<in> cs"
  shows "chunk_end s h \<le> 18446744073709551615" and "unat (h + 48) = unat h + 48" and "h + 48 \<noteq> NULL"
    and "h \<noteq> NULL"
proof -
  from core_invD(4)[OF inv h] have c: "ah_header (alc s h) \<in> bs" "chunk_end s h \<le> used_end s (ah_header (alc s h))"
    "unat (ah_header (alc s h)) + 48 \<le> unat h" by (auto simp: chunk_ok_def)
  with core_invD(1)[OF inv c(1)] show e: "chunk_end s h \<le> 18446744073709551615"
    by (simp add: block_ok_def block_end_def)
  show u: "unat (h + 48) = unat h + 48"
    by (subst unat_add_no_wrap) (use e in \<open>simp_all add: chunk_end_def\<close>)
  show "h + 48 \<noteq> NULL" using u by (metis add_is_0 unat_0 zero_neq_numeral)
  show "h \<noteq> NULL" using c(3) by auto
qed

lemma repr_set_live:
  "frees.repr (set_live h s) xs \<longleftrightarrow> frees.repr s xs" "blocks.repr (set_live h s) xs \<longleftrightarrow> blocks.repr s xs"
  by (simp_all add: set_live_def repr_upd repr_upd_same)

lemma same_core_alc:
  assumes "same_core s s'"
  shows "ah_header (alc s' h) = ah_header (alc s h)" "ah_base (alc s' h) = ah_base (alc s h)"
    "ah_size (alc s' h) = ah_size (alc s h)" "isFree (alc s' h) = isFree (alc s h)"
  using assms by (simp_all add: same_core_def)

lemma set_live_alc:
  "ah_header (alc (set_live h s) k) = ah_header (alc s k)" "ah_base (alc (set_live h s) k) = ah_base (alc s k)"
  "ah_size (alc (set_live h s) k) = ah_size (alc s k)"
  by (simp_all add: set_live_def)

lemma take_whole_result:
  assumes inv: "ga_inv s bs fs cs" and h: "h \<in> set fs" and n: "unat n \<le> unat (ah_size (alc s h))"
  shows "ga_inv (snd (take_whole h s)) bs (remove1 h fs) cs"
    and "alloc_result n s cs (fst (take_whole h s)) (snd (take_whole h s)) cs"
proof -
  have c: "core_inv s (set bs) (set fs) cs" and f: "frees.repr s fs" and b: "blocks.repr s bs"
    using inv by (simp_all add: ga_inv_def)
  let ?s3 = "RemoveAllocHeader h (set_live h s)"
  have eq: "take_whole h s = (ah_base (alc ?s3 h), ?s3)"
    by (simp add: take_whole_def set_live_def Let_def)
  note core = list_ops_core(4)[of "set_live h s" h]
  note a = same_core_alc[OF core] set_live_alc
  have hc: "h \<in> cs" "isFree (alc s h)" using core_invD(6)[OF c] h by auto
  have p: "ah_base (alc s h) = h + 48"
    using core_invD(4)[OF c hc(1)] by (simp add: chunk_ok_def)
  have s: "set (remove1 h fs) = set fs - {h}" using frees.repr_distinct[OF f] by simp
  have "frees.repr ?s3 (remove1 h fs)" using f h by (intro frees.repr_remove) (simp_all add: repr_set_live)
  moreover have "blocks.repr ?s3 bs" using b by (simp add: repr_other repr_set_live)
  moreover have "core_inv ?s3 (set bs) (set fs - {h}) cs"
    using core_set_live(1)[OF c h] core_inv_same[OF core] by simp
  ultimately show "ga_inv (snd (take_whole h s)) bs (remove1 h fs) cs"
    by (simp add: ga_inv_def eq s)
  have "live_chunks ?s3 cs = insert h (live_chunks s cs)"
    using core_set_live(2)[OF c h] same_core_measures(8)[OF core] by simp
  then show "alloc_result n s cs (fst (take_whole h s)) (snd (take_whole h s)) cs"
    using chunk_bounds(3)[OF c hc(1)] hc n by (simp add: alloc_result_def eq a p live_chunks_def)
qed

lemma take_split_result:
  assumes inv: "ga_inv s bs fs cs" and h: "h \<in> set fs" and z: "unat z mod 16 = 0"
    and fit: "split_fit z (alc s h)" and n: "unat n \<le> unat z"
  shows "\<exists>fs' cs'. ga_inv (snd (take_split z h s)) bs fs' cs' \<and>
    alloc_result n s cs (fst (take_split z h s)) (snd (take_split z h s)) cs'"
proof -
  have c: "core_inv s (set bs) (set fs) cs" and f: "frees.repr s fs" and b: "blocks.repr s bs"
    using inv by (simp_all add: ga_inv_def)
  have hc: "h \<in> cs" "isFree (alc s h)" using core_invD(6)[OF c] h by auto
  note ok = core_invD(4)[OF c hc(1), unfolded chunk_ok_def]
  let ?old = "ah_size (alc s h)" and ?b = "ah_header (alc s h)"
  define w where "w = (?old - z) - 48"
  have lt: "z < ?old" and gt: "48 < ?old - z" using fit by (simp_all add: split_fit_def not_le)
  have ud: "unat (?old - z) = unat ?old - unat z" using lt by (simp add: unat_sub_le)
  have uw: "unat w + 48 + unat z = unat ?old"
    using gt lt ud by (simp add: w_def unat_sub_le word_less_nat_alt word_le_nat_alt)
  have w16: "unat w mod 16 = 0"
  proof -
    have "(unat w + 48 + unat z) mod 16 = 0" using uw ok by simp
    then show ?thesis using z by presburger
  qed
  define nh where "nh = h + 48 + z"
  have unh: "unat nh = unat h + 48 + unat z"
  proof -
    have "unat (h + 48) + unat z < 18446744073709551616"
      using chunk_bounds(1,2)[OF c hc(1)] uw by (simp add: chunk_end_def)
    from unat_add_no_wrap[OF this] show ?thesis
      using chunk_bounds(2)[OF c hc(1)] by (simp add: nh_def)
  qed
  define s3 where "s3 = upd_alc h (\<lambda>a. a\<lparr>ah_size := z\<rparr>) (set_live h s)"
  define s4 where "s4 = RemoveAllocHeader h s3"
  define g where "g = (\<lambda>a :: AllocHeader. a\<lparr>ah_size := w, ah_base := nh + 48, isFree := True, ah_header := ?b\<rparr>)"
  define s6 where "s6 = AddAllocHeader nh (upd_alc nh g s4)"
  have core4: "same_core s3 s4" unfolding s4_def by (rule list_ops_core)
  have base4: "ah_base (alc s4 h) = h + 48"
    using ok by (simp add: same_core_alc[OF core4] s3_def set_live_alc)
  have eq: "take_split z h s = (h + 48, s6)"
    using base4 SPLIT_SAFE_multiple[OF w16]
    by (simp add: take_split_def Let_def s6_def s4_def s3_def g_def nh_def set_live_def w_def)
  have c3: "core_inv s3 (set bs) (set fs - {h}) cs"
    unfolding s3_def using core_set_live(1)[OF c h] hc(1)
    by (rule core_shrink) (use lt z in \<open>simp_all add: set_live_alc word_less_nat_alt\<close>)
  then have c4: "core_inv s4 (set bs) (set fs - {h}) cs" using core_inv_same[OF core4] by simp
  have ends: "chunk_end s4 k = (if k = h then unat nh else chunk_end s k)" for k
    by (simp add: same_core_measures(4)[OF core4]) (simp add: s3_def chunk_end_def set_live_alc unh)
  have used: "used_end s4 = used_end s"
    by (simp add: same_core_measures(1)[OF core4]) (simp add: s3_def set_live_def)
  have ins: "chunk_end s h \<le> used_end s ?b" "unat ?b + 48 \<le> unat h" "?b \<in> set bs" using ok by auto
  have gap: "unat nh + 48 + unat w = chunk_end s h" using uw unh by (simp add: chunk_end_def)
  have "core_inv (upd_alc nh g s4) (set bs) (insert nh (set fs - {h})) (insert nh cs) \<and> nh \<notin> cs"
  proof (intro conjI core_add_chunk[OF c4])
    fix k assume k: "k \<in> cs"
    show "chunk_end s4 k \<le> unat nh \<or> unat nh + 48 + unat (ah_size (g (alc s4 nh))) \<le> unat k"
      using core_invD(5)[OF c k hc(1)] gap unh by (auto simp: ends g_def)
    show "chunk_end s4 k \<le> unat nh \<or> unat nh + 48 + unat (ah_size (g (alc s4 nh))) \<le> unat k"
      using core_invD(5)[OF c k hc(1)] gap unh by (auto simp: ends g_def)
  next
    have "unat h mod 16 = 0" using ok by blast
    then have "(unat h + 48 + unat z) mod 16 = 0" using z by presburger
    then show "unat nh mod 16 = 0" "unat nh mod 16 = 0" using unh by simp_all
  qed (use ins gap unh w16 in \<open>simp_all add: g_def used\<close>)
  then have c5: "core_inv (upd_alc nh g s4) (set bs) (insert nh (set fs - {h})) (insert nh cs)" and nh: "nh \<notin> cs"
    by blast+
  note core6 = list_ops_core(3)[of "upd_alc nh g s4" nh, folded s6_def]
  have c6: "core_inv s6 (set bs) (insert nh (set fs - {h})) (insert nh cs)"
    using c5 core_inv_same[OF core6] by simp
  have f4: "frees.repr s4 (remove1 h fs)"
    unfolding s4_def by (rule frees.repr_remove) (use f h in \<open>simp_all add: s3_def repr_upd_same repr_set_live\<close>)
  have nfs: "nh \<notin> set (remove1 h fs)" using nh core_invD(6)[OF c] set_remove1_subset[of h fs] by auto
  have "frees.repr s6 (remove1 h fs @ [nh])"
    unfolding s6_def
    by (rule frees.repr_add) (use f4 nfs chunk_bounds(4)[OF c5] in \<open>auto simp: repr_upd_same g_def\<close>)
  moreover have "blocks.repr s6 bs"
    using b by (simp add: s6_def s4_def s3_def repr_other repr_upd repr_set_live)
  moreover have "set (remove1 h fs @ [nh]) = insert nh (set fs - {h})"
    using frees.repr_distinct[OF f] by simp
  ultimately have ga: "ga_inv s6 bs (remove1 h fs @ [nh]) (insert nh cs)"
    using c6 by (simp add: ga_inv_def)
  have a6: "ah_size (alc s6 k) = ah_size (alc s4 k) \<and>
      ah_header (alc s6 k) = ah_header (alc s4 k) \<and> isFree (alc s6 k) = isFree (alc s4 k)" if "k \<noteq> nh" for k
    using that by (simp add: same_core_alc[OF core6])
  have a4: "ah_size (alc s4 k) = (if k = h then z else ah_size (alc s k))"
    "ah_header (alc s4 k) = ah_header (alc s k)" "isFree (alc s4 k) = (k \<noteq> h \<and> isFree (alc s k))" for k
    by (simp_all add: same_core_alc[OF core4] s3_def set_live_def)
  have new: "isFree (alc s6 nh)" by (simp add: same_core_alc[OF core6] g_def)
  have old: "ah_size (alc s6 k) = (if k = h then z else ah_size (alc s k))"
    "ah_header (alc s6 k) = ah_header (alc s k)" "isFree (alc s6 k) = (k \<noteq> h \<and> isFree (alc s k))"
    if "k \<in> cs" for k
  proof -
    have "k \<noteq> nh" using that nh by blast
    from a6[OF this] a4[of k]
    show "ah_size (alc s6 k) = (if k = h then z else ah_size (alc s k))"
      "ah_header (alc s6 k) = ah_header (alc s k)" "isFree (alc s6 k) = (k \<noteq> h \<and> isFree (alc s k))"
      by simp_all
  qed
  have live: "live_chunks s6 (insert nh cs) = insert h (live_chunks s cs)"
    unfolding live_chunks_def using new old(3) hc by blast
  have "alloc_result n s cs (h + 48) s6 (insert nh cs)"
    using live hc chunk_bounds(3)[OF c hc(1)] n old
    by (auto simp: alloc_result_def) (auto simp: live_chunks_def)
  with ga show ?thesis by (auto simp: eq)
qed


lemma header_update_order:
  "(a :: AllocHeader)\<lparr>ah_header := x, isFree := f\<rparr> = a\<lparr>isFree := f, ah_header := x\<rparr>"
  by (cases a) simp

lemma take_fresh_result:
  assumes inv: "ga_inv s bs fs cs" and b: "b \<in> set bs"
    and z: "unat z \<le> room s b" "unat z mod 16 = 0" "48 \<le> unat z" and n: "unat n + 48 \<le> unat z"
  shows "\<exists>cs'. ga_inv (snd (take_fresh z b s)) bs fs cs' \<and>
    alloc_result n s cs (fst (take_fresh z b s)) (snd (take_fresh z b s)) cs'"
proof -
  have c: "core_inv s (set bs) (set fs) cs" and f: "frees.repr s fs" and br: "blocks.repr s bs"
    using inv by (simp_all add: ga_inv_def)
  note D = core_invD[OF c]
  define nh where "nh = bh_base (blk s b) + amountUsed (blk s b)"
  define s1 where "s1 = upd_blk b (\<lambda>b. b\<lparr>amountUsed := amountUsed b + z\<rparr>) s"
  define g where "g = (\<lambda>a :: AllocHeader. a\<lparr>ah_size := z - 48, ah_base := nh + 48, isFree := True, ah_header := b\<rparr>)"
  define s2 where "s2 = upd_alc nh g s1"
  note ok = D(1)[OF b, unfolded block_ok_def]
  have uh: "unat nh = used_end s b"
  proof -
    have "block_end s b \<le> 18446744073709551615" using ok by blast
    then have "unat (bh_base (blk s b)) + unat (amountUsed (blk s b)) < 18446744073709551616"
      by (simp add: block_end_def used_end_def)
    from unat_add_no_wrap[OF this] show ?thesis by (simp only: nh_def used_end_def)
  qed
  have ub: "unat (bh_base (blk s b)) = unat b + 48"
    using ok unat_add_no_wrap[of b 48] by simp
  have uz: "unat (z - 48) = unat z - 48" using z(3) by (simp add: unat_sub_le word_le_nat_alt)
  have c1: "core_inv s1 (set bs) (set fs) cs" and u1: "used_end s1 b = used_end s b + unat z"
    unfolding s1_def by (rule core_carve[OF c b z(1,2)])+
  have "unat b mod 16 = 0" "unat (amountUsed (blk s b)) mod 16 = 0" using ok by blast+
  then have al: "unat nh mod 16 = 0" using ub unfolding uh used_end_def by presburger
  have apart: "chunk_end s1 k \<le> unat nh \<or> unat nh + 48 + unat (ah_size (g (alc s1 nh))) \<le> unat k" if k: "k \<in> cs" for k
  proof (cases "ah_header (alc s k) = b")
    case True
    then show ?thesis using D(4)[OF k] by (simp add: chunk_ok_def s1_def uh)
  next
    case False
    from D(4)[OF k] have o: "ah_header (alc s k) \<in> set bs" "chunk_end s k \<le> used_end s (ah_header (alc s k))"
      "unat (ah_header (alc s k)) + 48 \<le> unat k" by (auto simp: chunk_ok_def)
    have "unat b \<le> unat nh" using ub by (simp add: uh used_end_def)
    moreover have "unat nh + unat z \<le> block_end s b" using z(1) by (simp add: uh block_end_def)
    ultimately show ?thesis
      using D(3)[OF o(1) b False] o(2,3) z(3) uz by (auto simp: block_end_def s1_def g_def)
  qed
  have w16: "(unat z - 48) mod 16 = 0" using z(2,3) by presburger
  have pre: "ah_header (g (alc s1 nh)) \<in> set bs" "ah_base (g (alc s1 nh)) = nh + 48" "isFree (g (alc s1 nh))"
    "unat (ah_size (g (alc s1 nh))) mod 16 = 0" "unat nh mod 16 = 0"
    "unat (ah_header (g (alc s1 nh))) + 48 \<le> unat nh"
    "unat nh + 48 + unat (ah_size (g (alc s1 nh))) \<le> used_end s1 (ah_header (g (alc s1 nh)))"
    using b al uz z(3) w16 by (simp_all add: g_def u1 uh) (simp add: used_end_def ub)
  have c2: "core_inv s2 (set bs) (insert nh (set fs)) (insert nh cs)"
    unfolding s2_def by (rule core_add_chunk(1)[where f = g, OF c1 pre apart])
  have nc: "nh \<notin> cs" by (rule core_add_chunk(2)[where f = g, OF c1 pre apart])
  have nf: "nh \<notin> set fs" using nc D(6) by auto
  have eq: "take_fresh z b s = (nh + 48, set_live nh s2)"
    by (simp add: take_fresh_def CarveMemoryFromBlock_def set_live_def s2_def s1_def g_def nh_def Let_def upd_alc_def upd_blk_def
        header_update_order)
  have "core_inv (set_live nh s2) (set bs) (set fs) (insert nh cs)"
    using core_set_live(1)[OF c2, of nh] nf by simp
  moreover have "frees.repr (set_live nh s2) fs" "blocks.repr (set_live nh s2) bs"
    using f br by (simp_all add: repr_set_live s2_def s1_def repr_upd repr_upd_same g_def)
  ultimately have ga: "ga_inv (set_live nh s2) bs fs (insert nh cs)" by (simp add: ga_inv_def)
  have keep: "alc s2 k = alc s k" if "k \<noteq> nh" for k using that by (simp add: s2_def s1_def)
  have "live_chunks s2 (insert nh cs) = live_chunks s cs"
    using nc keep by (auto simp: live_chunks_def s2_def g_def)
  then have "live_chunks (set_live nh s2) (insert nh cs) = insert nh (live_chunks s cs)"
    using core_set_live(2)[OF c2, of nh] by simp
  then have "alloc_result n s cs (nh + 48) (set_live nh s2) (insert nh cs)"
    using nc n uz chunk_bounds(3)[OF c2, of nh] keep
    by (auto simp: alloc_result_def live_chunks_def set_live_alc) (auto simp: s2_def g_def)
  with ga show ?thesis by (auto simp: eq)
qed

section \<open>Searching\<close>

lemma GetMemoryFromFreeList_result:
  assumes inv: "ga_inv s bs fs cs" and n: "unat n \<le> 0x2000000000000000"
  shows "\<exists>p s'. GetMemoryFromFreeList n s = Some (p, s') \<and>
    (p = NULL \<and> s' = s \<or> (\<exists>fs' cs'. ga_inv s' bs fs' cs' \<and> alloc_result n s cs p s' cs'))"
proof -
  let ?z = "SPLIT_SAFE n"
  let ?t = "\<lambda>h. exact_fit ?z (alc s h) \<or> split_fit ?z (alc s h)"
  have z: "unat n \<le> unat ?z" "unat ?z < unat n + 16" "unat ?z mod 16 = 0"
    using SPLIT_SAFE_bounds[of n] n by simp_all
  have "frees.repr s fs" using inv by (simp add: ga_inv_def)
  then have find: "follow (\<lambda>h. ah_next (alc s h)) ?t (aHead s) = Some (find ?t fs)"
    by (rule frees.repr_follow)
  show ?thesis
  proof (cases "find ?t fs")
    case None
    then show ?thesis using find by (simp add: GetMemoryFromFreeList_def)
  next
    case (Some h)
    then have h: "h \<in> set fs" "?t h" by (auto simp: find_Some_iff)
    show ?thesis
    proof (cases "exact_fit ?z (alc s h)")
      case True
      have "unat (?z + 48) = unat ?z + 48" using z n by (subst unat_add_no_wrap) simp_all
      then have "unat n \<le> unat (ah_size (alc s h))" using True z by (auto simp: exact_fit_def)
      from take_whole_result[OF inv h(1) this] True Some find show ?thesis
        by (auto simp: GetMemoryFromFreeList_def Let_def intro!: exI prod.collapse [symmetric])
    next
      case False
      with h have "split_fit ?z (alc s h)" by simp
      from take_split_result[OF inv h(1) z(3) this z(1)] False Some find show ?thesis
        by (auto simp: GetMemoryFromFreeList_def Let_def intro!: exI prod.collapse [symmetric])
    qed
  qed
qed

lemma AllocateFreshMemory_result:
  assumes inv: "ga_inv s bs fs cs" and n: "unat n \<le> 0x2000000000000000"
  shows "\<exists>p s'. AllocateFreshMemory n s = Some (p, s') \<and>
    (p = NULL \<and> s' = s \<and> (\<forall>b \<in> set bs. \<not> block_fits (SPLIT_SAFE (n + 48)) (blk s b)) \<or>
     (\<exists>fs' cs'. ga_inv s' bs fs' cs' \<and> alloc_result n s cs p s' cs'))"
proof -
  obtain p s1 where 1: "GetMemoryFromFreeList n s = Some (p, s1)"
    and r: "p = NULL \<and> s1 = s \<or> (\<exists>fs' cs'. ga_inv s1 bs fs' cs' \<and> alloc_result n s cs p s1 cs')"
    using GetMemoryFromFreeList_result[OF assms] by blast
  show ?thesis
  proof (cases "p = NULL")
    case False
    then show ?thesis using 1 r by (simp add: AllocateFreshMemory_def)
  next
    case True
    with r have s1: "s1 = s" by (auto simp: alloc_result_def)
    let ?z = "SPLIT_SAFE (n + 48)"
    have "unat (n + 48) = unat n + 48" using n by (subst unat_add_no_wrap) simp_all
    then have z: "unat n + 48 \<le> unat ?z" "unat ?z mod 16 = 0"
      using SPLIT_SAFE_bounds[of "n + 48"] n by simp_all
    have "blocks.repr s bs" using inv by (simp add: ga_inv_def)
    then have find: "follow (\<lambda>h. bh_next (blk s h)) (\<lambda>h. block_fits ?z (blk s h)) (bHead s) =
        Some (find (\<lambda>h. block_fits ?z (blk s h)) bs)"
      by (rule blocks.repr_follow)
    show ?thesis
    proof (cases "find (\<lambda>h. block_fits ?z (blk s h)) bs")
      case None
      then have "\<forall>b \<in> set bs. \<not> block_fits ?z (blk s b)" by (simp add: find_None_iff)
      moreover have "AllocateFreshMemory n s = Some (NULL, s)"
        using 1 True s1 find None by (simp add: AllocateFreshMemory_def Let_def)
      ultimately show ?thesis by blast
    next
      case (Some b)
      then have b: "b \<in> set bs" "block_fits ?z (blk s b)" by (auto simp: find_Some_iff)
      have "?z \<noteq> 0" using z(1) by auto
      from block_fits_room[OF this b(2)]
      obtain cs' where "ga_inv (snd (take_fresh ?z b s)) bs fs cs'"
        "alloc_result n s cs (fst (take_fresh ?z b s)) (snd (take_fresh ?z b s)) cs'"
        using take_fresh_result[OF inv b(1) _ z(2) _ z(1)] z(1) by auto
      then show ?thesis
        using 1 True s1 find Some by (auto simp: AllocateFreshMemory_def Let_def intro!: exI prod.collapse [symmetric])
    qed
  qed
qed


section \<open>Creating a block\<close>

lemma core_inv_cong:
  "blk s' = blk s \<Longrightarrow> alc s' = alc s \<Longrightarrow> core_inv s' bs fs cs \<longleftrightarrow> core_inv s bs fs cs"
  by (simp add: core_defs)

lemma ga_inv_cong:
  assumes "blk s' = blk s" "alc s' = alc s" "bHead s' = bHead s" "bTail s' = bTail s"
    "aHead s' = aHead s" "aTail s' = aTail s"
  shows "ga_inv s' bs fs cs \<longleftrightarrow> ga_inv s bs fs cs"
  using assms core_inv_cong[of s' s]
  by (simp add: ga_inv_def blocks.repr_def frees.repr_def)

text \<open>
  The contract of the physical memory manager that a new block for \<open>n\<close> bytes relies on: the
  request fits its address space, and a range it returns lies in no existing block.
\<close>

definition fresh_block :: "u64 \<Rightarrow> galloc \<Rightarrow> u64 list \<Rightarrow> bool" where
  "fresh_block n s bs \<longleftrightarrow>
     pageCount (ga_pm s) < 0x10000000000000 \<and> IN_PAGES (SPLIT_SAFE n) \<le> pageCount (ga_pm s) \<and>
     (\<forall>a pm. MmAllocateMultiplePages (IN_PAGES (SPLIT_SAFE n)) (ga_pm s) = Some (a, pm) \<longrightarrow> a \<noteq> NULL \<longrightarrow>
        (\<forall>b \<in> set bs. block_end s b \<le> unat a \<or> unat a + 4096 * unat (IN_PAGES (SPLIT_SAFE n)) \<le> unat b))"

lemma unat_IN_PAGES:
  assumes "unat x \<le> 0x4000000000000000"
  shows "unat (IN_PAGES x) = (unat x + 4095) div 4096"
proof -
  have "unat (x + 4095) = unat x + 4095" using assms by (subst unat_add_no_wrap) simp_all
  then show ?thesis by (simp add: IN_PAGES_def PAGE_SIZE_def unat_div)
qed

lemma CreateBlock_result:
  assumes inv: "ga_inv s bs fs cs" and n: "0 < n" "unat n \<le> 0x3000000000000000"
    and fr: "fresh_block n s bs"
  shows "CreateBlock n s = Some (STATUS_OUT_OF_MEMORY, s) \<and>
      MmAllocateMultiplePages (IN_PAGES (SPLIT_SAFE n)) (ga_pm s) = Some (NULL, ga_pm s) \<or>
    (\<exists>m s'. CreateBlock n s = Some (STATUS_SUCCESS, s') \<and> ga_inv s' (bs @ [m]) fs cs \<and> alc s' = alc s \<and>
       bh_size (blk s' m) = SPLIT_SAFE n - 48 \<and> amountUsed (blk s' m) = 0 \<and> allocSpinLock s' = allocSpinLock s)"
proof -
  let ?z = "SPLIT_SAFE n" and ?pm = "ga_pm s"
  let ?k = "IN_PAGES ?z"
  have z: "unat n \<le> unat ?z" "unat ?z < unat n + 16" using SPLIT_SAFE_bounds[of n] n by simp_all
  have k: "unat ?z \<le> 4096 * unat ?k" "0 < unat ?k"
  proof -
    have u: "unat ?k = (unat ?z + 4095) div 4096" using unat_IN_PAGES[of ?z] z n by simp
    have "0 < unat n" using n(1) by (simp add: word_less_nat_alt)
    then have "0 < unat ?z" using z by linarith
    then show "0 < unat ?k" unfolding u by (simp add: div_greater_zero_iff)
    show "unat ?z \<le> 4096 * unat ?k"
      unfolding u using div_mult_mod_eq[of "unat ?z + 4095" 4096] mod_less_divisor[of 4096 "unat ?z + 4095"]
      by linarith
  qed
  have wf: "pmm_wf ?pm" and le: "?k \<le> pageCount ?pm" and small: "unat (pageCount ?pm) < 4503599627370496"
    using fr by (auto simp: fresh_block_def pmm_wf_def word_less_nat_alt word_le_nat_alt)
  from MmAllocateMultiplePages_cases[OF wf le] show ?thesis
  proof (elim disjE exE conjE)
    assume "MmAllocateMultiplePages ?k ?pm = Some (NULL, ?pm)"
    then show ?thesis by (simp add: CreateBlock_def Let_def)
  next
    fix i
    assume i: "i \<le> pageCount ?pm - ?k" "range_accepted ?pm ?k i"
      and al: "MmAllocateMultiplePages ?k ?pm = Some (GetAddressFromPageLocation i, multi_result ?k ?pm i)"
    define m where "m = GetAddressFromPageLocation i"
    have ik: "unat i + unat ?k \<le> unat (pageCount ?pm)"
      using le i(1) by (simp add: word_le_nat_alt unat_sub_le)
    have i52: "unat i < 4503599627370496" using ik small by linarith
    have um: "unat m = 4096 * unat i" unfolding m_def by (rule unat_page_address[OF i52])
    have "0 < i" using i(2) by (simp add: range_accepted_iff[OF i52])
    then have mnz: "m \<noteq> NULL" using page_address_props(4)[OF i52] by (auto simp: m_def)
    let ?len = "4096 * unat ?k"
    have apart: "block_end s b \<le> unat m \<or> unat m + ?len \<le> unat b" if "b \<in> set bs" for b
      using fr al mnz that by (auto simp: fresh_block_def m_def)
    have c: "core_inv s (set bs) (set fs) cs" using inv by (simp add: ga_inv_def)
    have nm: "m \<notin> set bs"
    proof
      assume m: "m \<in> set bs"
      have "unat m + 48 \<le> block_end s m"
      proof -
        have "bh_base (blk s m) = m + 48" "unat m + 48 \<le> 18446744073709551615"
          using core_invD(1)[OF c m] by (auto simp: block_ok_def)
        then show ?thesis using unat_add_no_wrap[of m 48] by (simp add: block_end_def used_end_def)
      qed
      then show False using apart[OF m] k(2) by auto
    qed
    define f where "f = (\<lambda>b :: BlockHeader. b\<lparr>bh_size := ?z - 48, bh_base := m + 48, amountUsed := 0, allocCounter := 0\<rparr>)"
    define s2 where "s2 = upd_blk m f (s\<lparr>ga_pm := multi_result ?k ?pm i\<rparr>)"
    have eq: "CreateBlock n s = Some (STATUS_SUCCESS, AddBlockHeader m s2)"
      using al mnz by (simp add: CreateBlock_def Let_def m_def s2_def f_def)
    have "core_inv (upd_blk m f s) (insert m (set bs)) (set fs) cs"
    proof (rule core_new_block[OF c nm, where len = ?len])
      show "unat m mod 16 = 0" by (simp add: um)
      show "48 \<le> ?len" using k(2) by simp
      show "unat m + ?len \<le> 18446744073709551615" using um ik small by simp
      show "48 + unat (bh_size (f (blk s m))) \<le> ?len" if "unat (bh_size (f (blk s m))) < 9223372036854775808"
      proof (cases "48 \<le> unat ?z")
        case True
        then show ?thesis using k(1) by (simp add: f_def unat_sub_le word_le_nat_alt)
      next
        case False
        then have "unat (?z - 48) = 18446744073709551616 + unat ?z - 48"
          by (simp add: unat_sub_if' word_le_nat_alt)
        then show ?thesis using that by (simp add: f_def)
      qed
    qed (use apart in \<open>simp_all add: f_def\<close>)
    then have c2: "core_inv s2 (insert m (set bs)) (set fs) cs"
      using core_inv_cong[of s2 "upd_blk m f s"] by (simp add: s2_def upd_blk_def)
    have b0: "blocks.repr s bs" using inv by (simp add: ga_inv_def)
    have old: "blk s2 x = blk s x" if "x \<in> set bs" for x
    proof -
      have "x \<noteq> m" using that nm by blast
      then show ?thesis by (simp add: s2_def)
    qed
    have br: "blocks.repr s2 bs"
      by (rule blocks.repr_cong[OF b0]) (simp_all add: old, simp_all add: s2_def)
    have "blocks.repr (AddBlockHeader m s2) (bs @ [m])"
      by (rule blocks.repr_add[OF br mnz nm])
    moreover have "frees.repr (AddBlockHeader m s2) fs"
    proof -
      have "frees.repr s fs" using inv by (simp add: ga_inv_def)
      then have "frees.repr (s\<lparr>ga_pm := multi_result ?k ?pm i\<rparr>) fs" by (simp add: frees.repr_def)
      then show ?thesis by (simp add: repr_other s2_def repr_upd)
    qed
    moreover have "core_inv (AddBlockHeader m s2) (set (bs @ [m])) (set fs) cs"
      using c2 core_inv_same[OF list_ops_core(1)] by simp
    moreover have "alc (AddBlockHeader m s2) = alc s"
      by (simp add: AddBlockHeader_def s2_def upd_blk_def Let_def)
    moreover have "bh_size (blk (AddBlockHeader m s2) m) = ?z - 48" "amountUsed (blk (AddBlockHeader m s2) m) = 0"
      using list_ops_core(1)[of s2 m] by (simp_all add: same_core_def s2_def f_def)
    moreover have "allocSpinLock (AddBlockHeader m s2) = allocSpinLock s"
      using list_ops_rest(1)[of s2 m] by (simp add: same_rest_def s2_def)
    ultimately show ?thesis using eq by (auto simp: ga_inv_def)
  qed
qed


section \<open>Allocation\<close>

definition lock_free :: "galloc \<Rightarrow> bool" where
  "lock_free s \<longleftrightarrow> \<not> lock (allocSpinLock s)"

lemma ga_acquire_eq:
  "ga_acquire s = (if lock_free s then Some (s\<lparr>allocSpinLock := (allocSpinLock s)\<lparr>lock := True\<rparr>\<rparr>) else None)"
  by (simp add: ga_acquire_def KeAcquireSpinLock_eq lock_free_def)

lemma ga_locked [simp]:
  "ga_inv (s\<lparr>allocSpinLock := l\<rparr>) bs fs cs = ga_inv s bs fs cs"
  "ga_inv (ga_release s) bs fs cs = ga_inv s bs fs cs"
  "ga_inv (ga_print st msg args s) bs fs cs = ga_inv s bs fs cs"
  "lock_free (ga_release s)"
  "alc (ga_release s) = alc s" "blk (ga_release s) = blk s"
  "alc (ga_print st msg args s) = alc s" "blk (ga_print st msg args s) = blk s"
  "ga_pm (ga_release s) = ga_pm s" "ga_pm (ga_print st msg args s) = ga_pm s"
  by ((rule ga_inv_cong)?, simp_all add: ga_release_def ga_print_def lock_free_def KeReleaseSpinLock_def)+

lemma alloc_result_cong:
  assumes "alc t = alc s" and "alc t' = alc s'"
  shows "alloc_result n t cs p t' cs' \<longleftrightarrow> alloc_result n s cs p s' cs'"
  using assms by (simp add: alloc_result_def live_chunks_def)

lemma fresh_block_lock [simp]: "fresh_block n (s\<lparr>allocSpinLock := l\<rparr>) bs = fresh_block n s bs"
  by (simp add: fresh_block_def core_defs)

lemma MmAllocateGeneralMemory_result:
  assumes inv: "ga_inv s bs fs cs" and free: "lock_free s" and n: "unat n \<le> 0x2000000000000000"
    and fr: "fresh_block (n + PAGE_SIZE) s bs"
  shows "\<exists>p s'. MmAllocateGeneralMemory n s = Some (p, s') \<and> lock_free s' \<and>
    (p = NULL \<and> ga_inv s' bs fs cs \<and> alc s' = alc s \<and>
       MmAllocateMultiplePages (IN_PAGES (SPLIT_SAFE (n + PAGE_SIZE))) (ga_pm s) = Some (NULL, ga_pm s) \<or>
     (\<exists>bs' fs' cs'. ga_inv s' bs' fs' cs' \<and> alloc_result n s cs p s' cs'))"
proof -
  define s0 where "s0 = s\<lparr>allocSpinLock := (allocSpinLock s)\<lparr>lock := True\<rparr>\<rparr>"
  have acq: "ga_acquire s = Some s0" using free by (simp add: ga_acquire_eq s0_def)
  have inv0: "ga_inv s0 bs fs cs" and fr0: "fresh_block (n + PAGE_SIZE) s0 bs" and a0: "alc s0 = alc s"
    and pm0: "ga_pm s0 = ga_pm s" using inv fr by (simp_all add: s0_def)
  obtain p s1 where 1: "AllocateFreshMemory n s0 = Some (p, s1)"
    and r1: "p = NULL \<and> s1 = s0 \<or> (\<exists>fs' cs'. ga_inv s1 bs fs' cs' \<and> alloc_result n s0 cs p s1 cs')"
    using AllocateFreshMemory_result[OF inv0 n] by blast
  show ?thesis
  proof (cases "p = NULL")
    case False
    then obtain fs' cs' where r: "ga_inv s1 bs fs' cs'" "alloc_result n s0 cs p s1 cs'" using r1 by blast
    have "MmAllocateGeneralMemory n s = Some (p, ga_release s1)"
      using False acq 1 by (simp add: MmAllocateGeneralMemory_def)
    moreover have "alloc_result n s cs p (ga_release s1) cs'"
      using r(2) alloc_result_cong[OF a0, of "ga_release s1" s1] by (simp add: alloc_result_def live_chunks_def a0)
    ultimately show ?thesis using r(1) by (auto intro!: exI)
  next
    case True
    then have s1: "s1 = s0" using r1 by (auto simp: alloc_result_def)
    have un: "unat (n + PAGE_SIZE) = unat n + 4096"
      using n by (subst unat_add_no_wrap) (simp_all add: PAGE_SIZE_def)
    have "0 < n + PAGE_SIZE" "unat (n + PAGE_SIZE) \<le> 0x3000000000000000"
      using un n by (simp_all add: word_less_nat_alt)
    from CreateBlock_result[OF inv0 this fr0] show ?thesis
    proof (elim disjE exE conjE)
      assume "CreateBlock (n + PAGE_SIZE) s0 = Some (STATUS_OUT_OF_MEMORY, s0)"
        and oom: "MmAllocateMultiplePages (IN_PAGES (SPLIT_SAFE (n + PAGE_SIZE))) (ga_pm s0) = Some (NULL, ga_pm s0)"
      then have "MmAllocateGeneralMemory n s =
          Some (NULL, ga_release (ga_print TERM_STATUS_ERROR ''it failed??'' [] s0))"
        using acq 1 True s1 by (simp add: MmAllocateGeneralMemory_def NR_SUCCESS_def)
      then show ?thesis using inv0 oom a0 pm0 by simp
    next
      fix m s2
      assume cb: "CreateBlock (n + PAGE_SIZE) s0 = Some (STATUS_SUCCESS, s2)" and inv2: "ga_inv s2 (bs @ [m]) fs cs"
        and a2: "alc s2 = alc s0" and sz: "bh_size (blk s2 m) = SPLIT_SAFE (n + PAGE_SIZE) - 48" "amountUsed (blk s2 m) = 0"
      obtain q s3 where 3: "AllocateFreshMemory n s2 = Some (q, s3)"
        and r3: "q = NULL \<and> s3 = s2 \<and> (\<forall>b \<in> set (bs @ [m]). \<not> block_fits (SPLIT_SAFE (n + 48)) (blk s2 b)) \<or>
          (\<exists>fs' cs'. ga_inv s3 (bs @ [m]) fs' cs' \<and> alloc_result n s2 cs q s3 cs')"
        using AllocateFreshMemory_result[OF inv2 n] by blast
      have "block_fits (SPLIT_SAFE (n + 48)) (blk s2 m)"
      proof -
        have u48: "unat (n + 48) = unat n + 48" using n by (subst unat_add_no_wrap) simp_all
        note b1 = SPLIT_SAFE_bounds[of "n + 48"] and b2 = SPLIT_SAFE_bounds[of "n + PAGE_SIZE"]
        have u: "unat (SPLIT_SAFE (n + PAGE_SIZE) - 48) = unat (SPLIT_SAFE (n + PAGE_SIZE)) - 48"
          using b2 un n by (simp add: unat_sub_le word_le_nat_alt)
        then have s: "sint (SPLIT_SAFE (n + PAGE_SIZE) - 48) = int (unat (SPLIT_SAFE (n + PAGE_SIZE) - 48))"
          using b2 un n by (intro sint_small) simp
        have "0 < unat (SPLIT_SAFE (n + PAGE_SIZE) - 48)" using u b2 un n by simp
        then have "0 < sint (SPLIT_SAFE (n + PAGE_SIZE) - 48)" unfolding s by (simp only: of_nat_0_less_iff)
        then show ?thesis
          using u b1 b2 un u48 n by (simp add: block_fits_def Let_def sz word_sle_eq word_le_nat_alt)
      qed
      with r3 obtain fs' cs' where r: "ga_inv s3 (bs @ [m]) fs' cs'" "alloc_result n s2 cs q s3 cs'" by auto
      have "MmAllocateGeneralMemory n s = Some (q, ga_release s3)"
        using acq 1 True s1 cb 3 by (simp add: MmAllocateGeneralMemory_def NR_SUCCESS_def)
      moreover have "alloc_result n s cs q (ga_release s3) cs'"
        using r(2) a2 a0 by (simp add: alloc_result_def live_chunks_def)
      ultimately show ?thesis using r(1) by (auto intro!: exI)
    qed
  qed
qed

section \<open>Freeing\<close>

lemma sweep_result:
  "frees.repr s (ys @ xs) \<Longrightarrow>
   \<exists>s'. sweep_free_list b (first_of xs) s = Some s' \<and>
     frees.repr s' (ys @ filter (\<lambda>h. ah_header (alc s h) \<noteq> b) xs) \<and> same_core s s' \<and> same_rest s s' \<and>
     (\<forall>zs. blocks.repr s' zs = blocks.repr s zs)"
proof (induction xs arbitrary: s ys)
  case Nil
  then show ?case by (subst sweep_free_list.simps) simp
next
  case (Cons x xs)
  have x: "x \<noteq> NULL" using frees.repr_not_null[OF Cons.prems] by simp
  have nx: "ah_next (alc s x) = first_of xs" by (rule frees.repr_next[OF Cons.prems])
  show ?case
  proof (cases "ah_header (alc s x) = b")
    case True
    let ?s = "RemoveAllocHeader x s"
    have "remove1 x (ys @ x # xs) = ys @ xs"
      using frees.repr_distinct[OF Cons.prems] by (simp add: remove1_append)
    then have "frees.repr ?s (ys @ xs)"
      using frees.repr_remove[OF Cons.prems, of x] by simp
    from Cons.IH[OF this] obtain s' where s': "sweep_free_list b (first_of xs) ?s = Some s'"
      "frees.repr s' (ys @ filter (\<lambda>h. ah_header (alc ?s h) \<noteq> b) xs)" "same_core ?s s'" "same_rest ?s s'"
      "\<forall>zs. blocks.repr s' zs = blocks.repr ?s zs" by blast
    have "sweep_free_list b (first_of (x # xs)) s = Some s'"
      using x True nx s'(1) by (subst sweep_free_list.simps) (simp add: Let_def)
    moreover have "same_core s s'" using s'(3) list_ops_core(4) same_core_trans by blast
    moreover have "same_rest s s'" using s'(4) list_ops_rest(4) by (simp add: same_rest_def)
    moreover have "ah_header (alc ?s h) = ah_header (alc s h)" for h
      by (rule same_core_alc(1)[OF list_ops_core(4)])
    ultimately show ?thesis using s'(2,5) True by (simp add: repr_other)
  next
    case False
    have "frees.repr s ((ys @ [x]) @ xs)" using Cons.prems by simp
    from Cons.IH[OF this] obtain s' where s': "sweep_free_list b (first_of xs) s = Some s'"
      "frees.repr s' (ys @ x # filter (\<lambda>h. ah_header (alc s h) \<noteq> b) xs)" "same_core s s'" "same_rest s s'"
      "\<forall>zs. blocks.repr s' zs = blocks.repr s zs" by auto
    have "sweep_free_list b (first_of (x # xs)) s = Some s'"
      using x False nx s'(1) by (subst sweep_free_list.simps) simp
    with s' False show ?thesis by simp
  qed
qed

lemma DeleteBlockHeader_fields:
  "blk (snd (DeleteBlockHeader b s)) = blk (snd (RemoveBlockHeader b s))"
  "alc (snd (DeleteBlockHeader b s)) = alc s"
  "bHead (snd (DeleteBlockHeader b s)) = bHead (snd (RemoveBlockHeader b s))"
  "bTail (snd (DeleteBlockHeader b s)) = bTail (snd (RemoveBlockHeader b s))"
  "aHead (snd (DeleteBlockHeader b s)) = aHead s" "aTail (snd (DeleteBlockHeader b s)) = aTail s"
  by (simp_all add: DeleteBlockHeader_def RemoveBlockHeader_def NR_SUCCESS_def MmFreeMultiplePages_def Let_def)

lemma MmFreeGeneralMemory_result:
  assumes inv: "ga_inv s bs fs cs" and free: "lock_free s" and h: "h \<in> live_chunks s cs"
  shows "\<exists>s' bs' fs' cs'. MmFreeGeneralMemory (h + 48) s = Some (STATUS_SUCCESS, s') \<and> lock_free s' \<and>
    ga_inv s' bs' fs' cs' \<and> live_chunks s' cs' = live_chunks s cs - {h} \<and>
    (\<forall>k \<in> live_chunks s cs. ah_size (alc s' k) = ah_size (alc s k) \<and> ah_header (alc s' k) = ah_header (alc s k))"
proof -
  have hc: "h \<in> cs" "\<not> isFree (alc s h)" using h by (simp_all add: live_chunks_def)
  define s0 where "s0 = s\<lparr>allocSpinLock := (allocSpinLock s)\<lparr>lock := True\<rparr>\<rparr>"
  have acq: "ga_acquire s = Some s0" using free by (simp add: ga_acquire_eq s0_def)
  have inv0: "ga_inv s0 bs fs cs" and a0: "alc s0 = alc s" using inv by (simp_all add: s0_def)
  then have c: "core_inv s0 (set bs) (set fs) cs" and f: "frees.repr s0 fs" and b: "blocks.repr s0 bs"
    by (simp_all add: ga_inv_def)
  let ?b = "ah_header (alc s0 h)"
  define s1 where "s1 = upd_blk ?b (\<lambda>b. b\<lparr>allocCounter := allocCounter b - 1\<rparr>) s0"
  have hc0: "h \<in> cs" "\<not> isFree (alc s0 h)" using hc a0 by simp_all
  note count = live_count[OF c hc0]
  have p: "h + 48 \<noteq> NULL" using chunk_bounds(3)[OF c hc(1)] .
  show ?thesis
  proof (cases "live_in s0 cs ?b - {h} = {}")
    case False
    then have "0 < card (live_in s0 cs ?b - {h})" by (simp add: card_gt_0_iff)
    then have "0 < sint (allocCounter (blk s0 ?b) - 1)" unfolding count by (simp only: of_nat_0_less_iff)
    then have pos: "\<not> allocCounter (blk s0 ?b) - 1 \<le>s 0" by (simp add: word_sle_eq)
    define s2 where "s2 = AddAllocHeader h (set_freed h s0)"
    have "MmFreeGeneralMemory (h + 48) s = Some (STATUS_SUCCESS, ga_release s2)"
      using acq p hc0(2) pos
      by (simp add: MmFreeGeneralMemory_def Let_def s2_def set_freed_def)
    moreover have "h \<notin> set fs" using core_invD(6)[OF c] hc0 by auto
    then have "frees.repr s2 (fs @ [h])"
      unfolding s2_def using f chunk_bounds(4)[OF c hc(1)]
      by (intro frees.repr_add) (simp_all add: set_freed_def repr_upd repr_upd_same)
    moreover have "blocks.repr s2 bs" using b by (simp add: s2_def repr_other set_freed_def repr_upd repr_upd_same)
    moreover have "core_inv s2 (set bs) (set (fs @ [h])) cs"
      unfolding s2_def using core_set_freed(1)[OF c hc0] core_inv_same[OF list_ops_core(3)] by simp
    moreover have "live_chunks s2 cs = live_chunks s cs - {h}"
      unfolding s2_def using core_set_freed(2)[OF c hc0] same_core_measures(8)[OF list_ops_core(3)]
      by (simp add: live_chunks_def a0)
    moreover have "ah_size (alc s2 k) = ah_size (alc s k)" "ah_header (alc s2 k) = ah_header (alc s k)" for k
      by (simp_all add: s2_def same_core_alc[OF list_ops_core(3)] set_freed_def a0)
    moreover from calculation have "ga_inv s2 bs (fs @ [h]) cs" by (simp add: ga_inv_def)
    ultimately show ?thesis
      by (intro exI[of _ "ga_release s2"] exI[of _ bs] exI[of _ "fs @ [h]"] exI[of _ cs])
        (simp add: live_chunks_def)
  next
    case True
    have "sint (allocCounter (blk s0 ?b) - 1) = 0" unfolding count True by simp
    then have zero: "allocCounter (blk s0 ?b) - 1 \<le>s 0" by (simp add: word_sle_eq)
    have "frees.repr s1 ([] @ fs)" using f by (simp add: s1_def repr_upd)
    from sweep_result[OF this, of ?b] obtain s2 where 2: "sweep_free_list ?b (aHead s1) s1 = Some s2"
      "frees.repr s2 (filter (\<lambda>k. ah_header (alc s1 k) \<noteq> ?b) fs)" "same_core s1 s2"
      "\<And>zs. blocks.repr s2 zs = blocks.repr s1 zs"
      using frees.repr_head[of s1 fs] f by (auto simp: s1_def repr_upd)
    define s3 where "s3 = snd (DeleteBlockHeader ?b s2)"
    have eq: "MmFreeGeneralMemory (h + 48) s = Some (STATUS_SUCCESS, ga_release s3)"
      using acq p hc0(2) zero 2(1)[unfolded s1_def]
      by (simp add: MmFreeGeneralMemory_def Let_def s3_def)
    have hb: "?b \<in> set bs" using core_invD(4)[OF c hc(1)] by (simp add: chunk_ok_def)
    let ?fs = "filter (\<lambda>k. ah_header (alc s1 k) \<noteq> ?b) fs"
    let ?cs = "{k \<in> cs. ah_header (alc s0 k) \<noteq> ?b}"
    have a1: "alc s1 = alc s0" by (simp add: s1_def)
    have a3: "ah_size (alc s3 k) = ah_size (alc s k)" "ah_header (alc s3 k) = ah_header (alc s k)"
      "isFree (alc s3 k) = isFree (alc s k)" for k
      by (simp_all add: s3_def DeleteBlockHeader_fields same_core_alc[OF 2(3)] a1 a0)
    have "core_inv s0 (set bs - {?b}) {k \<in> set fs. ah_header (alc s0 k) \<noteq> ?b} ?cs"
      by (rule core_drop_block[OF c])
    then have "core_inv s1 (set bs - {?b}) {k \<in> set fs. ah_header (alc s0 k) \<noteq> ?b} ?cs"
      unfolding core_inv_def by (simp add: s1_def)
    then have c2: "core_inv s2 (set bs - {?b}) {k \<in> set fs. ah_header (alc s0 k) \<noteq> ?b} ?cs"
      using core_inv_same[OF 2(3)] by simp
    have c3: "core_inv s3 (set bs - {?b}) {k \<in> set fs. ah_header (alc s0 k) \<noteq> ?b} ?cs"
    proof -
      have "core_inv (snd (RemoveBlockHeader ?b s2)) (set bs - {?b}) {k \<in> set fs. ah_header (alc s0 k) \<noteq> ?b} ?cs"
        using c2 core_inv_same[OF list_ops_core(2)] by simp
      moreover have "alc (snd (RemoveBlockHeader ?b s2)) = alc s2"
        by (simp add: RemoveBlockHeader_def upd_blk_def Let_def)
      ultimately show ?thesis
        using core_inv_cong[of s3 "snd (RemoveBlockHeader ?b s2)"] by (simp add: s3_def DeleteBlockHeader_fields)
    qed
    have "blocks.repr (snd (RemoveBlockHeader ?b s2)) (remove1 ?b bs)"
      by (rule blocks.repr_remove) (use b hb 2(4) in \<open>simp_all add: s1_def repr_upd_same\<close>)
    then have "blocks.repr s3 (remove1 ?b bs)"
      by (simp add: blocks.repr_def s3_def DeleteBlockHeader_fields)
    moreover have "frees.repr s3 ?fs"
      using 2(2) by (simp add: frees.repr_def s3_def DeleteBlockHeader_fields)
    moreover have "set (remove1 ?b bs) = set bs - {?b}" using blocks.repr_distinct[OF b] by simp
    moreover have "set ?fs = {k \<in> set fs. ah_header (alc s0 k) \<noteq> ?b}" by (auto simp: a1)
    ultimately have "ga_inv s3 (remove1 ?b bs) ?fs ?cs" using c3 by (simp add: ga_inv_def)
    moreover have "live_chunks s3 ?cs = live_chunks s cs - {h}"
      using True hc0 by (auto simp: live_chunks_def live_in_def a3 a0)
    ultimately show ?thesis using eq a3
      by (intro exI[of _ "ga_release s3"] exI) (auto simp: live_chunks_def)
  qed
qed

end
