(* ===== verification/GenAllocProps.thy ===== *)
theory GenAllocProps
  imports GenAllocOps
begin

text \<open>
  The properties of the general allocator for its clients: what an allocation and a free do
  to the set of live allocations, when a request fails, which misuse is detected, and two
  places where the arithmetic of the code goes wrong.
\<close>

section \<open>Sample state\<close>

text \<open>An allocator without blocks over sixteen pages of which pages 0 and 1 are in use.\<close>

definition sample_ga_pmm :: pmm where
  "sample_ga_pmm = \<lparr>pageCount = 16, usablePageCount = 16, bitmapSize = 2, bitmap = 0x1000, pageUsed = 1,
     pm_mem = (\<lambda>_. 0)(0x1000 := 3)\<rparr>"

definition sample_galloc :: galloc where
  "sample_galloc = \<lparr>bHead = NULL, bTail = NULL, aHead = NULL, aTail = NULL,
     blk = (\<lambda>_. \<lparr>bh_base = 0, bh_size = 0, amountUsed = 0, allocCounter = 0, bh_next = 0, bh_prev = 0\<rparr>),
     alc = (\<lambda>_. \<lparr>ah_header = 0, ah_base = 0, ah_size = 0, ah_next = 0, ah_prev = 0, isFree = False\<rparr>),
     allocSpinLock = KeCreateSpinLock, ga_pm = sample_ga_pmm, ga_log = []\<rparr>"

lemma sample_ga_inv: "ga_inv sample_galloc [] [] {}"
  by (simp add: ga_inv_def blocks.repr_def frees.repr_def dlist_def core_inv_def sample_galloc_def)

lemma sample_ga_lock: "lock_free sample_galloc"
  by (simp add: lock_free_def sample_galloc_def KeCreateSpinLock_def)

lemma sample_ga_fresh: "fresh_block (100 + PAGE_SIZE) sample_galloc []"
  by (simp add: fresh_block_def sample_galloc_def sample_ga_pmm_def PAGE_SIZE_def SPLIT_SAFE_def MEM_SPLIT_def IN_PAGES_def)

lemma sample_ga_frontier: "frontier sample_ga_pmm 2"
proof -
  have small: "k < 2 \<Longrightarrow> k = 0 \<or> k = 1" for k :: u64
    using below_iff_of_nat[of k 2] by (auto simp: less_2_cases_iff)
  have "page_bit sample_ga_pmm k \<longleftrightarrow> k < 2" for k
  proof
    assume "k < 2"
    then show "page_bit sample_ga_pmm k" using small[of k] by (auto simp: page_bit_def sample_ga_pmm_def)
  next
    assume b: "page_bit sample_ga_pmm k"
    then have "k div 8 = 0" by (auto simp: page_bit_def sample_ga_pmm_def split: if_splits)
    then have "unat (k div 8) = 0" by simp
    then have "unat k < 8" by (simp add: unat_div)
    with b \<open>k div 8 = 0\<close> show "k < 2"
      using less_8_cases[of "unat k"]
      by (auto simp: page_bit_def sample_ga_pmm_def word_less_nat_alt unat_mod8)
  qed
  then show ?thesis by (simp add: frontier_def not_less sample_ga_pmm_def)
qed

lemma sample_ga_alloc:
  "\<exists>p s' bs fs cs. MmAllocateGeneralMemory 100 sample_galloc = Some (p, s') \<and> lock_free s' \<and>
     ga_inv s' bs fs cs \<and> live_chunks s' cs = {p - 48} \<and> p \<noteq> NULL"
proof -
  have pm: "ga_pm sample_galloc = sample_ga_pmm" by (simp add: sample_galloc_def)
  have pages: "IN_PAGES (SPLIT_SAFE (100 + PAGE_SIZE)) = 2"
    by (simp add: PAGE_SIZE_def SPLIT_SAFE_def MEM_SPLIT_def IN_PAGES_def)
  have "pmm_wf sample_ga_pmm" "2 \<le> pageCount sample_ga_pmm" "(2 :: u64) \<le> pageCount sample_ga_pmm - 2"
    by (simp_all add: pmm_wf_def sample_ga_pmm_def)
  then have "MmAllocateMultiplePages 2 sample_ga_pmm \<noteq> Some (NULL, sample_ga_pmm)"
    using frontier_multi[OF _ sample_ga_frontier, of 2]
    by (simp add: GetAddressFromPageLocation_def PAGE_SIZE_def)
  then show ?thesis
    using MmAllocateGeneralMemory_result[OF sample_ga_inv sample_ga_lock _ sample_ga_fresh]
    unfolding pm pages by (auto simp: alloc_result_def live_chunks_def) blast
qed

text \<open>The state after the first allocation: one block of two pages with one live chunk.\<close>

lemma sample_multi: "MmAllocateMultiplePages 2 sample_ga_pmm = Some (0x2000, multi_result 2 sample_ga_pmm 2)"
  using frontier_multi[OF _ sample_ga_frontier, of 2]
  by (simp add: pmm_wf_def GetAddressFromPageLocation_def PAGE_SIZE_def) (simp add: sample_ga_pmm_def GetAddressFromPageLocation_def PAGE_SIZE_def)

lemmas ga_run = MmAllocateGeneralMemory_def ga_acquire_def ga_release_def KeAcquireSpinLock.simps test_and_set_def
  KeReleaseSpinLock_def AllocateFreshMemory_def GetMemoryFromFreeList_def CreateBlock_def AddBlockHeader_def take_fresh_def
  CarveMemoryFromBlock_def follow.simps block_fits_def SPLIT_SAFE_def MEM_SPLIT_def IN_PAGES_def PAGE_SIZE_def SIZEOF_ALLOC_HEADER_def
  SIZEOF_BLOCK_HEADER_def Let_def KeCreateSpinLock_def word_sle_eq upd_blk_def upd_alc_def NR_SUCCESS_def

definition sample_ga_one :: galloc where
  "sample_ga_one = \<lparr>bHead = 0x2000, bTail = 0x2000, aHead = NULL, aTail = NULL,
     blk = (blk sample_galloc)(0x2000 := \<lparr>bh_base = 0x2030, bh_size = 4160, amountUsed = 160, allocCounter = 1, bh_next = NULL, bh_prev = NULL\<rparr>),
     alc = (alc sample_galloc)(0x2030 := \<lparr>ah_header = 0x2000, ah_base = 0x2060, ah_size = 112, ah_next = NULL, ah_prev = NULL, isFree = False\<rparr>),
     allocSpinLock = KeCreateSpinLock, ga_pm = multi_result 2 sample_ga_pmm 2, ga_log = []\<rparr>"

lemma sample_one: "MmAllocateGeneralMemory 100 sample_galloc = Some (0x2060, sample_ga_one)"
  by (simp add: ga_run sample_galloc_def sample_multi sample_ga_one_def)

lemma sample_one_inv: "ga_inv sample_ga_one [0x2000] [] {0x2030}"
proof -
  have "{h. h = 8240 \<and> ah_header (alc sample_ga_one h) = 8192 \<and> \<not> isFree (alc sample_ga_one h)} = {8240}"
    by (auto simp: sample_ga_one_def)
  then show ?thesis
  by (simp add: ga_inv_def blocks.repr_def frees.repr_def dlist_def core_defs sample_ga_one_def Let_def word_sle_eq)
qed

lemma sample_one_live: "live_chunks sample_ga_one {0x2030} = {0x2030}"
  by (auto simp: live_chunks_def sample_ga_one_def)

lemma sample_one_lock: "lock_free sample_ga_one"
  by (simp add: lock_free_def sample_ga_one_def KeCreateSpinLock_def)

section \<open>Where new blocks come from\<close>

text \<open>
  While the pages in use are those below a frontier, and every block lies below it, the pages of a new block lie in no
  existing one.
\<close>

lemma frontier_fresh_block:
  assumes "frontier (ga_pm s) f" and "pageCount (ga_pm s) < 0x10000000000000"
    and "0 < IN_PAGES (SPLIT_SAFE n)" and "IN_PAGES (SPLIT_SAFE n) \<le> pageCount (ga_pm s)"
    and "\<And>b. b \<in> set bs \<Longrightarrow> block_end s b \<le> unat (GetAddressFromPageLocation f)"
  shows "fresh_block n s bs"
proof -
  have "pmm_wf (ga_pm s)" using assms(2) by (simp add: pmm_wf_def)
  from frontier_multi[OF this assms(1,4,3)] show ?thesis
    using assms(2,4,5) by (auto simp: fresh_block_def split: if_splits)
qed

lemma sample_one_fresh: "fresh_block (200 + PAGE_SIZE) sample_ga_one [0x2000]"
proof (rule frontier_fresh_block)
  have "pmm_wf sample_ga_pmm" by (simp add: pmm_wf_def sample_ga_pmm_def)
  then show "frontier (ga_pm sample_ga_one) 4"
    using frontier_multi_result[OF _ sample_ga_frontier, of 2] by (simp add: sample_ga_pmm_def sample_ga_one_def)
qed (simp_all add: sample_ga_one_def core_defs Let_def word_sle_eq GetAddressFromPageLocation_def PAGE_SIZE_def
  SPLIT_SAFE_def MEM_SPLIT_def IN_PAGES_def multi_result_def sample_ga_pmm_def)

lemma sample_two: "\<exists>s2. MmAllocateGeneralMemory 200 sample_ga_one = Some (0x2100, s2)"
  by (simp add: ga_run sample_ga_one_def)

section \<open>Allocation\<close>

text \<open>
  C4: a successful \<open>MmAllocateGeneralMemory\<close> of at most \<open>2 ^ 61\<close> bytes, called with the lock free, keeps the allocator's invariant and
  returns 16-aligned memory of at least the requested size that overlaps no live allocation; the live allocations are the old
  ones, neither moved nor resized, and the new one. This holds provided that the range of pages the physical memory manager
  would return for a new block lies in no existing block (\<open>fresh_block\<close>): that is so while the pages in use are the ones below a
  frontier (\<open>frontier_fresh_block\<close>), but after pages have been freed \<open>MmAllocateMultiplePages\<close> can return pages in use, and then
  the new block may overlap an old one.
\<close>

theorem galloc_allocation_safe:
  assumes "ga_inv s bs fs cs" and "lock_free s" and "unat n \<le> 0x2000000000000000"
    and "fresh_block (n + PAGE_SIZE) s bs" and "MmAllocateGeneralMemory n s = Some (p, s')" and "p \<noteq> NULL"
  shows "\<exists>bs' fs' cs'. ga_inv s' bs' fs' cs' \<and> lock_free s' \<and>
    live_chunks s' cs' = insert (p - 48) (live_chunks s cs) \<and> unat p mod 16 = 0 \<and>
    unat n \<le> unat (ah_size (alc s' (p - 48))) \<and>
    (\<forall>h \<in> live_chunks s cs. h \<noteq> p - 48 \<and> ah_size (alc s' h) = ah_size (alc s h) \<and>
       (unat p + unat n \<le> unat (h + 48) \<or> unat (h + 48) + unat (ah_size (alc s h)) \<le> unat p))"
proof -
  from MmAllocateGeneralMemory_result[OF assms(1-4)] assms(5,6) obtain bs' fs' cs' where
    r: "ga_inv s' bs' fs' cs'" "alloc_result n s cs p s' cs'" "lock_free s'" by auto
  have c: "core_inv s' (set bs') (set fs') cs'" using r(1) by (simp add: ga_inv_def)
  let ?h = "p - 48"
  have live: "live_chunks s' cs' = insert ?h (live_chunks s cs)" "?h \<notin> live_chunks s cs"
    and size: "unat n \<le> unat (ah_size (alc s' ?h))"
    and same: "\<And>h. h \<in> live_chunks s cs \<Longrightarrow> ah_size (alc s' h) = ah_size (alc s h)"
    using r(2) by (auto simp: alloc_result_def)
  have sub: "live_chunks s' cs' \<subseteq> cs'" by (auto simp: live_chunks_def)
  then have hc: "?h \<in> cs'" using live(1) by auto
  have up: "unat p = unat ?h + 48" using chunk_bounds(2)[OF c hc] by simp
  have "unat ?h mod 16 = 0" using core_invD(4)[OF c hc] by (simp add: chunk_ok_def)
  then have "unat p mod 16 = 0" unfolding up by presburger
  moreover have "unat p + unat n \<le> unat (h + 48) \<or> unat (h + 48) + unat (ah_size (alc s h)) \<le> unat p"
    if h: "h \<in> live_chunks s cs" for h
  proof -
    have k: "h \<in> cs'" "h \<noteq> ?h" using h live sub by auto
    from core_invD(5)[OF c k(1) hc k(2)] show ?thesis
      using up chunk_bounds(2)[OF c k(1)] size same[OF h] by (auto simp: chunk_end_def)
  qed
  ultimately have "\<forall>h \<in> live_chunks s cs. h \<noteq> ?h \<and> ah_size (alc s' h) = ah_size (alc s h) \<and>
       (unat p + unat n \<le> unat (h + 48) \<or> unat (h + 48) + unat (ah_size (alc s h)) \<le> unat p)"
    using live(2) same by blast
  with r(1,3) live(1) size \<open>unat p mod 16 = 0\<close> show ?thesis by (intro exI conjI)
qed

lemma galloc_allocation_safe_witness:
  "\<exists>s1 s2. MmAllocateGeneralMemory 100 sample_galloc = Some (0x2060, s1) \<and>
     MmAllocateGeneralMemory 200 s1 = Some (0x2100, s2) \<and> unat (0x2060 :: u64) + 112 \<le> unat (0x2100 :: u64) \<and>
     200 \<le> unat (ah_size (alc s2 0x20d0))"
proof -
  obtain s2 where s2: "MmAllocateGeneralMemory 200 sample_ga_one = Some (0x2100, s2)" using sample_two by blast
  from galloc_allocation_safe[OF sample_one_inv sample_one_lock _ sample_one_fresh s2] s2 sample_one
  show ?thesis by (auto simp: sample_one_live)
qed
text \<open>
  \<open>MmAllocateGeneralMemory\<close> returns to its caller with the lock released, and it fails only if the physical memory
  manager has no range of pages for a block of the requested size and one page more; then
  every header is as before.
\<close>

theorem galloc_fails_only_without_pages:
  assumes "ga_inv s bs fs cs" and "lock_free s" and "unat n \<le> 0x2000000000000000"
    and "fresh_block (n + PAGE_SIZE) s bs"
  shows "\<exists>p s'. MmAllocateGeneralMemory n s = Some (p, s') \<and> lock_free s' \<and>
    (p = NULL \<longrightarrow> ga_inv s' bs fs cs \<and> alc s' = alc s \<and>
       MmAllocateMultiplePages (IN_PAGES (SPLIT_SAFE (n + PAGE_SIZE))) (ga_pm s) = Some (NULL, ga_pm s))"
  using MmAllocateGeneralMemory_result[OF assms] by (auto simp: alloc_result_def)

lemma galloc_fails_only_without_pages_witness:
  "\<exists>p s'. MmAllocateGeneralMemory 100 sample_galloc = Some (p, s') \<and> lock_free s'"
  using galloc_fails_only_without_pages[OF sample_ga_inv sample_ga_lock _ sample_ga_fresh] by auto

section \<open>Freeing\<close>

text \<open>
  C10: \<open>MmFreeGeneralMemory\<close> of a live allocation succeeds, releases the lock, keeps the invariant, removes exactly
  that allocation from the live ones and neither moves nor resizes the others, also when
  it gives the block's pages back.
\<close>

theorem galloc_free_safe:
  assumes "ga_inv s bs fs cs" and "lock_free s" and "h \<in> live_chunks s cs"
  shows "\<exists>s' bs' fs' cs'. MmFreeGeneralMemory (h + 48) s = Some (STATUS_SUCCESS, s') \<and> lock_free s' \<and>
    ga_inv s' bs' fs' cs' \<and> live_chunks s' cs' = live_chunks s cs - {h} \<and>
    (\<forall>k \<in> live_chunks s cs. ah_size (alc s' k) = ah_size (alc s k) \<and> ah_header (alc s' k) = ah_header (alc s k))"
  by (rule MmFreeGeneralMemory_result[OF assms])

lemma galloc_free_safe_witness:
  "\<exists>p s1 s2. MmAllocateGeneralMemory 100 sample_galloc = Some (p, s1) \<and>
     MmFreeGeneralMemory p s1 = Some (STATUS_SUCCESS, s2) \<and> lock_free s2"
proof -
  obtain p s' bs fs cs where s: "MmAllocateGeneralMemory 100 sample_galloc = Some (p, s')" "lock_free s'"
    "ga_inv s' bs fs cs" "live_chunks s' cs = {p - 48}" using sample_ga_alloc by blast
  from galloc_free_safe[OF s(3,2), of "p - 48"] s(1,4) show ?thesis by auto
qed

lemma locked_released:
  "lock_free s \<Longrightarrow> ga_release (s\<lparr>allocSpinLock := (allocSpinLock s)\<lparr>lock := True\<rparr>\<rparr>) = s"
  by (simp add: ga_release_def KeReleaseSpinLock_def lock_free_def)

lemma released_print:
  "ga_release (ga_print st msg args s) = ga_print st msg args (ga_release s)"
  by (simp add: ga_release_def ga_print_def)

text \<open>
  Freeing \<open>NULL\<close> and freeing memory whose header is marked free are refused with their status codes, and but
  for the message printed in the second case the allocator's state is as before the call.
\<close>

theorem galloc_misuse_refused:
  assumes "lock_free s"
  shows "MmFreeGeneralMemory NULL s = Some (STATUS_INVALID_ADDRESS, s) \<and>
    (p \<noteq> NULL \<longrightarrow> isFree (alc s (p - 48)) \<longrightarrow> MmFreeGeneralMemory p s = Some (STATUS_ACCESS_DENIED,
      ga_print TERM_STATUS_ERROR ''[GENALLOC] someone tried to double free!!'' [] s))"
  using assms by (simp add: MmFreeGeneralMemory_def ga_acquire_eq locked_released released_print)

lemma galloc_misuse_refused_witness:
  "MmFreeGeneralMemory NULL sample_galloc = Some (STATUS_INVALID_ADDRESS, sample_galloc)"
  using galloc_misuse_refused[OF sample_ga_lock] by simp


text \<open>Freeing once more an allocation whose block has been deleted.\<close>

lemma DeleteBlockHeader_pm:
  "ga_pm (snd (DeleteBlockHeader b s)) =
     snd (MmFreeMultiplePages (bh_base (blk s b) - 48) (IN_PAGES (SPLIT_SAFE (bh_size (blk s b) + 48))) (ga_pm s))"
proof -
  obtain x where x: "RemoveBlockHeader b s = (STATUS_SUCCESS, x)" by (simp add: RemoveBlockHeader_def Let_def)
  have "bh_base (blk x b) = bh_base (blk s b)" "ga_pm x = ga_pm s"
    using list_ops_core(2)[of s b] list_ops_rest(2)[of s b] by (simp_all add: x same_core_def same_rest_def)
  then show ?thesis
    by (simp add: x DeleteBlockHeader_def NR_SUCCESS_def split: prod.split)
qed

text \<open>A free that finds the block's counter at most 0 after decrementing it deletes the block.\<close>

lemma MmFree_deletes:
  assumes inv: "frees.repr s fs" and free: "lock_free s" and h: "\<not> isFree (alc s h)" "h + 48 \<noteq> NULL"
    and cnt: "allocCounter (blk s (ah_header (alc s h))) - 1 \<le>s 0"
  shows "\<exists>s' fs'. MmFreeGeneralMemory (h + 48) s = Some (STATUS_SUCCESS, s') \<and> lock_free s' \<and>
    frees.repr s' fs' \<and> (\<forall>k. isFree (alc s' k) = isFree (alc s k) \<and> ah_header (alc s' k) = ah_header (alc s k)) \<and>
    allocCounter (blk s' (ah_header (alc s h))) = allocCounter (blk s (ah_header (alc s h))) - 1 \<and>
    (\<forall>b. bh_base (blk s' b) = bh_base (blk s b) \<and> bh_size (blk s' b) = bh_size (blk s b)) \<and>
    ga_pm s' = snd (MmFreeMultiplePages (bh_base (blk s (ah_header (alc s h))) - 48)
      (IN_PAGES (SPLIT_SAFE (bh_size (blk s (ah_header (alc s h))) + 48))) (ga_pm s))"
proof -
  let ?b = "ah_header (alc s h)"
  define s0 where "s0 = s\<lparr>allocSpinLock := (allocSpinLock s)\<lparr>lock := True\<rparr>\<rparr>"
  define s1 where "s1 = upd_blk ?b (\<lambda>b. b\<lparr>allocCounter := allocCounter b - 1\<rparr>) s0"
  have acq: "ga_acquire s = Some s0" using free by (simp add: ga_acquire_eq s0_def)
  have "frees.repr s0 fs" using inv by (simp add: frees.repr_def s0_def)
  then have f1: "frees.repr s1 ([] @ fs)" by (simp add: s1_def repr_upd)
  from sweep_result[OF this, of ?b] obtain s2 where 2: "sweep_free_list ?b (aHead s1) s1 = Some s2"
    "frees.repr s2 (filter (\<lambda>k. ah_header (alc s1 k) \<noteq> ?b) fs)" "same_core s1 s2" "same_rest s1 s2"
    using frees.repr_head[OF f1] by auto
  define s3 where "s3 = snd (DeleteBlockHeader ?b s2)"
  have core: "same_core s1 (snd (RemoveBlockHeader ?b s2))"
    by (rule same_core_trans[OF 2(3) list_ops_core(2)])
  have eq: "MmFreeGeneralMemory (h + 48) s = Some (STATUS_SUCCESS, ga_release s3)"
    using acq h cnt 2(1)[unfolded s1_def]
    by (simp add: MmFreeGeneralMemory_def Let_def s3_def) (simp add: s0_def)
  have a: "isFree (alc s3 k) = isFree (alc s k)" "ah_header (alc s3 k) = ah_header (alc s k)" for k
    by (simp_all add: s3_def DeleteBlockHeader_fields same_core_alc[OF 2(3)]) (simp_all add: s1_def s0_def)
  have b: "bh_base (blk s3 c) = bh_base (blk s1 c)" "bh_size (blk s3 c) = bh_size (blk s1 c)"
    "allocCounter (blk s3 c) = allocCounter (blk s1 c)" for c
    using core by (simp_all add: same_core_def s3_def DeleteBlockHeader_fields)
  have s2b: "bh_base (blk s2 c) = bh_base (blk s c)" "bh_size (blk s2 c) = bh_size (blk s c)" "ga_pm s2 = ga_pm s" for c
    using 2(3,4) by (simp_all add: same_core_def same_rest_def s1_def s0_def)
  have "ga_pm s3 = snd (MmFreeMultiplePages (bh_base (blk s ?b) - 48) (IN_PAGES (SPLIT_SAFE (bh_size (blk s ?b) + 48))) (ga_pm s))"
    by (simp add: s3_def DeleteBlockHeader_pm s2b)
  moreover have "frees.repr (ga_release s3) (filter (\<lambda>k. ah_header (alc s1 k) \<noteq> ?b) fs)"
    using 2(2) by (simp add: frees.repr_def s3_def DeleteBlockHeader_fields ga_release_def)
  ultimately show ?thesis
    using eq a b by (intro exI[of _ "ga_release s3"] exI[of _ "filter (\<lambda>k. ah_header (alc s1 k) \<noteq> ?b) fs"])
      (simp add: s1_def s0_def)
qed

text \<open>
  When the freed allocation is the last live one of its block, the block's pages go back to the physical memory
  manager and the header is not marked free. A second free of the same address is not
  detected: it succeeds and gives the same pages back again, whoever owns them by then.
\<close>

theorem galloc_double_free_of_last:
  assumes "ga_inv s bs fs cs" and "lock_free s" and "h \<in> live_chunks s cs"
    and "live_in s cs (ah_header (alc s h)) = {h}"
  shows "\<exists>s'. MmFreeGeneralMemory (h + 48) s = Some (STATUS_SUCCESS, s') \<and>
    (\<forall>pm. \<exists>s''. MmFreeGeneralMemory (h + 48) (s'\<lparr>ga_pm := pm\<rparr>) = Some (STATUS_SUCCESS, s'') \<and>
       ga_pm s'' = snd (MmFreeMultiplePages (ah_header (alc s h))
         (IN_PAGES (SPLIT_SAFE (bh_size (blk s (ah_header (alc s h))) + 48))) pm))"
proof -
  let ?b = "ah_header (alc s h)"
  have c: "core_inv s (set bs) (set fs) cs" and f: "frees.repr s fs" using assms(1) by (simp_all add: ga_inv_def)
  have hc: "h \<in> cs" "\<not> isFree (alc s h)" using assms(3) by (simp_all add: live_chunks_def)
  have p: "h + 48 \<noteq> NULL" using chunk_bounds(3)[OF c hc(1)] .
  have hb: "?b \<in> set bs" using core_invD(4)[OF c hc(1)] by (simp add: chunk_ok_def)
  have base: "bh_base (blk s ?b) - 48 = ?b" using core_invD(1)[OF c hb] by (simp add: block_ok_def)
  have "sint (allocCounter (blk s ?b) - 1) = 0" using live_count[OF c hc] assms(4) by simp
  then have z: "allocCounter (blk s ?b) - 1 = 0" by (simp only: signed_eq_0_iff)
  then have cnt: "allocCounter (blk s ?b) - 1 \<le>s 0" by simp
  from MmFree_deletes[OF f assms(2) hc(2) p cnt] obtain s' fs' where
    1: "MmFreeGeneralMemory (h + 48) s = Some (STATUS_SUCCESS, s')" "lock_free s'" "frees.repr s' fs'"
      "\<not> isFree (alc s' h)" "ah_header (alc s' h) = ?b" "allocCounter (blk s' ?b) = 0"
      "bh_base (blk s' ?b) = bh_base (blk s ?b)" "bh_size (blk s' ?b) = bh_size (blk s ?b)"
    using hc(2) z by auto
  have "\<exists>s''. MmFreeGeneralMemory (h + 48) (s'\<lparr>ga_pm := pm\<rparr>) = Some (STATUS_SUCCESS, s'') \<and>
       ga_pm s'' = snd (MmFreeMultiplePages ?b (IN_PAGES (SPLIT_SAFE (bh_size (blk s ?b) + 48))) pm)" for pm
  proof -
    let ?t = "s'\<lparr>ga_pm := pm\<rparr>"
    have "frees.repr ?t fs'" using 1(3) by (simp add: frees.repr_def)
    moreover have "lock_free ?t" using 1(2) by (simp add: lock_free_def)
    moreover have "(- 1 :: u64) \<le>s 0" by (simp add: word_sle_eq)
    ultimately show ?thesis
      using MmFree_deletes[of ?t fs' h] 1 p base by auto
  qed
  with 1(1) show ?thesis by blast
qed

lemma galloc_double_free_of_last_witness:
  "\<exists>p s1 s2 s3. MmAllocateGeneralMemory 100 sample_galloc = Some (p, s1) \<and>
     MmFreeGeneralMemory p s1 = Some (STATUS_SUCCESS, s2) \<and> MmFreeGeneralMemory p s2 = Some (STATUS_SUCCESS, s3)"
proof -
  obtain p s' bs fs cs where s: "MmAllocateGeneralMemory 100 sample_galloc = Some (p, s')" "lock_free s'"
    "ga_inv s' bs fs cs" "live_chunks s' cs = {p - 48}" using sample_ga_alloc by blast
  have "live_in s' cs (ah_header (alc s' (p - 48))) = {p - 48}"
    using s(4) by (auto simp: live_in_def live_chunks_def)
  moreover have "p - 48 \<in> live_chunks s' cs" using s(4) by simp
  ultimately obtain s2 where
    s2: "MmFreeGeneralMemory p s' = Some (STATUS_SUCCESS, s2)"
      "\<forall>pm. \<exists>s''. MmFreeGeneralMemory p (s2\<lparr>ga_pm := pm\<rparr>) = Some (STATUS_SUCCESS, s'')"
    using galloc_double_free_of_last[OF s(3,2), of "p - 48"] by (simp, blast)
  from spec[OF s2(2), of "ga_pm s2"] have "\<exists>s3. MmFreeGeneralMemory p s2 = Some (STATUS_SUCCESS, s3)" by simp
  with s(1) s2(1) show ?thesis by blast
qed

section \<open>Arithmetic at the edges\<close>

text \<open>
  The block that \<open>MmInitGeneralAllocator\<close> creates for 10 bytes is smaller than its own header: its size field wraps
  around, no request ever fits it, and the allocator starts with a page it cannot use.
\<close>

theorem galloc_initial_block_unusable:
  assumes "ga_inv s [] [] {}" and "fresh_block 10 s []" and "MmInitGeneralAllocator s = Some (STATUS_SUCCESS, s')"
  shows "\<exists>b. ga_inv s' [b] [] {} \<and> bh_size (blk s' b) = - 32 \<and> room s' b = 0 \<and>
    (\<forall>z. 0 < z \<longrightarrow> \<not> block_fits z (blk s' b))"
proof -
  have sz: "SPLIT_SAFE 10 = 16" by (simp add: SPLIT_SAFE_def MEM_SPLIT_def)
  have inv: "ga_inv (s\<lparr>allocSpinLock := KeCreateSpinLock\<rparr>) [] [] {}" "fresh_block 10 (s\<lparr>allocSpinLock := KeCreateSpinLock\<rparr>) []"
    using assms(1,2) by simp_all
  from CreateBlock_result[OF inv(1) _ _ inv(2)] assms(3) obtain b where
    b: "ga_inv s' [b] [] {}" "bh_size (blk s' b) = - 32" "amountUsed (blk s' b) = 0"
    by (auto simp: MmInitGeneralAllocator_def sz)
  have neg: "(- 32 :: u64) \<le>s 0" by (simp add: word_sle_eq)
  then have "room s' b = 0" by (simp add: room_def b(2,3))
  moreover have "\<not> block_fits z (blk s' b)" if "0 < z" for z
    using that neg by (simp add: block_fits_def b(2,3) not_le)
  ultimately show ?thesis using b by blast
qed

lemma galloc_initial_block_unusable_witness:
  "\<exists>s' b. MmInitGeneralAllocator sample_galloc = Some (STATUS_SUCCESS, s') \<and> room s' b = 0"
proof -
  have fr: "fresh_block 10 sample_galloc []"
    by (simp add: fresh_block_def sample_galloc_def sample_ga_pmm_def SPLIT_SAFE_def MEM_SPLIT_def IN_PAGES_def PAGE_SIZE_def)
  have pages: "IN_PAGES (SPLIT_SAFE 10) = 1" by (simp add: SPLIT_SAFE_def MEM_SPLIT_def IN_PAGES_def PAGE_SIZE_def)
  have "pmm_wf sample_ga_pmm" "1 \<le> pageCount sample_ga_pmm" "(2 :: u64) \<le> pageCount sample_ga_pmm - 1"
    by (simp_all add: pmm_wf_def sample_ga_pmm_def)
  then have "\<exists>pm. MmAllocateMultiplePages 1 sample_ga_pmm = Some (0x2000, pm)"
    using frontier_multi[OF _ sample_ga_frontier, of 1] by (simp add: GetAddressFromPageLocation_def PAGE_SIZE_def)
  then have "\<exists>s'. MmInitGeneralAllocator sample_galloc = Some (STATUS_SUCCESS, s')"
    using pages by (auto simp: MmInitGeneralAllocator_def CreateBlock_def Let_def sample_galloc_def)
  with galloc_initial_block_unusable[OF sample_ga_inv fr] show ?thesis by blast
qed

lemma huge_request_step:
  assumes "aHead s = NULL" and "bHead s = b" and "b \<noteq> NULL" and "lock_free s"
    and "bh_base (blk s b) + amountUsed (blk s b) + 48 \<noteq> NULL"
  shows "\<exists>s'. MmAllocateGeneralMemory (- 48) s = Some (bh_base (blk s b) + amountUsed (blk s b) + 48, s') \<and>
    aHead s' = NULL \<and> bHead s' = b \<and> lock_free s' \<and> bh_base (blk s' b) = bh_base (blk s b) \<and>
    amountUsed (blk s' b) = amountUsed (blk s b)"
proof -
  define s0 where "s0 = s\<lparr>allocSpinLock := (allocSpinLock s)\<lparr>lock := True\<rparr>\<rparr>"
  have acq: "ga_acquire s = Some s0" using assms(4) by (simp add: ga_acquire_eq s0_def)
  have h: "aHead s0 = NULL" "bHead s0 = b" "blk s0 = blk s" using assms(1,2) by (simp_all add: s0_def)
  have free: "GetMemoryFromFreeList (- 48) s0 = Some (NULL, s0)"
    using h(1) by (simp add: GetMemoryFromFreeList_def follow.simps)
  have z: "SPLIT_SAFE 0 = 0" by (simp add: SPLIT_SAFE_def MEM_SPLIT_def)
  have fit: "block_fits 0 (blk s0 b)" by (simp add: block_fits_def Let_def)
  have "follow (\<lambda>h. bh_next (blk s0 h)) (\<lambda>h. block_fits 0 (blk s0 h)) (bHead s0) = Some (Some b)"
    using h(2) assms(3) fit by (subst follow.simps) simp
  then have al: "AllocateFreshMemory (- 48) s0 = Some (take_fresh 0 b s0)"
    using free by (simp add: AllocateFreshMemory_def z Let_def)
  obtain t where t: "take_fresh 0 b s0 = (bh_base (blk s b) + amountUsed (blk s b) + 48, t)"
    by (simp add: take_fresh_def CarveMemoryFromBlock_def Let_def h)
  then have "MmAllocateGeneralMemory (- 48) s =
      Some (bh_base (blk s b) + amountUsed (blk s b) + 48, ga_release t)"
    using acq al assms(5) by (simp add: MmAllocateGeneralMemory_def)
  moreover have "aHead t = NULL" "bHead t = b" "bh_base (blk t b) = bh_base (blk s b)"
    "amountUsed (blk t b) = amountUsed (blk s b)"
    using t h by (auto simp: take_fresh_def CarveMemoryFromBlock_def Let_def)
  ultimately show ?thesis by (simp add: ga_release_def lock_free_def KeReleaseSpinLock_def)
qed

text \<open>
  C39: sizes near the top of the address space are not refused. For a request of \<open>2 ^ 64 - 48\<close> bytes the rounding wraps to
  0, so with an empty free list the first block fits whatever room it has: the call returns
  the memory after the block's used part without using any of it, and a second such call
  returns the same memory.
\<close>

theorem galloc_huge_request_overlaps:
  assumes "aHead s = NULL" and "bHead s = b" and "b \<noteq> NULL" and "lock_free s"
    and "bh_base (blk s b) + amountUsed (blk s b) + 48 \<noteq> NULL"
  shows "\<exists>p s' s''. MmAllocateGeneralMemory (- 48) s = Some (p, s') \<and> p \<noteq> NULL \<and>
    amountUsed (blk s' b) = amountUsed (blk s b) \<and> MmAllocateGeneralMemory (- 48) s' = Some (p, s'')"
proof -
  from huge_request_step[OF assms] obtain s' where
    s': "MmAllocateGeneralMemory (- 48) s = Some (bh_base (blk s b) + amountUsed (blk s b) + 48, s')"
    "aHead s' = NULL" "bHead s' = b" "lock_free s'" "bh_base (blk s' b) = bh_base (blk s b)"
    "amountUsed (blk s' b) = amountUsed (blk s b)" by blast
  from huge_request_step[OF s'(2,3) assms(3) s'(4)] assms(5) s' show ?thesis by auto
qed

lemma galloc_huge_request_overlaps_witness:
  "\<exists>p s' s''. MmAllocateGeneralMemory (- 48) (sample_galloc\<lparr>bHead := 0x2000\<rparr>) = Some (p, s') \<and> p \<noteq> NULL \<and>
     MmAllocateGeneralMemory (- 48) s' = Some (p, s'')"
proof -
  have "aHead (sample_galloc\<lparr>bHead := 0x2000\<rparr>) = NULL" "bHead (sample_galloc\<lparr>bHead := 0x2000\<rparr>) = 0x2000"
    "(0x2000 :: u64) \<noteq> NULL" "lock_free (sample_galloc\<lparr>bHead := 0x2000\<rparr>)"
    "bh_base (blk (sample_galloc\<lparr>bHead := 0x2000\<rparr>) 0x2000) + amountUsed (blk (sample_galloc\<lparr>bHead := 0x2000\<rparr>) 0x2000) + 48 \<noteq> NULL"
    by (simp_all add: sample_galloc_def lock_free_def KeCreateSpinLock_def)
  from galloc_huge_request_overlaps[OF this] show ?thesis by blast
qed

end
