(* ===== verification/Pmm.thy ===== *)
theory Pmm
  imports PmmBitmap
begin

text \<open>
  \<open>mm/amd64pc/pmm.c\<close>: the self-test of the physical memory manager and \<open>MmReallocatePages\<close>, over the
  bitmap manager, and what the two do to the pages in use.
\<close>

section \<open>Definitions\<close>

definition MmReallocatePages :: "u64 \<Rightarrow> u64 \<Rightarrow> u64 \<Rightarrow> pmm \<Rightarrow> (u64 \<times> pmm) option" where
  "MmReallocatePages memory prevSizeInPages newSizeInPages s =
     do { (newMemory, s1) \<leftarrow> MmAllocateMultiplePages newSizeInPages s;
          if newMemory = NULL then Some (NULL, s1)
          else let s2 = s1\<lparr>pm_mem := snd (memset newMemory 0 (newSizeInPages * PAGE_SIZE) (pm_mem s1))\<rparr>
               in if memory \<noteq> NULL
                  then let s3 = s2\<lparr>pm_mem := snd (memcpy newMemory memory (prevSizeInPages * PAGE_SIZE) (pm_mem s2))\<rparr>
                       in Some (newMemory, snd (MmFreeMultiplePages memory prevSizeInPages s3))
                  else Some (newMemory, s2) }"

definition MmTestPhysicalMemoryManager :: "pmm \<Rightarrow> (bool \<times> pmm) option" where
  "MmTestPhysicalMemoryManager s =
     (let (ptr, s) = MmAllocateSinglePage s
      in if ptr = NULL then Some (False, s)
         else do { (h, s) \<leftarrow> MmAllocateMultiplePages 11 s;
                   (p, s) \<leftarrow> MmAllocateMultiplePages 2 s;
                   if h = NULL \<or> p = NULL then Some (False, s)
                   else let s = snd (MmFreeMultiplePages h 10 s)
                   in do { (c, s) \<leftarrow> MmAllocateMultiplePages 10 s;
                           if c = NULL then Some (False, s)
                           else if c \<noteq> h
                           then let s = snd (MmFreeMultiplePages p 2 s)
                                in Some (False, snd (MmFreeMultiplePages c 10 s))
                           else let s = snd (MmFreeMultiplePages p 2 s)
                           in do { (l, s) \<leftarrow> MmAllocateMultiplePages 2 s;
                                   if l = NULL then Some (False, s)
                                   else if l \<noteq> p
                                   then let s = snd (MmFreeMultiplePages c 10 s)
                                        in Some (False, snd (MmFreeMultiplePages l 11 s))
                                   else let s = snd (MmFreeMultiplePages c 10 s)
                                        in Some (True, snd (MmFreeMultiplePages l 11 s)) } } })"

section \<open>Runs of pages\<close>

definition page_run :: "u64 \<Rightarrow> u64 \<Rightarrow> u64 set" where
  "page_run i n = {k. unat i \<le> unat k \<and> unat k < unat i + unat n}"

lemma page_run_iff: "k \<in> page_run i n \<longleftrightarrow> unat i \<le> unat k \<and> unat k < unat i + unat n"
  by (simp add: page_run_def)

lemma offset_in_run:
  assumes "unat i + unat n \<le> 18446744073709551615"
  shows "(\<exists>j < unat n. k = i + of_nat j) \<longleftrightarrow> k \<in> page_run i n"
proof
  assume "\<exists>j < unat n. k = i + of_nat j"
  then obtain j where j: "j < unat n" "k = i + of_nat j" by blast
  then have "unat k = unat i + j"
    using assms by (subst j(2), subst unat_add_no_wrap) (simp_all add: unat_of_nat_below)
  with j(1) show "k \<in> page_run i n" by (simp add: page_run_iff)
next
  assume "k \<in> page_run i n"
  then have k: "unat i \<le> unat k" "unat k < unat i + unat n" by (simp_all add: page_run_iff)
  then have "unat (k - i) = unat k - unat i" by (simp add: unat_sub_le word_le_nat_alt)
  then show "\<exists>j < unat n. k = i + of_nat j"
    using k by (intro exI[of _ "unat (k - i)"]) simp
qed

lemma page_bit_multi:
  assumes "unat i + unat n \<le> 18446744073709551615" and "0 < unat n"
  shows "page_bit (multi_result n s i) k \<longleftrightarrow> k \<in> page_run i n \<or> page_bit s k"
  using offset_in_run[OF assms(1), of k] assms(2)
  by (auto simp: multi_result_def page_bit_take_pages page_run_iff)

lemma page_bit_free_run:
  assumes "unat i + unat n \<le> 18446744073709551615" and "unat i < 4503599627370496"
  shows "page_bit (snd (MmFreeMultiplePages (GetAddressFromPageLocation i) n s)) k \<longleftrightarrow>
    k \<notin> page_run i n \<and> page_bit s k"
  using offset_in_run[OF assms(1), of k] page_address_props(3)[OF assms(2)]
  by (auto simp: MmFreeMultiplePages_def page_bit_give_pages[unfolded give_pages_def])

lemma free_run_fields [simp, frame_simps]:
  "pageCount (snd (MmFreeMultiplePages a n s)) = pageCount s"
  "bitmap (snd (MmFreeMultiplePages a n s)) = bitmap s"
  by (simp_all add: MmFreeMultiplePages_def for_upto_frame)

text \<open>The range allocator takes the first run when everything below it is in use.\<close>

lemma multi_first:
  assumes wf: "pmm_wf s" and n: "0 < unat n" and fit: "unat i + unat n \<le> unat (pageCount s)" and "0 < unat i"
    and below: "\<And>k. 0 < unat k \<Longrightarrow> unat k < unat i \<Longrightarrow> page_bit s k"
    and clear: "\<And>k. k \<in> page_run i n \<Longrightarrow> \<not> page_bit s k"
  shows "MmAllocateMultiplePages n s = Some (GetAddressFromPageLocation i, multi_result n s i)"
proof -
  have le: "n \<le> pageCount s" "i \<le> pageCount s - n"
    using fit by (simp_all add: word_le_nat_alt unat_sub_le)
  have small: "unat i < 4503599627370496"
    using fit n wf by (simp add: pmm_wf_def word_le_nat_alt)
  have run: "i + of_nat j \<in> page_run i n" if "j < unat n" for j
    using offset_in_run[of i n "i + of_nat j"] fit unat_lt_2p64[of "pageCount s"] that by auto
  have "\<not> page_bit s i" using clear[of i] n by (simp add: page_run_iff)
  moreover have "0 < i" using assms(4) by (simp add: word_less_nat_alt)
  ultimately have acc: "range_accepted s n i"
    using range_accepted_iff[OF small] run clear by auto
  have rej: "\<not> range_accepted s n k" if "k < i" for k
  proof -
    have k: "unat k < unat i" using that by (simp add: word_less_nat_alt)
    then have "page_bit s k \<or> k = 0" using below[of k] by (cases "k = 0") (simp_all add: unat_gt_0)
    then show ?thesis using range_accepted_iff[of k s n] k small by auto
  qed
  from MmAllocateMultiplePages_cases[OF wf le(1)] show ?thesis
  proof (elim disjE conjE exE)
    assume "\<forall>i. i \<le> pageCount s - n \<longrightarrow> \<not> range_accepted s n i"
    with acc le(2) show ?thesis by blast
  next
    fix j
    assume j: "range_accepted s n j" "\<forall>k<j. \<not> range_accepted s n k"
      "MmAllocateMultiplePages n s = Some (GetAddressFromPageLocation j, multi_result n s j)"
    have "j = i" using j(1,2) acc rej by (metis linorder_neqE)
    with j(3) show ?thesis by simp
  qed
qed

lemma single_first:
  assumes wf: "pmm_wf s" and "frontier s f" and "f < pageCount s"
  shows "MmAllocateSinglePage s = (GetAddressFromPageLocation f, INCREMENT_PAGE_USAGE (SET_BITMAP f s))"
proof -
  have f: "0 < f" "\<not> page_bit s f" and below: "\<And>k. 0 < k \<Longrightarrow> k < f \<Longrightarrow> page_bit s k"
    using assms(2,3) by (auto simp: frontier_def)
  from MmAllocateSinglePage_cases[OF wf] show ?thesis
  proof (elim disjE conjE exE)
    assume "\<forall>i. 0 < i \<and> i < pageCount s \<longrightarrow> page_bit s i"
    with f assms(3) show ?thesis by blast
  next
    fix i
    assume i: "0 < i" "\<not> page_bit s i" "\<forall>j. 0 < j \<and> j < i \<longrightarrow> page_bit s j"
      "MmAllocateSinglePage s = (GetAddressFromPageLocation i, INCREMENT_PAGE_USAGE (SET_BITMAP i s))"
    have "i = f" using i(1-3) f below by (metis linorder_neqE)
    with i(4) show ?thesis by simp
  qed
qed

section \<open>Memory outside the bitmap\<close>

lemma SET_BITMAP_outside:
  "k < pageCount s \<Longrightarrow> x \<notin> bitmap_bytes s \<Longrightarrow> pm_mem (SET_BITMAP k s) x = pm_mem s x"
  by (rule SET_BITMAP_mem) (auto simp: bitmap_bytes_def)

lemma CLEAR_BITMAP_outside:
  "k < pageCount s \<Longrightarrow> x \<notin> bitmap_bytes s \<Longrightarrow> pm_mem (CLEAR_BITMAP k s) x = pm_mem s x"
  by (rule CLEAR_BITMAP_mem) (auto simp: bitmap_bytes_def)

lemma multi_result_outside:
  assumes "unat i + unat n \<le> unat (pageCount s)" and "0 < unat n" and "x \<notin> bitmap_bytes s"
  shows "pm_mem (multi_result n s i) x = pm_mem s x"
proof -
  have small: "unat i + unat n \<le> 18446744073709551615" using assms(1) unat_lt_2p64[of "pageCount s"] by linarith
  have lt: "i + of_nat j < pageCount s" if "j < unat n" for j
    using offset_in_run[OF small, of "i + of_nat j"] that assms(1)
    by (auto simp: page_run_iff word_less_nat_alt)
  have 0: "pageCount (SET_BITMAP i s) = pageCount s \<and> bitmap (SET_BITMAP i s) = bitmap s \<and>
      pm_mem (SET_BITMAP i s) x = pm_mem s x"
    using SET_BITMAP_outside[of i s x] lt[OF assms(2)] assms(2,3) lt[of 0] by simp
  have "pageCount (multi_result n s i) = pageCount s \<and> bitmap (multi_result n s i) = bitmap s \<and>
      pm_mem (multi_result n s i) x = pm_mem s x"
    unfolding multi_result_def take_pages_def
  proof (rule for_upto_invariant[where P = "\<lambda>t. pageCount t = pageCount s \<and> bitmap t = bitmap s \<and> pm_mem t x = pm_mem s x", OF 0])
    fix j and t :: pmm
    assume j: "j < unat n" and t: "pageCount t = pageCount s \<and> bitmap t = bitmap s \<and> pm_mem t x = pm_mem s x"
    then have "x \<notin> bitmap_bytes t" using assms(3) by (simp add: bitmap_bytes_def)
    with t lt[OF j] show "pageCount (INCREMENT_PAGE_USAGE (SET_BITMAP (i + of_nat j) t)) = pageCount s \<and>
        bitmap (INCREMENT_PAGE_USAGE (SET_BITMAP (i + of_nat j) t)) = bitmap s \<and>
        pm_mem (INCREMENT_PAGE_USAGE (SET_BITMAP (i + of_nat j) t)) x = pm_mem s x"
      by (simp add: SET_BITMAP_outside)
  qed
  then show ?thesis by blast
qed

lemma free_run_outside:
  assumes "unat i + unat n \<le> unat (pageCount s)" and "unat i < 4503599627370496" and "x \<notin> bitmap_bytes s"
  shows "pm_mem (snd (MmFreeMultiplePages (GetAddressFromPageLocation i) n s)) x = pm_mem s x"
proof -
  have small: "unat i + unat n \<le> 18446744073709551615" using assms(1) unat_lt_2p64[of "pageCount s"] by linarith
  have lt: "i + of_nat j < pageCount s" if "j < unat n" for j
    using offset_in_run[OF small, of "i + of_nat j"] that assms(1)
    by (auto simp: page_run_iff word_less_nat_alt)
  have "pageCount t = pageCount s \<and> bitmap t = bitmap s \<and> pm_mem t x = pm_mem s x"
    if "t = snd (MmFreeMultiplePages (GetAddressFromPageLocation i) n s)" for t
    unfolding that MmFreeMultiplePages_def page_address_props(3)[OF assms(2)] snd_conv
  proof (rule for_upto_invariant[where P = "\<lambda>t. pageCount t = pageCount s \<and> bitmap t = bitmap s \<and> pm_mem t x = pm_mem s x"], simp)
    fix j and t :: pmm
    assume j: "j < unat n" and t: "pageCount t = pageCount s \<and> bitmap t = bitmap s \<and> pm_mem t x = pm_mem s x"
    then have "x \<notin> bitmap_bytes t" using assms(3) by (simp add: bitmap_bytes_def)
    with t lt[OF j] show "pageCount (DECREMENT_PAGE_USAGE (CLEAR_BITMAP (i + of_nat j) t)) = pageCount s \<and>
        bitmap (DECREMENT_PAGE_USAGE (CLEAR_BITMAP (i + of_nat j) t)) = bitmap s \<and>
        pm_mem (DECREMENT_PAGE_USAGE (CLEAR_BITMAP (i + of_nat j) t)) x = pm_mem s x"
      by (simp add: CLEAR_BITMAP_outside)
  qed
  then show ?thesis by blast
qed

end
