(* ===== verification/PmmServiceProps.thy ===== *)
theory PmmServiceProps
  imports Pmm PmmProps
begin

text \<open>
  The properties of \<open>pmm.c\<close>: the self-test passes on a fresh manager and what it leaves behind, and
  \<open>MmReallocatePages\<close> moves the contents.
\<close>

section \<open>The self-test\<close>

text \<open>A state that has, besides the pages in use in \<open>s\<close>, the pages with the numbers \<open>S\<close> in use.\<close>

definition plus_pages :: "pmm \<Rightarrow> pmm \<Rightarrow> nat set \<Rightarrow> bool" where
  "plus_pages s t S \<longleftrightarrow> pageCount t = pageCount s \<and> (\<forall>k. page_bit t k \<longleftrightarrow> page_bit s k \<or> unat k \<in> S)"

lemma plus_pages_multi:
  assumes wf: "pmm_wf s" and f: "frontier s f" and t: "plus_pages s t S"
    and i: "unat f \<le> unat i" "{unat f..<unat i} \<subseteq> S" "{unat i..<unat i + unat n} \<inter> S = {}"
    and n: "0 < unat n" "unat i + unat n \<le> unat (pageCount s)"
  shows "\<exists>t'. MmAllocateMultiplePages n t = Some (GetAddressFromPageLocation i, t') \<and>
    plus_pages s t' (S \<union> {unat i..<unat i + unat n})"
proof -
  have small: "unat i + unat n \<le> 18446744073709551615" using n(2) unat_lt_2p64[of "pageCount s"] by linarith
  have wft: "pmm_wf t" and pc: "pageCount t = pageCount s" using wf t by (simp_all add: pmm_wf_def plus_pages_def)
  have bit: "page_bit s k \<longleftrightarrow> unat k < unat f" if "0 < unat k" "unat k < unat (pageCount s)" for k
    using f that by (auto simp: frontier_def word_less_nat_alt word_le_nat_alt) (metis not_le)
  have below: "page_bit t k" if "0 < unat k" "unat k < unat i" for k
    using bit[of k] that t i(2) n(2) by (cases "unat k < unat f") (auto simp: plus_pages_def)
  have clear: "\<not> page_bit t k" if "k \<in> page_run i n" for k
    using bit[of k] that t i(1,3) n(2) f by (fastforce simp: plus_pages_def page_run_iff frontier_def word_less_nat_alt)
  have pos: "0 < unat i" using i(1) f by (simp add: frontier_def word_less_nat_alt)
  from multi_first[OF wft n(1) _ pos below clear] n(2) pc
  have "MmAllocateMultiplePages n t = Some (GetAddressFromPageLocation i, multi_result n t i)" by simp
  moreover have "plus_pages s (multi_result n t i) (S \<union> {unat i..<unat i + unat n})"
    using t page_bit_multi[OF small n(1)] by (auto simp: plus_pages_def page_run_iff)
  ultimately show ?thesis by blast
qed

lemma plus_pages_free:
  assumes wf: "pmm_wf s" and f: "frontier s f" and t: "plus_pages s t S"
    and i: "unat f \<le> unat i" and n: "0 < unat n" "unat i + unat n \<le> unat (pageCount s)"
  shows "plus_pages s (snd (MmFreeMultiplePages (GetAddressFromPageLocation i) n t)) (S - {unat i..<unat i + unat n})"
proof -
  have small: "unat i + unat n \<le> 18446744073709551615" using n(2) unat_lt_2p64[of "pageCount s"] by linarith
  have "unat i < 4503599627370496" using n wf by (simp add: pmm_wf_def word_le_nat_alt)
  note bit = page_bit_free_run[OF small this, of t]
  have "\<not> page_bit s k" if "k \<in> page_run i n" for k
    using that f i n(2) by (simp add: frontier_def page_run_iff word_less_nat_alt word_le_nat_alt)
  then show ?thesis using t bit by (auto simp: plus_pages_def page_run_iff)
qed

lemma plus_pages_multi_at:
  assumes "pmm_wf s" and "frontier s f" and "plus_pages s t S" and "unat i = m" and "unat n = l"
    and "unat f \<le> m" "{unat f..<m} \<subseteq> S" "{m..<m + l} \<inter> S = {}" and "0 < l" "m + l \<le> unat (pageCount s)"
    and "S \<union> {m..<m + l} = S'"
  shows "\<exists>t'. MmAllocateMultiplePages n t = Some (GetAddressFromPageLocation i, t') \<and> plus_pages s t' S'"
  using plus_pages_multi[OF assms(1-3), of i n] assms(4-) by simp

lemma plus_pages_free_at:
  assumes "pmm_wf s" and "frontier s f" and "plus_pages s t S" and "unat i = m" and "unat n = l"
    and "unat f \<le> m" and "0 < l" "m + l \<le> unat (pageCount s)" and "S - {m..<m + l} = S'"
  shows "plus_pages s (snd (MmFreeMultiplePages (GetAddressFromPageLocation i) n t)) S'"
  using plus_pages_free[OF assms(1-3), of i n] assms(4-) by simp

text \<open>
  On a manager whose pages from \<open>f\<close> on are all free, with room for 23 of them, \<open>MmTestPhysicalMemoryManager\<close> returns
  \<open>TRUE\<close>, and it leaks two pages: page \<open>f\<close>, which it never frees, and page \<open>f + 11\<close>, the last of the eleven
  it allocates and of which it frees ten.
\<close>

theorem pmm_test_passes_and_leaks:
  assumes "pmm_wf s" and "frontier s f" and "unat f + 23 \<le> unat (pageCount s)"
  shows "\<exists>s'. MmTestPhysicalMemoryManager s = Some (True, s') \<and>
    (\<forall>k. page_bit s' k \<longleftrightarrow> page_bit s k \<or> k = f \<or> k = f + 11)"
proof -
  let ?F = "unat f" and ?A = GetAddressFromPageLocation
  have lim: "?F + 23 \<le> 4503599627370496" using assms(1,3) by (simp add: pmm_wf_def word_le_nat_alt)
  have u: "unat (f + 1) = ?F + 1" "unat (f + 12) = ?F + 12" "unat (f + 11) = ?F + 11"
    using lim by (simp_all add: unat_add_no_wrap)
  have "0 < ?F" using assms(2) by (simp add: frontier_def word_less_nat_alt)
  then have nz: "?A (f + 1) \<noteq> 0" "?A (f + 12) \<noteq> 0" "?A f \<noteq> 0"
    using page_address_props(4)[of "f + 1"] page_address_props(4)[of "f + 12"] page_address_props(4)[of f]
      u lim by (simp_all add: word_unat_eq_iff)
  define s1 where "s1 = INCREMENT_PAGE_USAGE (SET_BITMAP f s)"
  have "f < pageCount s" using assms(3) by (simp add: word_less_nat_alt)
  from single_first[OF assms(1,2) this] have a: "MmAllocateSinglePage s = (?A f, s1)" by (simp add: s1_def)
  note multi = plus_pages_multi_at[OF assms(1,2)] and free = plus_pages_free_at[OF assms(1,2)]
  have 1: "plus_pages s s1 {?F}" by (auto simp: plus_pages_def s1_def word_unat_eq_iff)
  have "\<exists>t'. MmAllocateMultiplePages 11 s1 = Some (?A (f + 1), t') \<and> plus_pages s t' {?F..<?F + 12}"
    by (rule multi[OF 1 u(1), of 11 11]) (use assms(3) in auto)
  then obtain s2 where h: "MmAllocateMultiplePages 11 s1 = Some (?A (f + 1), s2)"
    and 2: "plus_pages s s2 {?F..<?F + 12}" by blast
  have "\<exists>t'. MmAllocateMultiplePages 2 s2 = Some (?A (f + 12), t') \<and> plus_pages s t' {?F..<?F + 14}"
    by (rule multi[OF 2 u(2), of 2 2]) (use assms(3) in auto)
  then obtain s3 where p: "MmAllocateMultiplePages 2 s2 = Some (?A (f + 12), s3)"
    and 3: "plus_pages s s3 {?F..<?F + 14}" by blast
  define s4 where "s4 = snd (MmFreeMultiplePages (?A (f + 1)) 10 s3)"
  have 4: "plus_pages s s4 ({?F} \<union> {?F + 11..<?F + 14})"
    unfolding s4_def by (rule free[OF 3 u(1), of 10 10]) (use assms(3) in auto)
  have "\<exists>t'. MmAllocateMultiplePages 10 s4 = Some (?A (f + 1), t') \<and> plus_pages s t' {?F..<?F + 14}"
    by (rule multi[OF 4 u(1), of 10 10]) (use assms(3) in auto)
  then obtain s5 where c: "MmAllocateMultiplePages 10 s4 = Some (?A (f + 1), s5)"
    and 5: "plus_pages s s5 {?F..<?F + 14}" by blast
  define s6 where "s6 = snd (MmFreeMultiplePages (?A (f + 12)) 2 s5)"
  have 6: "plus_pages s s6 {?F..<?F + 12}"
    unfolding s6_def by (rule free[OF 5 u(2), of 2 2]) (use assms(3) in auto)
  have "\<exists>t'. MmAllocateMultiplePages 2 s6 = Some (?A (f + 12), t') \<and> plus_pages s t' {?F..<?F + 14}"
    by (rule multi[OF 6 u(2), of 2 2]) (use assms(3) in auto)
  then obtain s7 where l: "MmAllocateMultiplePages 2 s6 = Some (?A (f + 12), s7)"
    and 7: "plus_pages s s7 {?F..<?F + 14}" by blast
  define s8 where "s8 = snd (MmFreeMultiplePages (?A (f + 1)) 10 s7)"
  have 8: "plus_pages s s8 ({?F} \<union> {?F + 11..<?F + 14})"
    unfolding s8_def by (rule free[OF 7 u(1), of 10 10]) (use assms(3) in auto)
  define s9 where "s9 = snd (MmFreeMultiplePages (?A (f + 12)) 11 s8)"
  have 9: "plus_pages s s9 {?F, ?F + 11}"
    unfolding s9_def by (rule free[OF 8 u(2), of 11 11]) (use assms(3) in auto)
  have "MmTestPhysicalMemoryManager s = Some (True, s9)"
    by (simp add: MmTestPhysicalMemoryManager_def a h p c l nz Let_def flip: s4_def)
      (simp add: c l nz flip: s6_def s8_def s9_def)
  moreover have "page_bit s9 k \<longleftrightarrow> page_bit s k \<or> k = f \<or> k = f + 11" for k
    using 9 u by (auto simp: plus_pages_def word_unat_eq_iff)
  ultimately show ?thesis by blast
qed

text \<open>A machine with 64 pages of which page 0 and page 1, which holds the bitmap, are in use.\<close>

definition sample_pages :: pmm where
  "sample_pages = (sample_pmm 3)\<lparr>pageCount := 64, usablePageCount := 64, bitmapSize := 8\<rparr>"

lemma page_bit_sample_pages: "page_bit sample_pages k \<longleftrightarrow> k < 2"
proof -
  have "page_bit sample_pages k \<longleftrightarrow> k div 8 = 0 \<and> bit (3 :: u8) (unat (k mod 8))"
    using page_bit_sample[of 3 k] by (simp add: sample_pages_def page_bit_def)
  also have "\<dots> \<longleftrightarrow> unat k < 2"
  proof (cases "unat k < 8")
    case True
    then have "k div 8 = 0" by (simp add: word_unat_eq_iff unat_div)
    moreover have "unat (k mod 8) = unat k" using True by (simp add: unat_mod8)
    ultimately show ?thesis using less_8_cases[OF True] by (elim disjE) simp_all
  next
    case False
    then have "unat (k div 8) \<noteq> 0" by (simp add: unat_div)
    then have "k div 8 \<noteq> 0" by (metis unat_0)
    with False show ?thesis by simp
  qed
  finally show ?thesis by (simp add: word_less_nat_alt)
qed

lemma sample_pages_ok: "pmm_wf sample_pages" "frontier sample_pages 2" "pageCount sample_pages = 64"
  by (simp_all add: pmm_wf_def frontier_def page_bit_sample_pages not_less)
    (simp_all add: sample_pages_def)

lemma pmm_test_passes_and_leaks_witness:
  "\<exists>s'. MmTestPhysicalMemoryManager sample_pages = Some (True, s') \<and> page_bit s' 13"
  using pmm_test_passes_and_leaks[OF sample_pages_ok(1,2)] by (auto simp: sample_pages_ok(3))

section \<open>Reallocation\<close>

lemma byte_in_run:
  fixes a i n x :: u64
  assumes "unat a = 4096 * unat i" and "unat n * 4096 < 18446744073709551616" "unat a + 4096 * unat n \<le> 18446744073709551616"
    and "unat (x - a) < 4096 * unat n"
  shows "unat i \<le> pgno x \<and> pgno x < unat i + unat n"
proof -
  have "unat x = unat (a + (x - a))" by simp
  also have "\<dots> = unat a + unat (x - a)" using assms(3,4) by (intro unat_add_no_wrap) linarith
  finally have "unat x = 4096 * unat i + unat (x - a)" by (simp add: assms(1))
  then show ?thesis using assms(4) unfolding pgno_def by linarith
qed

lemma run_distance:
  fixes a b i j n l :: u64
  assumes "unat a = 4096 * unat i" "unat b = 4096 * unat j"
    and "unat i + unat n \<le> 4503599627370496" "unat j + unat l \<le> 4503599627370496"
    and "unat i + unat n \<le> unat j \<or> unat j + unat l \<le> unat i" and "0 < unat l"
  shows "4096 * unat n \<le> unat (b - a)"
proof (cases "unat a \<le> unat b")
  case True
  then have "unat (b - a) = unat b - unat a" by (simp add: unat_sub_le word_le_nat_alt)
  then show ?thesis using True assms by linarith
next
  case False
  then have "unat (b - a) = 18446744073709551616 + unat b - unat a"
    by (simp add: unat_sub_if' word_le_nat_alt)
  then show ?thesis using False assms by linarith
qed

text \<open>
  C16: when the run of pages it gets was free and the old pages are in use and hold no byte of the bitmap, \<open>MmReallocatePages\<close> to
  at least the old size returns memory that holds the old contents followed by zeros,
  exactly the new pages come into use and exactly the old ones go out of use.
\<close>

theorem realloc_moves_contents:
  assumes "pmm_inv s" and "MmReallocatePages (GetAddressFromPageLocation i) old new s = Some (p, s')" and "p \<noteq> NULL"
    and "0 < i" "0 < old" "old \<le> new" "new \<le> pageCount s" "unat i + unat old \<le> unat (pageCount s)"
    and "\<forall>k \<in> page_run i old. page_bit s k" and "\<forall>k \<in> page_run (GetPageLocationFromAddress p) new. \<not> page_bit s k"
    and "\<forall>x \<in> bitmap_bytes s. pgno x < unat i \<or> unat i + unat old \<le> pgno x"
  shows "(\<forall>x. unat x < 4096 * unat new \<longrightarrow> pm_mem s' (p + x) =
      (if unat x < 4096 * unat old then pm_mem s (GetAddressFromPageLocation i + x) else 0)) \<and>
    (\<forall>k < pageCount s. page_bit s' k \<longleftrightarrow>
       k \<in> page_run (GetPageLocationFromAddress p) new \<or> page_bit s k \<and> k \<notin> page_run i old)"
proof -
  let ?A = GetAddressFromPageLocation
  have wf: "pmm_wf s" and lim: "unat (pageCount s) \<le> 4503599627370496"
    using assms(1) by (simp_all add: pmm_inv_def pmm_wf_def word_le_nat_alt)
  have un: "unat old \<le> unat new" "0 < unat old" "unat new \<le> unat (pageCount s)"
    using assms(5-7) by (simp_all add: word_le_nat_alt word_less_nat_alt)
  have ismall: "unat i < 4503599627370496" using assms(8) un lim by linarith
  have src: "?A i \<noteq> NULL" "unat (?A i) = 4096 * unat i"
    using page_address_props(4)[OF ismall] unat_page_address[OF ismall] assms(4) by auto
  obtain j where j: "j \<le> pageCount s - new" "range_accepted s new j" "p = ?A j"
    and al: "MmAllocateMultiplePages new s = Some (p, multi_result new s j)"
  proof -
    from assms(2,3) have "\<exists>t. MmAllocateMultiplePages new s = Some (p, t)"
      by (auto simp: MmReallocatePages_def Let_def bind_eq_Some_conv split: if_splits)
    with MmAllocateMultiplePages_cases[OF wf assms(7)] assms(3) that show thesis by auto
  qed
  have fit: "unat j + unat new \<le> unat (pageCount s)" using j(1) un by (simp add: word_le_nat_alt unat_sub_le assms(7))
  have jsmall: "unat j < 4503599627370496" using fit un lim by linarith
  have dst: "unat p = 4096 * unat j" "GetPageLocationFromAddress p = j" and "0 < j"
    using unat_page_address[OF jsmall] page_address_props(3,4)[OF jsmall] j(3) assms(3) by (auto simp: word_gt_0)
  note new_clear = assms(10)[unfolded dst(2)]
  have apart: "unat i + unat old \<le> unat j \<or> unat j + unat new \<le> unat i"
  proof (rule ccontr)
    assume "\<not> ?thesis"
    then have "(if unat i \<le> unat j then j else i) \<in> page_run i old \<inter> page_run j new"
      using un by (auto simp: page_run_iff)
    with assms(9) new_clear show False by blast
  qed
  define s1 where "s1 = multi_result new s j"
  have s1: "pageCount s1 = pageCount s" "bitmap s1 = bitmap s" by (simp_all add: s1_def)
  have sz: "unat (new * PAGE_SIZE) = 4096 * unat new" "unat (old * PAGE_SIZE) = 4096 * unat old"
    using fit un lim \<open>0 < j\<close> by (simp_all add: PAGE_SIZE_def unat_mult_no_wrap word_less_nat_alt)
  define m2 where "m2 = snd (memset p 0 (new * PAGE_SIZE) (pm_mem s1))"
  define m3 where "m3 = snd (memcpy p (?A i) (old * PAGE_SIZE) m2)"
  define s3 where "s3 = s1\<lparr>pm_mem := m3\<rparr>"
  have s3: "pageCount s3 = pageCount s" "bitmap s3 = bitmap s" "pm_mem s3 = m3" "bitmap_bytes s3 = bitmap_bytes s"
    by (simp_all add: s3_def s1 bitmap_bytes_def)
  have s': "s' = snd (MmFreeMultiplePages (?A i) old s3)"
    using assms(2,3) src(1) by (simp add: MmReallocatePages_def al Let_def m2_def m3_def s3_def flip: s1_def)
  have new_run: "unat j \<le> pgno x \<and> pgno x < unat j + unat new" if "unat (x - p) < 4096 * unat new" for x
    using byte_in_run[OF dst(1) _ _ that] fit un lim jsmall \<open>0 < j\<close> by (simp add: dst(1) word_less_nat_alt)
  have new_bytes: "x \<notin> bitmap_bytes s" if x: "unat (x - p) < 4096 * unat new" for x
  proof
    assume b: "x \<in> bitmap_bytes s"
    let ?k = "of_nat (pgno x) :: u64"
    have "unat ?k = pgno x" using pgno_less[of x] by (simp add: unat_of_nat_u64)
    then have "?k \<in> page_run j new" "0 < ?k" "?k < pageCount s" "unat ?k = pgno x"
      using new_run[OF x] fit \<open>0 < j\<close> by (simp_all add: page_run_iff word_less_nat_alt)
    with b assms(1) new_clear show False unfolding pmm_inv_def bitmap_reserved_def by blast
  qed
  have m1: "pm_mem s1 x = pm_mem s x" if "x \<notin> bitmap_bytes s" for x
    unfolding s1_def by (rule multi_result_outside[OF fit _ that]) (use un in simp)
  have m2: "m2 x = (if unat (x - p) < 4096 * unat new then 0 else pm_mem s1 x)" for x
    by (simp add: m2_def memset_apply sz)
  have "4096 * unat old \<le> unat (p - ?A i)"
    using run_distance[OF src(2) dst(1), of old new] apart fit un lim assms(8) by simp
  moreover have "4096 * unat new \<le> unat (?A i - p)"
    using run_distance[OF dst(1) src(2), of new old] apart fit un lim assms(8) by linarith
  ultimately have "unat (old * PAGE_SIZE) \<le> unat (?A i - p)" "unat (old * PAGE_SIZE) \<le> unat (p - ?A i)"
    using un by (simp_all add: sz)
  from memcpy_apply[OF this] have m3: "m3 x = (if unat (x - p) < 4096 * unat old then m2 (?A i + (x - p)) else m2 x)" for x
    by (simp add: m3_def sz)
  have out: "pm_mem s' x = m3 x" if "x \<notin> bitmap_bytes s" for x
    using free_run_outside[of i old s3 x] that ismall assms(8) s3 by (simp add: s')
  have old_bytes: "\<not> unat (?A i + x - p) < 4096 * unat new \<and> ?A i + x \<notin> bitmap_bytes s"
    if x: "unat x < 4096 * unat old" for x
  proof -
    have "unat i \<le> pgno (?A i + x) \<and> pgno (?A i + x) < unat i + unat old"
      using byte_in_run[OF src(2), of old "?A i + x"] x un lim assms(4,8) by (simp add: src(2) word_less_nat_alt)
    then show ?thesis using new_run[of "?A i + x"] apart assms(11) by fastforce
  qed
  have contents: "pm_mem s' (p + x) = (if unat x < 4096 * unat old then pm_mem s (?A i + x) else 0)"
    if x: "unat x < 4096 * unat new" for x
    using out[OF new_bytes, of "p + x"] m3[of "p + x"] m2[of "?A i + x"] m2[of "p + x"] m1[of "?A i + x"] old_bytes[of x] x
    by simp
  have bits: "page_bit s' k \<longleftrightarrow> k \<in> page_run j new \<or> page_bit s k \<and> k \<notin> page_run i old" if k: "k < pageCount s" for k
  proof -
    have "bitmap s + k div 8 \<in> bitmap_bytes s" using k by (auto simp: bitmap_bytes_def)
    then have "\<not> unat (bitmap s + k div 8 - p) < 4096 * unat new" using new_bytes by blast
    then have "m3 (bitmap s + k div 8) = pm_mem s1 (bitmap s + k div 8)" using un by (simp add: m3 m2)
    then have "page_bit s3 k = page_bit s1 k" by (simp add: page_bit_def s3 s1)
    moreover have "page_bit s1 k \<longleftrightarrow> k \<in> page_run j new \<or> page_bit s k"
      unfolding s1_def using fit un lim by (intro page_bit_multi) simp_all
    moreover have "page_bit s' k \<longleftrightarrow> k \<notin> page_run i old \<and> page_bit s3 k"
      unfolding s' using assms(8) lim ismall by (intro page_bit_free_run) simp_all
    ultimately show ?thesis using apart by (auto simp: page_run_iff)
  qed
  show ?thesis using contents bits by (simp add: dst(2))
qed

text \<open>The sample machine after page 2 has been allocated.\<close>

lemma sample_taken:
  fixes s
  defines "s \<equiv> multi_result 1 sample_pages 2"
  shows "pmm_inv s" "frontier s 3" "pageCount s = 64" "page_bit s 2"
    "\<And>x. x \<in> bitmap_bytes s \<Longrightarrow> pgno x = 1"
proof -
  show f: "frontier s 3" and "pageCount s = 64"
    using frontier_multi_result[OF sample_pages_ok(1,2), of 1] by (simp_all add: s_def sample_pages_ok(3))
  then show "page_bit s 2" by (simp add: frontier_def)
  show bytes: "pgno x = 1" if x: "x \<in> bitmap_bytes s" for x
  proof -
    have "pageCount s = 64" "bitmap s = 0x1000"
      by (simp_all add: s_def sample_pages_ok) (simp add: sample_pages_def sample_pmm_def)
    then obtain k where k: "k < 64" "x = 0x1000 + k div 8" using x by (auto simp: bitmap_bytes_def)
    have "unat (k div 8) < 8" using k(1) by (simp add: unat_div word_less_nat_alt)
    then show ?thesis by (simp add: k(2) pgno_def unat_add_no_wrap)
  qed
  have "page_bit s 1" using f by (simp add: frontier_def)
  moreover have "k = 1" if "unat k = 1" for k :: u64 using that by (metis unat_1 word_unat_eq_iff)
  ultimately show "pmm_inv s"
    using bytes by (fastforce simp: pmm_inv_def pmm_wf_def bitmap_reserved_def s_def sample_pages_ok)
qed

lemma realloc_moves_contents_witness:
  "\<exists>s'. MmReallocatePages 0x2000 1 3 (multi_result 1 sample_pages 2) = Some (0x3000, s') \<and>
     pm_mem s' 0x3000 = pm_mem (multi_result 1 sample_pages 2) 0x2000 \<and> \<not> page_bit s' 2"
proof -
  let ?s = "multi_result 1 sample_pages 2"
  have al: "MmAllocateMultiplePages 3 ?s = Some (GetAddressFromPageLocation 3, multi_result 3 ?s 3)"
    using frontier_multi[OF _ sample_taken(2), of 3] pmm_inv_wf[OF sample_taken(1)] sample_taken(3) by simp
  have addr: "GetAddressFromPageLocation 3 = 0x3000" "GetAddressFromPageLocation 2 = 0x2000"
    by (simp_all add: GetAddressFromPageLocation_def PAGE_SIZE_def)
  obtain s' where r: "MmReallocatePages (GetAddressFromPageLocation 2) 1 3 ?s = Some (0x3000, s')"
    using al by (simp add: MmReallocatePages_def addr Let_def)
  have "page_run 2 1 = {2}" by (auto simp: page_run_def word_unat_eq_iff)
  moreover have "GetPageLocationFromAddress 0x3000 = 3" by (simp add: GetPageLocationFromAddress_def PAGE_SIZE_def)
  moreover have "\<not> page_bit ?s k" if "k \<in> page_run 3 3" for k
    using that sample_taken(2) by (simp add: frontier_def page_run_iff sample_pages_ok(3) word_le_nat_alt word_less_nat_alt)
  ultimately have "(\<forall>x. unat x < 4096 * unat (3 :: u64) \<longrightarrow> pm_mem s' (0x3000 + x) =
      (if unat x < 4096 * unat (1 :: u64) then pm_mem ?s (GetAddressFromPageLocation 2 + x) else 0)) \<and>
    (\<forall>k < pageCount ?s. page_bit s' k \<longleftrightarrow>
       k \<in> page_run (GetPageLocationFromAddress 0x3000) 3 \<or> page_bit ?s k \<and> k \<notin> page_run 2 1)"
    using sample_taken by (intro realloc_moves_contents[OF sample_taken(1) r]) auto
  then have "pm_mem s' 0x3000 = pm_mem ?s 0x2000" "\<not> page_bit s' 2"
    by (auto simp: addr page_run_iff sample_pages_ok(3) GetPageLocationFromAddress_def PAGE_SIZE_def
        dest: spec[of _ 0] spec[of _ 2])
  with r show ?thesis by (simp add: addr)
qed

end
