(* ===== verification/Arena.thy ===== *)
theory Arena
  imports GenAllocOps
begin

text \<open>
  Arenas \<open>mm/amd64pc/arena.c\<close>: one allocation of the general allocator from which memory is pushed and
  popped like a stack; and the spin locks \<open>ke/amd64pc/spinlock.c\<close> that live in an allocation of their own.
\<close>

section \<open>Arenas\<close>

record Arena =
  ar_base :: u64
  ar_size :: u64
  sizeInpages :: u32
  used :: u64

definition MmCreateArena :: "Arena \<Rightarrow> u64 \<Rightarrow> galloc \<Rightarrow> (NearStatus \<times> Arena \<times> galloc) option" where
  "MmCreateArena arena n s =
     (let a1 = arena\<lparr>ar_size := n\<rparr>;
          a2 = a1\<lparr>sizeInpages := ucast ((n + (PAGE_SIZE - 1)) div PAGE_SIZE)\<rparr>
      in do { (mem, s1) \<leftarrow> MmAllocateGeneralMemory (ar_size a2) s;
              let a3 = a2\<lparr>ar_base := mem\<rparr>
              in if ar_base a3 = NULL then Some (STATUS_OUT_OF_MEMORY, a3, s1)
                 else Some (STATUS_SUCCESS, a3\<lparr>used := 0\<rparr>, s1) })"

definition MmPushMemoryFromArena :: "Arena \<Rightarrow> u64 \<Rightarrow> galloc \<Rightarrow> u64 \<times> Arena \<times> galloc" where
  "MmPushMemoryFromArena arena n s =
     (if ar_base arena = NULL then (NULL, arena, ga_print TERM_STATUS_INFO ''arena base is NULL'' [] s)
      else if used arena + n > ar_size arena
      then (NULL, arena, ga_print TERM_STATUS_INFO ''arena overflow, used is %d, size is %d'' [n, ar_size arena] s)
      else let usedBeforeAdd = used arena
           in (ar_base arena + usedBeforeAdd, arena\<lparr>used := used arena + n\<rparr>, s))"

definition MmPopMemoryFromArena :: "Arena \<Rightarrow> u64 \<Rightarrow> Arena" where
  "MmPopMemoryFromArena arena n =
     (if used arena \<le> n then arena\<lparr>used := 0\<rparr> else arena\<lparr>used := used arena - n\<rparr>)"

definition MmResetArena :: "Arena \<Rightarrow> Arena" where
  "MmResetArena arena = arena\<lparr>used := 0\<rparr>"

definition MmDestroyArena :: "Arena \<Rightarrow> galloc \<Rightarrow> (bool \<times> Arena \<times> galloc) option" where
  "MmDestroyArena arena s =
     do { (status, s1) \<leftarrow> MmFreeGeneralMemory (ar_base arena) s;
          let result = boolean_of_status status
          in if \<not> result then Some (False, arena, s1)
             else Some (True, arena\<lparr>ar_size := 0, sizeInpages := 0, ar_base := 0\<rparr>, s1) }"

section \<open>Locks on the heap\<close>

text \<open>A byte of the machine memory behind an allocation.\<close>

definition ga_store :: "u64 \<Rightarrow> u8 \<Rightarrow> galloc \<Rightarrow> galloc" where
  "ga_store a b s = s\<lparr>ga_pm := (ga_pm s)\<lparr>pm_mem := (pm_mem (ga_pm s))(a := b)\<rparr>\<rparr>"

definition SIZEOF_SPINLOCK :: u64 where
  "SIZEOF_SPINLOCK = 1"

definition KeCreateSpinLockHeap :: "galloc \<Rightarrow> (u64 \<times> galloc) option" where
  "KeCreateSpinLockHeap s =
     do { (l, s1) \<leftarrow> MmAllocateGeneralMemory SIZEOF_SPINLOCK s;
          if l = NULL then Some (NULL, s1) else Some (l, ga_store l 0 s1) }"

definition KeDeleteSpinLockFromHeap :: "u64 \<Rightarrow> galloc \<Rightarrow> (bool \<times> galloc) option" where
  "KeDeleteSpinLockFromHeap l s =
     map_option (\<lambda>(status, s1). (boolean_of_status status, s1)) (MmFreeGeneralMemory l s)"

text \<open>\<open>KeAcquireSpinLock\<close> and \<open>KeReleaseSpinLock\<close> of the lock at an address.\<close>

definition lock_at :: "u64 \<Rightarrow> galloc \<Rightarrow> SpinLock" where
  "lock_at l s = \<lparr>lock = (pm_mem (ga_pm s) l \<noteq> 0)\<rparr>"

definition acquire_at :: "u64 \<Rightarrow> galloc \<Rightarrow> galloc option" where
  "acquire_at l s = map_option (\<lambda>k. ga_store l (if lock k then 1 else 0) s) (KeAcquireSpinLock (lock_at l s))"

definition release_at :: "u64 \<Rightarrow> galloc \<Rightarrow> galloc" where
  "release_at l s = ga_store l (if lock (KeReleaseSpinLock (lock_at l s)) then 1 else 0) s"

section \<open>Pushing a sequence\<close>

text \<open>Push each size in turn, going on after a failure; the allocations made are collected.\<close>

fun push_all :: "u64 list \<Rightarrow> Arena \<Rightarrow> galloc \<Rightarrow> (u64 \<times> u64) list \<times> Arena \<times> galloc" where
  "push_all [] a s = ([], a, s)"
| "push_all (n # ns) a s =
     (let (p, a1, s1) = MmPushMemoryFromArena a n s;
          (ps, a2, s2) = push_all ns a1 s1
      in (if p = NULL then ps else (p, n) # ps, a2, s2))"

text \<open>An arena whose memory does not wrap around and is smaller than half the address space.\<close>

definition arena_ok :: "Arena \<Rightarrow> bool" where
  "arena_ok a \<longleftrightarrow> ar_base a \<noteq> NULL \<and> used a \<le> ar_size a \<and> unat (ar_size a) \<le> 0x4000000000000000 \<and>
     unat (ar_base a) + unat (ar_size a) \<le> 18446744073709551615"

definition arena_top :: "Arena \<Rightarrow> nat" where
  "arena_top a = unat (ar_base a) + unat (used a)"

lemma push_cases:
  assumes "arena_ok a" and "unat n \<le> 0x4000000000000000" and "MmPushMemoryFromArena a n s = (p, a', s')"
  shows "(p = NULL \<and> a' = a \<and> unat (ar_size a) < unat (used a) + unat n) \<or>
    (p \<noteq> NULL \<and> unat p = arena_top a \<and> a' = a\<lparr>used := used a + n\<rparr> \<and> s' = s \<and> arena_ok a' \<and>
     arena_top a' = arena_top a + unat n \<and> arena_top a' \<le> unat (ar_base a) + unat (ar_size a))"
proof -
  have u: "unat (used a + n) = unat (used a) + unat n"
    using assms(1,2) by (intro unat_add_no_wrap) (simp add: arena_ok_def word_le_nat_alt)
  have b: "unat (ar_base a + used a) = arena_top a"
    using assms(1) by (subst unat_add_no_wrap) (simp_all add: arena_ok_def arena_top_def word_le_nat_alt)
  have nz: "0 < arena_top a"
    using assms(1) by (simp add: arena_ok_def arena_top_def unat_gt_0)
  then have "ar_base a + used a \<noteq> NULL" using b by (metis less_irrefl unat_0)
  with assms u b show ?thesis
    by (auto simp: MmPushMemoryFromArena_def Let_def arena_ok_def arena_top_def word_le_nat_alt word_less_nat_alt
        split: if_splits)
qed

lemma push_success:
  assumes "arena_ok a" and "unat (used a) + unat n \<le> unat (ar_size a)"
  shows "MmPushMemoryFromArena a n s = (ar_base a + used a, a\<lparr>used := used a + n\<rparr>, s)"
proof -
  have "unat (used a + n) = unat (used a) + unat n"
    using assms unat_lt_2p64[of "ar_size a"] by (intro unat_add_no_wrap) linarith
  then have "\<not> ar_size a < used a + n" using assms(2) by (simp add: word_less_nat_alt)
  then show ?thesis using assms(1) by (simp add: MmPushMemoryFromArena_def Let_def arena_ok_def)
qed

lemma push_all_result:
  assumes "arena_ok a" and "\<forall>n \<in> set ns. unat n \<le> 0x4000000000000000" and "push_all ns a s = (ps, a', s')"
  shows "arena_ok a' \<and> ar_base a' = ar_base a \<and> ar_size a' = ar_size a \<and> arena_top a \<le> arena_top a' \<and>
    sorted_wrt (\<lambda>(p, n) (q, m). unat p + unat n \<le> unat q) ps \<and>
    (\<forall>(p, n) \<in> set ps. arena_top a \<le> unat p \<and> unat p + unat n \<le> arena_top a')"
  using assms
proof (induction ns arbitrary: a s ps)
  case Nil
  then show ?case by simp
next
  case (Cons n ns)
  obtain p a1 s1 where 1: "MmPushMemoryFromArena a n s = (p, a1, s1)" by (metis prod_cases3)
  obtain qs where 2: "push_all ns a1 s1 = (qs, a', s')" and ps: "ps = (if p = NULL then qs else (p, n) # qs)"
    using Cons.prems(3) 1 by (auto split: prod.splits)
  note c = push_cases[OF Cons.prems(1) _ 1]
  show ?case
  proof (cases "p = NULL")
    case True
    with c Cons.prems have "a1 = a" by auto
    with Cons.IH[OF _ _ 2] Cons.prems ps True show ?thesis by simp
  next
    case False
    with c Cons.prems have a1: "unat p = arena_top a" "arena_ok a1" "arena_top a1 = arena_top a + unat n"
      "ar_base a1 = ar_base a" "ar_size a1 = ar_size a" by auto
    from Cons.IH[OF a1(2) _ 2] Cons.prems(2) a1(3-5) have
      ih: "arena_ok a'" "ar_base a' = ar_base a" "ar_size a' = ar_size a" "arena_top a + unat n \<le> arena_top a'"
        "sorted_wrt (\<lambda>(p, n) (q, m). unat p + unat n \<le> unat q) qs"
        "\<forall>(q, m) \<in> set qs. arena_top a + unat n \<le> unat q \<and> unat q + unat m \<le> arena_top a'" by auto
    then show ?thesis using False ps a1(1) by fastforce
  qed
qed

end
