(* ===== verification/ArenaProps.thy ===== *)
theory ArenaProps
  imports Arena GenAllocProps
begin

text \<open>
  The properties of arenas: what a sequence of pushes returns, that a pop undoes a push, where
  the bounds check is defeated by wrap-around, and what destroying an arena does and reports.
\<close>

definition sample_arena :: Arena where
  "sample_arena = \<lparr>ar_base = 0x3000, ar_size = 64, sizeInpages = 1, used = 0\<rparr>"

text \<open>
  C19: the allocations of any sequence of \<open>MmPushMemoryFromArena\<close> calls, failures in between included, lie one after the other
  inside the arena's memory, so that no two of them overlap; the arena's bounds never
  change and its used part never exceeds them.
\<close>

theorem arena_pushes_disjoint:
  assumes "arena_ok a" and "\<forall>n \<in> set ns. unat n \<le> 0x4000000000000000" and "push_all ns a s = (ps, a', s')"
  shows "sorted_wrt (\<lambda>(p, n) (q, m). unat p + unat n \<le> unat q) ps \<and>
    (\<forall>(p, n) \<in> set ps. unat (ar_base a) \<le> unat p \<and> unat p + unat n \<le> unat (ar_base a) + unat (ar_size a)) \<and>
    arena_ok a' \<and> ar_base a' = ar_base a \<and> ar_size a' = ar_size a"
proof -
  note r = push_all_result[OF assms]
  then have top: "arena_top a' \<le> unat (ar_base a) + unat (ar_size a)"
    by (auto simp: arena_ok_def arena_top_def word_le_nat_alt)
  have "unat (ar_base a) \<le> unat p \<and> unat p + unat n \<le> unat (ar_base a) + unat (ar_size a)"
    if "(p, n) \<in> set ps" for p n
    using r that top by (fastforce simp: arena_top_def)
  with r show ?thesis by blast
qed

lemma arena_pushes_disjoint_witness:
  "push_all [16, 100, 48] sample_arena sample_galloc =
     ([(0x3000, 16), (0x3010, 48)], sample_arena\<lparr>used := 64\<rparr>,
      ga_print TERM_STATUS_INFO ''arena overflow, used is %d, size is %d'' [100, 64] sample_galloc) \<and>
   arena_ok (sample_arena\<lparr>used := 64\<rparr>)"
proof -
  have e: "push_all [16, 100, 48] sample_arena sample_galloc =
     ([(0x3000, 16), (0x3010, 48)], sample_arena\<lparr>used := 64\<rparr>,
      ga_print TERM_STATUS_INFO ''arena overflow, used is %d, size is %d'' [100, 64] sample_galloc)"
    by (simp add: MmPushMemoryFromArena_def sample_arena_def Let_def)
  have "arena_ok sample_arena" by (simp add: arena_ok_def sample_arena_def)
  from arena_pushes_disjoint[OF this _ e] e show ?thesis by simp
qed

text \<open>
  \<open>MmPopMemoryFromArena\<close> of the size just pushed restores the arena, for every successful push, also one of size 0.
\<close>

theorem arena_push_pop:
  assumes "arena_ok a" and "unat n \<le> 0x4000000000000000"
    and "MmPushMemoryFromArena a n s = (p, a', s')" and "p \<noteq> NULL"
  shows "MmPopMemoryFromArena a' n = a"
proof -
  from push_cases[OF assms(1-3)] assms(4) have a': "a' = a\<lparr>used := used a + n\<rparr>" by blast
  have u: "unat (used a + n) = unat (used a) + unat n"
    using assms(1,2) by (intro unat_add_no_wrap) (simp add: arena_ok_def word_le_nat_alt)
  show ?thesis
  proof (cases "used a + n \<le> n")
    case True
    then have "used a = 0" using u by (simp add: word_le_nat_alt unat_eq_0)
    then show ?thesis by (simp add: a' MmPopMemoryFromArena_def)
  next
    case False
    then show ?thesis by (simp add: a' MmPopMemoryFromArena_def)
  qed
qed

lemma arena_push_pop_witness:
  "MmPopMemoryFromArena (sample_arena\<lparr>used := 16\<rparr>) 16 = sample_arena"
proof (rule arena_push_pop)
  show "MmPushMemoryFromArena sample_arena 16 sample_galloc = (0x3000, sample_arena\<lparr>used := 16\<rparr>, sample_galloc)"
    by (simp add: MmPushMemoryFromArena_def sample_arena_def)
qed (simp_all add: arena_ok_def sample_arena_def)

text \<open>
  The check \<open>used + size > arena->size\<close> of \<open>MmPushMemoryFromArena\<close> wraps around: a request of \<open>2 ^ 64 - k\<close> bytes with \<open>k\<close> at most the used size is
  granted and moves the arena back by \<open>k\<close> bytes, so that the next push of up to \<open>k\<close> bytes returns
  memory that an earlier push has handed out.
\<close>

theorem arena_push_wraps:
  assumes "arena_ok a" and "0 < k" and "k \<le> used a" and "m \<le> k"
  shows "\<exists>a' s'. MmPushMemoryFromArena a (- k) s = (ar_base a + used a, a', s') \<and>
    MmPushMemoryFromArena a' m s' = (ar_base a + (used a - k), a\<lparr>used := used a - k + m\<rparr>, s)"
proof -
  have "used a - k \<le> used a" using assms(3) by (simp add: word_le_nat_alt unat_sub_le)
  then have "used a - k \<le> ar_size a" using assms(1) by (auto simp: arena_ok_def intro: order_trans)
  moreover have "used a - k + m \<le> ar_size a"
  proof -
    have "unat (used a - k + m) = unat (used a) - unat k + unat m"
      using assms(3,4) unat_lt_2p64[of "used a"]
      by (subst unat_add_no_wrap) (simp_all add: unat_sub_le word_le_nat_alt)
    then have "used a - k + m \<le> used a" using assms(3,4) by (simp add: word_le_nat_alt)
    then show ?thesis using assms(1) by (auto simp: arena_ok_def intro: order_trans)
  qed
  ultimately have "\<not> ar_size a < used a - k" "\<not> ar_size a < used a - k + m" by (simp_all only: not_less)
  then show ?thesis using assms(1) by (simp add: MmPushMemoryFromArena_def arena_ok_def Let_def)
qed

lemma arena_push_wraps_witness:
  "\<exists>a' s'. MmPushMemoryFromArena (sample_arena\<lparr>used := 32\<rparr>) (- 16) sample_galloc = (0x3020, a', s') \<and>
     MmPushMemoryFromArena a' 8 s' = (0x3010, sample_arena\<lparr>used := 24\<rparr>, sample_galloc)"
  using arena_push_wraps[of "sample_arena\<lparr>used := 32\<rparr>" 16 8 sample_galloc]
  by (simp add: arena_ok_def sample_arena_def)

text \<open>
  An arena that \<open>MmCreateArena\<close> makes is usable and its memory is one live allocation of the general
  allocator, apart from every allocation that was live before.
\<close>

theorem arena_create_private:
  assumes "ga_inv s bs fs cs" and "lock_free s" and "unat n \<le> 0x2000000000000000"
    and "fresh_block (n + PAGE_SIZE) s bs" and "MmCreateArena a n s = Some (STATUS_SUCCESS, a', s')"
  shows "arena_ok a' \<and> used a' = 0 \<and> ar_size a' = n \<and> (\<exists>bs' fs' cs'. ga_inv s' bs' fs' cs' \<and>
    ar_base a' - 48 \<in> live_chunks s' cs' \<and> unat n \<le> unat (ah_size (alc s' (ar_base a' - 48))) \<and>
    (\<forall>h \<in> live_chunks s cs. unat (ar_base a') + unat n \<le> unat (h + 48) \<or>
       unat (h + 48) + unat (ah_size (alc s h)) \<le> unat (ar_base a')))"
proof -
  from assms(5) obtain p where p: "MmAllocateGeneralMemory n s = Some (p, s')" "p \<noteq> NULL" "ar_base a' = p"
    "ar_size a' = n" "used a' = 0"
    by (auto simp: MmCreateArena_def Let_def bind_eq_Some_conv split: if_splits)
  from MmAllocateGeneralMemory_result[OF assms(1-4)] p obtain bs' fs' cs' where
    r: "ga_inv s' bs' fs' cs'" "alloc_result n s cs p s' cs'" by auto
  have c: "core_inv s' (set bs') (set fs') cs'" using r(1) by (simp add: ga_inv_def)
  let ?h = "p - 48"
  have live: "live_chunks s' cs' = insert ?h (live_chunks s cs)" "?h \<notin> live_chunks s cs"
    and sz: "unat n \<le> unat (ah_size (alc s' ?h))"
    and same: "\<And>h. h \<in> live_chunks s cs \<Longrightarrow> ah_size (alc s' h) = ah_size (alc s h)"
    using r(2) by (auto simp: alloc_result_def)
  have sub: "live_chunks s' cs' \<subseteq> cs'" by (auto simp: live_chunks_def)
  then have hc: "?h \<in> cs'" using live(1) by auto
  have up: "unat p = unat ?h + 48" using chunk_bounds(2)[OF c hc] by simp
  have "chunk_end s' ?h \<le> 18446744073709551615"
  proof -
    have ok: "chunk_ok s' (set bs') ?h" using core_invD(4)[OF c hc] .
    then have "block_ok s' (ah_header (alc s' ?h))" using core_invD(1)[OF c] by (simp add: chunk_ok_def)
    with ok show ?thesis by (simp add: chunk_ok_def block_ok_def block_end_def)
  qed
  then have "unat p + unat n \<le> 18446744073709551615" using up sz by (simp add: chunk_end_def)
  then have "arena_ok a'" using p assms(3) by (simp add: arena_ok_def)
  moreover have "unat p + unat n \<le> unat (h + 48) \<or> unat (h + 48) + unat (ah_size (alc s h)) \<le> unat p"
    if h: "h \<in> live_chunks s cs" for h
  proof -
    have k: "h \<in> cs'" "h \<noteq> ?h" using h live sub by auto
    from core_invD(5)[OF c k(1) hc k(2)] show ?thesis
      using up chunk_bounds(2)[OF c k(1)] sz same[OF h] by (auto simp: chunk_end_def)
  qed
  moreover have "?h \<in> live_chunks s' cs'" using live(1) by simp
  ultimately show ?thesis using p(3-5) r(1) sz by blast
qed

lemma arena_create_private_witness:
  "\<exists>a' s'. MmCreateArena sample_arena 100 sample_galloc = Some (STATUS_SUCCESS, a', s') \<and> arena_ok a'"
proof -
  obtain p s' where "MmAllocateGeneralMemory 100 sample_galloc = Some (p, s')" "p \<noteq> NULL"
    using sample_ga_alloc by blast
  then obtain a' where c: "MmCreateArena sample_arena 100 sample_galloc = Some (STATUS_SUCCESS, a', s')"
    by (simp add: MmCreateArena_def Let_def sample_arena_def)
  from arena_create_private[OF sample_ga_inv sample_ga_lock _ sample_ga_fresh c] c show ?thesis by simp
qed

text \<open>
  \<open>MmDestroyArena\<close> takes the status of the free for a boolean, and the status of success is \<open>FALSE\<close>. Destroying an arena
  whose memory is a live allocation frees the memory, yet reports failure and leaves the arena
  as it was: the next push succeeds and returns memory that has been freed.
\<close>

theorem arena_destroy_inverted:
  assumes "ga_inv s bs fs cs" and "lock_free s" and "ar_base a - 48 \<in> live_chunks s cs" and "arena_ok a"
    and "unat (used a) + unat n \<le> unat (ar_size a)"
  shows "\<exists>s' bs' fs' cs'. MmDestroyArena a s = Some (False, a, s') \<and> ga_inv s' bs' fs' cs' \<and>
    ar_base a - 48 \<notin> live_chunks s' cs' \<and>
    MmPushMemoryFromArena a n s' = (ar_base a + used a, a\<lparr>used := used a + n\<rparr>, s')"
proof -
  from MmFreeGeneralMemory_result[OF assms(1-3)] obtain s' bs' fs' cs' where
    r: "MmFreeGeneralMemory (ar_base a) s = Some (STATUS_SUCCESS, s')" "ga_inv s' bs' fs' cs'"
      "live_chunks s' cs' = live_chunks s cs - {ar_base a - 48}" by auto
  have "MmPushMemoryFromArena a n s' = (ar_base a + used a, a\<lparr>used := used a + n\<rparr>, s')"
    by (rule push_success[OF assms(4,5)])
  moreover have "MmDestroyArena a s = Some (False, a, s')"
    by (simp add: MmDestroyArena_def r(1) boolean_of_status_def)
  ultimately show ?thesis using r(2,3) by blast
qed

lemma arena_destroy_inverted_witness:
  "\<exists>a s s'. MmDestroyArena a s = Some (False, a, s') \<and> ar_base a \<noteq> NULL"
proof -
  obtain p s bs fs cs where s: "lock_free s" "ga_inv s bs fs cs" "live_chunks s cs = {p - 48}"
    using sample_ga_alloc by blast
  have c: "core_inv s (set bs) (set fs) cs" and h: "p - 48 \<in> cs"
    using s(2,3) by (auto simp: ga_inv_def live_chunks_def)
  have p: "p \<noteq> NULL" using chunk_bounds(3)[OF c h] by simp
  define a where "a = \<lparr>ar_base = p, ar_size = 0, sizeInpages = 0, used = 0\<rparr>"
  have "arena_ok a" using p unat_lt_2p64[of p] by (simp add: arena_ok_def a_def)
  with arena_destroy_inverted[OF s(2,1), of a 0] s(3) have "\<exists>s'. MmDestroyArena a s = Some (False, a, s')"
    by (auto simp: a_def)
  moreover have "ar_base a \<noteq> NULL" using p by (simp add: a_def)
  ultimately show ?thesis by blast
qed

end
