(* ===== verification/QString.thy ===== *)
theory QString
  imports Arena
begin

text \<open>
  Counted strings \<open>qol/qstring.c\<close> of the kernel: a pointer to bytes of the machine memory and a length. A
  \<open>QString\<close> that copies or slices another shares its bytes; the heap and arena variants copy them.
  The bytes are those of the physical memory manager's memory, which every allocation lies in.
\<close>

section \<open>Definitions\<close>

record QString =
  qs_buffer :: u64
  qs_length :: u64

text \<open>The loop \<open>while(*copy != '\0')\<close>; it does not end if there is no zero byte.\<close>

partial_function (option) count_string :: "bytes \<Rightarrow> u64 \<Rightarrow> u64 \<Rightarrow> u64 option" where
  "count_string m copy len = (if m copy \<noteq> 0 then count_string m (copy + 1) (len + 1) else Some len)"

definition QolGetStringLength :: "u64 \<Rightarrow> bytes \<Rightarrow> u64 option" where
  "QolGetStringLength str m = (if str = NULL then Some 0 else count_string m str 0)"

definition QolGetStringLengthEx :: "u64 \<Rightarrow> bool \<Rightarrow> bytes \<Rightarrow> u64 option" where
  "QolGetStringLengthEx str addNewLine m =
     (if str = NULL then Some 0
      else map_option (\<lambda>len. if addNewLine then len + 1 else len) (count_string m str 0))"

definition QolInitStringEx :: "u64 \<Rightarrow> u64 \<Rightarrow> QString" where
  "QolInitStringEx str len = \<lparr>qs_buffer = str, qs_length = len\<rparr>"

definition QolInitString :: "u64 \<Rightarrow> bytes \<Rightarrow> QString option" where
  "QolInitString str m = map_option (QolInitStringEx str) (QolGetStringLength str m)"

definition QolCopyString :: "QString \<Rightarrow> QString \<Rightarrow> QString" where
  "QolCopyString src dest = dest\<lparr>qs_buffer := qs_buffer src, qs_length := qs_length src\<rparr>"

definition QolDupeString :: "QString \<Rightarrow> QString" where
  "QolDupeString src = \<lparr>qs_buffer = qs_buffer src, qs_length = qs_length src\<rparr>"

definition QolSliceString :: "QString \<Rightarrow> u64 \<Rightarrow> QString" where
  "QolSliceString str len =
     (if qs_buffer str = NULL then \<lparr>qs_buffer = NULL, qs_length = 0\<rparr>
      else if qs_length str \<le> len then str
      else \<lparr>qs_buffer = qs_buffer str, qs_length = len\<rparr>)"

text \<open>Copy the bytes of \<open>src\<close> to \<open>buffer\<close> and terminate them.\<close>

definition fill_string :: "u64 \<Rightarrow> QString \<Rightarrow> galloc \<Rightarrow> galloc" where
  "fill_string buffer src s =
     (let s1 = s\<lparr>ga_pm := (ga_pm s)\<lparr>pm_mem := snd (memcpy buffer (qs_buffer src) (qs_length src) (pm_mem (ga_pm s)))\<rparr>\<rparr>
      in ga_store (buffer + qs_length src) 0 s1)"

definition QolCopyStringHeap :: "QString \<Rightarrow> QString \<Rightarrow> galloc \<Rightarrow> (bool \<times> QString \<times> galloc) option" where
  "QolCopyStringHeap src dest s =
     (if qs_buffer src = NULL then Some (False, dest, s)
      else do { (mem, s1) \<leftarrow> MmAllocateGeneralMemory (qs_length src + 1) s;
                let d1 = dest\<lparr>qs_buffer := mem\<rparr>
                in if qs_buffer d1 = NULL then Some (False, d1, s1)
                   else Some (True, d1\<lparr>qs_length := qs_length src\<rparr>, fill_string (qs_buffer d1) src s1) })"

definition QolCopyStringArena ::
    "Arena \<Rightarrow> QString \<Rightarrow> QString \<Rightarrow> galloc \<Rightarrow> bool \<times> Arena \<times> QString \<times> galloc" where
  "QolCopyStringArena arena src dest s =
     (if qs_buffer src = NULL then (False, arena, dest, s)
      else let (mem, a1, s1) = MmPushMemoryFromArena arena (qs_length src + 1) s;
               d1 = dest\<lparr>qs_buffer := mem\<rparr>
           in if qs_buffer d1 = NULL then (False, a1, d1, s1)
              else (True, a1, d1\<lparr>qs_length := qs_length src\<rparr>, fill_string (qs_buffer d1) src s1))"

definition QolDupeStringHeap :: "QString \<Rightarrow> galloc \<Rightarrow> (QString \<times> galloc) option" where
  "QolDupeStringHeap src s =
     (let result = \<lparr>qs_buffer = NULL, qs_length = 0\<rparr>
      in if qs_buffer src = NULL then Some (result, s)
         else do { (mem, s1) \<leftarrow> MmAllocateGeneralMemory (qs_length src + 1) s;
                   let r1 = result\<lparr>qs_buffer := mem\<rparr>
                   in if qs_buffer r1 = NULL then Some (r1, s1)
                      else Some (r1\<lparr>qs_length := qs_length src\<rparr>, fill_string (qs_buffer r1) src s1) })"

definition QolDupeStringArena :: "Arena \<Rightarrow> QString \<Rightarrow> galloc \<Rightarrow> QString \<times> Arena \<times> galloc" where
  "QolDupeStringArena arena src s =
     (let result = \<lparr>qs_buffer = NULL, qs_length = 0\<rparr>
      in if qs_buffer src = NULL then (result, arena, s)
         else let (mem, a1, s1) = MmPushMemoryFromArena arena (qs_length src + 1) s;
                  r1 = result\<lparr>qs_buffer := mem\<rparr>
              in if qs_buffer r1 = NULL then (r1, a1, s1)
                 else (r1\<lparr>qs_length := qs_length src\<rparr>, a1, fill_string (qs_buffer r1) src s1))"

section \<open>Lengths\<close>

lemma count_string_Some:
  assumes "m (copy + of_nat n) = 0" and "\<And>k. k < n \<Longrightarrow> m (copy + of_nat k) \<noteq> 0"
  shows "count_string m copy len = Some (len + of_nat n)"
  using assms
proof (induction n arbitrary: copy len)
  case 0
  then show ?case by (subst count_string.simps) simp
next
  case (Suc n)
  have "m copy \<noteq> 0" using Suc.prems(2)[of 0] by simp
  moreover have "count_string m (copy + 1) (len + 1) = Some (len + 1 + of_nat n)"
  proof (rule Suc.IH)
    show "m (copy + 1 + of_nat n) = 0" using Suc.prems(1) by (simp add: add.assoc)
    show "m (copy + 1 + of_nat k) \<noteq> 0" if "k < n" for k
      using Suc.prems(2)[of "Suc k"] that by (simp add: add.assoc)
  qed
  ultimately show ?case by (subst count_string.simps) (simp add: add_ac)
qed

lemma count_string_None:
  assumes "\<And>x. m x \<noteq> 0"
  shows "count_string m copy len = None"
proof (rule ccontr)
  assume "count_string m copy len \<noteq> None"
  then obtain r where "count_string m copy len = Some r" by blast
  then have "\<exists>x. m x = 0"
    by (rule count_string.raw_induct [where P = "\<lambda>m copy len r. \<exists>x. m x = 0", rotated])
      (auto split: if_splits)
  with assms show False by blast
qed

lemma first_zero:
  fixes m :: bytes
  assumes "m x = 0"
  obtains n where "n < 18446744073709551616" and "m (copy + of_nat n) = 0" and "\<And>k. k < n \<Longrightarrow> m (copy + of_nat k) \<noteq> 0"
proof -
  let ?P = "\<lambda>n. m (copy + of_nat n) = 0"
  have "?P (unat (x - copy))" using assms by simp
  then have "?P (LEAST n. ?P n)" and "(LEAST n. ?P n) \<le> unat (x - copy)"
    by (rule LeastI, rule Least_le)
  moreover have "\<not> ?P k" if "k < (LEAST n. ?P n)" for k using that by (rule not_less_Least)
  ultimately show thesis using that unat_lt_2p64[of "x - copy"] by (meson le_less_trans)
qed

section \<open>Contents\<close>

definition string_of :: "QString \<Rightarrow> bytes \<Rightarrow> u8 list" where
  "string_of q m = map (\<lambda>i. m (qs_buffer q + of_nat i)) [0..<unat (qs_length q)]"

lemma fill_string_mem:
  assumes "unat (qs_length src) \<le> unat (qs_buffer src - p)" and "unat (qs_length src) \<le> unat (p - qs_buffer src)"
  shows "pm_mem (ga_pm (fill_string p src s)) x =
    (if x = p + qs_length src then 0
     else if unat (x - p) < unat (qs_length src) then pm_mem (ga_pm s) (qs_buffer src + (x - p)) else pm_mem (ga_pm s) x)"
  by (simp add: fill_string_def ga_store_def Let_def memcpy_apply[OF assms])

lemma fill_string_copies:
  assumes "unat (qs_length src) \<le> unat (qs_buffer src - p)" and "unat (qs_length src) \<le> unat (p - qs_buffer src)"
    and "q = \<lparr>qs_buffer = p, qs_length = qs_length src\<rparr>"
  shows "string_of q (pm_mem (ga_pm (fill_string p src s))) = string_of src (pm_mem (ga_pm s))"
    and "pm_mem (ga_pm (fill_string p src s)) (p + qs_length src) = 0"
proof -
  have "of_nat i \<noteq> qs_length src \<and> unat (of_nat i :: u64) = i" if "i < unat (qs_length src)" for i
    using that unat_of_nat_below[OF that] by auto
  then show "string_of q (pm_mem (ga_pm (fill_string p src s))) = string_of src (pm_mem (ga_pm s))"
    by (simp add: string_of_def assms(3) fill_string_mem[OF assms(1,2)])
  show "pm_mem (ga_pm (fill_string p src s)) (p + qs_length src) = 0"
    by (simp add: fill_string_mem[OF assms(1,2)])
qed

lemma terminated_length:
  assumes "\<forall>c \<in> set (string_of q m). c \<noteq> 0" and "m (qs_buffer q + qs_length q) = 0" and "qs_buffer q \<noteq> NULL"
  shows "QolGetStringLength (qs_buffer q) m = Some (qs_length q)"
  using count_string_Some[of m "qs_buffer q" "unat (qs_length q)" 0] assms
  by (simp add: QolGetStringLength_def string_of_def)

end
