(* ===== verification/QStringProps.thy ===== *)
theory QStringProps
  imports QString GenAllocProps
begin

text \<open>The properties of the kernel's strings: lengths, copies on the heap, and slices.\<close>

text \<open>
  \<open>QolGetStringLength\<close> of a pointer other than \<open>NULL\<close> returns the distance to the first zero byte from it, and does not
  return exactly when the memory holds no zero byte.
\<close>

theorem string_length_first_zero:
  assumes "str \<noteq> NULL"
  shows "(QolGetStringLength str m = Some n \<longleftrightarrow>
      m (str + n) = 0 \<and> (\<forall>k < unat n. m (str + of_nat k) \<noteq> 0)) \<and>
    (QolGetStringLength str m = None \<longleftrightarrow> (\<forall>x. m x \<noteq> 0))"
proof (cases "\<forall>x. m x \<noteq> 0")
  case True
  then show ?thesis using count_string_None[of m str 0] assms by (simp add: QolGetStringLength_def)
next
  case False
  then obtain x where "m x = 0" by blast
  then obtain j where j: "j < 18446744073709551616" "m (str + of_nat j) = 0" "\<And>k. k < j \<Longrightarrow> m (str + of_nat k) \<noteq> 0"
    by (rule first_zero[of m x str]) blast
  have r: "QolGetStringLength str m = Some (of_nat j)"
    using count_string_Some[of m str j 0, OF j(2,3)] assms by (simp add: QolGetStringLength_def)
  have "n = of_nat j" if n: "m (str + n) = 0" "\<forall>k < unat n. m (str + of_nat k) \<noteq> 0"
  proof -
    have "\<not> unat n < j" using j(3)[of "unat n"] n(1) by auto
    moreover have "\<not> j < unat n" using j(2) n(2) by blast
    ultimately have "unat n = j" by simp
    then show ?thesis by auto
  qed
  moreover have "unat (of_nat j :: u64) = j" using j(1) by (simp add: unat_of_nat_u64)
  ultimately show ?thesis using r j(2,3) False by auto
qed

lemma string_length_first_zero_witness:
  "QolGetStringLength 0x100 ((\<lambda>_. 65)(0x103 := 0)) = Some 3 \<and> QolGetStringLength 0x100 (\<lambda>_. 65) = None"
proof -
  have "(0x100 :: u64) + of_nat k \<noteq> 0x103" if "k < 3" for k :: nat
  proof -
    from that have "k = 0 \<or> k = 1 \<or> k = 2" by arith
    then show ?thesis by (elim disjE) simp_all
  qed
  then have "QolGetStringLength 0x100 ((\<lambda>_. 65)(0x103 := 0)) = Some 3"
    using string_length_first_zero[of "0x100" "(\<lambda>_. 65)(0x103 := 0)" 3] by simp
  moreover have "QolGetStringLength 0x100 (\<lambda>_. 65) = None"
    using string_length_first_zero[of "0x100" "\<lambda>_. 65" 0] by simp
  ultimately show ?thesis ..
qed

text \<open>
  When \<open>QolCopyStringHeap\<close> and \<open>QolDupeStringHeap\<close> succeed with memory apart from the source, the copy has the
  source's length and bytes, is terminated by a zero byte, and no byte outside the copy
  changes; a copy of a string without zero bytes has the C string length of the source.
\<close>

theorem heap_copy_contents:
  assumes "qs_buffer src \<noteq> NULL" and "MmAllocateGeneralMemory (qs_length src + 1) s = Some (p, s1)" and "p \<noteq> NULL"
    and "unat (qs_length src) \<le> unat (qs_buffer src - p)" and "unat (qs_length src) \<le> unat (p - qs_buffer src)"
  shows "\<exists>s' q. QolCopyStringHeap src dest s = Some (True, q, s') \<and> QolDupeStringHeap src s = Some (q, s') \<and>
    qs_buffer q = p \<and> qs_length q = qs_length src \<and>
    string_of q (pm_mem (ga_pm s')) = string_of src (pm_mem (ga_pm s1)) \<and>
    (\<forall>x. unat (qs_length src) < unat (x - p) \<longrightarrow> pm_mem (ga_pm s') x = pm_mem (ga_pm s1) x) \<and>
    ((\<forall>c \<in> set (string_of src (pm_mem (ga_pm s1))). c \<noteq> 0) \<longrightarrow>
       QolGetStringLength p (pm_mem (ga_pm s')) = Some (qs_length src))"
proof -
  let ?q = "\<lparr>qs_buffer = p, qs_length = qs_length src\<rparr>" and ?s = "fill_string p src s1"
  note c = fill_string_copies[OF assms(4,5), of ?q s1]
  have "QolCopyStringHeap src dest s = Some (True, ?q, ?s)" "QolDupeStringHeap src s = Some (?q, ?s)"
    using assms(1-3) by (simp_all add: QolCopyStringHeap_def QolDupeStringHeap_def Let_def)
  moreover have "pm_mem (ga_pm ?s) x = pm_mem (ga_pm s1) x" if "unat (qs_length src) < unat (x - p)" for x
    using that by (auto simp: fill_string_mem[OF assms(4,5)])
  moreover have "QolGetStringLength p (pm_mem (ga_pm ?s)) = Some (qs_length src)"
    if "\<forall>c \<in> set (string_of src (pm_mem (ga_pm s1))). c \<noteq> 0"
    using terminated_length[of ?q "pm_mem (ga_pm ?s)"] c that assms(3) by simp
  ultimately show ?thesis using c(1) by (intro exI[of _ ?s] exI[of _ ?q]) simp
qed

lemma heap_copy_contents_witness:
  "\<exists>q s'. QolDupeStringHeap \<lparr>qs_buffer = 0x100, qs_length = 0\<rparr> (sample_galloc\<lparr>bHead := 0x2000,
       blk := (\<lambda>_. \<lparr>bh_base = 0x2030, bh_size = 256, amountUsed = 0, allocCounter = 0, bh_next = 0, bh_prev = 0\<rparr>)\<rparr>) = Some (q, s') \<and>
     qs_buffer q = 0x2060"
proof -
  let ?s = "sample_galloc\<lparr>bHead := 0x2000,
       blk := (\<lambda>_. \<lparr>bh_base = 0x2030, bh_size = 256, amountUsed = 0, allocCounter = 0, bh_next = 0, bh_prev = 0\<rparr>)\<rparr>"
  let ?t = "?s\<lparr>allocSpinLock := \<lparr>lock = True\<rparr>\<rparr>"
  have acq: "ga_acquire ?s = Some ?t"
    by (simp add: ga_acquire_eq lock_free_def sample_galloc_def KeCreateSpinLock_def)
  have sz: "SPLIT_SAFE 49 = 64" by (simp add: SPLIT_SAFE_def MEM_SPLIT_def)
  have free: "GetMemoryFromFreeList 1 ?t = Some (NULL, ?t)"
    by (simp add: GetMemoryFromFreeList_def follow.simps sample_galloc_def)
  have "follow (\<lambda>h. bh_next (blk ?t h)) (\<lambda>h. block_fits 64 (blk ?t h)) (bHead ?t) = Some (Some 0x2000)"
    by (subst follow.simps) (simp add: block_fits_def word_sle_eq)
  then have "AllocateFreshMemory 1 ?t = Some (take_fresh 64 0x2000 ?t)"
    by (simp add: AllocateFreshMemory_def free sz)
  moreover have "fst (take_fresh 64 0x2000 ?t) = 0x2060"
    by (simp add: take_fresh_def CarveMemoryFromBlock_def Let_def)
  ultimately obtain s1 where "MmAllocateGeneralMemory (qs_length \<lparr>qs_buffer = 0x100, qs_length = 0\<rparr> + 1) ?s = Some (0x2060, s1)"
    by (cases "take_fresh 64 0x2000 ?t") (simp add: MmAllocateGeneralMemory_def acq)
  from heap_copy_contents[OF _ this, where dest = "\<lparr>qs_buffer = 0, qs_length = 0\<rparr>"] show ?thesis by auto
qed

text \<open>
  \<open>QolSliceString\<close> yields the first \<open>length\<close> bytes of a string, or all of them if it has fewer, sharing the
  buffer; slices of slices are slices by the smaller length.
\<close>

theorem slice_is_prefix:
  assumes "qs_buffer q \<noteq> NULL"
  shows "string_of (QolSliceString q n) m = take (unat n) (string_of q m) \<and>
    qs_buffer (QolSliceString q n) = qs_buffer q \<and>
    QolSliceString (QolSliceString q n) k = QolSliceString q (min n k)"
proof -
  have "map (\<lambda>i. m (qs_buffer q + of_nat i)) [0..<unat (qs_length (QolSliceString q n))] = take (unat n) (string_of q m)"
  proof (cases "qs_length q \<le> n")
    case True
    then show ?thesis by (simp add: QolSliceString_def assms string_of_def word_le_nat_alt)
  next
    case False
    then have "unat n < unat (qs_length q)" by (simp add: word_le_nat_alt)
    then show ?thesis using False by (simp add: QolSliceString_def assms string_of_def take_map min_def)
  qed
  moreover have b: "qs_buffer (QolSliceString q n) = qs_buffer q" by (simp add: QolSliceString_def assms)
  moreover have "QolSliceString (QolSliceString q n) k = QolSliceString q (min n k)"
    using assms by (auto simp: QolSliceString_def min_def)
  ultimately show ?thesis by (simp add: string_of_def)
qed

lemma slice_is_prefix_witness:
  "string_of (QolSliceString \<lparr>qs_buffer = 0x100, qs_length = 9\<rparr> 4) (\<lambda>x. ucast x) =
     take 4 (string_of \<lparr>qs_buffer = 0x100, qs_length = 9\<rparr> (\<lambda>x. ucast x))"
  using slice_is_prefix[of "\<lparr>qs_buffer = 0x100, qs_length = 9\<rparr>" 4 "\<lambda>x. ucast x" 0]
  by (simp del: upt_Suc)

end
