(* ===== verification/Font.thy ===== *)
theory Font
  imports NrPrelude
begin

text \<open>
  The 8x12 bitmap font \<open>BitFonts/font_8x12.h\<close>, the same file in kernel and loader: for each of the 128 ASCII
  characters twelve rows of bits, the lowest bit leftmost. Rows the table does not initialise are zero.
\<close>

definition font_8x12 :: "u8 list list" where
  "font_8x12 = [
    [0, 0, 0, 0, 0, 0, 0, 0, 0, 0, 0, 0],
    [0, 0, 0, 0, 0, 0, 0, 0, 0, 0, 0, 0],
    [0, 0, 0, 0, 0, 0, 0, 0, 0, 0, 0, 0],
    [0, 0, 0, 0, 0, 0, 0, 0, 0, 0, 0, 0],
    [0, 0, 0, 0, 0, 0, 0, 0, 0, 0, 0, 0],
    [0, 0, 0, 0, 0, 0, 0, 0, 0, 0, 0, 0],
    [0, 0, 0, 0, 0, 0, 0, 0, 0, 0, 0, 0],
    [0, 0, 0, 0, 0, 0, 0, 0, 0, 0, 0, 0],
    [0, 0, 0, 0, 0, 0, 0, 0, 0, 0, 0, 0],
    [0, 0, 0, 0, 0, 0, 0, 0, 0, 0, 0, 0],
    [0, 0, 0, 0, 0, 0, 0, 0, 0, 0, 0, 0],
    [0, 0, 0, 0, 0, 0, 0, 0, 0, 0, 0, 0],
    [0, 0, 0, 0, 0, 0, 0, 0, 0, 0, 0, 0],
    [0, 0, 0, 0, 0, 0, 0, 0, 0, 0, 0, 0],
    [0, 0, 0, 0, 0, 0, 0, 0, 0, 0, 0, 0],
    [0, 0, 0, 0, 0, 0, 0, 0, 0, 0, 0, 0],
    [0, 0, 0, 0, 0, 0, 0, 0, 0, 0, 0, 0],
    [0, 0, 0, 0, 0, 0, 0, 0, 0, 0, 0, 0],
    [0, 0, 0, 0, 0, 0, 0, 0, 0, 0, 0, 0],
    [0, 0, 0, 0, 0, 0, 0, 0, 0, 0, 0, 0],
    [0, 0, 0, 0, 0, 0, 0, 0, 0, 0, 0, 0],
    [0, 0, 0, 0, 0, 0, 0, 0, 0, 0, 0, 0],
    [0, 0, 0, 0, 0, 0, 0, 0, 0, 0, 0, 0],
    [0, 0, 0, 0, 0, 0, 0, 0, 0, 0, 0, 0],
    [0, 0, 0, 0, 0, 0, 0, 0, 0, 0, 0, 0],
    [0, 0, 0, 0, 0, 0, 0, 0, 0, 0, 0, 0],
    [0, 0, 0, 0, 0, 0, 0, 0, 0, 0, 0, 0],
    [0, 0, 0, 0, 0, 0, 0, 0, 0, 0, 0, 0],
    [0, 0, 0, 0, 0, 0, 0, 0, 0, 0, 0, 0],
    [0, 0, 0, 0, 0, 0, 0, 0, 0, 0, 0, 0],
    [0, 0, 0, 0, 0, 0, 0, 0, 0, 0, 0, 0],
    [0, 0, 0, 0, 0, 0, 0, 0, 0, 0, 0, 0],
    [0, 0, 0, 0, 0, 0, 0, 0, 0, 0, 0, 0],
    [0, 0x18, 0x18, 0x18, 0x18, 0x18, 0x18, 0, 0x18, 0x18, 0, 0],
    [0, 0x36, 0x36, 0x36, 0, 0, 0, 0, 0, 0, 0, 0],
    [0, 0x6C, 0x6C, 0xFE, 0x6C, 0x6C, 0x6C, 0xFE, 0x6C, 0x6C, 0, 0],
    [0, 0x30, 0xFC, 0x16, 0x16, 0x7C, 0xD0, 0xD0, 0x7E, 0x18, 0, 0],
    [0, 0x06, 0x66, 0x30, 0x30, 0x18, 0x18, 0x0C, 0xCC, 0xC0, 0, 0],
    [0, 0x1C, 0x36, 0x36, 0x1C, 0x6E, 0x7B, 0x33, 0x33, 0x6E, 0, 0],
    [0, 0x18, 0x18, 0x0C, 0, 0, 0, 0, 0, 0, 0, 0],
    [0, 0x30, 0x18, 0x0C, 0x0C, 0x0C, 0x0C, 0x0C, 0x18, 0x30, 0, 0],
    [0, 0x0C, 0x18, 0x30, 0x30, 0x30, 0x30, 0x30, 0x18, 0x0C, 0, 0],
    [0, 0, 0x66, 0x3C, 0xFF, 0x3C, 0x66, 0, 0, 0, 0, 0],
    [0, 0, 0x18, 0x18, 0x18, 0xFF, 0x18, 0x18, 0x18, 0, 0, 0],
    [0, 0, 0, 0, 0, 0, 0, 0, 0x18, 0x18, 0x0C, 0],
    [0, 0, 0, 0, 0, 0x7E, 0, 0, 0, 0, 0, 0],
    [0, 0, 0, 0, 0, 0, 0, 0, 0x18, 0x18, 0, 0],
    [0, 0, 0x60, 0x30, 0x30, 0x18, 0x18, 0x0C, 0x0C, 0x06, 0, 0],
    [0, 0x3C, 0x66, 0x66, 0x76, 0x7E, 0x6E, 0x66, 0x66, 0x3C, 0, 0],
    [0, 0x18, 0x1C, 0x1E, 0x18, 0x18, 0x18, 0x18, 0x18, 0x7E, 0, 0],
    [0, 0x3C, 0x66, 0x66, 0x60, 0x30, 0x18, 0x0C, 0x06, 0x7E, 0, 0],
    [0, 0x3C, 0x66, 0x60, 0x60, 0x38, 0x60, 0x60, 0x66, 0x3C, 0, 0],
    [0, 0x30, 0x38, 0x3C, 0x36, 0x36, 0x7E, 0x30, 0x30, 0x30, 0, 0],
    [0, 0x7E, 0x06, 0x06, 0x3E, 0x60, 0x60, 0x60, 0x66, 0x3C, 0, 0],
    [0, 0x38, 0x0C, 0x06, 0x06, 0x3E, 0x66, 0x66, 0x66, 0x3C, 0, 0],
    [0, 0x7E, 0x60, 0x30, 0x30, 0x18, 0x18, 0x0C, 0x0C, 0x0C, 0, 0],
    [0, 0x3C, 0x66, 0x66, 0x66, 0x3C, 0x66, 0x66, 0x66, 0x3C, 0, 0],
    [0, 0x3C, 0x66, 0x66, 0x66, 0x7C, 0x60, 0x60, 0x30, 0x1C, 0, 0],
    [0, 0, 0, 0x18, 0x18, 0, 0, 0, 0x18, 0x18, 0, 0],
    [0, 0, 0, 0x18, 0x18, 0, 0, 0, 0x18, 0x18, 0x0C, 0],
    [0, 0, 0x60, 0x30, 0x18, 0x0C, 0x06, 0x0C, 0x18, 0x30, 0x60, 0],
    [0, 0, 0, 0, 0x7E, 0, 0, 0x7E, 0, 0, 0, 0],
    [0, 0, 0x06, 0x0C, 0x18, 0x30, 0x60, 0x30, 0x18, 0x0C, 0x06, 0],
    [0, 0x3C, 0x66, 0x66, 0x30, 0x18, 0x18, 0, 0x18, 0x18, 0, 0],
    [0, 0x3C, 0x66, 0x76, 0x56, 0x76, 0x76, 0x06, 0x06, 0x3C, 0, 0],
    [0, 0x18, 0x3C, 0x66, 0x66, 0x66, 0x7E, 0x66, 0x66, 0x66, 0, 0],
    [0, 0x3E, 0x66, 0x66, 0x66, 0x3E, 0x66, 0x66, 0x66, 0x3E, 0, 0],
    [0, 0x3C, 0x66, 0x06, 0x06, 0x06, 0x06, 0x06, 0x66, 0x3C, 0, 0],
    [0, 0x1E, 0x36, 0x66, 0x66, 0x66, 0x66, 0x66, 0x36, 0x1E, 0, 0],
    [0, 0x7E, 0x06, 0x06, 0x06, 0x3E, 0x06, 0x06, 0x06, 0x7E, 0, 0],
    [0, 0x7E, 0x06, 0x06, 0x06, 0x3E, 0x06, 0x06, 0x06, 0x06, 0, 0],
    [0, 0x3C, 0x66, 0x06, 0x06, 0x76, 0x66, 0x66, 0x66, 0x7C, 0, 0],
    [0, 0x66, 0x66, 0x66, 0x66, 0x7E, 0x66, 0x66, 0x66, 0x66, 0, 0],
    [0, 0x7E, 0x18, 0x18, 0x18, 0x18, 0x18, 0x18, 0x18, 0x7E, 0, 0],
    [0, 0x78, 0x30, 0x30, 0x30, 0x30, 0x30, 0x36, 0x36, 0x1C, 0, 0],
    [0, 0x66, 0x36, 0x1E, 0x0E, 0x0E, 0x1E, 0x36, 0x66, 0x66, 0, 0],
    [0, 0x06, 0x06, 0x06, 0x06, 0x06, 0x06, 0x06, 0x06, 0x7E, 0, 0],
    [0, 0xC6, 0xEE, 0xFE, 0xD6, 0xD6, 0xC6, 0xC6, 0xC6, 0xC6, 0, 0],
    [0, 0x66, 0x66, 0x6E, 0x7E, 0x76, 0x66, 0x66, 0x66, 0x66, 0, 0],
    [0, 0x3C, 0x66, 0x66, 0x66, 0x66, 0x66, 0x66, 0x66, 0x3C, 0, 0],
    [0, 0x3E, 0x66, 0x66, 0x66, 0x3E, 0x06, 0x06, 0x06, 0x06, 0, 0],
    [0, 0x3C, 0x66, 0x66, 0x66, 0x66, 0x66, 0x76, 0x36, 0x6C, 0, 0],
    [0, 0x3E, 0x66, 0x66, 0x66, 0x3E, 0x1E, 0x36, 0x66, 0x66, 0, 0],
    [0, 0x3C, 0x66, 0x06, 0x06, 0x3C, 0x60, 0x60, 0x66, 0x3C, 0, 0],
    [0, 0x7E, 0x18, 0x18, 0x18, 0x18, 0x18, 0x18, 0x18, 0x18, 0, 0],
    [0, 0x66, 0x66, 0x66, 0x66, 0x66, 0x66, 0x66, 0x66, 0x3C, 0, 0],
    [0, 0x66, 0x66, 0x66, 0x66, 0x66, 0x66, 0x3C, 0x3C, 0x18, 0, 0],
    [0, 0xC6, 0xC6, 0xC6, 0xC6, 0xD6, 0xD6, 0xFE, 0xEE, 0xC6, 0, 0],
    [0, 0x66, 0x66, 0x3C, 0x3C, 0x18, 0x3C, 0x3C, 0x66, 0x66, 0, 0],
    [0, 0x66, 0x66, 0x66, 0x3C, 0x18, 0x18, 0x18, 0x18, 0x18, 0, 0],
    [0, 0x7E, 0x60, 0x30, 0x30, 0x18, 0x0C, 0x0C, 0x06, 0x7E, 0, 0],
    [0, 0x3C, 0x0C, 0x0C, 0x0C, 0x0C, 0x0C, 0x0C, 0x0C, 0x3C, 0, 0],
    [0, 0, 0x06, 0x0C, 0x0C, 0x18, 0x18, 0x30, 0x30, 0x60, 0, 0],
    [0, 0x3C, 0x30, 0x30, 0x30, 0x30, 0x30, 0x30, 0x30, 0x3C, 0, 0],
    [0, 0x18, 0x3C, 0x66, 0, 0, 0, 0, 0, 0, 0, 0],
    [0, 0, 0, 0, 0, 0, 0, 0, 0, 0, 0xFF, 0],
    [0, 0x18, 0x18, 0x30, 0, 0, 0, 0, 0, 0, 0, 0],
    [0, 0, 0, 0x3C, 0x60, 0x60, 0x7C, 0x66, 0x66, 0x7C, 0, 0],
    [0, 0x06, 0x06, 0x06, 0x3E, 0x66, 0x66, 0x66, 0x66, 0x3E, 0, 0],
    [0, 0, 0, 0x3C, 0x66, 0x06, 0x06, 0x06, 0x66, 0x3C, 0, 0],
    [0, 0x60, 0x60, 0x60, 0x7C, 0x66, 0x66, 0x66, 0x66, 0x7C, 0, 0],
    [0, 0, 0, 0x3C, 0x66, 0x66, 0x7E, 0x06, 0x66, 0x3C, 0, 0],
    [0, 0x38, 0x6C, 0x0C, 0x0C, 0x3E, 0x0C, 0x0C, 0x0C, 0x0C, 0, 0],
    [0, 0, 0, 0x7C, 0x66, 0x66, 0x66, 0x7C, 0x60, 0x66, 0x3C, 0],
    [0, 0x06, 0x06, 0x06, 0x3E, 0x66, 0x66, 0x66, 0x66, 0x66, 0, 0],
    [0, 0x18, 0x18, 0, 0x1C, 0x18, 0x18, 0x18, 0x18, 0x3C, 0, 0],
    [0, 0x30, 0x30, 0, 0x30, 0x30, 0x30, 0x30, 0x30, 0x36, 0x1C, 0],
    [0, 0x06, 0x06, 0x06, 0x66, 0x36, 0x1E, 0x1E, 0x36, 0x66, 0, 0],
    [0, 0x1C, 0x18, 0x18, 0x18, 0x18, 0x18, 0x18, 0x18, 0x3C, 0, 0],
    [0, 0, 0, 0x36, 0x7E, 0xD6, 0xD6, 0xD6, 0xC6, 0xC6, 0, 0],
    [0, 0, 0, 0x3E, 0x66, 0x66, 0x66, 0x66, 0x66, 0x66, 0, 0],
    [0, 0, 0, 0x3C, 0x66, 0x66, 0x66, 0x66, 0x66, 0x3C, 0, 0],
    [0, 0, 0, 0x3E, 0x66, 0x66, 0x66, 0x3E, 0x06, 0x06, 0x06, 0],
    [0, 0, 0, 0x7C, 0x66, 0x66, 0x66, 0x7C, 0x60, 0x60, 0x60, 0],
    [0, 0, 0, 0x3A, 0x66, 0x06, 0x06, 0x06, 0x06, 0x06, 0, 0],
    [0, 0, 0, 0x3C, 0x66, 0x06, 0x3C, 0x60, 0x66, 0x3C, 0, 0],
    [0, 0, 0x0C, 0x0C, 0x3E, 0x0C, 0x0C, 0x0C, 0x6C, 0x38, 0, 0],
    [0, 0, 0, 0x66, 0x66, 0x66, 0x66, 0x66, 0x66, 0x7C, 0, 0],
    [0, 0, 0, 0x66, 0x66, 0x66, 0x66, 0x3C, 0x3C, 0x18, 0, 0],
    [0, 0, 0, 0xC6, 0xC6, 0xD6, 0xD6, 0xD6, 0x7E, 0x6C, 0, 0],
    [0, 0, 0, 0x66, 0x66, 0x3C, 0x18, 0x3C, 0x66, 0x66, 0, 0],
    [0, 0, 0, 0x66, 0x66, 0x66, 0x66, 0x7C, 0x60, 0x66, 0x3C, 0],
    [0, 0, 0, 0x7E, 0x60, 0x30, 0x18, 0x0C, 0x06, 0x7E, 0, 0],
    [0, 0x70, 0x18, 0x18, 0x18, 0x0E, 0x18, 0x18, 0x18, 0x70, 0, 0],
    [0, 0x18, 0x18, 0x18, 0x18, 0, 0x18, 0x18, 0x18, 0x18, 0, 0],
    [0, 0x0E, 0x18, 0x18, 0x18, 0x70, 0x18, 0x18, 0x18, 0x0E, 0, 0],
    [0, 0, 0, 0x6E, 0x3B, 0, 0, 0, 0, 0, 0, 0],
    [0, 0, 0, 0, 0, 0, 0, 0, 0, 0, 0, 0]]"

lemma font_shape: "length font_8x12 = 128"
  by (simp add: font_8x12_def)

lemma font_rows: "list_all (\<lambda>r. length r = 12) font_8x12"
  by (simp add: font_8x12_def)

end
