(* ===== verification/Graphics.thy ===== *)
theory Graphics
  imports Font
begin

text \<open>
  The kernel's drawing routines \<open>ke/graphics.c\<close>. The framebuffer is the array of 32-bit pixels at
  \<open>framebufferBase\<close>, indexed by the 32-bit expression of the code. A string argument is the bytes read
  through its pointer and its length.
\<close>

section \<open>Strings as the drawing routines see them\<close>

record QText =
  tbytes :: "u64 \<Rightarrow> u8"
  tlength :: u64

text \<open>Bytes followed by zeros, and \<open>QSTR\<close> of a literal.\<close>

definition text_of_bytes :: "u8 list \<Rightarrow> QText" where
  "text_of_bytes bs = \<lparr>tbytes = (\<lambda>i. if unat i < length bs then bs ! unat i else 0), tlength = of_nat (length bs)\<rparr>"

definition QSTR :: "string \<Rightarrow> QText" where
  "QSTR str = text_of_bytes (map of_char str)"

text \<open>The loop \<open>for(u32 i = lo; i < hi; i++)\<close>.\<close>

definition for_u32 :: "u32 \<Rightarrow> u32 \<Rightarrow> (u32 \<Rightarrow> 's \<Rightarrow> 's) \<Rightarrow> 's \<Rightarrow> 's" where
  "for_u32 lo hi body s = fold (\<lambda>i. body (of_nat i)) [unat lo..<unat hi] s"

section \<open>State\<close>

datatype GraphicsContextOwners = OWNER_DEBUG_TERM | OWNER_SPLASH_SCREEN

record GraphicsData =
  g_init :: bool
  g_framebufferBase :: u64
  g_framebufferSize :: u64
  g_width :: u32
  g_height :: u32
  g_pixelsPerScanLine :: u32
  g_owners :: GraphicsContextOwners

text \<open>\<open>below_font\<close> is what indexing the font table with a negative \<open>char\<close> reads.\<close>

record screen =
  globalGraphics :: GraphicsData
  fb :: "u32 \<Rightarrow> u32"
  below_font :: "u8 \<Rightarrow> nat \<Rightarrow> u8"

section \<open>Operations\<close>

definition KeGraphicsSetup :: "GraphicsData \<Rightarrow> 'a screen_scheme \<Rightarrow> 'a screen_scheme" where
  "KeGraphicsSetup data s = s\<lparr>globalGraphics := (globalGraphics s)\<lparr>g_framebufferBase := g_framebufferBase data,
     g_framebufferSize := g_framebufferSize data, g_height := g_height data, g_width := g_width data,
     g_pixelsPerScanLine := g_pixelsPerScanLine data, g_owners := g_owners data, g_init := True\<rparr>\<rparr>"

definition KeGraphicsReturnData :: "'a screen_scheme \<Rightarrow> GraphicsData" where
  "KeGraphicsReturnData s = globalGraphics s"

definition set_pixel :: "u32 \<Rightarrow> u64 \<Rightarrow> 'a screen_scheme \<Rightarrow> 'a screen_scheme" where
  "set_pixel i color s = s\<lparr>fb := (fb s)(i := ucast color)\<rparr>"

definition KeGraphicsDrawRect :: "u32 \<Rightarrow> u32 \<Rightarrow> u32 \<Rightarrow> u32 \<Rightarrow> u64 \<Rightarrow> 'a screen_scheme \<Rightarrow> 'a screen_scheme" where
  "KeGraphicsDrawRect x y width height color s =
     (if \<not> g_init (globalGraphics s) then s
      else for_u32 y (y + height)
        (\<lambda>j s. if g_height (globalGraphics s) \<le> j then s
               else for_u32 x (x + width)
                 (\<lambda>i s. if g_width (globalGraphics s) \<le> i then s
                        else set_pixel (j * g_pixelsPerScanLine (globalGraphics s) + i) color s) s) s)"

definition KeGraphicsClear :: "u64 \<Rightarrow> 'a screen_scheme \<Rightarrow> 'a screen_scheme" where
  "KeGraphicsClear color s =
     KeGraphicsDrawRect 0 0 (g_width (globalGraphics s)) (g_height (globalGraphics s)) color s"

text \<open>Row \<open>i\<close> of the glyph of \<open>c\<close>: \<open>char\<close> is signed, so bytes from 128 on index below the table.\<close>

definition glyph_row :: "'a screen_scheme \<Rightarrow> u8 \<Rightarrow> nat \<Rightarrow> u8" where
  "glyph_row s c i = (if c < 128 then font_8x12 ! unat c ! i else below_font s c i)"

definition KeGraphicsDrawChar :: "u8 \<Rightarrow> u32 \<Rightarrow> u32 \<Rightarrow> u32 \<Rightarrow> u64 \<Rightarrow> 'a screen_scheme \<Rightarrow> 'a screen_scheme" where
  "KeGraphicsDrawChar c x y sz color s =
     (if \<not> g_init (globalGraphics s) then s
      else fold (\<lambda>i. fold (\<lambda>j s.
          if (ucast (glyph_row s c i) :: u32) AND push_bit j 1 \<noteq> 0
          then KeGraphicsDrawRect (x + of_nat j * sz) (y + of_nat i * sz) sz sz color s
          else s) [0..<12]) [0..<12] s)"

partial_function (option) draw_raw_loop ::
    "(u64 \<Rightarrow> u8) \<Rightarrow> u64 \<Rightarrow> u32 \<Rightarrow> u32 \<Rightarrow> u32 \<Rightarrow> u64 \<Rightarrow> 'a screen_scheme \<Rightarrow> 'a screen_scheme option" where
  "draw_raw_loop str i currentX currentY sz color s =
     (if str i \<noteq> 0
      then draw_raw_loop str (i + 1) (currentX + sz * 8) currentY sz color
             (KeGraphicsDrawChar (str i) currentX currentY sz color s)
      else Some s)"

definition KeGraphicsDrawStringRaw ::
    "(u64 \<Rightarrow> u8) \<Rightarrow> u32 \<Rightarrow> u32 \<Rightarrow> u32 \<Rightarrow> u64 \<Rightarrow> 'a screen_scheme \<Rightarrow> 'a screen_scheme option" where
  "KeGraphicsDrawStringRaw str x y sz color s =
     (if \<not> g_init (globalGraphics s) then Some s else draw_raw_loop str 0 x y sz color s)"

definition KeGraphicsDrawString :: "QText \<Rightarrow> u32 \<Rightarrow> u32 \<Rightarrow> u32 \<Rightarrow> u64 \<Rightarrow> 'a screen_scheme \<Rightarrow> 'a screen_scheme" where
  "KeGraphicsDrawString str x y sz color s =
     (if \<not> g_init (globalGraphics s) then s
      else snd (for_upto (unat (tlength str))
        (\<lambda>i (currentX, s). (currentX + sz * 8, KeGraphicsDrawChar (tbytes str i) currentX y sz color s)) (x, s)))"

partial_function (option) measure_loop :: "(u64 \<Rightarrow> u8) \<Rightarrow> u64 \<Rightarrow> u32 \<Rightarrow> u32 \<Rightarrow> u32 option" where
  "measure_loop str i sz acc = (if str i \<noteq> 0 then measure_loop str (i + 1) sz (acc + sz * 8) else Some acc)"

definition KeGraphicsMeasureTextSizeFromDefaultFont :: "(u64 \<Rightarrow> u8) \<Rightarrow> u32 \<Rightarrow> u32 option" where
  "KeGraphicsMeasureTextSizeFromDefaultFont str sz = measure_loop str 0 sz 0"

section \<open>What an operation paints\<close>

text \<open>\<open>f\<close> sets exactly the pixels \<open>S\<close> to the color and changes nothing else, on a screen with the data \<open>g\<close>.\<close>

definition paints :: "GraphicsData \<Rightarrow> u32 \<Rightarrow> u32 set \<Rightarrow> ('a screen_scheme \<Rightarrow> 'a screen_scheme) \<Rightarrow> bool" where
  "paints g c S f \<longleftrightarrow> (\<forall>s. globalGraphics s = g \<longrightarrow> f s = s\<lparr>fb := \<lambda>p. if p \<in> S then c else fb s p\<rparr>)"

lemma paints_none: "(\<And>s. globalGraphics s = g \<Longrightarrow> f s = s) \<Longrightarrow> paints g c {} f"
  by (simp add: paints_def)

lemma paintsD: "paints g c S f \<Longrightarrow> globalGraphics s = g \<Longrightarrow> f s = s\<lparr>fb := \<lambda>p. if p \<in> S then c else fb s p\<rparr>"
  by (simp add: paints_def)

lemma paints_cong: "(\<And>s. globalGraphics s = g \<Longrightarrow> f s = h s) \<Longrightarrow> paints g c S h \<Longrightarrow> paints g c S f"
  by (simp add: paints_def)

lemma paints_pixel: "paints g (ucast color) {i} (set_pixel i color)"
  by (simp add: paints_def set_pixel_def fun_eq_iff)

lemma paints_comp: "paints g c S f \<Longrightarrow> paints g c T h \<Longrightarrow> paints g c (S \<union> T) (\<lambda>s. h (f s))"
  by (auto simp: paints_def fun_eq_iff)

lemma paints_fold:
  assumes "\<And>x. x \<in> set xs \<Longrightarrow> paints g c (S x) (f x)"
  shows "paints g c (\<Union>x \<in> set xs. S x) (fold f xs)"
  using assms
proof (induction xs)
  case Nil
  then show ?case by (simp add: paints_def)
next
  case (Cons x xs)
  then have "paints g c (S x) (f x)" "paints g c (\<Union>x \<in> set xs. S x) (fold f xs)" by auto
  from paints_comp[OF this] show ?case by (simp add: comp_def)
qed

definition u32_range :: "u32 \<Rightarrow> u32 \<Rightarrow> u32 set" where
  "u32_range lo hi = {i. lo \<le> i \<and> i < hi}"

lemma u32_range_image: "(of_nat :: nat \<Rightarrow> u32) ` {unat lo..<unat hi} = u32_range lo hi"
proof (rule set_eqI)
  fix i
  have "i \<in> of_nat ` {unat lo..<unat hi}" if "lo \<le> i" "i < hi"
    using that by (intro image_eqI[of _ _ "unat i"]) (simp_all add: word_le_nat_alt word_less_nat_alt)
  moreover have "lo \<le> of_nat n \<and> (of_nat n :: u32) < hi" if "unat lo \<le> n" "n < unat hi" for n
  proof -
    have "unat hi < 4294967296" using unsigned_less[of hi] by simp
    then have "unat (of_nat n :: u32) = n" using that(2) by (simp add: unat_of_nat)
    then show ?thesis using that by (simp add: word_le_nat_alt word_less_nat_alt)
  qed
  ultimately show "i \<in> of_nat ` {unat lo..<unat hi} \<longleftrightarrow> i \<in> u32_range lo hi"
    by (auto simp: u32_range_def)
qed

lemma paints_for:
  assumes "\<And>i. i \<in> u32_range lo hi \<Longrightarrow> paints g c (S i) (body i)"
  shows "paints g c (\<Union>i \<in> u32_range lo hi. S i) (for_u32 lo hi body)"
proof -
  have "paints g c (\<Union>n \<in> set [unat lo..<unat hi]. S (of_nat n)) (fold (\<lambda>n. body (of_nat n)) [unat lo..<unat hi])"
    by (rule paints_fold, rule assms) (use u32_range_image[of lo hi] in auto)
  moreover have "(\<Union>n \<in> set [unat lo..<unat hi]. S (of_nat n)) = (\<Union>i \<in> u32_range lo hi. S i)"
    unfolding u32_range_image[of lo hi, symmetric] by simp
  moreover have "for_u32 lo hi body = fold (\<lambda>n. body (of_nat n)) [unat lo..<unat hi]"
    by (simp add: for_u32_def fun_eq_iff)
  ultimately show ?thesis by metis
qed

text \<open>The pixels of the part of a rectangle that is on the screen.\<close>

definition rect_pixels :: "GraphicsData \<Rightarrow> u32 \<Rightarrow> u32 \<Rightarrow> u32 \<Rightarrow> u32 \<Rightarrow> u32 set" where
  "rect_pixels g x y w h = {j * g_pixelsPerScanLine g + i | i j. i \<in> u32_range x (x + w) \<and> j \<in> u32_range y (y + h) \<and>
     i < g_width g \<and> j < g_height g}"

lemma paints_if: "(P \<Longrightarrow> paints g c S f) \<Longrightarrow> paints g c (if P then S else {}) (\<lambda>s. if P then f s else s)"
  by (auto simp: paints_def)

lemma KeGraphicsDrawRect_paints:
  assumes "g_init g"
  shows "paints g (ucast color) (rect_pixels g x y w h) (KeGraphicsDrawRect x y w h color)"
proof -
  let ?pix = "\<lambda>j i. if i < g_width g then {j * g_pixelsPerScanLine g + i} else {}"
  have row: "paints g (ucast color) (\<Union>i \<in> u32_range x (x + w). ?pix j i)
      (for_u32 x (x + w) (\<lambda>i s. if g_width (globalGraphics s) \<le> i then s
        else set_pixel (j * g_pixelsPerScanLine (globalGraphics s) + i) color s))" for j
    by (rule paints_for) (auto simp: paints_def set_pixel_def fun_eq_iff)
  have "paints g (ucast color) (\<Union>j \<in> u32_range y (y + h). if j < g_height g then (\<Union>i \<in> u32_range x (x + w). ?pix j i) else {})
      (for_u32 y (y + h) (\<lambda>j s. if g_height (globalGraphics s) \<le> j then s
        else for_u32 x (x + w) (\<lambda>i s. if g_width (globalGraphics s) \<le> i then s
          else set_pixel (j * g_pixelsPerScanLine (globalGraphics s) + i) color s) s))"
    by (rule paints_for) (use row in \<open>auto simp: paints_def\<close>)
  note P = this
  have S: "(\<Union>j \<in> u32_range y (y + h). if j < g_height g then (\<Union>i \<in> u32_range x (x + w). ?pix j i) else {}) =
      rect_pixels g x y w h"
    by (auto simp: rect_pixels_def split: if_splits)
  show ?thesis
    unfolding S[symmetric] by (rule paints_cong[OF _ P]) (simp add: KeGraphicsDrawRect_def assms)
qed

text \<open>The pixels of a glyph: a square for every bit of its rows.\<close>

definition char_pixels :: "GraphicsData \<Rightarrow> (nat \<Rightarrow> u8) \<Rightarrow> u32 \<Rightarrow> u32 \<Rightarrow> u32 \<Rightarrow> u32 set" where
  "char_pixels g rows x y sz =
     (\<Union>i \<in> {0..<12}. \<Union>j \<in> {j. j < 8 \<and> bit (rows i) j}. rect_pixels g (x + of_nat j * sz) (y + of_nat i * sz) sz sz)"

lemma row_bit_test:
  assumes "j < 12"
  shows "(ucast (r :: u8) :: u32) AND push_bit j 1 \<noteq> 0 \<longleftrightarrow> j < 8 \<and> bit r j"
  using assms by (simp add: push_bit_of_1 and_exp_eq_0_iff_not_bit bit_simps) (auto dest: bit_imp_le_length)

lemma KeGraphicsDrawChar_paints:
  assumes "g_init g" and "c < 128"
  shows "paints g (ucast color) (char_pixels g (\<lambda>i. font_8x12 ! unat c ! i) x y sz) (KeGraphicsDrawChar c x y sz color)"
proof -
  let ?rows = "\<lambda>i. font_8x12 ! unat c ! i"
  let ?r = "\<lambda>i j. rect_pixels g (x + of_nat j * sz) (y + of_nat i * sz) sz sz"
  have col: "paints g (ucast color) (if j < 8 \<and> bit (?rows i) j then ?r i j else {})
      (\<lambda>s. if (ucast (glyph_row s c i) :: u32) AND push_bit j 1 \<noteq> 0
        then KeGraphicsDrawRect (x + of_nat j * sz) (y + of_nat i * sz) sz sz color s else s)" if "j \<in> set [0..<12]" for i j
  proof -
    have "j < 12" using that by simp
    then show ?thesis
      using KeGraphicsDrawRect_paints[OF assms(1)]
      by (simp only: glyph_row_def assms(2) if_True row_bit_test) (rule paints_if)
  qed
  have row: "paints g (ucast color) (\<Union>j \<in> set [0..<12]. if j < 8 \<and> bit (?rows i) j then ?r i j else {})
      (fold (\<lambda>j s. if (ucast (glyph_row s c i) :: u32) AND push_bit j 1 \<noteq> 0
        then KeGraphicsDrawRect (x + of_nat j * sz) (y + of_nat i * sz) sz sz color s else s) [0..<12])" for i
    by (rule paints_fold) (rule col)
  have "paints g (ucast color) (\<Union>i \<in> set [0..<12]. \<Union>j \<in> set [0..<12]. if j < 8 \<and> bit (?rows i) j then ?r i j else {})
      (fold (\<lambda>i. fold (\<lambda>j s. if (ucast (glyph_row s c i) :: u32) AND push_bit j 1 \<noteq> 0
        then KeGraphicsDrawRect (x + of_nat j * sz) (y + of_nat i * sz) sz sz color s else s) [0..<12]) [0..<12])"
    by (rule paints_fold) (rule row)
  note P = this
  have S: "(\<Union>i \<in> set [0..<12]. \<Union>j \<in> set [0..<12]. if j < 8 \<and> bit (?rows i) j then ?r i j else {}) =
      char_pixels g ?rows x y sz"
    by (fastforce simp: char_pixels_def split: if_splits)
  show ?thesis
    unfolding S[symmetric] by (rule paints_cong[OF _ P]) (simp add: KeGraphicsDrawChar_def assms del: upt_Suc)
qed

lemma KeGraphicsDrawString_paints:
  assumes "g_init g" and "\<And>i. i < unat (tlength str) \<Longrightarrow> tbytes str (of_nat i) < 128"
  shows "paints g (ucast color)
    (\<Union>i \<in> {0..<unat (tlength str)}. char_pixels g (\<lambda>r. font_8x12 ! unat (tbytes str (of_nat i)) ! r) (x + of_nat i * (sz * 8)) y sz)
    (KeGraphicsDrawString str x y sz color)"
proof -
  let ?step = "\<lambda>i (currentX, s). (currentX + sz * 8, KeGraphicsDrawChar (tbytes str i) currentX y sz color s)"
  let ?S = "\<lambda>n. \<Union>i \<in> {0..<n}. char_pixels g (\<lambda>r. font_8x12 ! unat (tbytes str (of_nat i)) ! r) (x + of_nat i * (sz * 8)) y sz"
  have "fst (for_upto n ?step (x, s)) = x + of_nat n * (sz * 8) \<and>
      (globalGraphics s = g \<longrightarrow> snd (for_upto n ?step (x, s)) = s\<lparr>fb := \<lambda>p. if p \<in> ?S n then ucast color else fb s p\<rparr>)"
    if "n \<le> unat (tlength str)" for n s
    using that
  proof (induction n)
    case 0
    then show ?case by simp
  next
    case (Suc n)
    obtain cx t where r: "for_upto n ?step (x, s) = (cx, t)" by fastforce
    with Suc have cx: "cx = x + of_nat n * (sz * 8)"
      and t: "globalGraphics s = g \<Longrightarrow> t = s\<lparr>fb := \<lambda>p. if p \<in> ?S n then ucast color else fb s p\<rparr>" by simp_all
    have "tbytes str (of_nat n) < 128" using assms(2) Suc.prems by simp
    note p = KeGraphicsDrawChar_paints[OF assms(1) this, of color cx y sz]
    have "KeGraphicsDrawChar (tbytes str (of_nat n)) cx y sz color t =
        s\<lparr>fb := \<lambda>p. if p \<in> ?S (Suc n) then ucast color else fb s p\<rparr>" if g: "globalGraphics s = g"
      using paintsD[OF p, of t] t[OF g] g by (auto simp: atLeast0_lessThan_Suc cx fun_eq_iff)
    then show ?case by (simp add: r cx algebra_simps)
  qed
  then have P: "paints g (ucast color) (?S (unat (tlength str))) (\<lambda>s. snd (for_upto (unat (tlength str)) ?step (x, s)))"
    unfolding paints_def by blast
  show ?thesis
    by (rule paints_cong[OF _ P]) (simp add: KeGraphicsDrawString_def assms(1))
qed

end
