(* ===== verification/Term.thy ===== *)
theory Term
  imports Graphics
begin

text \<open>
  The kernel's terminal \<open>ke/term.c\<close> over the screen and the serial port \<open>ar/amd64pc/serial.c\<close>, \<open>port.c\<close> and \<open>io.c\<close>. Writes to
  I/O ports are recorded in order. The formatter \<open>impl_vsnprintf\<close> is an argument \<open>vsn\<close> of what uses it: it takes the
  format and the arguments and gives the bytes it leaves in the 256-byte buffer.
\<close>

section \<open>State\<close>

record kterm = screen +
  termCurrentX :: u32
  termCurrentY :: u32
  colorPalette :: "u64 list"
  ports :: "(u16 \<times> u8) list"
  dotX :: u64

datatype ColorPalette =
    PALETTE_BACKGROUND | PALETTE_TEXT | PALETTE_ERROR | PALETTE_PASS | PALETTE_WARNING | PALETTE_INFO | PALETTE_IMPINFO

fun palette_index :: "ColorPalette \<Rightarrow> nat" where
  "palette_index PALETTE_BACKGROUND = 0"
| "palette_index PALETTE_TEXT = 1"
| "palette_index PALETTE_ERROR = 2"
| "palette_index PALETTE_PASS = 3"
| "palette_index PALETTE_WARNING = 4"
| "palette_index PALETTE_INFO = 5"
| "palette_index PALETTE_IMPINFO = 6"

definition default_palette :: "u64 list" where
  "default_palette = [0x112121, 0xFFFFFF, 0xFF0000, 0x00FF00, 0xFFFF00, 0x00AAFF, 0xFDA172]"

definition palette_color :: "ColorPalette \<Rightarrow> 'a kterm_scheme \<Rightarrow> u64" where
  "palette_color p s = colorPalette s ! palette_index p"

section \<open>The serial port\<close>

definition Amd64OutByte :: "u16 \<Rightarrow> u8 \<Rightarrow> 'a kterm_scheme \<Rightarrow> 'a kterm_scheme" where
  "Amd64OutByte port v s = s\<lparr>ports := ports s @ [(port, v)]\<rparr>"

definition ArIoOutByte :: "u16 \<Rightarrow> u8 \<Rightarrow> 'a kterm_scheme \<Rightarrow> 'a kterm_scheme" where
  "ArIoOutByte port v s = Amd64OutByte port v s"

definition ArSerialWrite :: "u8 \<Rightarrow> 'a kterm_scheme \<Rightarrow> 'a kterm_scheme" where
  "ArSerialWrite c s = Amd64OutByte 0x3f8 c s"

partial_function (option) serial_raw_loop :: "(u64 \<Rightarrow> u8) \<Rightarrow> u64 \<Rightarrow> 'a kterm_scheme \<Rightarrow> 'a kterm_scheme option" where
  "serial_raw_loop str i s =
     (if str i \<noteq> 0 then serial_raw_loop str (i + 1) (ArSerialWrite (str i) s) else Some s)"

definition ArPrintToSerialRaw :: "(u64 \<Rightarrow> u8) \<Rightarrow> 'a kterm_scheme \<Rightarrow> 'a kterm_scheme option" where
  "ArPrintToSerialRaw str s = serial_raw_loop str 0 s"

definition ArPrintToSerial :: "QText \<Rightarrow> 'a kterm_scheme \<Rightarrow> 'a kterm_scheme" where
  "ArPrintToSerial str s = for_upto (unat (tlength str)) (\<lambda>i. ArSerialWrite (tbytes str i)) s"

section \<open>The terminal\<close>

text \<open>The terminal draws when the screen is set up and belongs to it.\<close>

definition term_draws :: "'a kterm_scheme \<Rightarrow> bool" where
  "term_draws s \<longleftrightarrow> g_init (globalGraphics s) \<and> g_owners (globalGraphics s) = OWNER_DEBUG_TERM"

definition KeTermClear :: "'a kterm_scheme \<Rightarrow> 'a kterm_scheme" where
  "KeTermClear s =
     (let s1 = (if term_draws s
                then KeGraphicsDrawRect 0 0 (g_width (globalGraphics s)) (g_height (globalGraphics s))
                       (palette_color PALETTE_BACKGROUND s) s
                else s)
      in ArSerialWrite 10 (s1\<lparr>termCurrentX := 10, termCurrentY := 10\<rparr>))"

definition KeTermTakeOwnershipOfKernelGraphics :: "'a kterm_scheme \<Rightarrow> 'a kterm_scheme" where
  "KeTermTakeOwnershipOfKernelGraphics s = s\<lparr>globalGraphics := (globalGraphics s)\<lparr>g_owners := OWNER_DEBUG_TERM\<rparr>\<rparr>"

text \<open>The palette argument is a C enumeration and may have any value.\<close>

definition KeTermChangeSinglePaletteColor :: "u32 \<Rightarrow> u64 \<Rightarrow> 'a kterm_scheme \<Rightarrow> NearStatus \<times> 'a kterm_scheme" where
  "KeTermChangeSinglePaletteColor palette color s =
     (if length (colorPalette s) \<le> unat palette then (STATUS_NOT_FOUND, s)
      else (STATUS_SUCCESS, s\<lparr>colorPalette := (colorPalette s)[unat palette := color]\<rparr>))"

definition KeTermChangePalette :: "(u64 \<Rightarrow> u64) \<Rightarrow> u64 \<Rightarrow> 'a kterm_scheme \<Rightarrow> NearStatus \<times> 'a kterm_scheme" where
  "KeTermChangePalette palette len s =
     (if length (colorPalette s) < unat len then (STATUS_TOO_LARGE, s)
      else (STATUS_SUCCESS,
            for_upto (unat len) (\<lambda>i s. s\<lparr>colorPalette := (colorPalette s)[unat i := palette i]\<rparr>) s))"

definition KeTermMoveDown :: "u32 \<Rightarrow> 'a kterm_scheme \<Rightarrow> 'a kterm_scheme" where
  "KeTermMoveDown amount s =
     for_u32 0 amount
       (\<lambda>i s. let s1 = s\<lparr>termCurrentX := 10, termCurrentY := termCurrentY s + 12\<rparr>
              in if g_height (globalGraphics s1) \<le> termCurrentY s1 then KeTermClear s1 else s1) s"

definition KeTermPuts :: "bool \<Rightarrow> QText \<Rightarrow> u64 \<Rightarrow> 'a kterm_scheme \<Rightarrow> 'a kterm_scheme option" where
  "KeTermPuts addNewLine str color s =
     (let s1 = (if term_draws s
                then let s1 = (if g_height (globalGraphics s) \<le> termCurrentY s then KeTermClear s else s)
                     in KeGraphicsDrawString str (termCurrentX s1) (termCurrentY s1) 1 color s1
                else s);
          s2 = ArPrintToSerial str s1
      in if addNewLine
         then Some (ArSerialWrite 10 (s2\<lparr>termCurrentX := 10, termCurrentY := termCurrentY s2 + 12\<rparr>))
         else if term_draws s2
         then map_option (\<lambda>w. s2\<lparr>termCurrentX := termCurrentX s2 + w\<rparr>)
                (KeGraphicsMeasureTextSizeFromDefaultFont (tbytes str) 1)
         else Some s2)"

text \<open>The copy of the format into \<open>cstr\<close>: at most 127 bytes, up to a zero byte.\<close>

definition format_copy :: "QText \<Rightarrow> u8 list" where
  "format_copy str = takeWhile (\<lambda>b. b \<noteq> 0) (map (\<lambda>i. tbytes str (of_nat i)) [0..<min 127 (unat (tlength str))])"

text \<open>What the formatter leaves in the buffer, as the C string that \<open>QSTR(buffer)\<close> denotes.\<close>

type_synonym formatter = "nat \<Rightarrow> u8 list \<Rightarrow> u64 list \<Rightarrow> u8 list"

definition format_text :: "formatter \<Rightarrow> QText \<Rightarrow> u64 list \<Rightarrow> QText" where
  "format_text vsn str args = text_of_bytes (takeWhile (\<lambda>b. b \<noteq> 0) (vsn 256 (format_copy str) args))"

definition KeTermPrint :: "formatter \<Rightarrow> Status \<Rightarrow> QText \<Rightarrow> u64 list \<Rightarrow> 'a kterm_scheme \<Rightarrow> 'a kterm_scheme option" where
  "KeTermPrint vsn stat str args s =
     (let buffer = format_text vsn str args;
          tagged = (\<lambda>tag p. do { s1 \<leftarrow> KeTermPuts False (QSTR tag) (palette_color p s) s;
                                  KeTermPuts True buffer (palette_color PALETTE_TEXT s1) s1 })
      in case stat of
           TERM_STATUS_ERROR \<Rightarrow> tagged ''[-] '' PALETTE_ERROR
         | TERM_STATUS_PASS \<Rightarrow> tagged ''[+] '' PALETTE_PASS
         | TERM_STATUS_INFO \<Rightarrow> tagged ''[!] '' PALETTE_INFO
         | TERM_STATUS_WARNING \<Rightarrow> tagged ''[!] '' PALETTE_WARNING
         | TERM_STATUS_IMPINFO \<Rightarrow> tagged ''[!] '' PALETTE_IMPINFO
         | TERM_STATUS_UNKNOWN \<Rightarrow> KeTermPuts True buffer (palette_color PALETTE_TEXT s) s)"

section \<open>Drawing stays on the screen\<close>

definition visible :: "GraphicsData \<Rightarrow> u32 set" where
  "visible g = {j * g_pixelsPerScanLine g + i | i j. i < g_width g \<and> j < g_height g}"

definition draws_in :: "'a screen_scheme \<Rightarrow> 'a screen_scheme \<Rightarrow> bool" where
  "draws_in s s' \<longleftrightarrow> globalGraphics s' = globalGraphics s \<and> below_font s' = below_font s \<and>
     (\<forall>p. p \<notin> visible (globalGraphics s) \<longrightarrow> fb s' p = fb s p)"

lemma draws_in_refl [simp]: "draws_in s s"
  by (simp add: draws_in_def)

lemma draws_in_trans: "draws_in s t \<Longrightarrow> draws_in t u \<Longrightarrow> draws_in s u"
  by (auto simp: draws_in_def)

lemma draws_in_fields [simp]:
  "draws_in s (t\<lparr>termCurrentX := x\<rparr>) = draws_in s t" "draws_in s (t\<lparr>termCurrentY := x\<rparr>) = draws_in s t"
  "draws_in s (t\<lparr>colorPalette := c\<rparr>) = draws_in s t" "draws_in s (t\<lparr>ports := p\<rparr>) = draws_in s t"
  "draws_in s (t\<lparr>dotX := d\<rparr>) = draws_in s t"
  by (simp_all add: draws_in_def)

lemma fold_draws_in:
  assumes "\<And>x t. draws_in s t \<Longrightarrow> draws_in s (f x t)" and "draws_in s t"
  shows "draws_in s (fold f xs t)"
  using assms(2) by (induction xs arbitrary: t) (auto intro: assms(1))

lemma KeGraphicsDrawRect_more:
  assumes "g_init (globalGraphics s)"
  shows "KeGraphicsDrawRect x y w h color s =
    s\<lparr>fb := \<lambda>p. if p \<in> rect_pixels (globalGraphics s) x y w h then ucast color else fb s p\<rparr>"
  using paintsD[OF KeGraphicsDrawRect_paints[OF assms], of s] by simp

lemma KeGraphicsDrawRect_in: "draws_in s t \<Longrightarrow> draws_in s (KeGraphicsDrawRect x y w h color t)"
proof (cases "g_init (globalGraphics t)")
  case True
  assume "draws_in s t"
  moreover have "rect_pixels (globalGraphics t) x y w h \<subseteq> visible (globalGraphics t)"
    by (auto simp: rect_pixels_def visible_def)
  ultimately show ?thesis by (auto simp: draws_in_def KeGraphicsDrawRect_more[OF True])
next
  case False
  assume "draws_in s t"
  then show ?thesis using False by (simp add: KeGraphicsDrawRect_def)
qed

lemma KeGraphicsDrawChar_in: "draws_in s t \<Longrightarrow> draws_in s (KeGraphicsDrawChar c x y sz color t)"
  unfolding KeGraphicsDrawChar_def
  by (auto intro!: fold_draws_in KeGraphicsDrawRect_in simp del: upt_Suc)

lemma KeGraphicsDrawString_in: "draws_in s t \<Longrightarrow> draws_in s (KeGraphicsDrawString str x y sz color t)"
proof -
  assume t: "draws_in s t"
  have "draws_in s (snd (for_upto n (\<lambda>i (currentX, s). (currentX + sz * 8,
      KeGraphicsDrawChar (tbytes str i) currentX y sz color s)) (x, t)))" for n
    by (induction n) (simp_all add: t split_beta KeGraphicsDrawChar_in)
  then show ?thesis using t by (simp add: KeGraphicsDrawString_def)
qed

lemma ArSerialWrite_in [simp]: "draws_in s (ArSerialWrite c t) = draws_in s t"
  by (simp add: ArSerialWrite_def Amd64OutByte_def)

lemma ArPrintToSerial_in [simp]: "draws_in s (ArPrintToSerial str t) = draws_in s t"
proof -
  have "draws_in s (for_upto n (\<lambda>i. ArSerialWrite (tbytes str i)) t) = draws_in s t" for n
    by (induction n) simp_all
  then show ?thesis by (simp add: ArPrintToSerial_def)
qed

lemma KeTermClear_in: "draws_in s t \<Longrightarrow> draws_in s (KeTermClear t)"
  by (simp add: KeTermClear_def Let_def KeGraphicsDrawRect_in)

lemma KeTermMoveDown_in: "draws_in s t \<Longrightarrow> draws_in s (KeTermMoveDown n t)"
  unfolding KeTermMoveDown_def for_u32_def
  by (rule fold_draws_in) (auto simp: Let_def intro: KeTermClear_in)

lemma KeTermPuts_in: "draws_in s t \<Longrightarrow> KeTermPuts nl str color t = Some t' \<Longrightarrow> draws_in s t'"
  by (auto simp: KeTermPuts_def Let_def intro!: KeGraphicsDrawString_in KeTermClear_in split: if_splits)

lemma KeTermPrint_in: "draws_in s t \<Longrightarrow> KeTermPrint vsn stat str args t = Some t' \<Longrightarrow> draws_in s t'"
  by (auto simp: KeTermPrint_def Let_def bind_eq_Some_conv split: Status.splits dest: KeTermPuts_in)

section \<open>Measuring and serial output\<close>

lemma text_of_bytes_nth:
  "i < length bs \<Longrightarrow> length bs < 18446744073709551616 \<Longrightarrow> tbytes (text_of_bytes bs) (of_nat i) = bs ! i"
  "length bs < 18446744073709551616 \<Longrightarrow> unat (tlength (text_of_bytes bs)) = length bs"
  "length bs < 18446744073709551616 \<Longrightarrow> tbytes (text_of_bytes bs) (of_nat (length bs)) = 0"
  by (simp_all add: text_of_bytes_def unat_of_nat_u64)

lemma measure_text:
  assumes "\<forall>b \<in> set bs. b \<noteq> 0" and "length bs < 18446744073709551616"
  shows "KeGraphicsMeasureTextSizeFromDefaultFont (tbytes (text_of_bytes bs)) sz = Some (of_nat (length bs) * (sz * 8))"
proof -
  have "measure_loop (tbytes (text_of_bytes bs)) (of_nat i) sz acc = Some (acc + of_nat (length bs - i) * (sz * 8))"
    if "i \<le> length bs" for i acc
    using that
  proof (induction "length bs - i" arbitrary: i acc)
    case 0
    then have "tbytes (text_of_bytes bs) (of_nat i) = 0" using text_of_bytes_nth(3)[OF assms(2)] by simp
    then show ?case using 0 by (subst measure_loop.simps) simp
  next
    case (Suc k)
    then have i: "i < length bs" "k = length bs - Suc i" "Suc i \<le> length bs" by simp_all
    have "tbytes (text_of_bytes bs) (of_nat i) \<noteq> 0"
      using i(1) assms by (simp add: text_of_bytes_nth)
    moreover have "measure_loop (tbytes (text_of_bytes bs)) (of_nat i + 1) sz (acc + sz * 8) =
        Some (acc + sz * 8 + of_nat (length bs - Suc i) * (sz * 8))"
      using Suc.hyps(1)[OF i(2,3)] by (simp add: add.commute)
    ultimately show ?case
      using Suc.hyps(2) i(2) by (subst measure_loop.simps) (simp add: algebra_simps)
  qed
  from this[of 0 0] show ?thesis by (simp add: KeGraphicsMeasureTextSizeFromDefaultFont_def)
qed

lemma ArPrintToSerial_text:
  assumes "length bs < 18446744073709551616"
  shows "ArPrintToSerial (text_of_bytes bs) s = s\<lparr>ports := ports s @ map (Pair 0x3f8) bs\<rparr>"
proof -
  have "for_upto n (\<lambda>i. ArSerialWrite (tbytes (text_of_bytes bs) i)) s = s\<lparr>ports := ports s @ map (Pair 0x3f8) (take n bs)\<rparr>"
    if "n \<le> length bs" for n
    using that by (induction n)
      (simp_all add: ArSerialWrite_def Amd64OutByte_def text_of_bytes_nth assms take_Suc_conv_app_nth)
  from this[of "length bs"] show ?thesis by (simp add: ArPrintToSerial_def text_of_bytes_nth assms)
qed

section \<open>What the terminal leaves alone\<close>

text \<open>Drawing changes nothing but the pixels.\<close>

lemma fold_only_fb:
  assumes "\<And>x t. \<exists>F. f x t = t\<lparr>fb := F\<rparr>"
  shows "\<exists>F. fold f xs (t :: 'a screen_scheme) = t\<lparr>fb := F\<rparr>"
proof (induction xs arbitrary: t)
  case Nil
  have "fold f [] t = t\<lparr>fb := fb t\<rparr>" by simp
  then show ?case by blast
next
  case (Cons x xs)
  obtain F where "f x t = t\<lparr>fb := F\<rparr>" using assms by blast
  moreover obtain G where "fold f xs (t\<lparr>fb := F\<rparr>) = t\<lparr>fb := F\<rparr>\<lparr>fb := G\<rparr>" using Cons.IH by blast
  ultimately have "fold f (x # xs) t = t\<lparr>fb := G\<rparr>" by simp
  then show ?case by blast
qed

lemma same_fb: "\<exists>F. s = (s :: 'a screen_scheme)\<lparr>fb := F\<rparr>"
  by (rule exI[of _ "fb s"]) simp

lemma KeGraphicsDrawRect_fb: "\<exists>F. KeGraphicsDrawRect x y w h color s = s\<lparr>fb := F\<rparr>"
proof (cases "g_init (globalGraphics s)")
  case True
  then show ?thesis using KeGraphicsDrawRect_more by blast
next
  case False
  then show ?thesis using same_fb[of s] by (simp add: KeGraphicsDrawRect_def)
qed

lemma KeGraphicsDrawChar_fb: "\<exists>F. KeGraphicsDrawChar c x y sz color s = s\<lparr>fb := F\<rparr>"
proof (cases "g_init (globalGraphics s)")
  case True
  then show ?thesis
    unfolding KeGraphicsDrawChar_def
    by (simp del: upt_Suc) (intro fold_only_fb, simp add: KeGraphicsDrawRect_fb same_fb)
next
  case False
  then show ?thesis using same_fb[of s] by (simp add: KeGraphicsDrawChar_def)
qed

lemma KeGraphicsDrawString_fb: "\<exists>F. KeGraphicsDrawString str x y sz color s = s\<lparr>fb := F\<rparr>"
proof (cases "g_init (globalGraphics s)")
  case True
  have "\<exists>F. snd (for_upto n (\<lambda>i (currentX, s). (currentX + sz * 8,
      KeGraphicsDrawChar (tbytes str i) currentX y sz color s)) (x, s)) = s\<lparr>fb := F\<rparr>" for n
  proof (induction n)
    case 0
    then show ?case using same_fb[of s] by simp
  next
    case (Suc n)
    obtain cx t where r: "for_upto n (\<lambda>i (currentX, s). (currentX + sz * 8,
      KeGraphicsDrawChar (tbytes str i) currentX y sz color s)) (x, s) = (cx, t)" by fastforce
    obtain F where "t = s\<lparr>fb := F\<rparr>" using Suc r by auto
    moreover obtain G where "KeGraphicsDrawChar (tbytes str (of_nat n)) cx y sz color t = t\<lparr>fb := G\<rparr>"
      using KeGraphicsDrawChar_fb by blast
    ultimately show ?case by (auto simp: r)
  qed
  then show ?thesis using True by (simp add: KeGraphicsDrawString_def)
next
  case False
  then show ?thesis using same_fb[of s] by (simp add: KeGraphicsDrawString_def)
qed

lemma draw_fields [simp]:
  "termCurrentX (KeGraphicsDrawRect x y w h color s) = termCurrentX s"
  "termCurrentY (KeGraphicsDrawRect x y w h color s) = termCurrentY s"
  "colorPalette (KeGraphicsDrawRect x y w h color s) = colorPalette s"
  "ports (KeGraphicsDrawRect x y w h color s) = ports s"
  "globalGraphics (KeGraphicsDrawRect x y w h color t) = globalGraphics t"
  "termCurrentX (KeGraphicsDrawString str x y sz color s) = termCurrentX s"
  "termCurrentY (KeGraphicsDrawString str x y sz color s) = termCurrentY s"
  "colorPalette (KeGraphicsDrawString str x y sz color s) = colorPalette s"
  "ports (KeGraphicsDrawString str x y sz color s) = ports s"
  "globalGraphics (KeGraphicsDrawString str x y sz color t) = globalGraphics t"
  using KeGraphicsDrawRect_fb[of x y w h color s] KeGraphicsDrawString_fb[of str x y sz color s]
    KeGraphicsDrawRect_fb[of x y w h color t] KeGraphicsDrawString_fb[of str x y sz color t] by auto

lemma KeTermClear_fields [simp]:
  "globalGraphics (KeTermClear s) = globalGraphics s" "colorPalette (KeTermClear s) = colorPalette s"
  "ports (KeTermClear s) = ports s @ [(0x3f8, 10)]"
  by (simp_all add: KeTermClear_def ArSerialWrite_def Amd64OutByte_def Let_def)

text \<open>The new line that \<open>KeTermPuts\<close> writes to the port first, when the screen is full.\<close>

definition scroll_out :: "'a kterm_scheme \<Rightarrow> (u16 \<times> u8) list" where
  "scroll_out s = (if term_draws s \<and> g_height (globalGraphics s) \<le> termCurrentY s then [(0x3f8, 10)] else [])"

lemma KeTermPuts_result:
  assumes "nl \<or> (\<forall>b \<in> set bs. b \<noteq> 0)" and "length bs < 18446744073709551616"
  shows "\<exists>s'. KeTermPuts nl (text_of_bytes bs) color s = Some s' \<and>
    ports s' = ports s @ scroll_out s @ map (Pair 0x3f8) (bs @ (if nl then [10] else [])) \<and>
    globalGraphics s' = globalGraphics s \<and> colorPalette s' = colorPalette s \<and>
    (scroll_out s = [] \<longrightarrow> termCurrentY s' = (if nl then termCurrentY s + 12 else termCurrentY s))"
proof -
  define s1 where "s1 = (if term_draws s
                then let s1 = (if g_height (globalGraphics s) \<le> termCurrentY s then KeTermClear s else s)
                     in KeGraphicsDrawString (text_of_bytes bs) (termCurrentX s1) (termCurrentY s1) 1 color s1
                else s)"
  have s1: "ports s1 = ports s @ scroll_out s" "globalGraphics s1 = globalGraphics s" "colorPalette s1 = colorPalette s"
    "scroll_out s = [] \<longrightarrow> termCurrentY s1 = termCurrentY s"
    by (simp_all add: s1_def scroll_out_def Let_def)
  have "KeTermPuts nl (text_of_bytes bs) color s =
    (if nl then Some (ArSerialWrite 10 ((ArPrintToSerial (text_of_bytes bs) s1)\<lparr>termCurrentX := 10,
        termCurrentY := termCurrentY (ArPrintToSerial (text_of_bytes bs) s1) + 12\<rparr>))
     else if term_draws (ArPrintToSerial (text_of_bytes bs) s1)
     then map_option (\<lambda>w. (ArPrintToSerial (text_of_bytes bs) s1)\<lparr>termCurrentX :=
         termCurrentX (ArPrintToSerial (text_of_bytes bs) s1) + w\<rparr>)
       (KeGraphicsMeasureTextSizeFromDefaultFont (tbytes (text_of_bytes bs)) 1)
     else Some (ArPrintToSerial (text_of_bytes bs) s1))"
    by (simp only: KeTermPuts_def s1_def Let_def)
  then show ?thesis
    using assms s1 measure_text[of bs 1]
    by (cases nl) (auto simp: ArPrintToSerial_text ArSerialWrite_def Amd64OutByte_def)
qed

definition message_bytes :: "formatter \<Rightarrow> QText \<Rightarrow> u64 list \<Rightarrow> u8 list" where
  "message_bytes vsn str args = takeWhile (\<lambda>b. b \<noteq> 0) (vsn 256 (format_copy str) args)"

text \<open>What is known of the formatter: it leaves a zero byte among the 256 bytes of the buffer.\<close>

definition fits_buffer :: "formatter \<Rightarrow> bool" where
  "fits_buffer vsn \<longleftrightarrow> (\<forall>f args. length (takeWhile (\<lambda>b. b \<noteq> 0) (vsn 256 f args)) < 256)"

fun status_tag :: "Status \<Rightarrow> string" where
  "status_tag TERM_STATUS_ERROR = ''[-] ''"
| "status_tag TERM_STATUS_PASS = ''[+] ''"
| "status_tag TERM_STATUS_WARNING = ''[!] ''"
| "status_tag TERM_STATUS_INFO = ''[!] ''"
| "status_tag TERM_STATUS_IMPINFO = ''[!] ''"
| "status_tag TERM_STATUS_UNKNOWN = ''''"

lemma message_fits: "fits_buffer vsn \<Longrightarrow> length (message_bytes vsn str args) < 256"
  by (simp add: fits_buffer_def message_bytes_def)

lemma KeTermPrint_result:
  assumes "fits_buffer vsn"
  shows "\<exists>s'. KeTermPrint vsn stat str args s = Some s' \<and> globalGraphics s' = globalGraphics s \<and>
    colorPalette s' = colorPalette s \<and> (\<exists>pre. ports s' = ports s @ pre @ map (Pair 0x3f8) (message_bytes vsn str args @ [10])) \<and>
    (scroll_out s = [] \<longrightarrow> ports s' = ports s @ map (Pair 0x3f8) (map of_char (status_tag stat) @ message_bytes vsn str args @ [10]))"
proof -
  let ?m = "message_bytes vsn str args"
  have len: "length ?m < 18446744073709551616" using message_fits[OF assms, of str args] by simp
  have msg: "format_text vsn str args = text_of_bytes ?m" by (simp add: format_text_def message_bytes_def)
  show ?thesis
  proof (cases "stat = TERM_STATUS_UNKNOWN")
    case True
    from KeTermPuts_result[of True ?m "palette_color PALETTE_TEXT s" s] len show ?thesis
      by (auto simp: True KeTermPrint_def msg)
  next
    case False
    then obtain p where eq: "KeTermPrint vsn stat str args s =
        do { s1 \<leftarrow> KeTermPuts False (QSTR (status_tag stat)) (palette_color p s) s;
             KeTermPuts True (text_of_bytes ?m) (palette_color PALETTE_TEXT s1) s1 }"
      by (cases stat) (simp_all add: KeTermPrint_def msg Let_def)
    have tag: "\<forall>b \<in> set (map of_char (status_tag stat)). b \<noteq> (0 :: u8)" "length (map of_char (status_tag stat) :: u8 list) < 18446744073709551616"
      using False by (cases stat; simp)+
    obtain s1 where 1: "KeTermPuts False (QSTR (status_tag stat)) (palette_color p s) s = Some s1"
      "ports s1 = ports s @ scroll_out s @ map (Pair 0x3f8) (map of_char (status_tag stat))"
      "globalGraphics s1 = globalGraphics s" "colorPalette s1 = colorPalette s"
      "scroll_out s = [] \<longrightarrow> termCurrentY s1 = termCurrentY s"
      using KeTermPuts_result[of False "map of_char (status_tag stat)" "palette_color p s" s] tag
      by (auto simp: QSTR_def)
    obtain s2 where 2: "KeTermPuts True (text_of_bytes ?m) (palette_color PALETTE_TEXT s1) s1 = Some s2"
      "ports s2 = ports s1 @ scroll_out s1 @ map (Pair 0x3f8) (?m @ [10])"
      "globalGraphics s2 = globalGraphics s1" "colorPalette s2 = colorPalette s1"
      using KeTermPuts_result[of True ?m "palette_color PALETTE_TEXT s1" s1] len by auto
    have "scroll_out s1 = []" if "scroll_out s = []"
      using that 1(3,5) by (auto simp: scroll_out_def term_draws_def split: if_splits)
    with 1 2 show ?thesis by (auto simp: eq)
  qed
qed

lemma KeTermChangePalette_result:
  "KeTermChangePalette palette len s =
     (if length (colorPalette s) < unat len then (STATUS_TOO_LARGE, s)
      else (STATUS_SUCCESS, s\<lparr>colorPalette := map (\<lambda>i. palette (of_nat i)) [0..<unat len] @ drop (unat len) (colorPalette s)\<rparr>))"
proof -
  have "for_upto n (\<lambda>i s. s\<lparr>colorPalette := (colorPalette s)[unat i := palette i]\<rparr>) s =
      s\<lparr>colorPalette := map (\<lambda>i. palette (of_nat i)) [0..<n] @ drop n (colorPalette s)\<rparr>"
    if "n \<le> length (colorPalette s)" "n < 18446744073709551616" for n
    using that
  proof (induction n)
    case 0
    then show ?case by simp
  next
    case (Suc n)
    then have "drop n (colorPalette s) = colorPalette s ! n # drop (Suc n) (colorPalette s)"
      by (simp add: Cons_nth_drop_Suc)
    with Suc show ?case by (simp add: unat_of_nat_u64 list_update_append)
  qed
  from this[of "unat len"] show ?thesis
    using unat_lt_2p64[of len] by (simp add: KeTermChangePalette_def not_less)
qed

lemma KeTermMoveDown_fields:
  "globalGraphics (KeTermMoveDown n s) = globalGraphics s \<and> colorPalette (KeTermMoveDown n s) = colorPalette s \<and>
   (\<exists>l. ports (KeTermMoveDown n s) = ports s @ l)"
proof -
  let ?f = "\<lambda>(i :: u32) s :: 'a kterm_scheme. let s1 = s\<lparr>termCurrentX := 10, termCurrentY := termCurrentY s + 12\<rparr>
              in if g_height (globalGraphics s1) \<le> termCurrentY s1 then KeTermClear s1 else s1"
  have "globalGraphics (fold (\<lambda>i. ?f (of_nat i)) xs s) = globalGraphics s \<and>
      colorPalette (fold (\<lambda>i. ?f (of_nat i)) xs s) = colorPalette s \<and>
      (\<exists>l. ports (fold (\<lambda>i. ?f (of_nat i)) xs s) = ports s @ l)" for xs :: "nat list" and s
  proof (induction xs arbitrary: s)
    case Nil
    then show ?case by simp
  next
    case (Cons x xs)
    from Cons[of "?f (of_nat x) s"] show ?case by (auto simp: Let_def)
  qed
  from this[of "[unat (0 :: u32)..<unat n]" s] show ?thesis by (simp only: KeTermMoveDown_def for_u32_def)
qed

end
