(* ===== verification/Panic.thy ===== *)
theory Panic
  imports Term
begin

text \<open>
  The messages of the status codes \<open>ke/nrstatus.c\<close>, the panic screen \<open>ke/panic.c\<close> and the splash screen \<open>ke/splash.c\<close>. A panic ends in an
  endless loop: its result says in which state the machine hangs.
\<close>

section \<open>Status messages\<close>

fun status_code :: "NearStatus \<Rightarrow> nat" where
  "status_code STATUS_SUCCESS = 0"
| "status_code STATUS_UNKNOWN = 1"
| "status_code STATUS_OUT_OF_MEMORY = 2"
| "status_code STATUS_INIT_FAIL = 3"
| "status_code STATUS_CANT_CREATE_ECS_COMP = 4"
| "status_code STATUS_CANT_CREATE_ENTITY = 5"
| "status_code STATUS_NOT_ENOUGH_MEMORY = 6"
| "status_code STATUS_NO_VALID_MEMORY = 7"
| "status_code STATUS_NOT_FOUND = 8"
| "status_code STATUS_INVALID_PML_ENTRY = 9"
| "status_code STATUS_NOT_MAPPED = 10"
| "status_code STATUS_UACPI_INIT_FAIL = 11"
| "status_code STATUS_ACPI_NAMESPACE_FAIL = 12"
| "status_code STATUS_ACPI_GPE_FAIL = 13"
| "status_code STATUS_REBOOT_FAILED = 14"
| "status_code STATUS_SHUTDOWN_FAILED = 15"
| "status_code STATUS_INVALID_ADDRESS = 16"
| "status_code STATUS_ACCESS_DENIED = 17"
| "status_code STATUS_CANT_FIND_HEADER = 18"
| "status_code STATUS_PMM_FAIL = 19"
| "status_code STATUS_VMM_FAIL = 20"
| "status_code STATUS_GALLOC_FAIL = 21"
| "status_code STATUS_TOO_LARGE = 22"
| "status_code STATUS_INVALID_HANDLE = 23"
| "status_code STATUS_INVALID_ENTITY = 24"
| "status_code STATUS_NOT_IMPLEMENTED = 25"

text \<open>The table: entries without an initialiser are \<open>NULL\<close>.\<close>

definition statusToString :: "string option list" where
  "statusToString = [
     Some ''The operation completed successfully'',
     Some ''Unknown NearStatus code'',
     Some ''The system has ran out of memory'',
     Some ''Failed initializing component'',
     Some ''Couldn't create ECS component'',
     Some ''Couldn't create entity'',
     Some ''Theres not enough memory avaliable'',
     Some ''Not enough valid memory present'',
     Some ''Couldn't find it'',
     Some ''Invalid PML entry'',
     Some ''Memory not mapped'',
     Some ''Couldn't initialize uACPI'',
     Some ''Couldn't load ACPI namespace'',
     Some ''Couldn't initialize ACPI GPE'',
     Some ''Couldn't reboot the machine'',
     Some ''Couldn't shut down the machine'',
     Some ''Tried to access invalid address'',
     Some ''Access is denied'',
     Some ''Couldn't find header'',
     Some ''Failed setting up the physical memory manager'',
     Some ''Failed setting up the virtual memory manager'',
     Some ''Failed setting up the general memory allocator'',
     Some ''The item is too large'',
     None,
     None,
     Some ''This has not been implemented'']"

definition KeNrStatusToCString :: "NearStatus \<Rightarrow> string option" where
  "KeNrStatusToCString status =
     (if length statusToString \<le> status_code status then Some '''' else statusToString ! status_code status)"

definition KeNrStatusToString :: "NearStatus \<Rightarrow> QText" where
  "KeNrStatusToString status =
     (case KeNrStatusToCString status of
        None \<Rightarrow> \<lparr>tbytes = (\<lambda>_. 0), tlength = 0\<rparr>
      | Some str \<Rightarrow> QSTR str)"

section \<open>Panic\<close>

datatype 's run = Runs 's | Hangs 's

definition panicScreenPalette :: "u64 list" where
  "panicScreenPalette = [0x000080, 0xFFFFFF, 0x800000, 0x008000, 0x999900, 0xFFFFFF, 0xb03c03]"

definition PanicInitialize :: "formatter \<Rightarrow> 'a kterm_scheme \<Rightarrow> 'a kterm_scheme option" where
  "PanicInitialize vsn s =
     (let s1 = s\<lparr>globalGraphics := (globalGraphics s)\<lparr>g_owners := OWNER_DEBUG_TERM\<rparr>\<rparr>;
          paletteLen = of_nat (length panicScreenPalette);
          s2 = snd (KeTermChangePalette (\<lambda>i. panicScreenPalette ! unat i) paletteLen s1);
          s3 = KeTermClear s2
      in do { s4 \<leftarrow> KeTermPrint vsn TERM_STATUS_UNKNOWN (QSTR ''--------------------PANIC--------------------'') [] s3;
              s5 \<leftarrow> KeTermPrint vsn TERM_STATUS_ERROR (QSTR ''The kernel has panicked'') [] s4;
              s6 \<leftarrow> KeTermPrint vsn TERM_STATUS_INFO (QSTR ''INFO ABOUT THE PANIC!'') [] (KeTermMoveDown 2 s5);
              Some (KeTermMoveDown 2 s6) })"

definition PanicEnd :: "formatter \<Rightarrow> 'a kterm_scheme \<Rightarrow> 'a kterm_scheme run option" where
  "PanicEnd vsn s =
     do { s1 \<leftarrow> KeTermPrint vsn TERM_STATUS_INFO (QSTR ''Please report this to the developers'') [] (KeTermMoveDown 2 s);
          s2 \<leftarrow> KeTermPrint vsn TERM_STATUS_UNKNOWN (QSTR ''--------------------PANIC--------------------'') [] s1;
          Some (Hangs s2) }"

definition KePanic :: "formatter \<Rightarrow> NearStatus \<Rightarrow> 'a kterm_scheme \<Rightarrow> 'a kterm_scheme run option" where
  "KePanic vsn panicStatus s =
     do { s1 \<leftarrow> PanicInitialize vsn s;
          let str = KeNrStatusToString panicStatus
          in do { s3 \<leftarrow> (if tlength str \<le> 3
                    then KeTermPrint vsn TERM_STATUS_INFO (QSTR ''Error code is %d'') [of_nat (status_code panicStatus)] s1
                    else do { s2 \<leftarrow> KeTermPuts False (QSTR ''      '') (panicScreenPalette ! palette_index PALETTE_BACKGROUND) s1;
                              KeTermPuts True str (panicScreenPalette ! palette_index PALETTE_TEXT) s2 });
                  PanicEnd vsn s3 } }"

definition KePanicStr :: "formatter \<Rightarrow> QText \<Rightarrow> 'a kterm_scheme \<Rightarrow> 'a kterm_scheme run option" where
  "KePanicStr vsn str s =
     do { s1 \<leftarrow> PanicInitialize vsn s;
          s2 \<leftarrow> KeTermPuts False (QSTR ''      '') (panicScreenPalette ! palette_index PALETTE_BACKGROUND) s1;
          s3 \<leftarrow> KeTermPuts True str (panicScreenPalette ! palette_index PALETTE_TEXT) s2;
          PanicEnd vsn s3 }"

section \<open>Splash screen\<close>

definition KeAddToBootScreen :: "'a kterm_scheme \<Rightarrow> 'a kterm_scheme" where
  "KeAddToBootScreen s =
     (if g_owners (globalGraphics s) \<noteq> OWNER_SPLASH_SCREEN then s
      else let s1 = KeGraphicsDrawChar (of_char CHR ''/'') (ucast (dotX s)) 40 3 0x00ffff s
           in s1\<lparr>dotX := dotX s1 + 10\<rparr>)"

partial_function (option) dash_loop :: "u64 \<Rightarrow> u64 \<Rightarrow> 'a kterm_scheme \<Rightarrow> 'a kterm_scheme option" where
  "dash_loop i bound s =
     (if i < bound
      then dash_loop (i + 10) bound (KeGraphicsDrawChar (of_char CHR ''/'') (ucast i) 40 3 0xffffff s)
      else Some s)"

definition KeBeginSplashScreen :: "u64 \<Rightarrow> 'a kterm_scheme \<Rightarrow> 'a kterm_scheme option" where
  "KeBeginSplashScreen dashes s =
     (if g_owners (globalGraphics s) \<noteq> OWNER_SPLASH_SCREEN then Some s
      else let s1 = KeGraphicsClear 0x000000 s;
               s2 = KeGraphicsDrawString (QSTR ''Starting Nearlands'') 10 10 2 0xffffff s1
           in dash_loop 10 (10 + dashes * 10) s2)"

section \<open>What a panic does\<close>

lemma status_messages:
  assumes "KeNrStatusToCString st = Some msg"
  shows "length (map of_char msg :: u8 list) < 18446744073709551616" and "\<not> tlength (text_of_bytes (map of_char msg)) \<le> 3"
  using assms by (cases st; auto simp: KeNrStatusToCString_def statusToString_def text_of_bytes_def)+

lemma PanicInitialize_result:
  assumes "fits_buffer vsn" and "length (colorPalette s) = 7"
  shows "\<exists>s'. PanicInitialize vsn s = Some s' \<and> g_owners (globalGraphics s') = OWNER_DEBUG_TERM \<and>
    colorPalette s' = panicScreenPalette"
proof -
  let ?ok = "\<lambda>t. g_owners (globalGraphics t) = OWNER_DEBUG_TERM \<and> colorPalette t = panicScreenPalette"
  define s1 where "s1 = s\<lparr>globalGraphics := (globalGraphics s)\<lparr>g_owners := OWNER_DEBUG_TERM\<rparr>\<rparr>"
  define s2 where "s2 = snd (KeTermChangePalette (\<lambda>i. panicScreenPalette ! unat i) (of_nat (length panicScreenPalette)) s1)"
  have "map (\<lambda>i. panicScreenPalette ! unat (of_nat i :: u64)) [0..<7] = panicScreenPalette"
    by (simp add: panicScreenPalette_def upt_rec)
  then have 2: "?ok s2"
    using assms(2) by (simp add: s2_def KeTermChangePalette_result s1_def panicScreenPalette_def)
  note print = KeTermPrint_result[OF assms(1)] and down = KeTermMoveDown_fields[of 2]
  obtain s4 where 4: "KeTermPrint vsn TERM_STATUS_UNKNOWN (QSTR ''--------------------PANIC--------------------'') [] (KeTermClear s2) = Some s4" "?ok s4"
    using print[of TERM_STATUS_UNKNOWN "QSTR ''--------------------PANIC--------------------''" "[]" "KeTermClear s2"] 2 by auto
  obtain s5 where 5: "KeTermPrint vsn TERM_STATUS_ERROR (QSTR ''The kernel has panicked'') [] s4 = Some s5" "?ok s5"
    using print[of TERM_STATUS_ERROR "QSTR ''The kernel has panicked''" "[]" s4] 4(2) by auto
  obtain s6 where 6: "KeTermPrint vsn TERM_STATUS_INFO (QSTR ''INFO ABOUT THE PANIC!'') [] (KeTermMoveDown 2 s5) = Some s6" "?ok s6"
    using print[of TERM_STATUS_INFO "QSTR ''INFO ABOUT THE PANIC!''" "[]" "KeTermMoveDown 2 s5"] 5(2) down[of s5] by auto
  have "PanicInitialize vsn s = Some (KeTermMoveDown 2 s6)"
    by (simp add: PanicInitialize_def Let_def 4(1) 5(1) 6(1) flip: s1_def s2_def)
  then show ?thesis using 6(2) down[of s6] by simp
qed

lemma PanicEnd_result:
  assumes "fits_buffer vsn"
  shows "\<exists>s'. PanicEnd vsn s = Some (Hangs s') \<and> globalGraphics s' = globalGraphics s \<and>
    colorPalette s' = colorPalette s \<and> (\<exists>post. ports s' = ports s @ post)"
proof -
  note print = KeTermPrint_result[OF assms] and down = KeTermMoveDown_fields[of 2 s]
  obtain l where l: "ports (KeTermMoveDown 2 s) = ports s @ l" using down by blast
  obtain s1 m where 1: "KeTermPrint vsn TERM_STATUS_INFO (QSTR ''Please report this to the developers'') [] (KeTermMoveDown 2 s) = Some s1"
    "globalGraphics s1 = globalGraphics s" "colorPalette s1 = colorPalette s" "ports s1 = ports (KeTermMoveDown 2 s) @ m"
    using print[of TERM_STATUS_INFO "QSTR ''Please report this to the developers''" "[]" "KeTermMoveDown 2 s"] down by auto
  obtain s2 n where 2: "KeTermPrint vsn TERM_STATUS_UNKNOWN (QSTR ''--------------------PANIC--------------------'') [] s1 = Some s2"
    "globalGraphics s2 = globalGraphics s" "colorPalette s2 = colorPalette s" "ports s2 = ports s1 @ n"
    using print[of TERM_STATUS_UNKNOWN "QSTR ''--------------------PANIC--------------------''" "[]" s1] 1 by auto
  have "ports s2 = ports s @ (l @ m @ n)" by (simp add: 2(4) 1(4) l)
  with 1(1) 2 show ?thesis by (auto simp: PanicEnd_def)
qed

lemma KePanic_result:
  assumes "fits_buffer vsn" and "length (colorPalette s) = 7"
  shows "\<exists>s'. KePanic vsn st s = Some (Hangs s') \<and> g_owners (globalGraphics s') = OWNER_DEBUG_TERM \<and>
    colorPalette s' = panicScreenPalette \<and>
    (case KeNrStatusToCString st of
       None \<Rightarrow> True
     | Some msg \<Rightarrow> \<exists>pre post. ports s' = pre @ map (Pair 0x3f8) (map of_char msg @ [10]) @ post)"
proof -
  let ?ok = "\<lambda>t. g_owners (globalGraphics t) = OWNER_DEBUG_TERM \<and> colorPalette t = panicScreenPalette"
  obtain s1 where 1: "PanicInitialize vsn s = Some s1" "?ok s1"
    using PanicInitialize_result[OF assms] by blast
  have end_: "\<exists>s'. PanicEnd vsn t = Some (Hangs s') \<and> ?ok s' \<and> (\<exists>post. ports s' = ports t @ post)" if "?ok t" for t :: "'a kterm_scheme"
    using PanicEnd_result[OF assms(1), of t] that by auto
  show ?thesis
  proof (cases "KeNrStatusToCString st")
    case None
    then have str: "KeNrStatusToString st = \<lparr>tbytes = (\<lambda>_. 0), tlength = 0\<rparr>" by (simp add: KeNrStatusToString_def)
    obtain s3 where 3: "KeTermPrint vsn TERM_STATUS_INFO (QSTR ''Error code is %d'') [of_nat (status_code st)] s1 = Some s3" "?ok s3"
      using KeTermPrint_result[OF assms(1), of TERM_STATUS_INFO "QSTR ''Error code is %d''" "[of_nat (status_code st)]" s1] 1(2) by auto
    from end_[OF 3(2)] 1(1) 3(1) None show ?thesis by (auto simp: KePanic_def str)
  next
    case (Some msg)
    note msg = status_messages[OF Some]
    have str: "KeNrStatusToString st = text_of_bytes (map of_char msg)" "\<not> tlength (text_of_bytes (map of_char msg)) \<le> 3"
      using msg Some by (simp_all add: KeNrStatusToString_def QSTR_def)
    obtain s2 where 2: "KeTermPuts False (QSTR ''      '') (panicScreenPalette ! palette_index PALETTE_BACKGROUND) s1 = Some s2" "?ok s2"
      using KeTermPuts_result[of False "map of_char ''      ''" "panicScreenPalette ! palette_index PALETTE_BACKGROUND" s1] 1(2)
      by (auto simp: QSTR_def)
    obtain s3 where 3: "KeTermPuts True (text_of_bytes (map of_char msg)) (panicScreenPalette ! palette_index PALETTE_TEXT) s2 = Some s3" "?ok s3"
      "ports s3 = (ports s2 @ scroll_out s2) @ map (Pair 0x3f8) (map of_char msg @ [10])"
      using KeTermPuts_result[of True "map of_char msg" "panicScreenPalette ! palette_index PALETTE_TEXT" s2] 2(2) msg(1) by auto
    obtain s4 post where 4: "PanicEnd vsn s3 = Some (Hangs s4)" "?ok s4" "ports s4 = ports s3 @ post" using end_[OF 3(2)] by blast
    have "ports s4 = (ports s2 @ scroll_out s2) @ map (Pair 0x3f8) (map of_char msg @ [10]) @ post" by (simp add: 4(3) 3(3))
    then have "\<exists>pre post. ports s4 = pre @ map (Pair 0x3f8) (map of_char msg @ [10]) @ post" by blast
    moreover have "KePanic vsn st s = Some (Hangs s4)" using 1(1) 2(1) 3(1) 4(1) str by (simp add: KePanic_def)
    ultimately show ?thesis using 4(2) by (intro exI[of _ s4] conjI) (simp_all only: Some option.case)
  qed
qed

section \<open>The splash screen is drawn\<close>

lemma KeBeginSplashScreen_returns: "\<exists>s'. KeBeginSplashScreen 10 s = Some s'"
  by (simp add: KeBeginSplashScreen_def Let_def) (simp add: dash_loop.simps)

lemma draw_char_fields:
  "colorPalette (KeGraphicsDrawChar c x y sz color s) = colorPalette s"
  using KeGraphicsDrawChar_fb[of c x y sz color s] by auto

lemma dash_loop_palette: "dash_loop i b s = Some s' \<Longrightarrow> colorPalette s' = colorPalette s"
  by (erule dash_loop.raw_induct[rotated]) (auto simp: draw_char_fields split: if_splits)

lemma KeBeginSplashScreen_palette:
  "KeBeginSplashScreen n s = Some s' \<Longrightarrow> colorPalette s' = colorPalette s"
  by (auto simp: KeBeginSplashScreen_def KeGraphicsClear_def Let_def dest!: dash_loop_palette split: if_splits)

end
