(* ===== verification/TermProps.thy ===== *)
theory TermProps
  imports Panic
begin

text \<open>The properties of the screen, the terminal and the panic screen.\<close>

section \<open>Sample screen\<close>

definition sample_term :: kterm where
  "sample_term = \<lparr>globalGraphics = \<lparr>g_init = True, g_framebufferBase = 0x80000000, g_framebufferSize = 0x10000,
       g_width = 100, g_height = 50, g_pixelsPerScanLine = 128, g_owners = OWNER_DEBUG_TERM\<rparr>,
     fb = (\<lambda>_. 0), below_font = (\<lambda>_ _. 0), termCurrentX = 10, termCurrentY = 10, colorPalette = default_palette,
     ports = [], dotX = 10\<rparr>"

text \<open>A formatter that leaves the format in the buffer.\<close>

definition copy_format :: formatter where
  "copy_format n f args = take (n - 1) f @ [0]"

lemma copy_format_fits: "fits_buffer copy_format"
proof -
  have a: "length (takeWhile (\<lambda>b. b \<noteq> 0) (take 255 f @ [0 :: u8])) \<le> length (take 255 f)" for f
    using length_takeWhile_le[of "\<lambda>b. b \<noteq> 0" "take 255 f"]
    by (cases "\<forall>b \<in> set (take 255 f). b \<noteq> 0") (simp_all add: takeWhile_append)
  have "length (takeWhile (\<lambda>b. b \<noteq> 0) (take 255 f @ [0 :: u8])) \<le> 255" for f
    using order_trans[OF a[of f], of 255] by simp
  then have "length (takeWhile (\<lambda>b. b \<noteq> 0) (take 255 f @ [0 :: u8])) < 256" for f
    by (rule le_less_trans) simp
  then show ?thesis by (simp add: fits_buffer_def copy_format_def)
qed

section \<open>Drawing\<close>

text \<open>
  C18: \<open>KeGraphicsDrawRect\<close> sets exactly the pixels of the rectangle that lie on the screen, to the low 32 bits of the color, and
  changes no other pixel; a rectangle whose 32-bit far edge wraps around draws nothing.
\<close>

theorem draw_rect_exact:
  assumes "g_init (globalGraphics s)" and "g = globalGraphics s"
  shows "fb (KeGraphicsDrawRect x y w h color s) p =
      (if \<exists>i j. x \<le> i \<and> i < x + w \<and> i < g_width g \<and> y \<le> j \<and> j < y + h \<and> j < g_height g \<and>
            p = j * g_pixelsPerScanLine g + i
       then ucast color else fb s p) \<and>
    (x + w < x \<longrightarrow> fb (KeGraphicsDrawRect x y w h color s) = fb s)"
proof -
  have "rect_pixels g x y w h = {}" if "x + w < x"
  proof -
    have "\<not> (x \<le> i \<and> i < x + w)" for i using that by (metis le_less_trans not_less_iff_gr_or_eq)
    then show ?thesis by (auto simp: rect_pixels_def u32_range_def)
  qed
  moreover have "p \<in> rect_pixels g x y w h \<longleftrightarrow> (\<exists>i j. x \<le> i \<and> i < x + w \<and> i < g_width g \<and> y \<le> j \<and> j < y + h \<and>
      j < g_height g \<and> p = j * g_pixelsPerScanLine g + i)"
    by (auto simp: rect_pixels_def u32_range_def)
  ultimately show ?thesis
    unfolding KeGraphicsDrawRect_more[OF assms(1), folded assms(2)] by simp
qed

lemma draw_rect_exact_witness:
  "fb (KeGraphicsDrawRect 98 49 5 5 0xFF000012345678 sample_term) (49 * 128 + 99) = 0x12345678"
proof -
  have "\<exists>i j. 98 \<le> i \<and> i < 98 + 5 \<and> i < g_width (globalGraphics sample_term) \<and> 49 \<le> j \<and> j < 49 + 5 \<and>
      j < g_height (globalGraphics sample_term) \<and> 49 * 128 + 99 = j * g_pixelsPerScanLine (globalGraphics sample_term) + i"
    by (rule exI[of _ 99], rule exI[of _ 49]) (simp add: sample_term_def)
  moreover have "g_init (globalGraphics sample_term)" by (simp add: sample_term_def)
  ultimately show ?thesis
    using draw_rect_exact[of sample_term, OF _ refl, of 98 49 5 5 "0xFF000012345678" "49 * 128 + 99"] by simp
qed

text \<open>
  C33: whatever \<open>KeTermPrint\<close> prints, bytes outside ASCII and a full screen included, it writes no pixel beyond the rows of the
  framebuffer and leaves the screen's geometry alone.
\<close>

theorem print_stays_in_framebuffer:
  assumes "KeTermPrint vsn stat str args s = Some s'" and "g = globalGraphics s"
    and "g_width g \<le> g_pixelsPerScanLine g" and "unat (g_height g) * unat (g_pixelsPerScanLine g) \<le> unat p"
  shows "fb s' p = fb s p \<and> globalGraphics s' = g"
proof -
  have d: "draws_in s s'" using KeTermPrint_in[OF draws_in_refl assms(1)] .
  have "p \<notin> visible g"
  proof
    assume "p \<in> visible g"
    then obtain i j where ij: "i < g_width g" "j < g_height g" "p = j * g_pixelsPerScanLine g + i"
      by (auto simp: visible_def)
    have "unat p \<le> unat j * unat (g_pixelsPerScanLine g) + unat i"
      unfolding ij(3) by (simp add: unat_word_ariths)
    also have "\<dots> < (unat j + 1) * unat (g_pixelsPerScanLine g)"
      using ij(1) assms(3) by (simp add: word_less_nat_alt word_le_nat_alt)
    also have "\<dots> \<le> unat (g_height g) * unat (g_pixelsPerScanLine g)"
      using ij(2) by (intro mult_le_mono1) (simp add: word_less_nat_alt)
    finally show False using assms(4) by simp
  qed
  with d assms(2) show ?thesis by (simp add: draws_in_def)
qed

lemma print_stays_in_framebuffer_witness:
  "\<exists>s'. KeTermPrint copy_format TERM_STATUS_INFO (QSTR ''tick!'') [] sample_term = Some s' \<and> fb s' 6400 = 0"
proof -
  obtain s' where s': "KeTermPrint copy_format TERM_STATUS_INFO (QSTR ''tick!'') [] sample_term = Some s'"
    using KeTermPrint_result[OF copy_format_fits] by blast
  from print_stays_in_framebuffer[OF this refl, of 6400] s' show ?thesis by (simp add: sample_term_def)
qed

section \<open>Printing\<close>

text \<open>
  \<open>KeTermPrint\<close> always returns, and unless it first has to clear a full screen it writes to the serial port exactly the
  class's tag, the formatted message and a new line, in this order.
\<close>

theorem print_serial_output:
  assumes "fits_buffer vsn"
  shows "\<exists>s'. KeTermPrint vsn stat str args s = Some s' \<and>
    (\<not> (term_draws s \<and> g_height (globalGraphics s) \<le> termCurrentY s) \<longrightarrow>
       ports s' = ports s @ map (Pair 0x3f8) (map of_char (status_tag stat) @ message_bytes vsn str args @ [10]))"
  using KeTermPrint_result[OF assms, of stat str args s] by (auto simp: scroll_out_def split: if_splits)

lemma print_serial_output_witness:
  "\<exists>s'. KeTermPrint copy_format TERM_STATUS_PASS (QSTR ''ok'') [] sample_term = Some s' \<and>
     ports s' = map (Pair 0x3f8) (map of_char ''[+] ok'' @ [10])"
proof -
  have "message_bytes copy_format (QSTR ''ok'') [] = map of_char ''ok''"
    by (simp add: message_bytes_def copy_format_def format_copy_def QSTR_def text_of_bytes_def upt_rec)
  with print_serial_output[OF copy_format_fits, of TERM_STATUS_PASS "QSTR ''ok''" "[]" sample_term]
  show ?thesis by (auto simp: sample_term_def)
qed

text \<open>
  \<open>KeTermChangePalette\<close> refuses more colors than the palette has and then changes nothing; otherwise it replaces exactly
  the first \<open>len\<close> colors. \<open>KeTermChangeSinglePaletteColor\<close> refuses an index outside the palette.
\<close>

theorem change_palette_bounds:
  "KeTermChangePalette palette len s =
     (if length (colorPalette s) < unat len then (STATUS_TOO_LARGE, s)
      else (STATUS_SUCCESS, s\<lparr>colorPalette := map (\<lambda>i. palette (of_nat i)) [0..<unat len] @ drop (unat len) (colorPalette s)\<rparr>)) \<and>
   (fst (KeTermChangeSinglePaletteColor i color s) = STATUS_SUCCESS \<longleftrightarrow> unat i < length (colorPalette s))"
  by (simp add: KeTermChangePalette_result KeTermChangeSinglePaletteColor_def not_le)

section \<open>Panic\<close>

text \<open>
  The only status codes without a message are \<open>STATUS_INVALID_HANDLE\<close> and \<open>STATUS_INVALID_ENTITY\<close>, and these are exactly the ones
  for which \<open>KePanic\<close> prints a number instead of a message.
\<close>

theorem status_messages_missing:
  "(KeNrStatusToCString st = None \<longleftrightarrow> st = STATUS_INVALID_HANDLE \<or> st = STATUS_INVALID_ENTITY) \<and>
   (tlength (KeNrStatusToString st) \<le> 3 \<longleftrightarrow> KeNrStatusToCString st = None)"
  by (cases st) (simp_all add: KeNrStatusToString_def KeNrStatusToCString_def statusToString_def QSTR_def text_of_bytes_def)

text \<open>
  C31: \<open>KePanic\<close> always reaches its final loop and never returns to its caller: it has then taken the screen over from the
  splash screen, set the panic palette and written the status's message, if it has one, to
  the serial port.
\<close>

theorem panic_reports_and_hangs:
  assumes "fits_buffer vsn" and "length (colorPalette s) = 7"
  shows "\<exists>s'. KePanic vsn st s = Some (Hangs s') \<and> g_owners (globalGraphics s') = OWNER_DEBUG_TERM \<and>
    colorPalette s' = panicScreenPalette \<and>
    (case KeNrStatusToCString st of
       None \<Rightarrow> True
     | Some msg \<Rightarrow> \<exists>pre post. ports s' = pre @ map (Pair 0x3f8) (map of_char msg @ [10]) @ post)"
  using KePanic_result[OF assms] .

lemma panic_reports_and_hangs_witness:
  "\<exists>s'. KePanic copy_format STATUS_OUT_OF_MEMORY sample_term = Some (Hangs s') \<and> colorPalette s' = panicScreenPalette"
  using panic_reports_and_hangs[OF copy_format_fits, of sample_term STATUS_OUT_OF_MEMORY]
  by (auto simp: sample_term_def default_palette_def)

end
