(* ===== verification/Ecs.thy ===== *)
theory Ecs
  imports Arena Pmm
begin

text \<open>
  The entity component system \<open>ecs/ecs.c\<close>. An archetype is a set of component types with the array of the entities that
  have these types; a handle is the index of the archetype and the index of the entity in its array. Deleted
  entities are remembered in a free list per archetype and reused first.

  The two growing arrays live in pages of the physical memory manager. Each is kept as the list of its
  elements beside the pointer: \<open>MmReallocatePages\<close> copies the old elements and leaves the new ones zero. The
  nodes of the free lists are a typed heap. The sizes of the components are 64-bit words of the machine memory
  behind \<open>componentSizeArr\<close>. An operation that does not return, accesses an array that was lost, or writes past
  the \<open>ECS_COMP_SIZE\<close> components of an entity has the result \<open>None\<close>; \<open>Inl\<close> is the state in which \<open>KePanic\<close> was called.
\<close>

section \<open>State\<close>

type_synonym Handle = u64
type_synonym ComponentTypes = u16

definition ECS_COMP_SIZE :: nat where
  "ECS_COMP_SIZE = 10"

definition MAX_COMPONENT :: u64 where
  "MAX_COMPONENT = 512"

record Entity =
  componentTypes :: "ComponentTypes list"
  en_arena :: Arena
  en_components :: "u64 list"
  en_componentAmount :: u8
  alive :: bool

record EntityFreeList =
  fl_index :: u32
  fl_next :: u64

record ArcheType =
  at_components :: "ComponentTypes list"
  at_arena :: Arena
  at_array :: u64
  at_entities :: "Entity list"
  freeList :: u64
  initial :: u64
  capacity :: u64
  at_size :: u64
  at_sizeInPages :: u64
  at_index :: u32
  at_componentAmount :: u8

record ecs =
  archeTypeArray :: u64
  archeTypes :: "ArcheType list"
  ataIndex :: u64
  ataCapacity :: u64
  ataSize :: u64
  ataSizeInPages :: u64
  componentSizeArr :: u64
  curComponentIndex :: u16
  ecs_nodes :: "u64 \<Rightarrow> EntityFreeList"
  ecs_ga :: galloc

text \<open>The sizes of the structures in bytes, and their values after \<open>memset\<close> with 0.\<close>

definition SIZEOF_ARCHETYPE :: u64 where
  "SIZEOF_ARCHETYPE = 112"

definition SIZEOF_ENTITY :: u64 where
  "SIZEOF_ENTITY = 144"

definition SIZEOF_ENTITY_FREE_LIST :: u64 where
  "SIZEOF_ENTITY_FREE_LIST = 16"

definition zero_arena :: Arena where
  "zero_arena = \<lparr>ar_base = 0, ar_size = 0, sizeInpages = 0, used = 0\<rparr>"

definition zero_entity :: Entity where
  "zero_entity = \<lparr>componentTypes = replicate ECS_COMP_SIZE 0, en_arena = zero_arena,
     en_components = replicate ECS_COMP_SIZE 0, en_componentAmount = 0, alive = False\<rparr>"

definition zero_archetype :: ArcheType where
  "zero_archetype = \<lparr>at_components = replicate ECS_COMP_SIZE 0, at_arena = zero_arena, at_array = 0, at_entities = [],
     freeList = 0, initial = 0, capacity = 0, at_size = 0, at_sizeInPages = 0, at_index = 0, at_componentAmount = 0\<rparr>"

text \<open>The array after \<open>MmReallocatePages\<close>: the old elements, then zeros.\<close>

definition grown :: "'a \<Rightarrow> nat \<Rightarrow> 'a list \<Rightarrow> 'a list" where
  "grown z n xs = take n xs @ replicate (n - length xs) z"

definition ecs_print :: "Status \<Rightarrow> string \<Rightarrow> u64 list \<Rightarrow> ecs \<Rightarrow> ecs" where
  "ecs_print st msg args s = s\<lparr>ecs_ga := ga_print st msg args (ecs_ga s)\<rparr>"

definition ecs_mem :: "ecs \<Rightarrow> bytes" where
  "ecs_mem s = pm_mem (ga_pm (ecs_ga s))"

definition set_pm :: "pmm \<Rightarrow> ecs \<Rightarrow> ecs" where
  "set_pm p s = s\<lparr>ecs_ga := (ecs_ga s)\<lparr>ga_pm := p\<rparr>\<rparr>"

definition upd_type :: "nat \<Rightarrow> (ArcheType \<Rightarrow> ArcheType) \<Rightarrow> ecs \<Rightarrow> ecs" where
  "upd_type i f s = s\<lparr>archeTypes := (archeTypes s)[i := f (archeTypes s ! i)]\<rparr>"

definition upd_entity :: "nat \<Rightarrow> nat \<Rightarrow> (Entity \<Rightarrow> Entity) \<Rightarrow> ecs \<Rightarrow> ecs" where
  "upd_entity i j f = upd_type i (\<lambda>a. a\<lparr>at_entities := (at_entities a)[j := f (at_entities a ! j)]\<rparr>)"

section \<open>Component types\<close>

definition EcsGetNewComponentIndex :: "ecs \<Rightarrow> u16 \<times> ecs" where
  "EcsGetNewComponentIndex s =
     (let s' = s\<lparr>curComponentIndex := curComponentIndex s + 1\<rparr> in (curComponentIndex s' - 1, s'))"

text \<open>The size of a component type, \<open>componentSizeArr[c]\<close>.\<close>

definition component_size :: "ecs \<Rightarrow> ComponentTypes \<Rightarrow> u64" where
  "component_size s c = ld64 (ecs_mem s) (componentSizeArr s + 8 * ucast c)"

definition EcsCreateNewComponent :: "u64 \<Rightarrow> ecs \<Rightarrow> u16 \<times> ecs" where
  "EcsCreateNewComponent n s =
     (let s1 = (if componentSizeArr s = NULL
                then let (p, pm) = MmAllocateSinglePage (ga_pm (ecs_ga s)) in (set_pm pm s)\<lparr>componentSizeArr := p\<rparr>
                else s)
      in if componentSizeArr s1 = NULL
         then (0, ecs_print TERM_STATUS_ERROR ''couldn't allocate page! expect panic!'' [] s1)
         else let index = (ucast (curComponentIndex s1) :: u64)
              in if MAX_COMPONENT \<le> index then (0, s1)
                 else let pm = ga_pm (ecs_ga s1);
                          s2 = set_pm (pm\<lparr>pm_mem := st64 (pm_mem pm) (componentSizeArr s1 + 8 * index) n\<rparr>) s1
                      in (ucast index, s2\<lparr>curComponentIndex := curComponentIndex s2 + 1\<rparr>))"

definition EcsCompareComponents :: "(nat \<Rightarrow> ComponentTypes) \<Rightarrow> u8 \<Rightarrow> (nat \<Rightarrow> ComponentTypes) \<Rightarrow> u8 \<Rightarrow> bool" where
  "EcsCompareComponents component1 componentAmount1 component2 componentAmount2 \<longleftrightarrow>
     componentAmount1 = componentAmount2 \<and> list_all (\<lambda>i. component1 i = component2 i) [0..<unat componentAmount1]"

definition EcsGetSizeOfAllComponents :: "(nat \<Rightarrow> ComponentTypes) \<Rightarrow> u8 \<Rightarrow> ecs \<Rightarrow> u64" where
  "EcsGetSizeOfAllComponents components componentAmount s =
     fold (\<lambda>i componentSize. if curComponentIndex s \<le> components i then componentSize
                             else componentSize + component_size s (components i))
       [0..<unat componentAmount] 0"

section \<open>Handles\<close>

definition EcsEncodeHandle :: "u32 \<Rightarrow> u32 \<Rightarrow> Handle" where
  "EcsEncodeHandle archeTypeIndex entityIndex = push_bit 32 (ucast archeTypeIndex) OR ucast entityIndex"

definition EcsDecodeHandle :: "Handle \<Rightarrow> u32 \<times> u32" where
  "EcsDecodeHandle h = (ucast (drop_bit 32 h), ucast h)"

section \<open>Archetypes\<close>

text \<open>The capacity of a full array of capacity \<open>c\<close> after it has grown.\<close>

definition next_capacity :: "u64 \<Rightarrow> u64" where
  "next_capacity c = (if c = 0 then 15 else c * 3)"

definition pages_for :: "u64 \<Rightarrow> u64" where
  "pages_for n = (n + (PAGE_SIZE - 1)) div PAGE_SIZE"

definition grow_archetypes :: "ecs \<Rightarrow> (ecs + ecs) option" where
  "grow_archetypes s =
     (if ataIndex s < ataCapacity s then Some (Inr s)
      else let s1 = ecs_print TERM_STATUS_INFO ''Expanding ArcheTypes Array'' [] s;
               newAtCapacity = next_capacity (ataCapacity s1);
               newAtSize = newAtCapacity * SIZEOF_ARCHETYPE;
               newAtSizeInPages = pages_for newAtSize
           in do { (p, pm) \<leftarrow> MmReallocatePages (archeTypeArray s1) (ataSizeInPages s1) newAtSizeInPages (ga_pm (ecs_ga s1));
                   let s2 = (set_pm pm s1)\<lparr>archeTypeArray := p\<rparr>
                   in if p = NULL then Some (Inl (s2\<lparr>archeTypes := []\<rparr>))
                      else Some (Inr (s2\<lparr>archeTypes := grown zero_archetype (unat newAtCapacity) (archeTypes s2),
                             ataSize := newAtSize, ataCapacity := newAtCapacity, ataSizeInPages := newAtSizeInPages\<rparr>)) })"

definition same_archetype :: "(nat \<Rightarrow> ComponentTypes) \<Rightarrow> u8 \<Rightarrow> ArcheType \<Rightarrow> bool" where
  "same_archetype components componentAmount a \<longleftrightarrow>
     at_componentAmount a = componentAmount \<and>
     EcsCompareComponents components componentAmount (\<lambda>i. at_components a ! i) (at_componentAmount a)"

definition new_archetype :: "(nat \<Rightarrow> ComponentTypes) \<Rightarrow> u8 \<Rightarrow> ArcheType" where
  "new_archetype components componentAmount =
     zero_archetype\<lparr>at_components := map components [0..<unat componentAmount] @ drop (unat componentAmount) (at_components zero_archetype),
       at_componentAmount := componentAmount, initial := NULL, freeList := NULL\<rparr>"

definition EcsGetArcheType :: "(nat \<Rightarrow> ComponentTypes) \<Rightarrow> u8 \<Rightarrow> ecs \<Rightarrow> (ecs + nat \<times> ecs) option" where
  "EcsGetArcheType components componentAmount s =
     do { r \<leftarrow> grow_archetypes s;
          case r of
            Inl s1 \<Rightarrow> Some (Inl s1)
          | Inr s1 \<Rightarrow>
              (case find (\<lambda>i. same_archetype components componentAmount (archeTypes s1 ! i)) [0..<unat (ataIndex s1)] of
                 Some i \<Rightarrow> Some (Inr (i, s1))
               | None \<Rightarrow>
                   if ECS_COMP_SIZE < unat componentAmount then None
                   else let prevIndex = unat (ataIndex s1);
                            s2 = upd_type prevIndex (\<lambda>_. new_archetype components componentAmount) s1
                        in Some (Inr (prevIndex, s2\<lparr>ataIndex := ataIndex s2 + 1\<rparr>))) }"

section \<open>Creating entities\<close>

text \<open>\<open>True\<close> when the archetype has room for another entity, \<open>False\<close> when its array could not grow.\<close>

definition grow_entities :: "nat \<Rightarrow> ecs \<Rightarrow> (bool \<times> ecs) option" where
  "grow_entities i s =
     (let a = archeTypes s ! i
      in if ucast (at_index a) < capacity a then Some (True, s)
         else let s1 = ecs_print TERM_STATUS_INFO ''Expanding Entity Array in Archetype'' [] s;
                  s1 = ecs_print TERM_STATUS_INFO ''ataCapacity is %d, ataIndex is %d'' [ataCapacity s1, ataIndex s1] s1;
                  newCapacity = next_capacity (capacity a);
                  newSize = newCapacity * SIZEOF_ENTITY;
                  newSizeInPages = pages_for newSize
              in do { (p, pm) \<leftarrow> MmReallocatePages (at_array a) (at_sizeInPages a) newSizeInPages (ga_pm (ecs_ga s1));
                      let s2 = upd_type i (\<lambda>a. a\<lparr>at_array := p\<rparr>) (set_pm pm s1)
                      in if p = NULL then Some (False, upd_type i (\<lambda>a. a\<lparr>at_entities := []\<rparr>) s2)
                         else Some (True, upd_type i (\<lambda>a. a\<lparr>at_entities := grown zero_entity (unat newCapacity) (at_entities a),
                                at_size := newSize, capacity := newCapacity, at_sizeInPages := newSizeInPages\<rparr>) s2) })"

text \<open>The index of the entity to use: the first of the free list, or a new one.\<close>

definition take_index :: "nat \<Rightarrow> ecs \<Rightarrow> (u64 \<times> ecs) option" where
  "take_index i s =
     (let a = archeTypes s ! i
      in if initial a \<noteq> NULL
         then let s1 = ecs_print TERM_STATUS_INFO ''reusing deleted entity..'' [] s;
                  node = initial a;
                  s2 = upd_type i (\<lambda>a. a\<lparr>initial := fl_next (ecs_nodes s1 node)\<rparr>) s1;
                  enIndex = ucast (fl_index (ecs_nodes s2 node))
              in do { (_, g) \<leftarrow> MmFreeGeneralMemory node (ecs_ga s2);
                      Some (enIndex, s2\<lparr>ecs_ga := g\<rparr>) }
         else Some (ucast (at_index a), upd_type i (\<lambda>a. a\<lparr>at_index := at_index a + 1\<rparr>) s))"

text \<open>The loop that gives the entity its components: \<open>False\<close> when the arena has no room for one.\<close>

fun fill_components :: "(nat \<Rightarrow> ComponentTypes) \<Rightarrow> (ComponentTypes \<Rightarrow> u64) \<Rightarrow> nat list \<Rightarrow> Entity \<Rightarrow> galloc \<Rightarrow>
    (bool \<times> Entity \<times> galloc) option" where
  "fill_components components sizes [] e g = Some (True, e, g)"
| "fill_components components sizes (i # is) e g =
     (if ECS_COMP_SIZE \<le> i then None
      else let e1 = e\<lparr>componentTypes := (componentTypes e)[i := components i]\<rparr>;
               (p, ar, g1) = MmPushMemoryFromArena (en_arena e1) (sizes (components i)) g;
               e2 = e1\<lparr>en_arena := ar, en_components := (en_components e1)[i := p]\<rparr>
           in if p = NULL then Some (False, e2, ga_print TERM_STATUS_INFO ''failed at index %d'' [of_nat i] g1)
              else fill_components components sizes is e2 g1)"

definition EcsCreateEntity :: "(nat \<Rightarrow> ComponentTypes) \<Rightarrow> u64 \<Rightarrow> ecs \<Rightarrow> (ecs + NearStatus \<times> Handle option \<times> ecs) option" where
  "EcsCreateEntity components componentAmount s =
     do { r \<leftarrow> EcsGetArcheType components (ucast componentAmount) s;
          case r of
            Inl s1 \<Rightarrow> Some (Inl s1)
          | Inr (i, s1) \<Rightarrow>
              do { (room, s2) \<leftarrow> grow_entities i s1;
                   if \<not> room then Some (Inr (STATUS_OUT_OF_MEMORY, None, s2))
                   else do { (enIndex, s3) \<leftarrow> take_index i s2;
                             let n = EcsGetSizeOfAllComponents components (ucast componentAmount) s3
                             in if length (at_entities (archeTypes s3 ! i)) \<le> unat enIndex then None
                                else do { (_, ar, g) \<leftarrow> MmCreateArena (en_arena zero_entity) n (ecs_ga s3);
                                          let e = zero_entity\<lparr>en_arena := ar, en_componentAmount := ucast componentAmount\<rparr>
                                          in do { (ok, e', g') \<leftarrow> fill_components components
                                                    (component_size (s3\<lparr>ecs_ga := g\<rparr>)) [0..<unat componentAmount] e g;
                                                  let s4 = upd_entity i (unat enIndex) (\<lambda>_. e') (s3\<lparr>ecs_ga := g'\<rparr>)
                                                  in if \<not> ok then Some (Inr (STATUS_OUT_OF_MEMORY, None, s4))
                                                     else let s5 = upd_entity i (unat enIndex) (\<lambda>e. e\<lparr>alive := True\<rparr>) s4
                                                          in Some (Inr (STATUS_SUCCESS,
                                                               Some (EcsEncodeHandle (of_nat i) (ucast enIndex)), s5)) } } } } }"

section \<open>Using entities\<close>

text \<open>The archetype and the slot a handle refers to, or the status of the refusal.\<close>

definition EcsGetEntity :: "Handle \<Rightarrow> ecs \<Rightarrow> (NearStatus + nat \<times> nat) option" where
  "EcsGetEntity entityRef s =
     (let (archeTypeIndex, entityIndex) = EcsDecodeHandle entityRef
      in if ataIndex s \<le> ucast archeTypeIndex then Some (Inl STATUS_INVALID_HANDLE)
         else let a = archeTypes s ! unat archeTypeIndex
              in if at_index a \<le> entityIndex then Some (Inl STATUS_INVALID_HANDLE)
                 else if length (at_entities a) \<le> unat entityIndex then None
                 else if \<not> alive (at_entities a ! unat entityIndex) then Some (Inl STATUS_INVALID_ENTITY)
                 else Some (Inr (unat archeTypeIndex, unat entityIndex)))"

definition entity_at :: "ecs \<Rightarrow> nat \<times> nat \<Rightarrow> Entity" where
  "entity_at s = (\<lambda>(i, j). at_entities (archeTypes s ! i) ! j)"

text \<open>The position of a component type in an entity.\<close>

definition find_component :: "Entity \<Rightarrow> ComponentTypes \<Rightarrow> nat option" where
  "find_component e component = find (\<lambda>i. componentTypes e ! i = component) [0..<unat (en_componentAmount e)]"

definition EcsAddComponentDataToEntity :: "Handle \<Rightarrow> ComponentTypes \<Rightarrow> u64 \<Rightarrow> ecs \<Rightarrow> (NearStatus \<times> ecs) option" where
  "EcsAddComponentDataToEntity entityRef component componentData s =
     do { r \<leftarrow> EcsGetEntity entityRef s;
          case r of
            Inl _ \<Rightarrow> Some (STATUS_INVALID_HANDLE, s)
          | Inr loc \<Rightarrow>
              (let e = entity_at s loc
               in if ECS_COMP_SIZE < unat (en_componentAmount e) then None
                  else case find_component e component of
                    None \<Rightarrow> Some (STATUS_NOT_FOUND, s)
                  | Some index \<Rightarrow>
                      if en_components e ! index = NULL then Some (STATUS_SUCCESS, s)
                      else let pm = ga_pm (ecs_ga s);
                               m = snd (memcpy (en_components e ! index) componentData (component_size s component) (pm_mem pm))
                           in Some (STATUS_SUCCESS, set_pm (pm\<lparr>pm_mem := m\<rparr>) s)) }"

definition EcsGetComponent :: "Handle \<Rightarrow> ComponentTypes \<Rightarrow> ecs \<Rightarrow> (NearStatus \<times> u64 option) option" where
  "EcsGetComponent entityRef componentType s =
     do { r \<leftarrow> EcsGetEntity entityRef s;
          case r of
            Inl _ \<Rightarrow> Some (STATUS_INVALID_HANDLE, None)
          | Inr loc \<Rightarrow>
              (let e = entity_at s loc
               in if ECS_COMP_SIZE < unat (en_componentAmount e) then None
                  else case find_component e componentType of
                    None \<Rightarrow> Some (STATUS_NOT_FOUND, None)
                  | Some i \<Rightarrow> Some (STATUS_SUCCESS, Some (en_components e ! i))) }"

section \<open>Deleting entities\<close>

definition append_free_node :: "nat \<Rightarrow> u64 \<Rightarrow> ecs \<Rightarrow> ecs" where
  "append_free_node i node s =
     (let a = archeTypes s ! i
      in if initial a = NULL then upd_type i (\<lambda>a. a\<lparr>initial := node, freeList := node\<rparr>) s
         else let s1 = s\<lparr>ecs_nodes := (ecs_nodes s)(freeList a := (ecs_nodes s (freeList a))\<lparr>fl_next := node\<rparr>)\<rparr>
              in upd_type i (\<lambda>a. a\<lparr>freeList := fl_next (ecs_nodes s1 (freeList a))\<rparr>) s1)"

definition EcsDeleteEntity :: "Handle \<Rightarrow> ecs \<Rightarrow> (NearStatus \<times> ecs) option" where
  "EcsDeleteEntity entityHandle s =
     do { r \<leftarrow> EcsGetEntity entityHandle s;
          case r of
            Inl _ \<Rightarrow> Some (STATUS_INVALID_HANDLE, s)
          | Inr (i, j) \<Rightarrow>
              (if ECS_COMP_SIZE < unat (en_componentAmount (entity_at s (i, j))) then None
               else do { (_, ar, g) \<leftarrow> MmDestroyArena (en_arena (entity_at s (i, j))) (ecs_ga s);
                    let s1 = upd_entity i j (\<lambda>e. e\<lparr>en_arena := ar,
                               componentTypes := replicate (unat (en_componentAmount e)) 0 @ drop (unat (en_componentAmount e)) (componentTypes e),
                               alive := False\<rparr>) (s\<lparr>ecs_ga := g\<rparr>);
                        (archeTypeIndex, entityIndex) = EcsDecodeHandle entityHandle
                    in do { (node, g2) \<leftarrow> MmAllocateGeneralMemory SIZEOF_ENTITY_FREE_LIST (ecs_ga s1);
                            let s2 = s1\<lparr>ecs_ga := g2\<rparr>
                            in if node = NULL then Some (STATUS_OUT_OF_MEMORY, s2)
                               else let s3 = s2\<lparr>ecs_nodes := (ecs_nodes s2)(node := \<lparr>fl_index = entityIndex, fl_next = NULL\<rparr>)\<rparr>
                                    in Some (STATUS_SUCCESS, append_free_node (unat archeTypeIndex) node s3) } }) }"

end
