(* ===== verification/EcsInv.thy ===== *)
theory EcsInv
  imports Ecs
begin

text \<open>
  The invariant of the entity component system and its abstract view: the map from the handles of the live
  entities to their component types. The lemmas say what each step of creation and deletion does to both.
\<close>

section \<open>Handles\<close>

lemma decode_encode [simp]: "EcsDecodeHandle (EcsEncodeHandle a e) = (a, e)"
proof -
  have "\<not> bit e (32 + n)" for n using bit_imp_le_length[of e "32 + n"] by auto
  then show ?thesis by (auto simp: EcsDecodeHandle_def EcsEncodeHandle_def bit_simps intro!: bit_word_eqI)
qed

lemma encode_decode: "EcsDecodeHandle h = (a, e) \<Longrightarrow> EcsEncodeHandle a e = h"
  by (auto simp: EcsDecodeHandle_def EcsEncodeHandle_def bit_simps intro!: bit_word_eqI)

section \<open>Invariant\<close>

text \<open>The nodes \<open>qs\<close> follow each other from \<open>p\<close> to \<open>NULL\<close>.\<close>

fun fl_path :: "(u64 \<Rightarrow> EntityFreeList) \<Rightarrow> u64 \<Rightarrow> u64 list \<Rightarrow> bool" where
  "fl_path nd p [] \<longleftrightarrow> p = NULL"
| "fl_path nd p (q # qs) \<longleftrightarrow> p = q \<and> q \<noteq> NULL \<and> fl_path nd (fl_next (nd q)) qs"

definition entity_ok :: "ArcheType \<Rightarrow> Entity \<Rightarrow> bool" where
  "entity_ok a e \<longleftrightarrow> length (componentTypes e) = ECS_COMP_SIZE \<and> length (en_components e) = ECS_COMP_SIZE \<and>
     (alive e \<longrightarrow> en_componentAmount e = at_componentAmount a \<and>
        take (unat (at_componentAmount a)) (componentTypes e) = take (unat (at_componentAmount a)) (at_components a))"

definition free_ok :: "(u64 \<Rightarrow> EntityFreeList) \<Rightarrow> u64 list \<Rightarrow> ArcheType \<Rightarrow> bool" where
  "free_ok nd qs a \<longleftrightarrow> fl_path nd (initial a) qs \<and> distinct qs \<and> (qs \<noteq> [] \<longrightarrow> freeList a = last qs) \<and>
     distinct (map (fl_index \<circ> nd) qs) \<and>
     (\<forall>q \<in> set qs. fl_index (nd q) < at_index a \<and>
        (\<forall>j < length (at_entities a). unat (fl_index (nd q)) = j \<longrightarrow> \<not> alive (at_entities a ! j)))"

definition arch_ok :: "(u64 \<Rightarrow> EntityFreeList) \<Rightarrow> u64 list \<Rightarrow> ArcheType \<Rightarrow> bool" where
  "arch_ok nd qs a \<longleftrightarrow> length (at_components a) = ECS_COMP_SIZE \<and> unat (at_componentAmount a) \<le> ECS_COMP_SIZE \<and>
     unat (at_index a) \<le> unat (capacity a) \<and>
     (length (at_entities a) = unat (capacity a) \<or> at_entities a = [] \<and> unat (at_index a) = unat (capacity a)) \<and>
     (\<forall>e \<in> set (at_entities a). entity_ok a e) \<and>
     (\<forall>j < length (at_entities a). unat (at_index a) \<le> j \<longrightarrow> \<not> alive (at_entities a ! j)) \<and>
     free_ok nd qs a"

text \<open>The component types of an archetype.\<close>

definition arch_key :: "ArcheType \<Rightarrow> ComponentTypes list" where
  "arch_key a = take (unat (at_componentAmount a)) (at_components a)"

definition ecs_inv :: "(nat \<Rightarrow> u64 list) \<Rightarrow> ecs \<Rightarrow> bool" where
  "ecs_inv fr s \<longleftrightarrow> length (archeTypes s) = unat (ataCapacity s) \<and> ataIndex s \<le> ataCapacity s \<and>
     (\<forall>i < unat (ataIndex s). arch_ok (ecs_nodes s) (fr i) (archeTypes s ! i)) \<and>
     (\<forall>i < unat (ataIndex s). \<forall>k < unat (ataIndex s). i \<noteq> k \<longrightarrow> set (fr i) \<inter> set (fr k) = {} \<and>
        arch_key (archeTypes s ! i) \<noteq> arch_key (archeTypes s ! k))"

text \<open>The nodes of the free lists in use.\<close>

definition used_nodes :: "(nat \<Rightarrow> u64 list) \<Rightarrow> ecs \<Rightarrow> u64 set" where
  "used_nodes fr s = (\<Union>i < unat (ataIndex s). set (fr i))"

text \<open>Fewer than \<open>10\<^sup>9\<close> archetypes and entities in each: far more than fit in memory.\<close>

definition ecs_small :: "ecs \<Rightarrow> bool" where
  "ecs_small s \<longleftrightarrow> unat (ataCapacity s) \<le> 1000000000 \<and> (\<forall>i < unat (ataIndex s). unat (capacity (archeTypes s ! i)) \<le> 1000000000)"

section \<open>The live entities\<close>

definition live_at :: "ecs \<Rightarrow> nat \<Rightarrow> nat \<Rightarrow> ComponentTypes list option" where
  "live_at s i j =
     (if i < unat (ataIndex s) \<and> j < unat (at_index (archeTypes s ! i)) \<and> j < length (at_entities (archeTypes s ! i)) \<and>
         alive (at_entities (archeTypes s ! i) ! j)
      then Some (let e = at_entities (archeTypes s ! i) ! j in take (unat (en_componentAmount e)) (componentTypes e))
      else None)"

text \<open>What \<open>EcsGetEntity\<close> finds: the component types of the entity a handle refers to.\<close>

definition live_of :: "ecs \<Rightarrow> Handle \<Rightarrow> ComponentTypes list option" where
  "live_of s h = (case EcsGetEntity h s of
      Some (Inr loc) \<Rightarrow> Some (take (unat (en_componentAmount (entity_at s loc))) (componentTypes (entity_at s loc)))
    | _ \<Rightarrow> None)"

lemma unat_lt_2p32: "unat (x :: u32) < 4294967296"
  using unsigned_less[of x] by simp

lemma unat_u32_u64 [simp]: "unat (ucast (x :: u32) :: u64) = unat x"
  using unat_lt_2p32[of x] by (simp add: unsigned_ucast_eq take_bit_eq_mod)

lemma live_of_at: "EcsDecodeHandle h = (a, e) \<Longrightarrow> live_of s h = live_at s (unat a) (unat e)"
  by (auto simp: live_of_def EcsGetEntity_def live_at_def Let_def entity_at_def word_le_nat_alt not_le)

lemma EcsGetEntity_Inr:
  assumes "EcsGetEntity h s = Some (Inr (i, j))"
  shows "i < unat (ataIndex s)" "j < unat (at_index (archeTypes s ! i))" "j < length (at_entities (archeTypes s ! i))"
    "alive (at_entities (archeTypes s ! i) ! j)" "EcsDecodeHandle h = (of_nat i, of_nat j)"
    "i < 4294967296" "j < 4294967296"
  using assms unat_lt_2p32[of "fst (EcsDecodeHandle h)"] unat_lt_2p32[of "snd (EcsDecodeHandle h)"]
  by (auto simp: EcsGetEntity_def Let_def word_le_nat_alt not_le split: prod.splits if_splits)

text \<open>A change of one archetype that keeps the rest.\<close>

lemma live_at_cong:
  assumes "ataIndex s' = ataIndex s" and "archeTypes s' = (archeTypes s)[i := a]" and "i < length (archeTypes s)"
  shows "live_at s' k j = (if k = i then
      (if i < unat (ataIndex s) \<and> j < unat (at_index a) \<and> j < length (at_entities a) \<and> alive (at_entities a ! j)
       then Some (take (unat (en_componentAmount (at_entities a ! j))) (componentTypes (at_entities a ! j))) else None)
      else live_at s k j)"
  using assms by (auto simp: live_at_def Let_def)

lemma ecs_invD:
  assumes "ecs_inv fr s"
  shows "length (archeTypes s) = unat (ataCapacity s)" "unat (ataIndex s) \<le> unat (ataCapacity s)"
    "\<And>i. i < unat (ataIndex s) \<Longrightarrow> arch_ok (ecs_nodes s) (fr i) (archeTypes s ! i)"
    "\<And>i. i < unat (ataIndex s) \<Longrightarrow> i < length (archeTypes s)"
  using assms by (auto simp: ecs_inv_def word_le_nat_alt)

lemma ecs_inv_upd:
  assumes "ecs_inv fr s" and "i < unat (ataIndex s)" and "ataIndex s' = ataIndex s" and "ataCapacity s' = ataCapacity s"
    and "archeTypes s' = (archeTypes s)[i := a]" and "arch_key a = arch_key (archeTypes s ! i)"
    and "arch_ok (ecs_nodes s') qs a"
    and "\<And>k. k < unat (ataIndex s) \<Longrightarrow> k \<noteq> i \<Longrightarrow> arch_ok (ecs_nodes s') (fr k) (archeTypes s ! k)"
    and "\<And>k. k < unat (ataIndex s) \<Longrightarrow> k \<noteq> i \<Longrightarrow> set qs \<inter> set (fr k) = {}"
  shows "ecs_inv (fr(i := qs)) s'"
proof -
  have len: "i < length (archeTypes s)" using ecs_invD(4)[OF assms(1,2)] .
  have "arch_ok (ecs_nodes s') ((fr(i := qs)) k) (archeTypes s' ! k)" if "k < unat (ataIndex s)" for k
    using assms(5,7) assms(8)[OF that] len by (cases "k = i") simp_all
  moreover have "arch_key (archeTypes s' ! k) = arch_key (archeTypes s ! k)" for k
    using assms(5,6) len by (cases "k = i") simp_all
  moreover have "set ((fr(i := qs)) k) \<inter> set ((fr(i := qs)) l) = {}"
    if "k < unat (ataIndex s)" "l < unat (ataIndex s)" "k \<noteq> l" for k l
    using assms(1) assms(9)[OF that(1)] assms(9)[OF that(2)] that by (auto simp: ecs_inv_def)
  ultimately show ?thesis
    using assms(1) by (simp add: ecs_inv_def assms(3-5))
qed

section \<open>Finding the archetype\<close>

lemma length_grown [simp]: "length (grown z n xs) = max n (length xs) - (length xs - n)"
  by (auto simp: grown_def)

lemma grown_longer:
  assumes "length xs \<le> n"
  shows "length (grown z n xs) = n" "j < length xs \<Longrightarrow> grown z n xs ! j = xs ! j"
    "length xs \<le> j \<Longrightarrow> j < n \<Longrightarrow> grown z n xs ! j = z" "set (grown z n xs) \<subseteq> insert z (set xs)"
  using assms by (auto simp: grown_def nth_append)

lemma unat_next_capacity:
  "unat c \<le> 1000000000 \<Longrightarrow> unat (next_capacity c) = (if c = 0 then 15 else 3 * unat c)"
  by (simp add: next_capacity_def unat_mult_no_wrap)

lemma grow_archetypes_Inr:
  assumes "ecs_inv fr s" and "ecs_small s" and "grow_archetypes s = Some (Inr s')"
  shows "ecs_inv fr s' \<and> ataIndex s' = ataIndex s \<and> ataIndex s' < ataCapacity s' \<and> ecs_nodes s' = ecs_nodes s \<and>
    unat (ataCapacity s') \<le> 3000000000 \<and> (\<forall>i < unat (ataIndex s). archeTypes s' ! i = archeTypes s ! i)"
proof (cases "ataIndex s < ataCapacity s")
  case True
  then show ?thesis using assms by (simp add: grow_archetypes_def ecs_small_def)
next
  case False
  note I = ecs_invD[OF assms(1)]
  have full: "ataIndex s = ataCapacity s" using False I(2) by (simp add: word_unat_eq_iff word_less_nat_alt)
  let ?n = "unat (next_capacity (ataCapacity s))"
  have n: "length (archeTypes s) < ?n"
    using assms(2) I(1) by (simp add: unat_next_capacity ecs_small_def word_unat_eq_iff split: if_splits)
  have s': "archeTypes s' = grown zero_archetype ?n (archeTypes s)" "ataIndex s' = ataIndex s"
    "ataCapacity s' = next_capacity (ataCapacity s)" "ecs_nodes s' = ecs_nodes s"
    using assms(3) False by (auto simp: grow_archetypes_def Let_def ecs_print_def set_pm_def Option.bind_eq_Some_conv split: if_splits)
  have same: "archeTypes s' ! i = archeTypes s ! i" if "i < unat (ataIndex s)" for i
    using grown_longer(2)[of "archeTypes s" ?n i] n I(4)[OF that] by (simp add: s')
  have "ecs_inv fr s'"
    using assms(1) n I(1) full same grown_longer(1)[of "archeTypes s" ?n]
    by (simp add: ecs_inv_def s' word_le_nat_alt)
  moreover have "?n \<le> 3000000000" using assms(2) by (simp add: unat_next_capacity ecs_small_def)
  ultimately show ?thesis using s' same n I(1) full by (simp add: word_less_nat_alt)
qed

lemma length_arch_key: "arch_ok nd qs a \<Longrightarrow> length (arch_key a) = unat (at_componentAmount a)"
  by (simp add: arch_key_def arch_ok_def)

lemma same_archetype_key:
  assumes "arch_ok nd qs a"
  shows "same_archetype components n a \<longleftrightarrow> arch_key a = map components [0..<unat n]"
proof (cases "at_componentAmount a = n")
  case True
  have "length (at_components a) = ECS_COMP_SIZE" "unat n \<le> ECS_COMP_SIZE" using assms True by (auto simp: arch_ok_def)
  then show ?thesis
    using True by (auto simp: same_archetype_def EcsCompareComponents_def arch_key_def list_eq_iff_nth_eq list_all_iff)
next
  case False
  then have "length (arch_key a) \<noteq> unat n" using length_arch_key[OF assms] by (simp add: word_unat_eq_iff)
  then show ?thesis using False by (auto simp: same_archetype_def dest: arg_cong[where f = length])
qed

lemma arch_ok_new:
  assumes "unat n \<le> ECS_COMP_SIZE"
  shows "arch_ok nd [] (new_archetype components n)" "arch_key (new_archetype components n) = map components [0..<unat n]"
    "at_entities (new_archetype components n) = []" "at_index (new_archetype components n) = 0"
    "capacity (new_archetype components n) = 0" "at_componentAmount (new_archetype components n) = n"
  using assms by (simp_all add: arch_ok_def free_ok_def new_archetype_def zero_archetype_def arch_key_def)

lemma EcsGetArcheType_result:
  assumes "ecs_inv fr s" and "ecs_small s" and "EcsGetArcheType components n s = Some (Inr (i, s'))"
  obtains fr' where "ecs_inv fr' s'" "i < unat (ataIndex s')" "arch_key (archeTypes s' ! i) = map components [0..<unat n]"
    "at_componentAmount (archeTypes s' ! i) = n" "live_at s' = live_at s" "ecs_nodes s' = ecs_nodes s"
    "used_nodes fr' s' = used_nodes fr s" "unat (capacity (archeTypes s' ! i)) \<le> 1000000000" "unat n \<le> ECS_COMP_SIZE"
    "unat (ataIndex s') \<le> 3000000000"
proof -
  obtain s1 where g: "grow_archetypes s = Some (Inr s1)"
    using assms(3) by (cases "grow_archetypes s"; cases "the (grow_archetypes s)") (auto simp: EcsGetArcheType_def)
  from grow_archetypes_Inr[OF assms(1,2) g] have s1: "ecs_inv fr s1" "ataIndex s1 = ataIndex s" "ataIndex s1 < ataCapacity s1"
    "ecs_nodes s1 = ecs_nodes s" "unat (ataCapacity s1) \<le> 3000000000" "\<And>i. i < unat (ataIndex s) \<Longrightarrow> archeTypes s1 ! i = archeTypes s ! i" by auto
  note I = ecs_invD[OF s1(1)]
  have live1: "live_at s1 = live_at s" using s1(2,6) by (auto simp: live_at_def fun_eq_iff Let_def)
  let ?test = "\<lambda>i. same_archetype components n (archeTypes s1 ! i)"
  show ?thesis
  proof (cases "find ?test [0..<unat (ataIndex s1)]")
    case (Some k)
    then have k: "k < unat (ataIndex s1)" "?test k" by (auto simp: find_Some_iff)
    have eq: "i = k" "s' = s1" using assms(3) g Some by (auto simp: EcsGetArcheType_def)
    have "at_componentAmount (archeTypes s1 ! k) = n" using k(2) by (simp add: same_archetype_def)
    moreover from this have "unat n \<le> ECS_COMP_SIZE" using I(3)[OF k(1)] by (simp add: arch_ok_def)
    moreover have "unat (capacity (archeTypes s1 ! k)) \<le> 1000000000"
      using assms(2) k(1) s1(2,6) by (simp add: ecs_small_def)
    moreover have "unat (ataIndex s1) \<le> 3000000000" using I(2) s1(5) by linarith
    ultimately show ?thesis
      using that[of fr] s1(1,4) k live1 s1(2) same_archetype_key[OF I(3)[OF k(1)]] by (simp add: eq used_nodes_def)
  next
    case None
    then have no: "\<not> ?test k" if "k < unat (ataIndex s1)" for k using that by (auto simp: find_None_iff)
    let ?p = "unat (ataIndex s1)"
    let ?a = "new_archetype components n"
    have n: "unat n \<le> ECS_COMP_SIZE" and i: "i = ?p"
      and s': "s' = (upd_type ?p (\<lambda>_. ?a) s1)\<lparr>ataIndex := ataIndex s1 + 1\<rparr>"
      using assms(3) g None by (auto simp: EcsGetArcheType_def Let_def upd_type_def split: if_splits)
    have len: "?p < length (archeTypes s1)" using s1(3) I(1) by (simp add: word_less_nat_alt)
    have idx: "unat (ataIndex s') = Suc ?p"
      using s1(3) unat_lt_2p64[of "ataCapacity s1"]
      by (simp add: s' unat_add_no_wrap word_less_nat_alt)
    have at: "archeTypes s' ! k = (if k = ?p then ?a else archeTypes s1 ! k)" for k
      using len by (simp add: s' upd_type_def)
    have nd: "ecs_nodes s' = ecs_nodes s1" "ataCapacity s' = ataCapacity s1" "length (archeTypes s') = length (archeTypes s1)"
      by (simp_all add: s' upd_type_def)
    have key: "arch_key (archeTypes s1 ! k) \<noteq> arch_key ?a" if "k < ?p" for k
      using no[OF that] same_archetype_key[OF I(3)[OF that]] arch_ok_new(2)[OF n] by simp
    have "ecs_inv (fr(?p := [])) s'"
      unfolding ecs_inv_def
    proof (intro conjI allI impI)
      show "length (archeTypes s') = unat (ataCapacity s')" using nd I(1) by simp
      show "ataIndex s' \<le> ataCapacity s'" using idx s1(3) by (simp add: word_le_nat_alt word_less_nat_alt nd)
    next
      fix k assume "k < unat (ataIndex s')"
      then have "k = ?p \<or> k < ?p" using idx by auto
      then show "arch_ok (ecs_nodes s') ((fr(?p := [])) k) (archeTypes s' ! k)"
        using I(3)[of k] arch_ok_new(1)[OF n] by (auto simp: at nd)
    next
      fix k l assume "k < unat (ataIndex s')" "l < unat (ataIndex s')" "k \<noteq> l"
      moreover from this have "(k = ?p \<or> k < ?p) \<and> (l = ?p \<or> l < ?p)" using idx by auto
      ultimately show "set ((fr(?p := [])) k) \<inter> set ((fr(?p := [])) l) = {}"
        "arch_key (archeTypes s' ! k) \<noteq> arch_key (archeTypes s' ! l)"
        using s1(1) key[of k] key[of l] by (auto simp: ecs_inv_def at)
    qed
    moreover have "live_at s' = live_at s"
      using idx arch_ok_new(4)[OF n] by (auto simp: live1[symmetric] live_at_def fun_eq_iff at Let_def less_Suc_eq)
    moreover have "used_nodes (fr(?p := [])) s' = used_nodes fr s"
    proof -
      have "{..<unat (ataIndex s')} = insert ?p {..<?p}" using idx by auto
      then show ?thesis by (simp add: used_nodes_def s1(2))
    qed
    moreover have "Suc ?p \<le> 3000000000" using s1(3,5) by (simp add: word_less_nat_alt)
    ultimately show ?thesis
      using that[of "fr(?p := [])"] arch_ok_new[OF n] n idx by (simp add: i at nd s1(4))
  qed
qed

section \<open>Making grew\<close>

lemma zero_entity_ok: "entity_ok a zero_entity" "\<not> alive zero_entity"
  by (simp_all add: entity_ok_def zero_entity_def)

lemma arch_fits_next:
  assumes "arch_ok nd qs a" and "unat (capacity a) \<le> 1000000000"
  shows "unat (capacity a) < unat (next_capacity (capacity a))" "length (at_entities a) \<le> unat (next_capacity (capacity a))"
  using assms by (auto simp: arch_ok_def unat_next_capacity word_unat_eq_iff)

text \<open>An archetype whose array has grown, or was lost.\<close>

lemma arch_ok_grown:
  assumes "arch_ok nd qs a" and "capacity a \<le> ucast (at_index a)" and "unat (capacity a) \<le> 1000000000"
    and "a' = a\<lparr>at_array := p, at_entities := grown zero_entity (unat (next_capacity (capacity a))) (at_entities a),
         at_size := m, capacity := next_capacity (capacity a), at_sizeInPages := k\<rparr>"
  shows "arch_ok nd qs a'" "unat (at_index a') < unat (capacity a')" "length (at_entities a') = unat (capacity a')"
    "j < length (at_entities a') \<Longrightarrow> at_entities a' ! j = (if j < length (at_entities a) then at_entities a ! j else zero_entity)"
proof -
  let ?n = "unat (next_capacity (capacity a))"
  have full: "unat (at_index a) = unat (capacity a)" using assms(1,2) by (simp add: arch_ok_def word_le_nat_alt)
  note n = arch_fits_next[OF assms(1,3)]
  note G = grown_longer[OF n(2), where z = zero_entity]
  show at: "at_entities a' ! j = (if j < length (at_entities a) then at_entities a ! j else zero_entity)"
    if "j < length (at_entities a')" for j
    using that G by (simp add: assms(4))
  show "unat (at_index a') < unat (capacity a')" "length (at_entities a') = unat (capacity a')"
    using full n G(1) by (simp_all add: assms(4))
  have ok: "entity_ok a' e \<longleftrightarrow> entity_ok a e" for e by (simp add: entity_ok_def assms(4))
  have "set (at_entities a') \<subseteq> insert zero_entity (set (at_entities a))" using G(4) by (simp add: assms(4))
  then have "\<forall>e \<in> set (at_entities a'). entity_ok a' e"
    using assms(1) zero_entity_ok(1) unfolding ok arch_ok_def by blast
  moreover have "free_ok nd qs a'"
    using assms(1) at zero_entity_ok(2) by (fastforce simp: arch_ok_def free_ok_def assms(4))
  moreover have "\<forall>j < length (at_entities a'). unat (at_index a') \<le> j \<longrightarrow> \<not> alive (at_entities a' ! j)"
    using assms(1) at zero_entity_ok(2) by (auto simp: arch_ok_def assms(4))
  ultimately show "arch_ok nd qs a'"
    using assms(1) full n G(1) by (simp add: arch_ok_def assms(4))
qed

lemma arch_ok_lost:
  assumes "arch_ok nd qs a" and "capacity a \<le> ucast (at_index a)"
  shows "arch_ok nd qs (a\<lparr>at_array := p, at_entities := []\<rparr>)"
  using assms by (auto simp: arch_ok_def free_ok_def word_le_nat_alt)

lemma grow_entities_result:
  assumes "ecs_inv fr s" and "i < unat (ataIndex s)" and "unat (capacity (archeTypes s ! i)) \<le> 1000000000"
    and "grow_entities i s = Some (grew, s')"
  shows "ecs_inv fr s' \<and> ataIndex s' = ataIndex s \<and> ecs_nodes s' = ecs_nodes s \<and>
    arch_key (archeTypes s' ! i) = arch_key (archeTypes s ! i) \<and>
    at_componentAmount (archeTypes s' ! i) = at_componentAmount (archeTypes s ! i) \<and>
    (if grew then unat (at_index (archeTypes s' ! i)) < unat (capacity (archeTypes s' ! i)) \<and>
         length (at_entities (archeTypes s' ! i)) = unat (capacity (archeTypes s' ! i)) \<and>
         unat (capacity (archeTypes s' ! i)) \<le> 3000000000 \<and> live_at s' = live_at s
     else at_array (archeTypes s' ! i) = NULL \<and> at_entities (archeTypes s' ! i) = [] \<and> live_at s' = (live_at s)(i := \<lambda>_. None))"
proof -
  note I = ecs_invD[OF assms(1)]
  let ?a = "archeTypes s ! i"
  note a = I(3)[OF assms(2)]
  note len = I(4)[OF assms(2)]
  have disj: "set (fr i) \<inter> set (fr k) = {}" if "k < unat (ataIndex s)" "k \<noteq> i" for k
    using assms(1,2) that by (auto simp: ecs_inv_def)
  show ?thesis
  proof (cases "ucast (at_index ?a) < capacity ?a")
    case True
    then have "grew" "s' = s" using assms(4) by (simp_all add: grow_entities_def)
    with True assms(1,3) a show ?thesis by (auto simp: arch_ok_def word_less_nat_alt)
  next
    case False
    then have f: "capacity ?a \<le> ucast (at_index ?a)" by simp
    obtain p pm where s': "s' = (if p = NULL then upd_type i (\<lambda>a. a\<lparr>at_entities := []\<rparr>) else
          upd_type i (\<lambda>a. a\<lparr>at_entities := grown zero_entity (unat (next_capacity (capacity ?a))) (at_entities a),
            at_size := next_capacity (capacity ?a) * SIZEOF_ENTITY, capacity := next_capacity (capacity ?a),
            at_sizeInPages := pages_for (next_capacity (capacity ?a) * SIZEOF_ENTITY)\<rparr>))
          (upd_type i (\<lambda>a. a\<lparr>at_array := p\<rparr>) (set_pm pm (ecs_print TERM_STATUS_INFO ''ataCapacity is %d, ataIndex is %d''
             [ataCapacity s, ataIndex s] (ecs_print TERM_STATUS_INFO ''Expanding Entity Array in Archetype'' [] s))))"
      and grew: "grew \<longleftrightarrow> p \<noteq> NULL"
      using assms(4) False
      by (auto simp: grow_entities_def Let_def ecs_print_def Option.bind_eq_Some_conv split: if_splits)
    let ?b = "if p = NULL then ?a\<lparr>at_array := p, at_entities := []\<rparr>
       else ?a\<lparr>at_array := p, at_entities := grown zero_entity (unat (next_capacity (capacity ?a))) (at_entities ?a),
         at_size := next_capacity (capacity ?a) * SIZEOF_ENTITY, capacity := next_capacity (capacity ?a),
         at_sizeInPages := pages_for (next_capacity (capacity ?a) * SIZEOF_ENTITY)\<rparr>"
    note G = arch_ok_grown[OF a f assms(3) refl, where p = p and m = "next_capacity (capacity ?a) * SIZEOF_ENTITY"
        and k = "pages_for (next_capacity (capacity ?a) * SIZEOF_ENTITY)"]
    have ty: "archeTypes s' = (archeTypes s)[i := ?b]"
      using len by (simp add: s' upd_type_def set_pm_def ecs_print_def)
    have same: "ataIndex s' = ataIndex s" "ataCapacity s' = ataCapacity s" "ecs_nodes s' = ecs_nodes s"
      by (simp_all add: s' upd_type_def set_pm_def ecs_print_def)
    have ok: "arch_ok (ecs_nodes s) (fr i) ?b" using G(1) arch_ok_lost[OF a f] by simp
    have "ecs_inv (fr(i := fr i)) s'"
      by (rule ecs_inv_upd[OF assms(1,2) same(1,2) ty]) (simp_all add: arch_key_def same(3) ok I(3) disj)
    moreover have "archeTypes s' ! i = ?b" using len by (simp add: ty)
    moreover have "live_at s' = live_at s" if "p \<noteq> NULL"
    proof -
      have "live_at s' k j = live_at s k j" for k j
        using G(4)[of j] arch_fits_next(2)[OF a assms(3)] zero_entity_ok(2) a
        unfolding live_at_cong[OF same(1) ty len]
        by (auto simp: that live_at_def Let_def arch_ok_def split: if_splits)
      then show ?thesis by blast
    qed
    moreover have "live_at s' = (live_at s)(i := \<lambda>_. None)" if "p = NULL"
      using that by (auto simp: fun_eq_iff live_at_cong[OF same(1) ty len])
    moreover have "unat (next_capacity (capacity ?a)) \<le> 3000000000" using assms(3) by (simp add: unat_next_capacity)
    ultimately show ?thesis using same grew G(2,3) by (simp add: arch_key_def)
  qed
qed

section \<open>Taking a slot\<close>

lemma take_index_result:
  assumes "ecs_inv fr s" and "i < unat (ataIndex s)" and "unat (at_index (archeTypes s ! i)) < unat (capacity (archeTypes s ! i))"
    and "length (at_entities (archeTypes s ! i)) = unat (capacity (archeTypes s ! i))"
    and "unat (capacity (archeTypes s ! i)) \<le> 3000000000" and "take_index i s = Some (n, s')"
  obtains a qs where "archeTypes s' = (archeTypes s)[i := a]" "ataIndex s' = ataIndex s" "ataCapacity s' = ataCapacity s"
    "ecs_nodes s' = ecs_nodes s" "arch_ok (ecs_nodes s) qs a" "set qs \<subseteq> set (fr i)"
    "\<forall>q \<in> set qs. unat (fl_index (ecs_nodes s q)) \<noteq> unat n" "unat n < unat (at_index a)"
    "at_entities a = at_entities (archeTypes s ! i)" "unat n < length (at_entities a)" "\<not> alive (at_entities a ! unat n)"
    "arch_key a = arch_key (archeTypes s ! i)" "at_componentAmount a = at_componentAmount (archeTypes s ! i)"
    "at_components a = at_components (archeTypes s ! i)"
    "unat n < 4294967296" "unat (at_index (archeTypes s ! i)) \<le> unat (at_index a)" "capacity a = capacity (archeTypes s ! i)"
proof -
  note I = ecs_invD[OF assms(1)]
  let ?a = "archeTypes s ! i"
  note a = I(3)[OF assms(2)]
  note len = I(4)[OF assms(2)]
  have fl: "free_ok (ecs_nodes s) (fr i) ?a" using a by (simp add: arch_ok_def)
  show ?thesis
  proof (cases "initial ?a = NULL")
    case True
    let ?b = "?a\<lparr>at_index := at_index ?a + 1\<rparr>"
    have s': "s' = upd_type i (\<lambda>_. ?b) s" and n: "n = ucast (at_index ?a)"
      using assms(6) True by (auto simp: take_index_def Let_def upd_type_def)
    have nil: "fr i = []" using fl True by (cases "fr i") (auto simp: free_ok_def)
    have "unat (at_index ?a + 1) = Suc (unat (at_index ?a))"
      using assms(3,5) by (simp add: unat_word_ariths)
    moreover from this have "arch_ok (ecs_nodes s) [] ?b"
      using a assms(3) fl True by (auto simp: arch_ok_def free_ok_def nil entity_ok_def)
    moreover have "\<not> alive (at_entities ?a ! unat (at_index ?a))" using a assms(3,4) by (simp add: arch_ok_def)
    ultimately show ?thesis
      using that[of ?b "[]"] assms(3,4) unat_lt_2p32[of "at_index ?a"] by (simp add: s' n upd_type_def arch_key_def)
  next
    case False
    then obtain q qs where fr: "fr i = q # qs" using fl by (cases "fr i") (auto simp: free_ok_def)
    have q: "initial ?a = q" "q \<noteq> NULL" "fl_path (ecs_nodes s) (fl_next (ecs_nodes s q)) qs" using fl fr by (auto simp: free_ok_def)
    let ?b = "?a\<lparr>initial := fl_next (ecs_nodes s q)\<rparr>"
    obtain r g where s': "s' = (upd_type i (\<lambda>_. ?b) (ecs_print TERM_STATUS_INFO ''reusing deleted entity..'' [] s))\<lparr>ecs_ga := g\<rparr>"
      and n: "n = ucast (fl_index (ecs_nodes s q))"
      using assms(6) q False
      by (auto simp: take_index_def Let_def upd_type_def ecs_print_def Option.bind_eq_Some_conv)
    let ?j = "unat (fl_index (ecs_nodes s q))"
    have j: "?j < unat (at_index ?a)" using fl fr by (simp add: free_ok_def word_less_nat_alt)
    then have dead: "?j < length (at_entities ?a)" "\<not> alive (at_entities ?a ! ?j)"
      using fl fr assms(3,4) by (auto simp: free_ok_def)
    have "arch_ok (ecs_nodes s) qs ?b"
      using a fl fr q(3) by (auto simp: arch_ok_def free_ok_def entity_ok_def)
    moreover have "\<forall>r \<in> set qs. fl_index (ecs_nodes s r) \<noteq> fl_index (ecs_nodes s q)"
      using fl fr by (auto simp: free_ok_def image_iff)
    ultimately show ?thesis
      using that[of ?b qs] j dead fr unat_lt_2p32[of "fl_index (ecs_nodes s q)"]
      by (auto simp: s' n upd_type_def ecs_print_def arch_key_def word_unat_eq_iff)
  qed
qed

section \<open>Creating an entity\<close>

lemma fill_components_result:
  assumes "fill_components components sizes is e g = Some (ok, e', g')"
    and "length (componentTypes e) = ECS_COMP_SIZE" and "length (en_components e) = ECS_COMP_SIZE"
  shows "length (componentTypes e') = ECS_COMP_SIZE \<and> length (en_components e') = ECS_COMP_SIZE \<and>
    en_componentAmount e' = en_componentAmount e \<and> alive e' = alive e \<and>
    (ok \<longrightarrow> (\<forall>i \<in> set is. i < ECS_COMP_SIZE) \<and>
       (\<forall>i. componentTypes e' ! i = (if i \<in> set is then components i else componentTypes e ! i)))"
  using assms
proof (induction "is" arbitrary: e g)
  case Nil
  then show ?case by auto
next
  case (Cons i "is")
  obtain p ar g1 where push: "MmPushMemoryFromArena (en_arena e) (sizes (components i)) g = (p, ar, g1)" by (metis prod_cases3)
  let ?e1 = "e\<lparr>componentTypes := (componentTypes e)[i := components i], en_arena := ar, en_components := (en_components e)[i := p]\<rparr>"
  have i: "i < ECS_COMP_SIZE" using Cons.prems(1) by (auto split: if_splits)
  show ?case
  proof (cases "p = NULL")
    case True
    then show ?thesis using Cons.prems push i by auto
  next
    case False
    then have "fill_components components sizes is ?e1 g1 = Some (ok, e', g')" using Cons.prems(1) push i by simp
    from Cons.IH[OF this] show ?thesis using Cons.prems(2,3) i by (auto simp: nth_list_update)
  qed
qed

lemma arch_ok_set_entity:
  assumes "arch_ok nd qs a" and "entity_ok a e" and "j < unat (at_index a)" and "\<forall>q \<in> set qs. unat (fl_index (nd q)) \<noteq> j"
  shows "arch_ok nd qs (a\<lparr>at_entities := (at_entities a)[j := e]\<rparr>)"
proof -
  let ?b = "a\<lparr>at_entities := (at_entities a)[j := e]\<rparr>"
  have "entity_ok ?b x \<longleftrightarrow> entity_ok a x" for x by (simp add: entity_ok_def)
  moreover have "set (at_entities ?b) \<subseteq> insert e (set (at_entities a))" by (simp add: set_update_subset_insert)
  ultimately have "\<forall>x \<in> set (at_entities ?b). entity_ok ?b x"
    using assms(1,2) unfolding arch_ok_def by blast
  then show ?thesis
    using assms by (auto simp: arch_ok_def free_ok_def nth_list_update)
qed

text \<open>What a creation that reaches the entity does: the slot, and whether all components were given to it.\<close>

lemma EcsCreateEntity_result:
  assumes "ecs_inv fr s" and "ecs_small s" and "EcsCreateEntity components m s = Some (Inr (st, ho, s'))"
  obtains (success) fr' h where "st = STATUS_SUCCESS" "ho = Some h" "ecs_inv fr' s'" "live_of s h = None"
    "live_of s' = (live_of s)(h \<mapsto> map components [0..<unat m])" "used_nodes fr' s' \<subseteq> used_nodes fr s" "unat m \<le> ECS_COMP_SIZE"
  | (no_component) fr' where "st = STATUS_OUT_OF_MEMORY" "ho = None" "ecs_inv fr' s'" "live_of s' = live_of s"
    "used_nodes fr' s' \<subseteq> used_nodes fr s"
  | (lost) fr' i where "st = STATUS_OUT_OF_MEMORY" "ho = None" "ecs_inv fr' s'" "used_nodes fr' s' \<subseteq> used_nodes fr s"
    "i < unat (ataIndex s')" "arch_key (archeTypes s' ! i) = map components [0..<unat (ucast m :: u8)]"
    "at_array (archeTypes s' ! i) = NULL" "at_entities (archeTypes s' ! i) = []" "live_at s' = (live_at s)(i := \<lambda>_. None)"
proof -
  let ?n = "ucast m :: u8"
  obtain i s1 where g: "EcsGetArcheType components ?n s = Some (Inr (i, s1))"
    using assms(3) by (cases "EcsGetArcheType components ?n s"; cases "the (EcsGetArcheType components ?n s)") (auto simp: EcsCreateEntity_def)
  obtain fr1 where 1: "ecs_inv fr1 s1" "i < unat (ataIndex s1)" "arch_key (archeTypes s1 ! i) = map components [0..<unat ?n]"
    "at_componentAmount (archeTypes s1 ! i) = ?n" "live_at s1 = live_at s" "ecs_nodes s1 = ecs_nodes s"
    "used_nodes fr1 s1 = used_nodes fr s" "unat (capacity (archeTypes s1 ! i)) \<le> 1000000000" "unat ?n \<le> ECS_COMP_SIZE"
    "unat (ataIndex s1) \<le> 3000000000"
    using EcsGetArcheType_result[OF assms(1,2) g] by metis
  obtain grew s2 where e: "grow_entities i s1 = Some (grew, s2)"
    using assms(3) g by (cases "grow_entities i s1") (auto simp: EcsCreateEntity_def)
  note 2 = grow_entities_result[OF 1(1,2,8) e]
  have used2: "used_nodes fr1 s2 = used_nodes fr s" using 2 1(7) by (simp add: used_nodes_def)
  show ?thesis
  proof (cases grew)
    case False
    then have "st = STATUS_OUT_OF_MEMORY" "ho = None" "s' = s2" using assms(3) g e by (auto simp: EcsCreateEntity_def)
    then show ?thesis using lost[of fr1 i] 2 False 1 used2 by simp
  next
    case True
    then have inv2: "ecs_inv fr1 s2" "ataIndex s2 = ataIndex s1" "i < unat (ataIndex s2)"
      and room2: "unat (at_index (archeTypes s2 ! i)) < unat (capacity (archeTypes s2 ! i))"
        "length (at_entities (archeTypes s2 ! i)) = unat (capacity (archeTypes s2 ! i))"
        "unat (capacity (archeTypes s2 ! i)) \<le> 3000000000" "live_at s2 = live_at s1"
        "arch_key (archeTypes s2 ! i) = map components [0..<unat ?n]" "at_componentAmount (archeTypes s2 ! i) = ?n"
      using 2 1 by auto
    obtain x s3 where t: "take_index i s2 = Some (x, s3)"
      using assms(3) g e True by (cases "take_index i s2") (auto simp: EcsCreateEntity_def)
    obtain a qs where 3: "archeTypes s3 = (archeTypes s2)[i := a]" "ataIndex s3 = ataIndex s2" "ataCapacity s3 = ataCapacity s2"
      "ecs_nodes s3 = ecs_nodes s2" "arch_ok (ecs_nodes s2) qs a" "set qs \<subseteq> set (fr1 i)"
      "\<forall>q \<in> set qs. unat (fl_index (ecs_nodes s2 q)) \<noteq> unat x" "unat x < unat (at_index a)"
      "at_entities a = at_entities (archeTypes s2 ! i)" "unat x < length (at_entities a)" "\<not> alive (at_entities a ! unat x)"
      "arch_key a = arch_key (archeTypes s2 ! i)" "at_componentAmount a = at_componentAmount (archeTypes s2 ! i)"
      "unat x < 4294967296" "unat (at_index (archeTypes s2 ! i)) \<le> unat (at_index a)"
      by (rule take_index_result[OF inv2(1,3) room2(1-3) t]) blast
    note len = ecs_invD(4)[OF inv2(1,3)]
    have ai: "archeTypes s3 ! i = a" using len 3(1) by simp
    obtain st1 ar g1 where c: "MmCreateArena (en_arena zero_entity) (EcsGetSizeOfAllComponents components ?n s3) (ecs_ga s3) = Some (st1, ar, g1)"
      using assms(3) g e True t 3(10)
      by (cases "MmCreateArena (en_arena zero_entity) (EcsGetSizeOfAllComponents components ?n s3) (ecs_ga s3)")
        (auto simp: EcsCreateEntity_def ai Let_def)
    let ?e = "zero_entity\<lparr>en_arena := ar, en_componentAmount := ?n\<rparr>"
    let ?fill = "fill_components components (component_size (s3\<lparr>ecs_ga := g1\<rparr>)) [0..<unat m] ?e g1"
    obtain ok e' g2 where f: "?fill = Some (ok, e', g2)"
      using assms(3) g e True t 3(10) c by (cases ?fill) (auto simp: EcsCreateEntity_def ai Let_def)
    have z: "length (componentTypes ?e) = ECS_COMP_SIZE" "length (en_components ?e) = ECS_COMP_SIZE" "\<not> alive ?e"
      by (simp_all add: zero_entity_def)
    note F = fill_components_result[OF f z(1,2)]
    let ?e2 = "if ok then e'\<lparr>alive := True\<rparr> else e'"
    let ?b = "a\<lparr>at_entities := (at_entities a)[unat x := ?e2]\<rparr>"
    have res: "st = (if ok then STATUS_SUCCESS else STATUS_OUT_OF_MEMORY)"
      "ho = (if ok then Some (EcsEncodeHandle (of_nat i) (ucast x)) else None)"
      "archeTypes s' = (archeTypes s3)[i := ?b]" "ataIndex s' = ataIndex s3" "ataCapacity s' = ataCapacity s3" "ecs_nodes s' = ecs_nodes s3"
      using assms(3) g e True t 3(10) c f len
      by (auto simp: EcsCreateEntity_def ai Let_def upd_entity_def upd_type_def 3(1) split: if_splits)
    have bits: "unat (of_nat i :: u32) = i" "unat (ucast x :: u32) = unat x"
      using 1(2,10) 3(14) by (simp_all add: unat_of_nat unsigned_ucast_eq take_bit_eq_mod)
    have comps: "take (unat ?n) (componentTypes e') = map components [0..<unat m] \<and> unat m \<le> ECS_COMP_SIZE \<and> unat ?n = unat m" if ok
    proof -
      have m: "unat m \<le> ECS_COMP_SIZE" using F that by (cases "unat m") (auto simp: ECS_COMP_SIZE_def)
      then have n: "unat ?n = unat m" by (simp add: unsigned_ucast_eq take_bit_eq_mod ECS_COMP_SIZE_def)
      have "take (unat m) (componentTypes e') = map components [0..<unat m]"
        using F that m by (intro nth_equalityI) auto
      with m n show ?thesis by simp
    qed
    have eok: "entity_ok a ?e2"
      using F comps 3(12,13) room2(5,6) by (auto simp: entity_ok_def zero_entity_def arch_key_def)
    have bok: "arch_ok (ecs_nodes s2) qs ?b" by (rule arch_ok_set_entity[OF 3(5) eok 3(8,7)])
    have ty: "archeTypes s' = (archeTypes s2)[i := ?b]" by (simp add: res(3) 3(1))
    have idx: "ataIndex s' = ataIndex s2" "ataCapacity s' = ataCapacity s2" "ecs_nodes s' = ecs_nodes s2"
      by (simp_all add: res 3)
    have disj: "set (fr1 i) \<inter> set (fr1 k) = {}" if "k < unat (ataIndex s2)" "k \<noteq> i" for k
      using inv2 that by (auto simp: ecs_inv_def)
    have inv': "ecs_inv (fr1(i := qs)) s'"
      using 3(6) disj ecs_invD(3)[OF inv2(1)] bok
      by (intro ecs_inv_upd[OF inv2(1,3) idx(1,2) ty]) (auto simp: idx arch_key_def 3(12)[unfolded arch_key_def])
    have used': "used_nodes (fr1(i := qs)) s' \<subseteq> used_nodes fr s"
    proof -
      have "set ((fr1(i := qs)) k) \<subseteq> set (fr1 k)" for k using 3(6) by simp
      then show ?thesis unfolding used2[symmetric] unfolding used_nodes_def idx by (intro UN_mono) simp_all
    qed
    have live: "live_at s' k j = (if k = i \<and> j = unat x \<and> ok then Some (map components [0..<unat m]) else live_at s k j)" for k j
    proof -
      have "live_at s2 i j = (if j < unat (at_index a) \<and> j < length (at_entities a) \<and> alive (at_entities a ! j)
          then Some (take (unat (en_componentAmount (at_entities a ! j))) (componentTypes (at_entities a ! j))) else None)"
        using inv2 room2(1,2) ecs_invD(3)[OF inv2(1,3)] 3(15) by (auto simp: live_at_def Let_def 3(9) arch_ok_def)
      moreover have "en_componentAmount e' = ?n" "\<not> alive e'" using F z(3) by simp_all
      ultimately show ?thesis
        using comps inv2(3) 3(8,10,11) room2(4) 1(5)
        unfolding live_at_cong[OF idx(1) ty len]
        by (cases "j = unat x") (auto simp: zero_entity_def)
    qed
    have live_h: "live_of s' h = (if h = EcsEncodeHandle (of_nat i) (ucast x) \<and> ok then Some (map components [0..<unat m]) else live_of s h)" for h
    proof -
      obtain u v where uv: "EcsDecodeHandle h = (u, v)" by force
      then have "h = EcsEncodeHandle (of_nat i) (ucast x) \<longleftrightarrow> u = of_nat i \<and> v = ucast x"
        using encode_decode[OF uv] by (metis decode_encode prod.inject)
      also have "\<dots> \<longleftrightarrow> unat u = i \<and> unat v = unat x" using bits by (metis word_unat_eq_iff)
      finally show ?thesis using live by (simp add: live_of_at[OF uv])
    qed
    have dead: "live_of s (EcsEncodeHandle (of_nat i) (ucast x)) = None"
    proof -
      have "live_at s2 i (unat x) = None" using 3(11) by (simp add: live_at_def 3(9)[symmetric])
      then show ?thesis using room2(4) 1(5) bits by (simp add: live_of_at[OF decode_encode])
    qed
    show ?thesis
    proof (cases ok)
      case True
      then show ?thesis
        using success[of "EcsEncodeHandle (of_nat i) (ucast x)"] res(1,2) inv' used' dead comps live_h by (simp add: fun_eq_iff)
    next
      case False
      then show ?thesis using no_component res(1,2) inv' used' live_h by (simp add: fun_eq_iff)
    qed
  qed
qed

section \<open>Deleting an entity\<close>

lemma fl_path_last:
  assumes "fl_path nd p (q # qs)" and "distinct (q # qs)" and "n \<notin> set (q # qs)" and "n \<noteq> NULL" and "fl_next x = NULL"
    and "fl_next (f (nd (last (q # qs)))) = n"
  shows "fl_path (nd(n := x, last (q # qs) := f (nd (last (q # qs))))) p ((q # qs) @ [n])"
  using assms
proof (induction qs arbitrary: p q)
  case Nil
  then show ?case by auto
next
  case (Cons r rs)
  have "last (q # r # rs) = last (r # rs)" by simp
  moreover have "q \<noteq> last (r # rs)" using Cons.prems(2) by auto
  ultimately show ?case using Cons.IH[of "fl_next (nd q)" r] Cons.prems by auto
qed

lemma fl_path_cong:
  "(\<And>q. q \<in> set qs \<Longrightarrow> fl_next (nd q) = fl_next (nd' q)) \<Longrightarrow> fl_path nd p qs = fl_path nd' p qs"
  by (induction qs arbitrary: p) auto

lemma arch_ok_cong:
  assumes "\<And>q. q \<in> set qs \<Longrightarrow> nd q = nd' q"
  shows "arch_ok nd qs a \<longleftrightarrow> arch_ok nd' qs a"
proof -
  have "distinct (map (fl_index \<circ> nd) qs) = distinct (map (fl_index \<circ> nd') qs)"
    using assms by (intro arg_cong[where f = distinct]) simp
  then show ?thesis using assms fl_path_cong[of qs nd nd' "initial a"] by (auto simp: arch_ok_def free_ok_def)
qed

text \<open>The archetype after \<open>append_free_node\<close> has put a new node for the dead slot \<open>j\<close> at the end of its free list.\<close>

lemma free_ok_append:
  assumes "free_ok nd qs a" and "n \<noteq> NULL" and "n \<notin> set qs" and "j < at_index a"
    and "unat j < length (at_entities a)" and "\<not> alive (at_entities a ! unat j)"
    and "\<forall>q \<in> set qs. fl_index (nd q) \<noteq> j"
    and "nd' = (if qs = [] then nd(n := \<lparr>fl_index = j, fl_next = NULL\<rparr>)
                else nd(n := \<lparr>fl_index = j, fl_next = NULL\<rparr>, last qs := (nd (last qs))\<lparr>fl_next := n\<rparr>))"
  shows "free_ok nd' (qs @ [n]) (if qs = [] then a\<lparr>initial := n, freeList := n\<rparr> else a\<lparr>freeList := n\<rparr>)"
proof -
  have idx: "fl_index (nd' q) = (if q = n then j else fl_index (nd q))" if "q \<in> insert n (set qs)" for q
    using assms(3,8) that by auto
  have "fl_path nd' (initial (if qs = [] then a\<lparr>initial := n, freeList := n\<rparr> else a\<lparr>freeList := n\<rparr>)) (qs @ [n])"
  proof (cases qs)
    case Nil
    then show ?thesis using assms(2,8) by simp
  next
    case (Cons q qs')
    have "fl_path (nd(n := \<lparr>fl_index = j, fl_next = NULL\<rparr>, last (q # qs') := (\<lambda>y. y\<lparr>fl_next := n\<rparr>) (nd (last (q # qs')))))
        (initial a) ((q # qs') @ [n])"
      using assms(1-3) Cons by (intro fl_path_last) (auto simp: free_ok_def)
    then show ?thesis using Cons assms(8) by simp
  qed
  moreover have "distinct (map (fl_index \<circ> nd') (qs @ [n]))"
  proof -
    have "distinct (map (fl_index \<circ> nd') qs) = distinct (map (fl_index \<circ> nd) qs)"
      using idx assms(3) by (intro arg_cong[where f = distinct]) auto
    moreover have "\<forall>q \<in> set qs. fl_index (nd' q) \<noteq> fl_index (nd' n)" using assms(3,7) by (auto simp: idx)
    ultimately show ?thesis using assms(1) by (auto simp: free_ok_def)
  qed
  moreover have "distinct (qs @ [n])" using assms(1,3) by (simp add: free_ok_def)
  ultimately show ?thesis
    using assms(1,4-6) idx by (auto simp: free_ok_def)
qed

lemma arch_ok_append:
  assumes "arch_ok nd qs a" and "n \<noteq> NULL" and "n \<notin> set qs" and "j < at_index a"
    and "unat j < length (at_entities a)" and "\<not> alive (at_entities a ! unat j)"
    and "\<forall>q \<in> set qs. fl_index (nd q) \<noteq> j"
    and "nd' = (if qs = [] then nd(n := \<lparr>fl_index = j, fl_next = NULL\<rparr>)
                else nd(n := \<lparr>fl_index = j, fl_next = NULL\<rparr>, last qs := (nd (last qs))\<lparr>fl_next := n\<rparr>))"
  shows "arch_ok nd' (qs @ [n]) (if qs = [] then a\<lparr>initial := n, freeList := n\<rparr> else a\<lparr>freeList := n\<rparr>)"
  using free_ok_append[OF _ assms(2-8)] assms(1) by (simp add: arch_ok_def entity_ok_def)

lemma arch_ok_kill:
  assumes "arch_ok nd qs a" and "length (componentTypes e) = ECS_COMP_SIZE" and "length (en_components e) = ECS_COMP_SIZE"
    and "\<not> alive e" and "j < unat (at_index a)"
  shows "arch_ok nd qs (a\<lparr>at_entities := (at_entities a)[j := e]\<rparr>)"
proof -
  let ?b = "a\<lparr>at_entities := (at_entities a)[j := e]\<rparr>"
  have "set (at_entities ?b) \<subseteq> insert e (set (at_entities a))" by (simp add: set_update_subset_insert)
  moreover have "entity_ok a e" using assms(2-4) by (simp add: entity_ok_def)
  moreover have "entity_ok ?b x \<longleftrightarrow> entity_ok a x" for x by (simp add: entity_ok_def)
  ultimately have "\<forall>x \<in> set (at_entities ?b). entity_ok ?b x" using assms(1) unfolding arch_ok_def by blast
  then show ?thesis using assms(1,4,5) by (auto simp: arch_ok_def free_ok_def nth_list_update split: if_splits)
qed

text \<open>The allocator does not hand out a node that is in use when the entity of \<open>h\<close> is deleted.\<close>

definition node_fresh :: "(nat \<Rightarrow> u64 list) \<Rightarrow> Handle \<Rightarrow> ecs \<Rightarrow> bool" where
  "node_fresh fr h s \<longleftrightarrow> (\<forall>loc r ar g p g'. EcsGetEntity h s = Some (Inr loc) \<longrightarrow>
     MmDestroyArena (en_arena (entity_at s loc)) (ecs_ga s) = Some (r, ar, g) \<longrightarrow>
     MmAllocateGeneralMemory SIZEOF_ENTITY_FREE_LIST g = Some (p, g') \<longrightarrow> p \<noteq> NULL \<longrightarrow> p \<notin> used_nodes fr s)"

lemma EcsDeleteEntity_result:
  assumes "ecs_inv fr s" and "EcsDeleteEntity h s = Some (st, s')" and "node_fresh fr h s"
  obtains (deleted) fr' where "live_of s h \<noteq> None" "st = STATUS_SUCCESS \<or> st = STATUS_OUT_OF_MEMORY" "ecs_inv fr' s'"
    "live_of s' = (live_of s)(h := None)" "EcsGetEntity h s' = Some (Inl STATUS_INVALID_ENTITY)"
  | (refused) "live_of s h = None" "st = STATUS_INVALID_HANDLE" "s' = s"
proof -
  consider (none) x where "EcsGetEntity h s = Some (Inl x)" | (some) i j where "EcsGetEntity h s = Some (Inr (i, j))"
  proof -
    obtain y where y: "EcsGetEntity h s = Some y" using assms(2) by (cases "EcsGetEntity h s") (simp_all add: EcsDeleteEntity_def)
    show ?thesis
    proof (cases y)
      case (Inl x)
      then show ?thesis using y none by simp
    next
      case (Inr l)
      then show ?thesis using y some by (cases l) simp
    qed
  qed
  then show ?thesis
  proof cases
    case none
    then have "live_of s h = None" "st = STATUS_INVALID_HANDLE" "s' = s" using assms(2) by (auto simp: EcsDeleteEntity_def live_of_def)
    then show ?thesis by (rule refused)
  next
    case some
    note E = EcsGetEntity_Inr[OF some]
    note I = ecs_invD[OF assms(1)]
    note a = I(3)[OF E(1)]
    note len = I(4)[OF E(1)]
    let ?a = "archeTypes s ! i"
    let ?e = "at_entities ?a ! j"
    have dec: "unat (of_nat i :: u32) = i" "unat (of_nat j :: u32) = j" using E(6,7) by (simp_all add: unat_of_nat)
    have eok: "entity_ok ?a ?e" using a E(3) by (auto simp: arch_ok_def)
    obtain r ar g where d: "MmDestroyArena (en_arena ?e) (ecs_ga s) = Some (r, ar, g)"
      using assms(2) some by (cases "MmDestroyArena (en_arena ?e) (ecs_ga s)") (auto simp: EcsDeleteEntity_def entity_at_def split: if_splits)
    let ?n = "unat (en_componentAmount ?e)"
    let ?e' = "?e\<lparr>en_arena := ar, componentTypes := replicate ?n 0 @ drop ?n (componentTypes ?e), alive := False\<rparr>"
    let ?b = "?a\<lparr>at_entities := (at_entities ?a)[j := ?e']\<rparr>"
    have n10: "?n \<le> ECS_COMP_SIZE" using eok E(4) a by (simp add: entity_ok_def arch_ok_def)
    obtain p g2 where al: "MmAllocateGeneralMemory SIZEOF_ENTITY_FREE_LIST g = Some (p, g2)"
      using assms(2) some d n10
      by (cases "MmAllocateGeneralMemory SIZEOF_ENTITY_FREE_LIST g")
        (auto simp: EcsDeleteEntity_def entity_at_def Let_def upd_entity_def upd_type_def E(5))
    let ?s2 = "(upd_entity i j (\<lambda>_. ?e') (s\<lparr>ecs_ga := g\<rparr>))\<lparr>ecs_ga := g2\<rparr>"
    let ?s3 = "?s2\<lparr>ecs_nodes := (ecs_nodes s)(p := \<lparr>fl_index = of_nat j, fl_next = NULL\<rparr>)\<rparr>"
    have res: "st = (if p = NULL then STATUS_OUT_OF_MEMORY else STATUS_SUCCESS)"
      "s' = (if p = NULL then ?s2 else append_free_node i p ?s3)"
      using assms(2) some d n10 al
      by (auto simp: EcsDeleteEntity_def entity_at_def Let_def upd_entity_def upd_type_def E(5) dec split: if_splits)
    let ?nd = "if p = NULL then ecs_nodes s else if fr i = [] then (ecs_nodes s)(p := \<lparr>fl_index = of_nat j, fl_next = NULL\<rparr>)
      else (ecs_nodes s)(p := \<lparr>fl_index = of_nat j, fl_next = NULL\<rparr>, last (fr i) := (ecs_nodes s (last (fr i)))\<lparr>fl_next := p\<rparr>)"
    let ?c = "if p = NULL then ?b else if fr i = [] then ?b\<lparr>initial := p, freeList := p\<rparr> else ?b\<lparr>freeList := p\<rparr>"
    have fl: "free_ok (ecs_nodes s) (fr i) ?a" using a by (simp add: arch_ok_def)
    have ini: "initial ?a = NULL \<longleftrightarrow> fr i = []" using fl by (cases "fr i") (auto simp: free_ok_def)
    have lst: "fr i \<noteq> [] \<Longrightarrow> freeList ?a = last (fr i)" using fl by (simp add: free_ok_def)
    have free_p: "p \<notin> set (fr k)" if "p \<noteq> NULL" "k < unat (ataIndex s)" for k
    proof -
      have "MmDestroyArena (en_arena (entity_at s (i, j))) (ecs_ga s) = Some (r, ar, g)" using d by (simp add: entity_at_def)
      then have "p \<notin> used_nodes fr s" using assms(3) some al that(1) unfolding node_fresh_def by blast
      then show ?thesis using that(2) by (auto simp: used_nodes_def)
    qed
    have lp: "p \<noteq> NULL \<Longrightarrow> fr i \<noteq> [] \<Longrightarrow> last (fr i) \<noteq> p" using free_p[OF _ E(1)] by (metis last_in_set)
    have st: "archeTypes s' = (archeTypes s)[i := ?c]" "ecs_nodes s' = ?nd" "ataIndex s' = ataIndex s" "ataCapacity s' = ataCapacity s"
      using len ini lst lp by (auto simp: res(2) append_free_node_def upd_entity_def upd_type_def Let_def)
    have dead: "\<not> alive ?e'" "length (componentTypes ?e') = ECS_COMP_SIZE" "length (en_components ?e') = ECS_COMP_SIZE"
      using eok n10 by (simp_all add: entity_ok_def)
    have bok: "arch_ok (ecs_nodes s) (fr i) ?b" using arch_ok_kill[OF a dead(2,3,1) E(2)] .
    have others: "last (fr i) \<notin> set (fr k)" if "fr i \<noteq> []" "k < unat (ataIndex s)" "k \<noteq> i" for k
    proof -
      have "set (fr i) \<inter> set (fr k) = {}" using assms(1) E(1) that by (auto simp: ecs_inv_def)
      moreover have "last (fr i) \<in> set (fr i)" using that(1) by simp
      ultimately show ?thesis by blast
    qed
    have disj: "set (fr i) \<inter> set (fr k) = {}" if "k < unat (ataIndex s)" "k \<noteq> i" for k
      using assms(1) E(1) that by (auto simp: ecs_inv_def)
    let ?qs = "if p = NULL then fr i else fr i @ [p]"
    have cok: "arch_ok ?nd ?qs ?c"
    proof (cases "p = NULL")
      case True
      then show ?thesis using bok by simp
    next
      case False
      have "\<forall>q \<in> set (fr i). fl_index (ecs_nodes s q) \<noteq> of_nat j"
        using fl E(3,4) dec(2) by (auto simp: free_ok_def)
      moreover have "(of_nat j :: u32) < at_index ?a" using E(2) dec(2) by (simp add: word_less_nat_alt)
      ultimately have "arch_ok ?nd (fr i @ [p]) ?c"
        unfolding if_not_P[OF False]
        using E(3) dead(1) dec(2) by (intro arch_ok_append[OF bok False free_p[OF False E(1)] _ _ _ _ refl]) simp_all
      then show ?thesis unfolding if_not_P[OF False] .
    qed
    have "ecs_inv (fr(i := ?qs)) s'"
    proof (rule ecs_inv_upd[OF assms(1) E(1) st(3,4,1)])
      show "arch_key ?c = arch_key ?a" by (simp only: arch_key_def) simp
      show "arch_ok (ecs_nodes s') ?qs ?c" unfolding st(2) by (rule cok)
      fix k assume k: "k < unat (ataIndex s)" "k \<noteq> i"
      show "set ?qs \<inter> set (fr k) = {}" using disj[OF k] free_p[OF _ k(1)] by auto
      have "ecs_nodes s' q = ecs_nodes s q" if "q \<in> set (fr k)" for q
      proof -
        have "p = NULL \<or> q \<noteq> p" "fr i = [] \<or> q \<noteq> last (fr i)" using that free_p[OF _ k(1)] others[OF _ k] by blast+
        then show ?thesis unfolding st(2) by fastforce
      qed
      then show "arch_ok (ecs_nodes s') (fr k) (archeTypes s ! k)" using arch_ok_cong[of "fr k" "ecs_nodes s'" "ecs_nodes s"] I(3)[OF k(1)] by simp
    qed
    moreover have live: "live_at s' k l = (if k = i \<and> l = j then None else live_at s k l)" for k l
      using E(1-4) dead(1) unfolding live_at_cong[OF st(3,1) len]
      by (cases "l = j") (auto simp: live_at_def Let_def)
    then have "live_of s' = (live_of s)(h := None)"
    proof -
      have "live_of s' h' = (if h' = h then None else live_of s h')" for h'
      proof -
        obtain u v where uv: "EcsDecodeHandle h' = (u, v)" by force
        have "h' = h \<longleftrightarrow> u = of_nat i \<and> v = of_nat j" using encode_decode[OF uv] encode_decode[OF E(5)] by (metis decode_encode prod.inject)
        also have "\<dots> \<longleftrightarrow> unat u = i \<and> unat v = j" using dec by (metis word_unat_eq_iff)
        finally show ?thesis using live by (simp add: live_of_at[OF uv])
      qed
      then show ?thesis by (simp add: fun_eq_iff)
    qed
    moreover have "EcsGetEntity h s' = Some (Inl STATUS_INVALID_ENTITY)"
    proof -
      have "archeTypes s' ! i = ?c" using len by (simp add: st(1))
      moreover have "\<not> ataIndex s \<le> ucast (of_nat i :: u32)" "\<not> at_index ?a \<le> of_nat j"
        using E(1,2) dec by (simp_all add: word_le_nat_alt)
      ultimately show ?thesis using E(1-5) dec dead(1) by (simp add: EcsGetEntity_def Let_def st(3))
    qed
    moreover have "live_of s h \<noteq> None" using some by (simp add: live_of_def)
    ultimately show ?thesis using deleted[of "fr(i := ?qs)"] res(1) by (simp split: if_splits)
  qed
qed

end
