(* ===== verification/EcsProps.thy ===== *)
theory EcsProps
  imports EcsInv GenAllocProps
begin

text \<open>The properties of the entity component system.\<close>

section \<open>Sample system\<close>

text \<open>One archetype without components whose first slot holds a live entity.\<close>

definition sample_archetype :: ArcheType where
  "sample_archetype = zero_archetype\<lparr>at_array := 0x9000, at_entities := zero_entity\<lparr>alive := True\<rparr> # replicate 14 zero_entity,
     capacity := 15, at_size := 2160, at_sizeInPages := 1, at_index := 1\<rparr>"

definition sample_ecs :: ecs where
  "sample_ecs = \<lparr>archeTypeArray = 0x8000, archeTypes = sample_archetype # replicate 14 zero_archetype, ataIndex = 1,
     ataCapacity = 15, ataSize = 1680, ataSizeInPages = 1, componentSizeArr = 0, curComponentIndex = 1,
     ecs_nodes = (\<lambda>_. \<lparr>fl_index = 0, fl_next = 0\<rparr>), ecs_ga = sample_galloc\<rparr>"

lemma sample_ecs_inv: "ecs_inv (\<lambda>_. []) sample_ecs"
  by (auto simp: ecs_inv_def sample_ecs_def sample_archetype_def zero_archetype_def arch_ok_def free_ok_def entity_ok_def
      zero_entity_def nth_Cons ECS_COMP_SIZE_def split: nat.splits)

lemma sample_ecs_small: "ecs_small sample_ecs"
  by (simp add: ecs_small_def sample_ecs_def sample_archetype_def)

lemma sample_live: "live_of sample_ecs 0 = Some []" "live_of sample_ecs 1 = None"
  by (simp_all add: live_of_def EcsGetEntity_def EcsDecodeHandle_def sample_ecs_def sample_archetype_def entity_at_def
      zero_entity_def)

text \<open>A request that needs a block of one or two pages is served by the sample allocator.\<close>

lemma sample_ga_serves:
  assumes "IN_PAGES (SPLIT_SAFE (n + PAGE_SIZE)) = k" and "k = 1 \<or> k = 2" and "unat n \<le> 0x2000000000000000"
  shows "\<exists>p s'. MmAllocateGeneralMemory n sample_galloc = Some (p, s') \<and> p \<noteq> NULL"
proof -
  have pm: "ga_pm sample_galloc = sample_ga_pmm" by (simp add: sample_galloc_def)
  have k: "k \<le> pageCount sample_ga_pmm" "2 \<le> pageCount sample_ga_pmm - k" "k \<noteq> 0" "pmm_wf sample_ga_pmm"
    using assms(2) by (auto simp: pmm_wf_def sample_ga_pmm_def)
  have "fresh_block (n + PAGE_SIZE) sample_galloc []"
    using k(1) by (simp add: fresh_block_def assms(1) pm) (simp add: sample_ga_pmm_def)
  moreover have "MmAllocateMultiplePages k sample_ga_pmm \<noteq> Some (NULL, sample_ga_pmm)"
    using frontier_multi[OF k(4) sample_ga_frontier, of k] k
    by (simp add: word_gt_0 GetAddressFromPageLocation_def PAGE_SIZE_def)
  ultimately show ?thesis
    using MmAllocateGeneralMemory_result[OF sample_ga_inv sample_ga_lock assms(3)]
    unfolding pm assms(1) by (auto simp: alloc_result_def)
qed

lemma sample_ga_serves_0: "\<exists>p s'. MmAllocateGeneralMemory 0 sample_galloc = Some (p, s') \<and> p \<noteq> NULL"
  by (rule sample_ga_serves[of 0 1]) (simp_all add: PAGE_SIZE_def SPLIT_SAFE_def MEM_SPLIT_def IN_PAGES_def)

lemma sample_ga_serves_16: "\<exists>p s'. MmAllocateGeneralMemory 16 sample_galloc = Some (p, s') \<and> p \<noteq> NULL"
  by (rule sample_ga_serves[of 16 2]) (simp_all add: PAGE_SIZE_def SPLIT_SAFE_def MEM_SPLIT_def IN_PAGES_def)

lemma sample_create:
  "\<exists>s'. EcsCreateEntity (\<lambda>_. 0) 0 sample_ecs = Some (Inr (STATUS_SUCCESS, Some 1, s'))"
proof -
  obtain p g where p: "MmAllocateGeneralMemory 0 sample_galloc = Some (p, g)" "p \<noteq> NULL" using sample_ga_serves_0 by blast
  have same: "same_archetype (\<lambda>_. 0) 0 (archeTypes sample_ecs ! 0)"
    by (simp add: same_archetype_def sample_ecs_def sample_archetype_def zero_archetype_def EcsCompareComponents_def)
  have a: "EcsGetArcheType (\<lambda>_. 0) 0 sample_ecs = Some (Inr (0, sample_ecs))"
    using same by (simp add: EcsGetArcheType_def grow_archetypes_def) (simp add: sample_ecs_def)
  have e: "grow_entities 0 sample_ecs = Some (True, sample_ecs)"
    by (simp add: grow_entities_def sample_ecs_def sample_archetype_def)
  let ?s = "upd_type 0 (\<lambda>a. a\<lparr>at_index := at_index a + 1\<rparr>) sample_ecs"
  have t: "take_index 0 sample_ecs = Some (1, ?s)"
    by (simp add: take_index_def sample_ecs_def sample_archetype_def zero_archetype_def)
  have n: "EcsGetSizeOfAllComponents (\<lambda>_. 0) 0 ?s = 0" by (simp add: EcsGetSizeOfAllComponents_def)
  have l: "length (at_entities (archeTypes ?s ! 0)) = 15" by (simp add: upd_type_def sample_ecs_def sample_archetype_def)
  have c: "\<exists>r ar. MmCreateArena (en_arena zero_entity) 0 (ecs_ga ?s) = Some (r, ar, g)"
    using p by (simp add: MmCreateArena_def Let_def upd_type_def sample_ecs_def)
  then obtain r ar where "MmCreateArena (en_arena zero_entity) 0 (ecs_ga ?s) = Some (r, ar, g)" by blast
  then show ?thesis by (simp add: EcsCreateEntity_def a e t n l EcsEncodeHandle_def)
qed

section \<open>Creating and deleting\<close>



text \<open>
  C28: \<open>EcsDeleteEntity\<close> refuses exactly the handles that refer to no live entity and then changes nothing; otherwise the handle is
  dead afterwards, every other handle refers to what it did before, and the invariant still holds, provided that
  the allocator does not hand out memory that holds a node of a free list.
\<close>

theorem ecs_delete_refines:
  assumes "ecs_inv fr s" and "EcsDeleteEntity h s = Some (st, s')"
    and "node_fresh fr h s"
  shows "if live_of s h = None then st = STATUS_INVALID_HANDLE \<and> s' = s
    else st \<in> {STATUS_SUCCESS, STATUS_OUT_OF_MEMORY} \<and> live_of s' = (live_of s)(h := None) \<and>
      EcsGetEntity h s' = Some (Inl STATUS_INVALID_ENTITY) \<and> (\<exists>fr'. ecs_inv fr' s')"
  by (rule EcsDeleteEntity_result[OF assms]) auto

lemma ecs_delete_refines_witness:
  "\<exists>s'. EcsDeleteEntity 0 sample_ecs = Some (STATUS_SUCCESS, s') \<and> live_of s' 0 = None"
proof -
  obtain p g where p: "MmAllocateGeneralMemory 16 sample_galloc = Some (p, g)" "p \<noteq> NULL" using sample_ga_serves_16 by blast
  have get: "EcsGetEntity 0 sample_ecs = Some (Inr (0, 0))"
    by (simp add: EcsGetEntity_def EcsDecodeHandle_def sample_ecs_def sample_archetype_def)
  have free: "MmFreeGeneralMemory 0 sample_galloc = Some (STATUS_INVALID_ADDRESS, sample_galloc)"
    by (simp add: MmFreeGeneralMemory_def ga_acquire_def ga_release_def sample_galloc_def KeCreateSpinLock_def
        KeAcquireSpinLock.simps test_and_set_def KeReleaseSpinLock_def)
  have e: "entity_at sample_ecs (0, 0) = zero_entity\<lparr>alive := True\<rparr>" by (simp add: entity_at_def sample_ecs_def sample_archetype_def)
  have "\<exists>s'. EcsDeleteEntity 0 sample_ecs = Some (STATUS_SUCCESS, s')"
    using p free by (simp add: EcsDeleteEntity_def get e MmDestroyArena_def)
      (simp add: zero_entity_def zero_arena_def boolean_of_status_def sample_ecs_def upd_entity_def upd_type_def
        SIZEOF_ENTITY_FREE_LIST_def EcsDecodeHandle_def Let_def)
  then obtain s' where s': "EcsDeleteEntity 0 sample_ecs = Some (STATUS_SUCCESS, s')" by blast
  have "node_fresh (\<lambda>_. []) 0 sample_ecs" by (simp add: node_fresh_def used_nodes_def)
  with ecs_delete_refines[OF sample_ecs_inv s'] s' show ?thesis by (auto simp: sample_live)
qed

section \<open>The states the system can reach\<close>

text \<open>The kernel's use of the system as steps.\<close>

inductive ecs_step :: "ecs \<Rightarrow> ecs \<Rightarrow> bool" where
  create: "ecs_small s \<Longrightarrow> EcsCreateEntity components n s = Some (Inr (st, ho, s')) \<Longrightarrow> ecs_step s s'"
| delete: "EcsDeleteEntity h s = Some (st, s') \<Longrightarrow> (\<And>fr. ecs_inv fr s \<Longrightarrow> node_fresh fr h s) \<Longrightarrow> ecs_step s s'"
| component: "EcsCreateNewComponent n s = (c, s') \<Longrightarrow> ecs_step s s'"
| add_data: "EcsAddComponentDataToEntity h c d s = Some (st, s') \<Longrightarrow> ecs_step s s'"

text \<open>The static variables at boot, over any state of the allocators.\<close>

definition ecs_boot :: "galloc \<Rightarrow> ecs" where
  "ecs_boot g = \<lparr>archeTypeArray = 0, archeTypes = [], ataIndex = 0, ataCapacity = 0, ataSize = 0, ataSizeInPages = 0,
     componentSizeArr = 0, curComponentIndex = 1, ecs_nodes = (\<lambda>_. \<lparr>fl_index = 0, fl_next = 0\<rparr>), ecs_ga = g\<rparr>"

lemma ecs_inv_cong:
  assumes "archeTypes s' = archeTypes s" and "ataIndex s' = ataIndex s" and "ataCapacity s' = ataCapacity s"
    and "ecs_nodes s' = ecs_nodes s"
  shows "ecs_inv fr s' = ecs_inv fr s"
  using assms by (simp add: ecs_inv_def)

lemma EcsCreateNewComponent_keeps:
  assumes "EcsCreateNewComponent n s = (c, s')"
  shows "archeTypes s' = archeTypes s \<and> ataIndex s' = ataIndex s \<and> ataCapacity s' = ataCapacity s \<and> ecs_nodes s' = ecs_nodes s"
  using assms by (auto simp: EcsCreateNewComponent_def Let_def set_pm_def ecs_print_def split: prod.splits if_splits)

lemma EcsAddComponentData_cases:
  assumes "EcsAddComponentDataToEntity h c d s = Some (st, s')"
  obtains (same) "s' = s"
  | (copied) loc k where "EcsGetEntity h s = Some (Inr loc)" "unat (en_componentAmount (entity_at s loc)) \<le> ECS_COMP_SIZE"
    "find_component (entity_at s loc) c = Some k" "en_components (entity_at s loc) ! k \<noteq> NULL" "st = STATUS_SUCCESS"
    "s' = set_pm ((ga_pm (ecs_ga s))\<lparr>pm_mem := snd (memcpy (en_components (entity_at s loc) ! k) d (component_size s c) (ecs_mem s))\<rparr>) s"
proof -
  obtain r where r: "EcsGetEntity h s = Some r"
    using assms by (cases "EcsGetEntity h s") (simp_all add: EcsAddComponentDataToEntity_def)
  show ?thesis
  proof (cases r)
    case (Inl x)
    then have "s' = s" using assms r by (simp add: EcsAddComponentDataToEntity_def)
    then show ?thesis by (rule same)
  next
    case (Inr loc)
    let ?e = "entity_at s loc"
    have u: "unat (en_componentAmount ?e) \<le> ECS_COMP_SIZE" using assms r Inr
      by (simp add: EcsAddComponentDataToEntity_def Let_def split: if_splits)
    show ?thesis
    proof (cases "find_component ?e c")
      case None
      then have "s' = s" using assms r Inr u by (simp add: EcsAddComponentDataToEntity_def Let_def split: if_splits)
      then show ?thesis by (rule same)
    next
      case (Some k)
      show ?thesis
      proof (cases "en_components ?e ! k = NULL")
        case True
        then have "s' = s" using assms r Inr u Some by (simp add: EcsAddComponentDataToEntity_def Let_def split: if_splits)
        then show ?thesis by (rule same)
      next
        case False
        then have "st = STATUS_SUCCESS" "s' = set_pm ((ga_pm (ecs_ga s))\<lparr>pm_mem :=
            snd (memcpy (en_components ?e ! k) d (component_size s c) (ecs_mem s))\<rparr>) s"
          using assms r Inr u Some by (simp_all add: EcsAddComponentDataToEntity_def Let_def ecs_mem_def split: if_splits)
        with r Inr u Some False show ?thesis by (intro copied) simp_all
      qed
    qed
  qed
qed

lemma EcsAddComponentData_keeps:
  assumes "EcsAddComponentDataToEntity h c d s = Some (st, s')"
  shows "archeTypes s' = archeTypes s \<and> ataIndex s' = ataIndex s \<and> ataCapacity s' = ataCapacity s \<and> ecs_nodes s' = ecs_nodes s"
  using assms by (rule EcsAddComponentData_cases) (simp_all add: set_pm_def)


section \<open>A run from boot\<close>

lemma realloc_new:
  assumes "frontier s f" and "pageCount s = 16" and "bitmap s = 0x1000" and "2 \<le> f" and "f < 16"
  shows "\<exists>t. MmReallocatePages NULL 0 1 s = Some (GetAddressFromPageLocation f, t) \<and> frontier t (f + 1) \<and>
    pageCount t = 16 \<and> bitmap t = 0x1000"
proof -
  have wf: "pmm_wf s" using assms(2) by (simp add: pmm_wf_def)
  have f: "f \<le> pageCount s - 1" and f2: "2 \<le> unat f" "unat f < 16"
    using assms(2,4,5) by (simp_all add: word_le_nat_alt word_less_nat_alt)
  have a: "unat (GetAddressFromPageLocation f) = 4096 * unat f" by (rule unat_page_address) (use f2 in simp)
  then have nz: "GetAddressFromPageLocation f \<noteq> NULL" using f2 by auto
  let ?u = "multi_result 1 s f"
  let ?t = "?u\<lparr>pm_mem := snd (memset (GetAddressFromPageLocation f) 0 4096 (pm_mem ?u))\<rparr>"
  have keep: "pageCount ?u = 16" "bitmap ?u = 0x1000" using assms(2,3) by (simp_all add: multi_result_def)
  have r: "MmReallocatePages NULL 0 1 s = Some (GetAddressFromPageLocation f, ?t)"
    using frontier_multi[OF wf assms(1), of 1] f nz assms(2) by (simp add: MmReallocatePages_def PAGE_SIZE_def)
  have "frontier ?u (f + 1)" using frontier_multi_result[OF wf assms(1), of 1] f assms(2) by simp
  moreover have "page_bit ?t k = page_bit ?u k" if "k < 16" for k
  proof -
    have k: "unat (k div 8) < 2" using that by (simp add: unat_div word_less_nat_alt)
    then have "unat (0x1000 + k div 8) = 4096 + unat (k div 8)" by (subst unat_add_no_wrap) simp_all
    then have "unat (0x1000 + k div 8 - GetAddressFromPageLocation f) = 18446744073709551616 + (4096 + unat (k div 8)) - 4096 * unat f"
      using a k f2 by (simp add: unat_sub_if')
    then have "\<not> unat (0x1000 + k div 8 - GetAddressFromPageLocation f) < 4096" using f2 by simp
    then show ?thesis using assms(3) by (simp add: page_bit_def memset_apply multi_result_def)
  qed
  moreover have "f + 1 \<le> 16" using f2 by (simp add: word_le_nat_alt unat_add_no_wrap)
  ultimately have "frontier ?t (f + 1)" using keep by (auto simp: frontier_def dest: less_le_trans)
  with r keep show ?thesis by auto
qed

lemma boot_pages:
  obtains t1 t2 where "MmReallocatePages NULL 0 1 sample_ga_pmm = Some (0x2000, t1)" "MmReallocatePages NULL 0 1 t1 = Some (0x3000, t2)"
    "MmAllocateMultiplePages 1 t2 = Some (0x4000, multi_result 1 t2 4)"
proof -
  have "pageCount sample_ga_pmm = 16" "bitmap sample_ga_pmm = 0x1000" by (simp_all add: sample_ga_pmm_def)
  from realloc_new[OF sample_ga_frontier this] obtain t1 where
    1: "MmReallocatePages NULL 0 1 sample_ga_pmm = Some (GetAddressFromPageLocation 2, t1)" "frontier t1 3" "pageCount t1 = 16" "bitmap t1 = 0x1000"
    by auto
  from realloc_new[OF 1(2,3,4)] obtain t2 where
    2: "MmReallocatePages NULL 0 1 t1 = Some (GetAddressFromPageLocation 3, t2)" "frontier t2 4" "pageCount t2 = 16"
    by auto
  have "MmAllocateMultiplePages 1 t2 = Some (GetAddressFromPageLocation 4, multi_result 1 t2 4)"
    using frontier_multi[OF _ 2(2), of 1] 2(3) by (simp add: pmm_wf_def)
  with 1(1) 2(1) show ?thesis by (intro that[of t1 t2]) (simp_all add: GetAddressFromPageLocation_def PAGE_SIZE_def)
qed


text \<open>The allocator behind the boot system once it has a block: the chunks of the block, the free list and the log.\<close>

definition boot_ga :: "pmm \<Rightarrow> u64 \<Rightarrow> i64 \<Rightarrow> (u64 \<Rightarrow> AllocHeader) \<Rightarrow> u64 \<Rightarrow> klog \<Rightarrow> galloc" where
  "boot_ga t u n al free log = \<lparr>bHead = 0x4000, bTail = 0x4000, aHead = free, aTail = free,
     blk = (blk sample_galloc)(0x4000 := \<lparr>bh_base = 0x4030, bh_size = 4048, amountUsed = u, allocCounter = n, bh_next = NULL, bh_prev = NULL\<rparr>),
     alc = al, allocSpinLock = KeCreateSpinLock, ga_pm = t, ga_log = log\<rparr>"

definition boot_chunk :: "u64 \<Rightarrow> u64 \<Rightarrow> bool \<Rightarrow> AllocHeader" where
  "boot_chunk h n free = \<lparr>ah_header = 0x4000, ah_base = h + 48, ah_size = n, ah_next = NULL, ah_prev = NULL, isFree = free\<rparr>"

definition boot_ecs :: "u32 \<Rightarrow> Entity list \<Rightarrow> u64 \<Rightarrow> (u64 \<Rightarrow> EntityFreeList) \<Rightarrow> galloc \<Rightarrow> ecs" where
  "boot_ecs k es node nodes g = \<lparr>archeTypeArray = 0x2000,
     archeTypes = zero_archetype\<lparr>at_array := 0x3000, at_entities := es, capacity := 15, at_size := 2160, at_sizeInPages := 1,
       at_index := k, initial := node, freeList := node\<rparr> # replicate 14 zero_archetype,
     ataIndex = 1, ataCapacity = 15, ataSize = 1680, ataSizeInPages = 1, componentSizeArr = 0, curComponentIndex = 1,
     ecs_nodes = nodes, ecs_ga = g\<rparr>"

definition boot_entity :: "u64 \<Rightarrow> bool \<Rightarrow> Entity" where
  "boot_entity p al = zero_entity\<lparr>en_arena := \<lparr>ar_base = p, ar_size = 0, sizeInpages = 0, used = 0\<rparr>, alive := al\<rparr>"

abbreviation no_nodes :: "u64 \<Rightarrow> EntityFreeList" where
  "no_nodes \<equiv> (\<lambda>_. \<lparr>fl_index = 0, fl_next = 0\<rparr>)"

lemma encode_first: "EcsEncodeHandle 0 0 = 0" "EcsEncodeHandle 0 1 = 1"
  by (simp_all add: EcsEncodeHandle_def)

lemma replicate_15: "replicate 15 x = x # replicate 14 x"
  by (simp add: numeral_eq_Suc)

lemmas ecs_run = EcsCreateEntity_def EcsGetArcheType_def grow_archetypes_def grow_entities_def take_index_def upd_type_def
  upd_entity_def EcsGetSizeOfAllComponents_def MmCreateArena_def ecs_print_def ga_print_def Let_def encode_first

lemmas boot_defs = boot_ecs_def boot_entity_def boot_ga_def boot_chunk_def zero_archetype_def zero_entity_def zero_arena_def
  ECS_COMP_SIZE_def sample_galloc_def KeCreateSpinLock_def

lemma boot_create:
  "\<exists>t log. EcsCreateEntity (\<lambda>_. 0) 0 (ecs_boot sample_galloc) = Some (Inr (STATUS_SUCCESS, Some 0,
     boot_ecs 1 (boot_entity 0x4060 True # replicate 14 zero_entity) NULL no_nodes
       (boot_ga t 48 1 ((alc sample_galloc)(0x4030 := boot_chunk 0x4030 0 False)) NULL log)))"
proof (rule boot_pages)
  fix t1 t2
  assume t: "MmReallocatePages NULL 0 1 sample_ga_pmm = Some (0x2000, t1)" "MmReallocatePages NULL 0 1 t1 = Some (0x3000, t2)"
    "MmAllocateMultiplePages 1 t2 = Some (0x4000, multi_result 1 t2 4)"
  show ?thesis
    by (simp add: EcsCreateEntity_def EcsGetArcheType_def grow_archetypes_def ecs_boot_def ecs_print_def ga_print_def next_capacity_def
        pages_for_def PAGE_SIZE_def SIZEOF_ARCHETYPE_def sample_galloc_def t set_pm_def upd_type_def grown_def Let_def)
      (simp add: new_archetype_def zero_archetype_def ECS_COMP_SIZE_def grow_entities_def ecs_print_def ga_print_def
        next_capacity_def pages_for_def PAGE_SIZE_def SIZEOF_ENTITY_def t set_pm_def upd_type_def Let_def grown_def,
       simp add: take_index_def upd_type_def upd_entity_def EcsGetSizeOfAllComponents_def MmCreateArena_def Let_def,
       simp add: ga_run t encode_first, simp add: boot_defs replicate_15)
qed

lemma boot_second:
  "\<exists>log'. EcsCreateEntity (\<lambda>_. 0) 0 (boot_ecs 1 (boot_entity 0x4060 True # zero_entity # es) NULL no_nodes
       (boot_ga t 48 1 ((alc sample_galloc)(0x4030 := boot_chunk 0x4030 0 False)) NULL log)) =
     Some (Inr (STATUS_SUCCESS, Some 1, boot_ecs 2 (boot_entity 0x4060 True # boot_entity 0x4090 True # es) NULL no_nodes
       (boot_ga t 96 2 ((alc sample_galloc)(0x4030 := boot_chunk 0x4030 0 False, 0x4060 := boot_chunk 0x4060 0 False)) NULL log')))"
  by (simp add: ecs_run boot_defs same_archetype_def EcsCompareComponents_def ga_run)



lemma boot_delete:
  "EcsDeleteEntity 0 (boot_ecs 2 (boot_entity 0x4060 True # e # es) NULL no_nodes
       (boot_ga t 96 2 ((alc sample_galloc)(0x4030 := boot_chunk 0x4030 0 False, 0x4060 := boot_chunk 0x4060 0 False)) NULL log)) =
     Some (STATUS_SUCCESS, boot_ecs 2 (boot_entity 0x4060 False # e # es) 0x40c0 (no_nodes(0x40c0 := \<lparr>fl_index = 0, fl_next = NULL\<rparr>))
       (boot_ga t 160 2 ((alc sample_galloc)(0x4060 := boot_chunk 0x4060 0 False, 0x4030 := boot_chunk 0x4030 0 True,
          0x4090 := boot_chunk 0x4090 16 False)) 0x4030 log))"
  by (simp add: EcsDeleteEntity_def EcsGetEntity_def EcsDecodeHandle_def entity_at_def MmDestroyArena_def MmFreeGeneralMemory_def
    ecs_run boot_defs ga_run AddAllocHeader_def boolean_of_status_def append_free_node_def SIZEOF_ENTITY_FREE_LIST_def
    exact_fit_def split_fit_def word_sless_alt)

lemma boot_reuse:
  "\<exists>s'. EcsCreateEntity (\<lambda>_. 0) 0 (boot_ecs 2 (boot_entity 0x4060 False # e # es) 0x40c0 (no_nodes(0x40c0 := \<lparr>fl_index = 0, fl_next = NULL\<rparr>))
       (boot_ga t 160 2 ((alc sample_galloc)(0x4060 := boot_chunk 0x4060 0 False, 0x4030 := boot_chunk 0x4030 0 True,
          0x4090 := boot_chunk 0x4090 16 False)) 0x4030 log)) = Some (Inr (STATUS_SUCCESS, Some 0, s'))"
  by (simp add: ecs_run boot_defs same_archetype_def EcsCompareComponents_def ga_run MmFreeGeneralMemory_def word_sless_alt AddAllocHeader_def
    exact_fit_def split_fit_def take_whole_def RemoveAllocHeader_def)

text \<open>Two creations from boot, a deletion, and a creation that uses the freed slot again.\<close>

lemma boot_run:
  obtains s1 s2 s3 s4 where "EcsCreateEntity (\<lambda>_. 0) 0 (ecs_boot sample_galloc) = Some (Inr (STATUS_SUCCESS, Some 0, s1))"
    "EcsCreateEntity (\<lambda>_. 0) 0 s1 = Some (Inr (STATUS_SUCCESS, Some 1, s2))" "EcsDeleteEntity 0 s2 = Some (STATUS_SUCCESS, s3)"
    "EcsCreateEntity (\<lambda>_. 0) 0 s3 = Some (Inr (STATUS_SUCCESS, Some 0, s4))"
    "ecs_small s1" "ecs_small s3" "\<And>fr. ecs_inv fr s2 \<Longrightarrow> node_fresh fr 0 s2"
proof -
  have small: "ecs_small (boot_ecs k es node nodes g)" for k es node nodes g
    by (simp add: ecs_small_def boot_ecs_def)
  have fresh: "node_fresh fr 0 (boot_ecs k es NULL nodes g)" if "ecs_inv fr (boot_ecs k es NULL nodes g)" for fr k es nodes g
  proof -
    have "fl_path nodes NULL (fr 0)" using that by (simp add: ecs_inv_def boot_ecs_def arch_ok_def free_ok_def)
    then have "fr 0 = []" by (cases "fr 0") auto
    then show ?thesis by (simp add: node_fresh_def used_nodes_def boot_ecs_def)
  qed
  have es: "replicate 14 zero_entity = zero_entity # replicate 13 zero_entity" by (simp add: numeral_eq_Suc)
  obtain t log where 1: "EcsCreateEntity (\<lambda>_. 0) 0 (ecs_boot sample_galloc) = Some (Inr (STATUS_SUCCESS, Some 0,
     boot_ecs 1 (boot_entity 0x4060 True # zero_entity # replicate 13 zero_entity) NULL no_nodes
       (boot_ga t 48 1 ((alc sample_galloc)(0x4030 := boot_chunk 0x4030 0 False)) NULL log)))"
    using boot_create unfolding es by blast
  obtain log2 where 2: "EcsCreateEntity (\<lambda>_. 0) 0 (boot_ecs 1 (boot_entity 0x4060 True # zero_entity # replicate 13 zero_entity) NULL no_nodes
       (boot_ga t 48 1 ((alc sample_galloc)(0x4030 := boot_chunk 0x4030 0 False)) NULL log)) =
     Some (Inr (STATUS_SUCCESS, Some 1, boot_ecs 2 (boot_entity 0x4060 True # boot_entity 0x4090 True # replicate 13 zero_entity) NULL no_nodes
       (boot_ga t 96 2 ((alc sample_galloc)(0x4030 := boot_chunk 0x4030 0 False, 0x4060 := boot_chunk 0x4060 0 False)) NULL log2)))"
    using boot_second by blast
  obtain s4 where 4: "EcsCreateEntity (\<lambda>_. 0) 0 (boot_ecs 2 (boot_entity 0x4060 False # boot_entity 0x4090 True # replicate 13 zero_entity) 0x40c0
         (no_nodes(0x40c0 := \<lparr>fl_index = 0, fl_next = NULL\<rparr>))
       (boot_ga t 160 2 ((alc sample_galloc)(0x4060 := boot_chunk 0x4060 0 False, 0x4030 := boot_chunk 0x4030 0 True,
          0x4090 := boot_chunk 0x4090 16 False)) 0x4030 log2)) = Some (Inr (STATUS_SUCCESS, Some 0, s4))"
    using boot_reuse by blast
  show ?thesis by (rule that[OF 1 2 boot_delete 4 small small fresh])
qed


section \<open>An array that cannot grow\<close>

text \<open>
  When the array of an archetype cannot grow, \<open>EcsCreateEntity\<close> reports \<open>STATUS_OUT_OF_MEMORY\<close> but has overwritten the pointer to the array with
  \<open>NULL\<close>: the archetype's old array is lost, and looking up any of its entities reads through the null pointer.
\<close>

theorem ecs_growth_failure_loses_entities:
  assumes "ecs_inv fr s" and "i < unat (ataIndex s)" and "unat (capacity (archeTypes s ! i)) \<le> 1000000000"
    and "grow_entities i s = Some (False, s')" and "EcsDecodeHandle h = (of_nat i, e)" and "i < 4294967296"
    and "e < at_index (archeTypes s' ! i)"
  shows "at_array (archeTypes s' ! i) = NULL \<and> EcsGetEntity h s' = None \<and> live_of s' h = None"
proof -
  note G = grow_entities_result[OF assms(1-4)]
  have "unat (of_nat i :: u32) = i" using assms(6) by (simp add: unat_of_nat)
  then have "EcsGetEntity h s' = None"
    using G assms(2,7) by (simp add: EcsGetEntity_def assms(5) word_le_nat_alt word_less_nat_alt)
  with G show ?thesis by (simp add: live_of_def)
qed

text \<open>The sample system with a full first archetype over an allocator that has no pages left.\<close>

definition sample_full :: ecs where
  "sample_full = (upd_type 0 (\<lambda>a. a\<lparr>at_index := 15\<rparr>) sample_ecs)\<lparr>ecs_ga := sample_galloc\<lparr>ga_pm := sample_ga_pmm\<lparr>pageCount := 2\<rparr>\<rparr>\<rparr>"

section \<open>Component data\<close>

text \<open>
  C27: after \<open>EcsAddComponentDataToEntity\<close> the pointer that \<open>EcsGetComponent\<close> returns for the component is the one it returned before, and
  the bytes there are the data's; no byte outside the component's size has changed.
\<close>

theorem ecs_component_data_roundtrip:
  assumes "EcsGetComponent h c s = Some (STATUS_SUCCESS, Some p)" and "p \<noteq> NULL" and "n = component_size s c"
    and "unat n \<le> unat (d - p)" and "unat n \<le> unat (p - d)"
  shows "\<exists>s'. EcsAddComponentDataToEntity h c d s = Some (STATUS_SUCCESS, s') \<and>
    EcsGetComponent h c s' = Some (STATUS_SUCCESS, Some p) \<and>
    (\<forall>x. ecs_mem s' x = (if unat (x - p) < unat n then ecs_mem s (d + (x - p)) else ecs_mem s x))"
proof -
  obtain r where r: "EcsGetEntity h s = Some r"
    using assms(1) by (cases "EcsGetEntity h s") (simp_all add: EcsGetComponent_def)
  obtain loc where Inr: "r = Inr loc" using assms(1) r by (cases r) (simp_all add: EcsGetComponent_def)
  let ?e = "entity_at s loc"
  have u: "\<not> ECS_COMP_SIZE < unat (en_componentAmount ?e)" using assms(1) r Inr
    by (simp add: EcsGetComponent_def Let_def split: if_splits)
  obtain k where k: "find_component ?e c = Some k" "en_components ?e ! k = p"
    using assms(1) r Inr u by (cases "find_component ?e c") (simp_all add: EcsGetComponent_def Let_def)
  let ?s' = "set_pm ((ga_pm (ecs_ga s))\<lparr>pm_mem := snd (memcpy p d n (ecs_mem s))\<rparr>) s"
  have add: "EcsAddComponentDataToEntity h c d s = Some (STATUS_SUCCESS, ?s')"
    using r Inr u k assms(2) by (simp add: EcsAddComponentDataToEntity_def Let_def ecs_mem_def assms(3))
  have "EcsGetEntity h ?s' = EcsGetEntity h s" "entity_at ?s' loc = ?e"
    by (cases "EcsDecodeHandle h") (simp_all add: EcsGetEntity_def set_pm_def entity_at_def)
  then have "EcsGetComponent h c ?s' = Some (STATUS_SUCCESS, Some p)"
    using r Inr u k by (simp add: EcsGetComponent_def Let_def)
  moreover have "ecs_mem ?s' x = (if unat (x - p) < unat n then ecs_mem s (d + (x - p)) else ecs_mem s x)" for x
    using memcpy_apply[OF assms(4,5), of "ecs_mem s" x] by (simp add: ecs_mem_def set_pm_def)
  ultimately show ?thesis using add by blast
qed

lemma fill_components_packed:
  assumes "fill_components components sizes is e g = Some (True, e', g')" and "arena_ok (en_arena e)"
    and "\<forall>c. unat (sizes c) \<le> 0x4000000000000000" and "length (en_components e) = ECS_COMP_SIZE" and "distinct is"
  shows "arena_ok (en_arena e') \<and> ar_base (en_arena e') = ar_base (en_arena e) \<and> ar_size (en_arena e') = ar_size (en_arena e) \<and>
    arena_top (en_arena e) \<le> arena_top (en_arena e') \<and> (\<forall>k. k \<notin> set is \<longrightarrow> en_components e' ! k = en_components e ! k) \<and>
    (\<forall>k \<in> set is. arena_top (en_arena e) \<le> unat (en_components e' ! k) \<and>
       unat (en_components e' ! k) + unat (sizes (components k)) \<le> arena_top (en_arena e')) \<and>
    sorted_wrt (\<lambda>k l. unat (en_components e' ! k) + unat (sizes (components k)) \<le> unat (en_components e' ! l)) is"
  using assms
proof (induction "is" arbitrary: e g)
  case Nil
  then show ?case by simp
next
  case (Cons i "is")
  obtain p ar g1 where push: "MmPushMemoryFromArena (en_arena e) (sizes (components i)) g = (p, ar, g1)" by (metis prod_cases3)
  let ?e1 = "e\<lparr>componentTypes := (componentTypes e)[i := components i], en_arena := ar, en_components := (en_components e)[i := p]\<rparr>"
  have i: "i < ECS_COMP_SIZE" "p \<noteq> NULL" and rest: "fill_components components sizes is ?e1 g1 = Some (True, e', g')"
    using Cons.prems(1) push by (auto simp: Let_def split: if_splits)
  note c = push_cases[OF Cons.prems(2) _ push]
  have 1: "unat p = arena_top (en_arena e)" "arena_ok ar" "arena_top ar = arena_top (en_arena e) + unat (sizes (components i))"
    "ar_base ar = ar_base (en_arena e)" "ar_size ar = ar_size (en_arena e)"
    using c i(2) Cons.prems(3) by auto
  have "arena_ok (en_arena ?e1)" "length (en_components ?e1) = ECS_COMP_SIZE" using 1(2) Cons.prems(4) by simp_all
  note ih = Cons.IH[OF rest this(1) Cons.prems(3) this(2)]
  have pi: "en_components e' ! i = p" using ih Cons.prems(4,5) i(1) by simp
  show ?case using ih Cons.prems(5) 1 pi by (auto simp: nth_list_update_neq)
qed

text \<open>
  C29: the components that \<open>EcsCreateEntity\<close>'s loop gives to an entity follow each other in its arena: none overlaps another, and all
  lie inside the arena.
\<close>

theorem ecs_components_disjoint:
  assumes "fill_components components sizes [0..<n] e g = Some (True, e', g')" and "arena_ok (en_arena e)"
    and "\<forall>c. unat (sizes c) \<le> 0x4000000000000000" and "length (en_components e) = ECS_COMP_SIZE"
    and "i < n" and "j < n" and "i < j"
  shows "unat (ar_base (en_arena e)) \<le> unat (en_components e' ! i) \<and>
    unat (en_components e' ! i) + unat (sizes (components i)) \<le> unat (en_components e' ! j) \<and>
    unat (en_components e' ! j) + unat (sizes (components j)) \<le> unat (ar_base (en_arena e)) + unat (ar_size (en_arena e))"
proof -
  note P = fill_components_packed[OF assms(1-4)]
  have "unat (en_components e' ! i) + unat (sizes (components i)) \<le> unat (en_components e' ! j)"
    using P assms(5-7) by (simp add: sorted_wrt_iff_nth_less)
  moreover have "arena_top (en_arena e') \<le> unat (ar_base (en_arena e)) + unat (ar_size (en_arena e))"
  proof -
    have "arena_ok (en_arena e')" "ar_base (en_arena e') = ar_base (en_arena e)" "ar_size (en_arena e') = ar_size (en_arena e)"
      using P by simp_all
    then show ?thesis by (simp add: arena_ok_def arena_top_def word_le_nat_alt)
  qed
  moreover have "unat (en_components e' ! j) + unat (sizes (components j)) \<le> arena_top (en_arena e')"
    "unat (ar_base (en_arena e)) \<le> unat (en_components e' ! i)"
  proof -
    have "\<forall>k \<in> {0..<n}. arena_top (en_arena e) \<le> unat (en_components e' ! k) \<and>
       unat (en_components e' ! k) + unat (sizes (components k)) \<le> arena_top (en_arena e')" using P by simp
    from bspec[OF this, of i] bspec[OF this, of j] assms(5,6)
    show "unat (en_components e' ! j) + unat (sizes (components j)) \<le> arena_top (en_arena e')"
      "unat (ar_base (en_arena e)) \<le> unat (en_components e' ! i)"
      by (simp_all add: arena_top_def)
  qed
  ultimately show ?thesis by linarith
qed

lemma ecs_components_disjoint_witness:
  "\<exists>e' g'. fill_components (\<lambda>i. of_nat i) (\<lambda>_. 8) [0..<2] (zero_entity\<lparr>en_arena := \<lparr>ar_base = 0x1000, ar_size = 16, sizeInpages = 1, used = 0\<rparr>\<rparr>)
     sample_galloc = Some (True, e', g') \<and> unat (en_components e' ! 0) + 8 \<le> unat (en_components e' ! 1)"
proof -
  let ?e = "zero_entity\<lparr>en_arena := \<lparr>ar_base = 0x1000, ar_size = 16, sizeInpages = 1, used = 0\<rparr>\<rparr>"
  obtain e' g' where f: "fill_components (\<lambda>i. of_nat i) (\<lambda>_. 8) [0..<2] ?e sample_galloc = Some (True, e', g')"
    by (simp add: upt_rec ECS_COMP_SIZE_def MmPushMemoryFromArena_def)
  have "arena_ok (en_arena ?e)" "length (en_components ?e) = ECS_COMP_SIZE" by (simp_all add: arena_ok_def zero_entity_def)
  with ecs_components_disjoint[OF f, of 0 1] f show ?thesis by auto
qed

lemma ecs_component_data_roundtrip_witness:
  "let s = (upd_entity 0 0 (\<lambda>e. e\<lparr>componentTypes := [7], en_components := [0x3000], en_componentAmount := 1\<rparr>) sample_ecs)\<lparr>componentSizeArr := 0xfc8\<rparr>
   in \<exists>s'. EcsAddComponentDataToEntity 0 7 0x1000 s = Some (STATUS_SUCCESS, s') \<and> ecs_mem s' 0x3000 = 3"
proof -
  let ?s = "(upd_entity 0 0 (\<lambda>e. e\<lparr>componentTypes := [7], en_components := [0x3000], en_componentAmount := 1\<rparr>) sample_ecs)\<lparr>componentSizeArr := 0xfc8\<rparr>"
  have n: "component_size ?s 7 = 3"
    by (simp add: component_size_def ecs_mem_def upd_entity_def upd_type_def sample_ecs_def sample_galloc_def sample_ga_pmm_def ld64_def)
  have "EcsGetComponent 0 7 ?s = Some (STATUS_SUCCESS, Some 0x3000)"
    by (simp add: EcsGetComponent_def EcsGetEntity_def EcsDecodeHandle_def upd_entity_def upd_type_def sample_ecs_def sample_archetype_def
        zero_entity_def entity_at_def find_component_def ECS_COMP_SIZE_def)
  from ecs_component_data_roundtrip[OF this _ n[symmetric], where d = "0x1000"]
  have "\<exists>s'. EcsAddComponentDataToEntity 0 7 0x1000 ?s = Some (STATUS_SUCCESS, s') \<and> ecs_mem s' 0x3000 = ecs_mem ?s 0x1000"
    by fastforce
  then show ?thesis
    by (simp add: ecs_mem_def upd_entity_def upd_type_def sample_ecs_def sample_galloc_def sample_ga_pmm_def)
qed

lemma ecs_growth_failure_loses_entities_witness:
  "\<exists>s'. grow_entities 0 sample_full = Some (False, s') \<and> EcsGetEntity 0 s' = None \<and> live_of sample_full 0 = Some []"
proof -
  let ?pm = "sample_ga_pmm\<lparr>pageCount := 2\<rparr>"
  have acc: "\<not> range_accepted ?pm 2 0" by (simp add: range_accepted_def GetAddressFromPageLocation_def)
  have "scan_ranges ?pm 2 0 0 = Some None"
    by (subst scan_ranges.simps, subst scan_ranges.simps) (simp add: acc)
  then have r: "MmReallocatePages 0x9000 1 2 ?pm = Some (NULL, ?pm)" by (simp add: MmReallocatePages_def MmAllocateMultiplePages_def)
  obtain s' where s': "grow_entities 0 sample_full = Some (False, s')"
    using r by (simp add: grow_entities_def Let_def sample_full_def sample_ecs_def sample_archetype_def zero_archetype_def upd_type_def
        ecs_print_def ga_print_def next_capacity_def pages_for_def SIZEOF_ENTITY_def PAGE_SIZE_def set_pm_def)
  have inv: "ecs_inv (\<lambda>_. []) sample_full"
    by (auto simp: ecs_inv_def sample_full_def upd_type_def sample_ecs_def sample_archetype_def zero_archetype_def arch_ok_def free_ok_def
        entity_ok_def zero_entity_def nth_Cons ECS_COMP_SIZE_def split: nat.splits)
  have get: "EcsGetEntity 0 sample_full = Some (Inr (0, 0))"
    by (simp add: EcsGetEntity_def EcsDecodeHandle_def sample_full_def upd_type_def sample_ecs_def sample_archetype_def)
  then have "live_of sample_full 0 = Some []"
    by (simp add: live_of_def entity_at_def sample_full_def upd_type_def sample_ecs_def sample_archetype_def zero_entity_def)
  moreover have "0 < at_index (archeTypes s' ! 0)"
    using s' r by (auto simp: grow_entities_def Let_def sample_full_def sample_ecs_def sample_archetype_def zero_archetype_def upd_type_def
        ecs_print_def ga_print_def next_capacity_def pages_for_def SIZEOF_ENTITY_def PAGE_SIZE_def set_pm_def)
  moreover have "unat (capacity (archeTypes sample_full ! 0)) \<le> 1000000000" "0 < unat (ataIndex sample_full)"
    by (simp_all add: sample_full_def upd_type_def sample_ecs_def sample_archetype_def)
  ultimately show ?thesis
    using ecs_growth_failure_loses_entities[OF inv _ _ s', of 0 0] s' by (simp add: EcsDecodeHandle_def)
qed

end
