(* ===== verification/Interrupts.thy ===== *)
theory Interrupts
  imports Panic
begin

text \<open>
  The descriptor tables \<open>ar/amd64pc/gdt.c\<close> and \<open>ar/amd64pc/idt.c\<close>: the segments of the kernel, the gates of the 256
  interrupt vectors and the handlers behind them. The addresses the linker gives to the tables and to the
  entry routines are parameters.
\<close>

section \<open>Segments\<close>

record GdtE =
  limit_low :: u16
  base_low :: u16
  base_middle :: u8
  access :: u8
  granularity :: u8
  base_high :: u8

record GdtP =
  gp_limit :: u16
  gp_base :: u64

record IntDesc =
  offsetone :: u16
  selector :: u16
  ist :: u8
  typeattributes :: u8
  offsettwo :: u16
  offsetthree :: u32
  id_zero :: u32

record IdtR =
  idt_limit :: u16
  idt_base :: u64

text \<open>The tables, and what \<open>lgdt\<close> and \<open>lidt\<close> last loaded.\<close>

record tables =
  gdt :: "GdtE list"
  gdt_pointer :: GdtP
  desc :: "u8 \<Rightarrow> IntDesc"
  idt :: IdtR
  loaded_gdt :: "GdtP option"
  loaded_idt :: "IdtR option"

definition zero_gdte :: GdtE where
  "zero_gdte = \<lparr>limit_low = 0, base_low = 0, base_middle = 0, access = 0, granularity = 0, base_high = 0\<rparr>"

definition Amd64LoadGDT :: "GdtP \<Rightarrow> tables \<Rightarrow> tables" where
  "Amd64LoadGDT p t = t\<lparr>loaded_gdt := Some p\<rparr>"

definition Amd64SetupGDT :: "u64 \<Rightarrow> tables \<Rightarrow> tables" where
  "Amd64SetupGDT gdt_addr t =
     (let t1 = t\<lparr>gdt := [zero_gdte,
             \<lparr>limit_low = 0xFFFF, base_low = 0x0000, base_middle = 0x00, access = 0x9A, granularity = 0xA0, base_high = 0x00\<rparr>,
             \<lparr>limit_low = 0xFFFF, base_low = 0x0000, base_middle = 0x00, access = 0x92, granularity = 0xA0, base_high = 0x00\<rparr>]\<rparr>;
          t2 = t1\<lparr>gdt_pointer := \<lparr>gp_limit = of_nat (8 * length (gdt t1)) - 1, gp_base = gdt_addr\<rparr>\<rparr>
      in Amd64LoadGDT (gdt_pointer t2) t2)"

section \<open>Handlers\<close>

text \<open>The routines that gates refer to: the assembly entries of \<open>idtasm.S\<close>, named by the handler each calls, and a C handler.\<close>

datatype handler =
    IntDivideByZero | IntDebugException | IntNMIInterrupt | IntBreakpointInterrupt | IntOverflowInterrupt
  | IntBoundRangeInterrupt | IntInvalidOpcodeInterrupt | IntNoMathProcInterrupt | IntDoubleFaultInterrupt
  | IntInvalidTSSInterrupt | IntSegmentNotPresentInterrupt | IntStackSegmentFaultInterrupt
  | IntGeneralProtectionInterrupt | IntPageFaultInterrupt | IntFloatingPointErrorInterrupt
  | IntAlignmentCheckInterrupt | IntMachineCheckInterrupt | IntSIMDFloatingPointErrorInterrupt
  | IntVirtualizationErrorInterrupt | IntControlProtectionExceptionInterrupt
  | IntUnknownHardware | IntUnknownSoftware

definition nl :: string where
  "nl = [CHR 0x0A]"

text \<open>The message each handler passes to \<open>KePanicStr\<close>.\<close>

fun handler_message :: "handler \<Rightarrow> string" where
  "handler_message IntUnknownHardware = ''UNKNOWN HARDWARE INTERRUPT''"
| "handler_message IntUnknownSoftware = ''UNKNOWN SOFTWARE INTERRUPT''"
| "handler_message IntDivideByZero = ''Divide By Zero Interrupt''"
| "handler_message IntDebugException = ''Debug Exception''"
| "handler_message IntNMIInterrupt = ''NMI Interrupt''"
| "handler_message IntBreakpointInterrupt = ''A breakpoint has been reached'' @ nl"
| "handler_message IntOverflowInterrupt = ''Overflow'' @ nl"
| "handler_message IntBoundRangeInterrupt = ''BOUND Range has been exceeded'' @ nl"
| "handler_message IntInvalidOpcodeInterrupt = ''an invalid opcode has been reached'' @ nl"
| "handler_message IntNoMathProcInterrupt = ''no math coprocessor has been fouud'' @ nl"
| "handler_message IntDoubleFaultInterrupt = ''Double Fault'' @ nl"
| "handler_message IntInvalidTSSInterrupt = ''Invalid TSS'' @ nl"
| "handler_message IntSegmentNotPresentInterrupt = ''Segment Not Present'' @ nl"
| "handler_message IntStackSegmentFaultInterrupt = ''Stack Segment Fault'' @ nl"
| "handler_message IntGeneralProtectionInterrupt = ''General Protection Fault'' @ nl"
| "handler_message IntPageFaultInterrupt = ''A page fault has occured'' @ nl"
| "handler_message IntFloatingPointErrorInterrupt = ''floating point error'' @ nl"
| "handler_message IntAlignmentCheckInterrupt = ''invalid alignment'' @ nl"
| "handler_message IntMachineCheckInterrupt = ''machine check'' @ nl"
| "handler_message IntSIMDFloatingPointErrorInterrupt = ''SIMD Floating Point Error'' @ nl"
| "handler_message IntVirtualizationErrorInterrupt = ''Virtualization Error'' @ nl"
| "handler_message IntControlProtectionExceptionInterrupt = ''Control Protection Exception'' @ nl"

definition run_handler :: "formatter \<Rightarrow> handler \<Rightarrow> 'a kterm_scheme \<Rightarrow> 'a kterm_scheme run option" where
  "run_handler vsn h s = KePanicStr vsn (QSTR (handler_message h)) s"

section \<open>Gates\<close>

definition ArIntCreateInterrupt :: "u8 \<Rightarrow> u64 \<Rightarrow> u16 \<Rightarrow> u8 \<Rightarrow> u8 \<Rightarrow> tables \<Rightarrow> tables" where
  "ArIntCreateInterrupt i handleraddr sel istIndex attributes t =
     t\<lparr>desc := (desc t)(i := \<lparr>offsetone = ucast (handleraddr AND 0xFFFF), selector = sel, ist = istIndex AND 0x07,
        typeattributes = attributes, offsettwo = ucast (drop_bit 16 handleraddr AND 0xFFFF),
        offsetthree = ucast (drop_bit 32 handleraddr AND 0xFFFFFFFF), id_zero = 0\<rparr>)\<rparr>"

definition Amd64LoadIDT :: "IdtR \<Rightarrow> tables \<Rightarrow> tables" where
  "Amd64LoadIDT r t = t\<lparr>loaded_idt := Some r\<rparr>"

definition ArIntLoadInterrupt :: "tables \<Rightarrow> tables" where
  "ArIntLoadInterrupt t = Amd64LoadIDT (idt t) t"

definition IDT_SIZE :: nat where
  "IDT_SIZE = 256"

text \<open>The vectors that get a handler of their own.\<close>

definition exception_entries :: "(u8 \<times> handler) list" where
  "exception_entries =
     [(0, IntDivideByZero), (1, IntDebugException), (2, IntNMIInterrupt), (3, IntBreakpointInterrupt), (4, IntOverflowInterrupt),
      (5, IntBoundRangeInterrupt), (6, IntInvalidOpcodeInterrupt), (7, IntNoMathProcInterrupt), (8, IntDoubleFaultInterrupt),
      (10, IntInvalidTSSInterrupt), (11, IntSegmentNotPresentInterrupt), (12, IntStackSegmentFaultInterrupt),
      (13, IntGeneralProtectionInterrupt), (14, IntPageFaultInterrupt), (16, IntFloatingPointErrorInterrupt),
      (17, IntAlignmentCheckInterrupt), (18, IntMachineCheckInterrupt), (19, IntSIMDFloatingPointErrorInterrupt),
      (20, IntVirtualizationErrorInterrupt), (21, IntControlProtectionExceptionInterrupt)]"

definition Amd64SetupIDT :: "(handler \<Rightarrow> u64) \<Rightarrow> u64 \<Rightarrow> tables \<Rightarrow> tables" where
  "Amd64SetupIDT addr desc_addr t =
     (let t1 = fold (\<lambda>i. ArIntCreateInterrupt (of_nat i) (addr IntUnknownSoftware) 0x08 0 0x8E) [31..<255] t;
          t2 = fold (\<lambda>(i, h). ArIntCreateInterrupt i (addr h) 0x08 0 0x8E) exception_entries t1;
          t3 = t2\<lparr>idt := \<lparr>idt_limit = of_nat (16 * IDT_SIZE) - 1, idt_base = desc_addr\<rparr>\<rparr>
      in Amd64LoadIDT (idt t3) t3)"

definition ArInitSystem :: "u64 \<Rightarrow> (handler \<Rightarrow> u64) \<Rightarrow> u64 \<Rightarrow> tables \<Rightarrow> NearStatus \<times> tables" where
  "ArInitSystem gdt_addr addr desc_addr t = (STATUS_SUCCESS, Amd64SetupIDT addr desc_addr (Amd64SetupGDT gdt_addr t))"

section \<open>Where an interrupt goes\<close>

text \<open>The handler address the processor assembles from a gate, and the present bit of a gate.\<close>

definition gate_address :: "IntDesc \<Rightarrow> u64" where
  "gate_address d = ucast (offsetone d) OR push_bit 16 (ucast (offsettwo d)) OR push_bit 32 (ucast (offsetthree d))"

definition gate_present :: "IntDesc \<Rightarrow> bool" where
  "gate_present d \<longleftrightarrow> bit (typeattributes d) 7"

text \<open>The handler a vector has after \<open>Amd64SetupIDT\<close>.\<close>

definition vector_handler :: "u8 \<Rightarrow> handler option" where
  "vector_handler i = (case map_of exception_entries i of
      Some h \<Rightarrow> Some h
    | None \<Rightarrow> if 31 \<le> unat i \<and> unat i < 255 then Some IntUnknownSoftware else None)"

lemma masks: "(x :: u64) AND 0xFFFF = take_bit 16 x" "(x :: u64) AND 0xFFFFFFFF = take_bit 32 x"
  by (simp_all add: take_bit_eq_mask mask_eq_exp_minus_1)

lemma gate_address_create:
  "gate_address (desc (ArIntCreateInterrupt i a sel n attributes t) i) = a"
proof (rule bit_word_eqI)
  fix k
  assume "k < LENGTH(64)"
  then have k: "k < 16 \<or> (16 \<le> k \<and> k < 32) \<or> (32 \<le> k \<and> k < 64)" by auto
  show "bit (gate_address (desc (ArIntCreateInterrupt i a sel n attributes t) i)) k = bit a k"
    using k by (elim disjE) (auto simp: gate_address_def ArIntCreateInterrupt_def masks bit_simps)
qed

lemma desc_create:
  "desc (ArIntCreateInterrupt i a sel n attributes t) j =
     (if j = i then desc (ArIntCreateInterrupt i a sel n attributes t) i else desc t j)"
  by (simp add: ArIntCreateInterrupt_def)

text \<open>The gate that every call in \<open>Amd64SetupIDT\<close> makes.\<close>

definition kernel_gate :: "u64 \<Rightarrow> IntDesc" where
  "kernel_gate a = desc (ArIntCreateInterrupt 0 a 0x08 0 0x8E \<lparr>gdt = [], gdt_pointer = \<lparr>gp_limit = 0, gp_base = 0\<rparr>,
     desc = (\<lambda>_. \<lparr>offsetone = 0, selector = 0, ist = 0, typeattributes = 0, offsettwo = 0, offsetthree = 0, id_zero = 0\<rparr>),
     idt = \<lparr>idt_limit = 0, idt_base = 0\<rparr>, loaded_gdt = None, loaded_idt = None\<rparr>) 0"

lemma desc_kernel_gate: "desc (ArIntCreateInterrupt i a 0x08 0 0x8E t) = (desc t)(i := kernel_gate a)"
  by (simp add: ArIntCreateInterrupt_def kernel_gate_def)

lemma kernel_gate:
  "gate_address (kernel_gate a) = a" "gate_present (kernel_gate a)" "selector (kernel_gate a) = 0x08"
  using gate_address_create by (simp_all add: kernel_gate_def) (simp_all add: ArIntCreateInterrupt_def gate_present_def)

lemma software_gates:
  "desc (fold (\<lambda>i. ArIntCreateInterrupt (of_nat i) a 0x08 0 0x8E) is t) j =
     (if j \<in> of_nat ` set is then kernel_gate a else desc t j)"
  by (induction "is" arbitrary: t) (auto simp: desc_kernel_gate)

lemma entry_gates:
  assumes "distinct (map fst es)"
  shows "desc (fold (\<lambda>(i, h). ArIntCreateInterrupt i (addr h) 0x08 0 0x8E) es t) j =
     (case map_of es j of Some h \<Rightarrow> kernel_gate (addr h) | None \<Rightarrow> desc t j)"
  using assms
proof (induction es arbitrary: t)
  case Nil
  then show ?case by simp
next
  case (Cons e es)
  obtain i h where e: "e = (i, h)" by (cases e)
  have "map_of es i = None" using Cons.prems e by (simp add: map_of_eq_None_iff)
  with Cons e show ?case by (cases "j = i") (simp_all add: desc_kernel_gate split: option.split)
qed

lemma software_range: "(j :: u8) \<in> of_nat ` {31..<255} \<longleftrightarrow> 31 \<le> unat j \<and> unat j < 255"
proof
  assume "31 \<le> unat j \<and> unat j < 255"
  moreover have "j = of_nat (unat j)" by simp
  ultimately show "j \<in> of_nat ` {31..<255}" by (metis atLeastLessThan_iff image_eqI)
next
  assume "j \<in> of_nat ` {31..<255}"
  then obtain k where "31 \<le> k" "k < 255" "j = of_nat k" by auto
  then show "31 \<le> unat j \<and> unat j < 255" by (simp add: unat_of_nat)
qed

lemma Amd64SetupIDT_desc:
  "desc (Amd64SetupIDT addr d t) i = (case vector_handler i of Some h \<Rightarrow> kernel_gate (addr h) | None \<Rightarrow> desc t i)"
proof -
  have "distinct (map fst exception_entries)" by (simp add: exception_entries_def)
  then show ?thesis
    by (simp add: Amd64SetupIDT_def Let_def Amd64LoadIDT_def entry_gates software_gates software_range vector_handler_def
        split: option.split del: upt_rec_numeral)
qed

section \<open>Panic in a handler\<close>

lemma KePanicStr_result:
  assumes "fits_buffer vsn" and "length (colorPalette s) = 7" and "length msg < 18446744073709551616"
  shows "\<exists>s' pre post. KePanicStr vsn (text_of_bytes msg) s = Some (Hangs s') \<and> colorPalette s' = panicScreenPalette \<and>
    ports s' = pre @ map (Pair 0x3f8) (msg @ [10]) @ post"
proof -
  obtain s1 where 1: "PanicInitialize vsn s = Some s1" "colorPalette s1 = panicScreenPalette"
    using PanicInitialize_result[OF assms(1,2)] by blast
  obtain s2 where 2: "KeTermPuts False (QSTR ''      '') (panicScreenPalette ! palette_index PALETTE_BACKGROUND) s1 = Some s2"
    "colorPalette s2 = panicScreenPalette"
    using KeTermPuts_result[of False "map of_char ''      ''" "panicScreenPalette ! palette_index PALETTE_BACKGROUND" s1] 1(2)
    by (auto simp: QSTR_def)
  obtain s3 where 3: "KeTermPuts True (text_of_bytes msg) (panicScreenPalette ! palette_index PALETTE_TEXT) s2 = Some s3"
    "colorPalette s3 = panicScreenPalette" "ports s3 = (ports s2 @ scroll_out s2) @ map (Pair 0x3f8) (msg @ [10])"
    using KeTermPuts_result[of True msg "panicScreenPalette ! palette_index PALETTE_TEXT" s2] 2(2) assms(3) by auto
  obtain s4 post where 4: "PanicEnd vsn s3 = Some (Hangs s4)" "colorPalette s4 = panicScreenPalette" "ports s4 = ports s3 @ post"
    using PanicEnd_result[OF assms(1), of s3] 3(2) by auto
  have "ports s4 = (ports s2 @ scroll_out s2) @ map (Pair 0x3f8) (msg @ [10]) @ post" by (simp add: 4(3) 3(3))
  then have "\<exists>pre post. ports s4 = pre @ map (Pair 0x3f8) (msg @ [10]) @ post" by blast
  moreover have "KePanicStr vsn (text_of_bytes msg) s = Some (Hangs s4)" using 1(1) 2(1) 3(1) 4(1) by (simp add: KePanicStr_def)
  ultimately show ?thesis using 4(2) by blast
qed

lemma handler_message_fits: "length (handler_message h) < 256"
  by (cases h) (simp_all add: nl_def)

lemma no_entry:
  assumes "map_of exception_entries i = None"
  shows "(i \<in> {9, 15, 255} \<or> 22 \<le> i \<and> i \<le> 30) \<longleftrightarrow> \<not> (31 \<le> unat i \<and> unat i < 255)"
proof -
  have k: "i \<notin> {0, 1, 2, 3, 4, 5, 6, 7, 8, 10, 11, 12, 13, 14, 16, 17, 18, 19, 20, 21}"
    using assms by (auto simp: map_of_eq_None_iff exception_entries_def)
  have b: "unat i < 256" using unsigned_less[of i] by simp
  show ?thesis
    using k b by (simp add: word_unat_eq_iff word_le_nat_alt) presburger
qed

end
