(* ===== verification/InterruptProps.thy ===== *)
theory InterruptProps
  imports Interrupts TermProps
begin

text \<open>The properties of the interrupt descriptor table and the handlers.\<close>

section \<open>Gates by the table\<close>

text \<open>A gate that is present, in the kernel's code segment, and leads to an address.\<close>

definition leads_to :: "u64 \<Rightarrow> IntDesc \<Rightarrow> bool" where
  "leads_to a d \<longleftrightarrow> gate_address d = a \<and> gate_present d \<and> selector d = 0x08"

lemma dispatch_by_table:
  assumes "ArInitSystem ga addr da t = (st, t')"
  shows "loaded_idt t' = Some \<lparr>idt_limit = 4095, idt_base = da\<rparr> \<and>
    (case map_of exception_entries i of
       Some h \<Rightarrow> gate_address (desc t' i) = addr h \<and> gate_present (desc t' i) \<and> selector (desc t' i) = 0x08
     | None \<Rightarrow> if i \<in> {9, 15, 255} \<or> 22 \<le> i \<and> i \<le> 30 then desc t' i = desc t i
               else gate_address (desc t' i) = addr IntUnknownSoftware \<and> gate_present (desc t' i) \<and> selector (desc t' i) = 0x08)"
proof -
  have t': "desc t' i = (case vector_handler i of Some h \<Rightarrow> kernel_gate (addr h) | None \<Rightarrow> desc t i)"
    "loaded_idt t' = Some \<lparr>idt_limit = 4095, idt_base = da\<rparr>"
  proof -
    have eq: "t' = Amd64SetupIDT addr da (Amd64SetupGDT ga t)" using assms by (simp add: ArInitSystem_def)
    have g: "desc (Amd64SetupGDT ga t) = desc t" by (simp add: Amd64SetupGDT_def Amd64LoadGDT_def Let_def)
    show "desc t' i = (case vector_handler i of Some h \<Rightarrow> kernel_gate (addr h) | None \<Rightarrow> desc t i)"
      unfolding eq Amd64SetupIDT_desc g by (rule refl)
    show "loaded_idt t' = Some \<lparr>idt_limit = 4095, idt_base = da\<rparr>"
      unfolding eq by (simp add: Amd64SetupIDT_def Amd64LoadIDT_def Let_def IDT_SIZE_def del: upt_rec_numeral)
  qed
  show ?thesis
  proof (cases "map_of exception_entries i")
    case None
    then show ?thesis
      unfolding t' vector_handler_def None option.case no_entry[OF None]
      by (cases "31 \<le> unat i \<and> unat i < 255") (simp_all only: if_True if_False not_True_eq_False not_False_eq_True option.case kernel_gate simp_thms)
  next
    case (Some h)
    then show ?thesis unfolding t' vector_handler_def Some option.case by (simp only: kernel_gate simp_thms)
  qed
qed

lemma unlisted:
  assumes "31 \<le> i \<and> i < 255"
  shows "map_of exception_entries i = None"
  using assms by (auto simp: map_of_eq_None_iff exception_entries_def word_le_nat_alt word_less_nat_alt)

lemma unlisted_gap:
  assumes "i = 9 \<or> i = 15 \<or> i = 255 \<or> 22 \<le> i \<and> i \<le> 30"
  shows "map_of exception_entries i = None"
  using assms by (auto simp: map_of_eq_None_iff exception_entries_def word_le_nat_alt)

section \<open>Properties\<close>

text \<open>
  C26: after \<open>ArInitSystem\<close> the processor uses a table of 256 gates in which each of the twenty exceptions listed, by its number, leads to the
  handler of that exception, the vectors 31 to 254 lead to \<open>IntUnknownSoftware\<close>, and the vectors 9, 15, 22 to 30 and 255 are left as
  they were. The gates set up are all present and in the kernel's code segment.
\<close>

theorem interrupt_dispatch:
  assumes "ArInitSystem ga addr da t = (st, t')"
  shows "st = STATUS_SUCCESS \<and> loaded_idt t' = Some \<lparr>idt_limit = 4095, idt_base = da\<rparr> \<and>
    list_all (\<lambda>(i, h). leads_to (addr h) (desc t' i))
      [(0, IntDivideByZero), (1, IntDebugException), (2, IntNMIInterrupt), (3, IntBreakpointInterrupt),
       (4, IntOverflowInterrupt), (5, IntBoundRangeInterrupt), (6, IntInvalidOpcodeInterrupt), (7, IntNoMathProcInterrupt),
       (8, IntDoubleFaultInterrupt), (10, IntInvalidTSSInterrupt), (11, IntSegmentNotPresentInterrupt),
       (12, IntStackSegmentFaultInterrupt), (13, IntGeneralProtectionInterrupt), (14, IntPageFaultInterrupt),
       (16, IntFloatingPointErrorInterrupt), (17, IntAlignmentCheckInterrupt), (18, IntMachineCheckInterrupt),
       (19, IntSIMDFloatingPointErrorInterrupt), (20, IntVirtualizationErrorInterrupt),
       (21, IntControlProtectionExceptionInterrupt)] \<and>
    (\<forall>i. 31 \<le> i \<and> i < 255 \<longrightarrow> leads_to (addr IntUnknownSoftware) (desc t' i)) \<and>
    (\<forall>i. i = 9 \<or> i = 15 \<or> i = 255 \<or> 22 \<le> i \<and> i \<le> 30 \<longrightarrow> desc t' i = desc t i)"
proof (intro conjI allI impI)
  have tab: "leads_to (addr h) (desc t' i)" if "map_of exception_entries i = Some h" for i h
    using dispatch_by_table[OF assms, of i] that by (simp add: leads_to_def)
  show "st = STATUS_SUCCESS" using assms by (simp add: ArInitSystem_def)
  show "loaded_idt t' = Some \<lparr>idt_limit = 4095, idt_base = da\<rparr>" using dispatch_by_table[OF assms] by blast
  show "list_all (\<lambda>(i, h). leads_to (addr h) (desc t' i))
      [(0, IntDivideByZero), (1, IntDebugException), (2, IntNMIInterrupt), (3, IntBreakpointInterrupt),
       (4, IntOverflowInterrupt), (5, IntBoundRangeInterrupt), (6, IntInvalidOpcodeInterrupt), (7, IntNoMathProcInterrupt),
       (8, IntDoubleFaultInterrupt), (10, IntInvalidTSSInterrupt), (11, IntSegmentNotPresentInterrupt),
       (12, IntStackSegmentFaultInterrupt), (13, IntGeneralProtectionInterrupt), (14, IntPageFaultInterrupt),
       (16, IntFloatingPointErrorInterrupt), (17, IntAlignmentCheckInterrupt), (18, IntMachineCheckInterrupt),
       (19, IntSIMDFloatingPointErrorInterrupt), (20, IntVirtualizationErrorInterrupt),
       (21, IntControlProtectionExceptionInterrupt)]"
    by (simp add: tab exception_entries_def)
next
  fix i :: u8
  assume i: "31 \<le> i \<and> i < 255"
  then have "map_of exception_entries i = None" by (rule unlisted)
  moreover have "\<not> (i \<in> {9, 15, 255} \<or> 22 \<le> i \<and> i \<le> 30)" using i by (auto simp: word_le_nat_alt word_less_nat_alt)
  ultimately show "leads_to (addr IntUnknownSoftware) (desc t' i)"
    using dispatch_by_table[OF assms, of i] by (simp add: leads_to_def)
next
  fix i :: u8
  assume i: "i = 9 \<or> i = 15 \<or> i = 255 \<or> 22 \<le> i \<and> i \<le> 30"
  then have "map_of exception_entries i = None" by (rule unlisted_gap)
  then show "desc t' i = desc t i" using dispatch_by_table[OF assms, of i] i by (auto split: if_splits)
qed

definition sample_tables :: tables where
  "sample_tables = \<lparr>gdt = [], gdt_pointer = \<lparr>gp_limit = 0, gp_base = 0\<rparr>,
     desc = (\<lambda>_. \<lparr>offsetone = 0, selector = 0, ist = 0, typeattributes = 0, offsettwo = 0, offsetthree = 0, id_zero = 0\<rparr>),
     idt = \<lparr>idt_limit = 0, idt_base = 0\<rparr>, loaded_gdt = None, loaded_idt = None\<rparr>"

lemma interrupt_dispatch_witness:
  "let t' = snd (ArInitSystem 0x1000 (\<lambda>h. if h = IntPageFaultInterrupt then 0xFFFF80000010ABCD else 0x7000) 0x2000 sample_tables)
   in gate_address (desc t' 14) = 0xFFFF80000010ABCD \<and> gate_address (desc t' 32) = 0x7000 \<and> \<not> gate_present (desc t' 255)"
proof -
  let ?addr = "\<lambda>h. if h = IntPageFaultInterrupt then 0xFFFF80000010ABCD else 0x7000"
  let ?t = "snd (ArInitSystem 0x1000 ?addr 0x2000 sample_tables)"
  have r: "ArInitSystem 0x1000 ?addr 0x2000 sample_tables = (STATUS_SUCCESS, ?t)" by (simp add: ArInitSystem_def)
  show ?thesis
    using interrupt_dispatch[OF r] by (simp add: leads_to_def word_le_nat_alt word_less_nat_alt)
      (simp add: sample_tables_def gate_present_def)
qed

text \<open>
  Every handler ends in the panic screen's endless loop, with its message written to the serial port: no interrupt returns to the
  code it interrupted.
\<close>

theorem handlers_never_return:
  assumes "fits_buffer vsn" and "length (colorPalette s) = 7"
  shows "\<exists>s' pre post. run_handler vsn h s = Some (Hangs s') \<and> colorPalette s' = panicScreenPalette \<and>
    ports s' = pre @ map (Pair 0x3f8) (map of_char (handler_message h) @ [10]) @ post"
  using KePanicStr_result[OF assms, of "map of_char (handler_message h)"] handler_message_fits[of h]
  by (simp add: run_handler_def QSTR_def)

lemma handlers_never_return_witness:
  "\<exists>s'. run_handler copy_format IntPageFaultInterrupt sample_term = Some (Hangs s') \<and> colorPalette s' = panicScreenPalette"
  using handlers_never_return[OF copy_format_fits, of sample_term IntPageFaultInterrupt]
  by (auto simp: sample_term_def default_palette_def)

end
