(* ===== verification/Apic.thy ===== *)
theory Apic
  imports NrPrelude
begin

text \<open>
  The local APIC driver \<open>ki/amd64pc/apic.c\<close> and \<open>ki/amd64pc/ki.c\<close>. The model-specific registers are a map; a write to a memory-mapped
  register is recorded with its address, in order; what a register reads as is a parameter. \<open>uacpi_table_find_by_signature\<close> is a
  parameter as well: it gives a status, 0 for success, and the address of the table.
\<close>

record apic =
  apicTable_addr :: u64
  lapicBase :: u64
  msr :: "u64 \<Rightarrow> u64"
  mmio :: "(u64 \<times> u32) list"
  interrupts_on :: bool

definition ArRdmsr :: "u64 \<Rightarrow> apic \<Rightarrow> u64" where
  "ArRdmsr i a = msr a i"

text \<open>\<open>wrmsr\<close> with \<open>edx\<close> and \<open>eax\<close>: the low halves of the two arguments.\<close>

definition ArWrmsr :: "u64 \<Rightarrow> u64 \<Rightarrow> u64 \<Rightarrow> apic \<Rightarrow> apic" where
  "ArWrmsr i high low a = a\<lparr>msr := (msr a)(i := push_bit 32 (take_bit 32 high) OR take_bit 32 low)\<rparr>"

definition APIC_TASK_PRIORITY :: u64 where "APIC_TASK_PRIORITY = 0x80"
definition APIC_EOI :: u64 where "APIC_EOI = 0xB0"
definition APIC_SPURIOUS_INT_VEC :: u64 where "APIC_SPURIOUS_INT_VEC = 0xF0"
definition APIC_LVT_TIMER :: u64 where "APIC_LVT_TIMER = 0x320"
definition APIC_TIMER_INITIAL_COUNT :: u64 where "APIC_TIMER_INITIAL_COUNT = 0x380"
definition APIC_TIMER_DIVIDE_CONFIG :: u64 where "APIC_TIMER_DIVIDE_CONFIG = 0x3E0"

definition KiApicWrite :: "u64 \<Rightarrow> u32 \<Rightarrow> apic \<Rightarrow> apic" where
  "KiApicWrite offset v a = a\<lparr>mmio := mmio a @ [(lapicBase a + offset, v)]\<rparr>"

definition KiApicRead :: "(u64 \<Rightarrow> u32) \<Rightarrow> u64 \<Rightarrow> apic \<Rightarrow> u64" where
  "KiApicRead registers offset a = ucast (registers (lapicBase a + offset))"

text \<open>The I/O APIC's index register is the first word, its data register the fifth.\<close>

definition KiApicIoRead :: "(u64 \<Rightarrow> u32) \<Rightarrow> u64 \<Rightarrow> u32 \<Rightarrow> apic \<Rightarrow> u64 \<times> apic" where
  "KiApicIoRead registers ioAddr reg a = (ucast (registers (ioAddr + 16)), a\<lparr>mmio := mmio a @ [(ioAddr, reg AND 0xff)]\<rparr>)"

definition KiApicIoWrite :: "u64 \<Rightarrow> u32 \<Rightarrow> u32 \<Rightarrow> apic \<Rightarrow> apic" where
  "KiApicIoWrite ioAddr reg v a = a\<lparr>mmio := mmio a @ [(ioAddr, reg AND 0xff), (ioAddr + 16, v)]\<rparr>"

definition KiReturnAPICAddress :: "apic \<Rightarrow> u64" where
  "KiReturnAPICAddress a = apicTable_addr a"

definition KiInitApic :: "(string \<Rightarrow> u32 \<times> u64) \<Rightarrow> apic \<Rightarrow> NearStatus \<times> apic" where
  "KiInitApic find_table a =
     (let (stat, addr) = find_table ''APIC'';
          a0 = (if stat = 0 then a\<lparr>apicTable_addr := addr\<rparr> else a)
      in if stat \<noteq> 0 then (STATUS_NOT_FOUND, a0)
         else let a1 = a0\<lparr>interrupts_on := False\<rparr>;
                  apicBase = ArRdmsr 0x1B a1;
                  a2 = a1\<lparr>lapicBase := apicBase AND 0xFFFFF000\<rparr>;
                  apicBase = apicBase OR push_bit 11 1;
                  a3 = ArWrmsr 0x1B (drop_bit 32 apicBase) (apicBase AND 0xFFFFFFFF) a2;
                  a4 = KiApicWrite APIC_TASK_PRIORITY 0 a3;
                  a5 = KiApicWrite APIC_SPURIOUS_INT_VEC (0x100 OR 0xFF) a4
              in (STATUS_SUCCESS, a5))"

definition KiInitSystem :: "(string \<Rightarrow> u32 \<times> u64) \<Rightarrow> apic \<Rightarrow> NearStatus \<times> apic" where
  "KiInitSystem find_table a = KiInitApic find_table a"

section \<open>What the initialisation does\<close>

lemma split_msr: "push_bit 32 (take_bit 32 (drop_bit 32 (x :: u64))) OR take_bit 32 x = x"
proof (rule bit_word_eqI)
  fix n
  assume "n < LENGTH(64)"
  then have "n < 32 \<or> (32 \<le> n \<and> n < 64)" by auto
  then show "bit (push_bit 32 (take_bit 32 (drop_bit 32 x)) OR take_bit 32 x) n = bit x n"
    by (elim disjE) (auto simp: bit_simps)
qed

lemma low_mask: "(x :: u64) AND 0xFFFFFFFF = take_bit 32 x"
  by (simp add: take_bit_eq_mask mask_eq_exp_minus_1)

lemma take_bit_take: "take_bit 32 (take_bit 32 (x :: u64)) = take_bit 32 x"
  by simp

lemma KiInitApic_result:
  assumes "find_table ''APIC'' = (0, addr)"
  shows "KiInitApic find_table a = (STATUS_SUCCESS, a\<lparr>apicTable_addr := addr, interrupts_on := False,
     lapicBase := msr a 0x1B AND 0xFFFFF000, msr := (msr a)(0x1B := msr a 0x1B OR push_bit 11 1),
     mmio := mmio a @ [((msr a 0x1B AND 0xFFFFF000) + 0x80, 0), ((msr a 0x1B AND 0xFFFFF000) + 0xF0, 0x1FF)]\<rparr>)"
  using split_msr[of "msr a 0x1B OR push_bit 11 1"]
  by (simp add: KiInitApic_def assms Let_def ArRdmsr_def ArWrmsr_def low_mask KiApicWrite_def APIC_TASK_PRIORITY_def
      APIC_SPURIOUS_INT_VEC_def)

end
