(* ===== verification/Kernel.thy ===== *)
theory Kernel
  imports Vmm Ecs Interrupts Apic
begin

text \<open>
  The composition of the kernel: \<open>mm/amd64pc/mm.c\<close>, \<open>ke/ke.c\<close>, \<open>ke/binfo.c\<close>, \<open>ke/amd64pc/thread.c\<close>, the component registration of
  \<open>ke/amd64pc/spinlock.c\<close>, \<open>acpi/acpi.c\<close>, the timer of \<open>ki/amd64pc/apic.c\<close> and the start of the kernel, \<open>entry.c\<close>. The memory components record
  the messages they print in a log; \<open>flush_log\<close> hands them to the terminal after each call, in order. What the linker,
  the processor and uACPI provide is the record \<open>platform\<close>, an argument.
\<close>

section \<open>State\<close>

record kernel =
  k_term :: kterm
  k_vmm :: vmm
  k_ecs :: ecs
  ktCIndex :: u16
  utCIndex :: u16
  spinlockCompIndex :: u16
  bInfo :: "BootInfo option"
  k_tables :: tables
  k_apic :: apic

text \<open>The uACPI functions return a status, 0 for success, and may call back into the kernel.\<close>

type_synonym acpi_call = "kernel \<Rightarrow> (u32 \<times> kernel) option"

record platform =
  p_vsn :: formatter
  p_gdt :: u64
  p_idt :: u64
  p_handlers :: "handler \<Rightarrow> u64"
  p_find_table :: "string \<Rightarrow> u32 \<times> u64"
  uacpi_initialize :: acpi_call
  uacpi_namespace_load :: acpi_call
  uacpi_namespace_initialize :: acpi_call
  uacpi_finalize_gpe_initialization :: acpi_call
  uacpi_prepare_for_sleep_state :: acpi_call
  uacpi_enter_sleep_state :: acpi_call
  uacpi_reboot :: acpi_call

definition k_galloc :: "kernel \<Rightarrow> galloc" where
  "k_galloc s = ecs_ga (k_ecs s)"

definition set_galloc :: "galloc \<Rightarrow> kernel \<Rightarrow> kernel" where
  "set_galloc g s = s\<lparr>k_ecs := (k_ecs s)\<lparr>ecs_ga := g\<rparr>\<rparr>"

definition k_pmm :: "kernel \<Rightarrow> pmm" where
  "k_pmm s = ga_pm (k_galloc s)"

definition set_pmm :: "pmm \<Rightarrow> kernel \<Rightarrow> kernel" where
  "set_pmm p s = set_galloc ((k_galloc s)\<lparr>ga_pm := p\<rparr>) s"

section \<open>Messages\<close>

definition kprint :: "formatter \<Rightarrow> Status \<Rightarrow> string \<Rightarrow> u64 list \<Rightarrow> kernel \<Rightarrow> kernel option" where
  "kprint vsn st msg args s = map_option (\<lambda>t. s\<lparr>k_term := t\<rparr>) (KeTermPrint vsn st (QSTR msg) args (k_term s))"

fun print_log :: "formatter \<Rightarrow> klog \<Rightarrow> kterm \<Rightarrow> kterm option" where
  "print_log vsn [] t = Some t"
| "print_log vsn ((st, msg, args) # l) t = do { t' \<leftarrow> KeTermPrint vsn st (QSTR msg) args t; print_log vsn l t' }"

definition flush_log :: "formatter \<Rightarrow> kernel \<Rightarrow> kernel option" where
  "flush_log vsn s = map_option (\<lambda>t. set_galloc ((k_galloc s)\<lparr>ga_log := []\<rparr>) s\<lparr>k_term := t\<rparr>) (print_log vsn (ga_log (k_galloc s)) (k_term s))"

section \<open>Memory\<close>

definition memory_message :: "u64 \<Rightarrow> string \<times> u64" where
  "memory_message memoryAmount =
     (if memoryAmount < MB 1 then (''System has %d KB of RAM'', TO_KB memoryAmount)
      else if memoryAmount < GB 1 then (''System has %d MB of RAM'', TO_MB memoryAmount)
      else if memoryAmount < TB 1 then (''System has %d GB of RAM'', TO_GB memoryAmount)
      else (''System has %d TB of RAM'', TO_TB memoryAmount))"

definition MmInitSystem :: "formatter \<Rightarrow> BootInfo \<Rightarrow> kernel \<Rightarrow> (NearStatus \<times> kernel) option" where
  "MmInitSystem vsn info s =
     (let (msg, amount) = memory_message (sizeOfEntireMemory (memMap info))
      in do { s \<leftarrow> kprint vsn TERM_STATUS_INFO msg [amount] s;
              let (status, pm) = MmInitPhysicalMemoryManager (memMap info) (k_pmm s); s = set_pmm pm s
              in do { s \<leftarrow> kprint vsn TERM_STATUS_INFO ''setting up the physical memory manager'' [] s;
                 if \<not> NR_SUCCESS status
                 then do { s \<leftarrow> kprint vsn TERM_STATUS_ERROR ''Couldn't Setup Physical Memory Manager'' [] s; Some (status, s) }
                 else do { s \<leftarrow> kprint vsn TERM_STATUS_INFO ''initialized %d pages'' [MmReturnPageAmount (k_pmm s)] s;
                           s \<leftarrow> kprint vsn TERM_STATUS_INFO ''testing the physical memory manager'' [] s;
                           (testRes, pm) \<leftarrow> MmTestPhysicalMemoryManager (k_pmm s);
                           let s = set_pmm pm s
                           in if \<not> testRes
                              then do { s \<leftarrow> kprint vsn TERM_STATUS_ERROR ''Physical Memory Manager failed tests'' [] s;
                                        Some (STATUS_PMM_FAIL, s) }
                              else do { s \<leftarrow> kprint vsn TERM_STATUS_INFO ''setting up the virtual memory manager'' [] s;
                                        let g = globalGraphics (k_term s)
                                        in do { (status, v) \<leftarrow> MmInitVirtualMemoryManager (\<lambda>i. ArRdmsr i (k_apic s)) (g_framebufferBase g)
                                                  (g_framebufferSize g) info ((k_vmm s)\<lparr>vm_pm := k_pmm s\<rparr>);
                                                let s = set_pmm (vm_pm v) (s\<lparr>k_vmm := v\<rparr>)
                                                in if \<not> NR_SUCCESS status
                                                   then do { s \<leftarrow> kprint vsn TERM_STATUS_ERROR ''Couldn't Setup the virtual Memory Manager'' [] s;
                                                             Some (status, s) }
                                                   else do { s \<leftarrow> kprint vsn TERM_STATUS_INFO ''setting up the general memory allocator'' [] s;
                                                             (status, g) \<leftarrow> MmInitGeneralAllocator (k_galloc s);
                                                             let s = set_galloc g s
                                                             in if \<not> NR_SUCCESS status
                                                                then do { s \<leftarrow> kprint vsn TERM_STATUS_ERROR ''Couldn't Setup the general memory allocator'' [] s;
                                                                          Some (STATUS_GALLOC_FAIL, s) }
                                                                else Some (STATUS_SUCCESS, s) } } } } } })"

section \<open>Kernel components\<close>

text \<open>The sizes of \<open>KernThreadComponent\<close> and \<open>UserThreadComponent\<close>.\<close>

definition SIZEOF_KERN_THREAD_COMPONENT :: u64 where
  "SIZEOF_KERN_THREAD_COMPONENT = 16"

definition SIZEOF_USER_THREAD_COMPONENT :: u64 where
  "SIZEOF_USER_THREAD_COMPONENT = 16"

definition KeInitializeThreadComponent :: "kernel \<Rightarrow> NearStatus \<times> kernel" where
  "KeInitializeThreadComponent s =
     (let (c, e) = EcsCreateNewComponent SIZEOF_KERN_THREAD_COMPONENT (k_ecs s);
          s1 = s\<lparr>k_ecs := e, ktCIndex := c\<rparr>
      in if ktCIndex s1 = 0 then (STATUS_CANT_CREATE_ECS_COMP, s1)
         else let (c, e) = EcsCreateNewComponent SIZEOF_USER_THREAD_COMPONENT (k_ecs s1);
                  s2 = s1\<lparr>k_ecs := e, utCIndex := c\<rparr>
              in if utCIndex s2 = 0 then (STATUS_CANT_CREATE_ECS_COMP, s2) else (STATUS_SUCCESS, s2))"

definition KeReturnKtCompIndex :: "kernel \<Rightarrow> u16" where
  "KeReturnKtCompIndex s = ktCIndex s"

definition KeReturnUtCompIndex :: "kernel \<Rightarrow> u16" where
  "KeReturnUtCompIndex s = utCIndex s"

definition KeInitializeSpinlockComponent :: "kernel \<Rightarrow> NearStatus \<times> kernel" where
  "KeInitializeSpinlockComponent s =
     (let (index, e) = EcsCreateNewComponent SIZEOF_SPINLOCK (k_ecs s);
          s1 = s\<lparr>k_ecs := e\<rparr>
      in if index = 0 then (STATUS_CANT_CREATE_ECS_COMP, s1)
         else (STATUS_SUCCESS, s1\<lparr>spinlockCompIndex := index\<rparr>))"

definition KeReturnSpinlockCompIndex :: "kernel \<Rightarrow> u16" where
  "KeReturnSpinlockCompIndex s = spinlockCompIndex s"

definition KeStoreBootInformationAddress :: "BootInfo \<Rightarrow> kernel \<Rightarrow> kernel" where
  "KeStoreBootInformationAddress info s = s\<lparr>bInfo := Some info\<rparr>"

definition KeReturnBootInformation :: "kernel \<Rightarrow> BootInfo option" where
  "KeReturnBootInformation s = bInfo s"

definition KeInitSystem :: "BootInfo \<Rightarrow> kernel \<Rightarrow> NearStatus \<times> kernel" where
  "KeInitSystem info s =
     (let (status, s1) = KeInitializeThreadComponent s
      in if \<not> NR_SUCCESS status then (status, s1)
         else let (status, s2) = KeInitializeSpinlockComponent s1
              in if \<not> NR_SUCCESS status then (status, s2)
                 else (STATUS_SUCCESS, KeStoreBootInformationAddress info s2))"

section \<open>Timer\<close>

definition ApicCalibrateAndStartTimer :: "u64 \<Rightarrow> kernel \<Rightarrow> kernel" where
  "ApicCalibrateAndStartTimer timer_addr s =
     (let a1 = KiApicWrite APIC_TIMER_DIVIDE_CONFIG 0x3 (k_apic s);
          a2 = KiApicWrite APIC_LVT_TIMER (32 OR push_bit 17 1) a1;
          a3 = KiApicWrite APIC_TIMER_DIVIDE_CONFIG 0x3 a2;
          a4 = KiApicWrite APIC_TIMER_INITIAL_COUNT 10000 a3
      in s\<lparr>k_apic := a4, k_tables := ArIntLoadInterrupt (ArIntCreateInterrupt 32 timer_addr 0x08 0 0x8E (k_tables s))\<rparr>)"

definition IntApicTimer :: "formatter \<Rightarrow> kernel \<Rightarrow> kernel option" where
  "IntApicTimer vsn s =
     map_option (\<lambda>s1. s1\<lparr>k_apic := KiApicWrite APIC_EOI 0 (k_apic s1)\<rparr>) (kprint vsn TERM_STATUS_INFO ''h'' [] s)"

section \<open>Panics of the whole kernel\<close>

definition kpanic :: "formatter \<Rightarrow> NearStatus \<Rightarrow> kernel \<Rightarrow> kernel run option" where
  "kpanic vsn status s =
     map_option (\<lambda>r. case r of Runs t \<Rightarrow> Runs (s\<lparr>k_term := t\<rparr>) | Hangs t \<Rightarrow> Hangs (s\<lparr>k_term := t\<rparr>)) (KePanic vsn status (k_term s))"

text \<open>Go on with the rest unless the kernel hangs.\<close>

definition and_then :: "'s run option \<Rightarrow> ('s \<Rightarrow> 's run option) \<Rightarrow> 's run option" where
  "and_then m f = (case m of None \<Rightarrow> None | Some (Hangs s) \<Rightarrow> Some (Hangs s) | Some (Runs s) \<Rightarrow> f s)"

section \<open>ACPI\<close>

definition AcpiInitSystem :: "platform \<Rightarrow> kernel \<Rightarrow> (NearStatus \<times> kernel) option" where
  "AcpiInitSystem p s =
     (let n = MmReturnPageUsed (k_pmm s)
      in do { s \<leftarrow> kprint (p_vsn p) TERM_STATUS_INFO (''page used is %d'' @ nl) [n] s;
              (status, s) \<leftarrow> uacpi_initialize p s;
              if status \<noteq> 0 then Some (STATUS_UACPI_INIT_FAIL, s)
              else do { (status, s) \<leftarrow> uacpi_namespace_load p s;
                        if status \<noteq> 0 then Some (STATUS_ACPI_NAMESPACE_FAIL, s)
                        else do { (status, s) \<leftarrow> uacpi_namespace_initialize p s;
                                  if status \<noteq> 0 then Some (STATUS_ACPI_NAMESPACE_FAIL, s)
                                  else do { (status, s) \<leftarrow> uacpi_finalize_gpe_initialization p s;
                                            if status \<noteq> 0 then Some (STATUS_ACPI_GPE_FAIL, s)
                                            else let n = MmReturnPageUsed (k_pmm s)
                                                 in do { s \<leftarrow> kprint (p_vsn p) TERM_STATUS_INFO (''page finally used is %d'' @ nl) [n] s;
                                                         Some (STATUS_SUCCESS, s) } } } } })"

definition AcpiShutdownSystem :: "platform \<Rightarrow> kernel \<Rightarrow> kernel run option" where
  "AcpiShutdownSystem p s =
     do { (_, s) \<leftarrow> uacpi_prepare_for_sleep_state p s;
          (_, s) \<leftarrow> uacpi_enter_sleep_state p s;
          kpanic (p_vsn p) STATUS_SHUTDOWN_FAILED s }"

definition AcpiRebootSystem :: "platform \<Rightarrow> kernel \<Rightarrow> kernel run option" where
  "AcpiRebootSystem p s =
     do { (_, s) \<leftarrow> uacpi_prepare_for_sleep_state p s;
          (_, s) \<leftarrow> uacpi_reboot p s;
          kpanic (p_vsn p) STATUS_REBOOT_FAILED s }"

section \<open>The start of the kernel\<close>

text \<open>The two lines after each phase: panic with its status, or report that it passed.\<close>

definition after_phase :: "platform \<Rightarrow> NearStatus \<Rightarrow> string \<Rightarrow> kernel \<Rightarrow> kernel run option" where
  "after_phase p status msg s =
     do { s \<leftarrow> flush_log (p_vsn p) s;
          if \<not> NR_SUCCESS status then kpanic (p_vsn p) status s
          else map_option Runs (kprint (p_vsn p) TERM_STATUS_PASS msg [] s) }"

definition boot_graphics :: "BootInfo \<Rightarrow> GraphicsData" where
  "boot_graphics info =
     (let owners = (if typeOfBoot info = 1 then OWNER_DEBUG_TERM else OWNER_SPLASH_SCREEN); g = graphicsData info
      in \<lparr>g_init = bg_init g, g_framebufferBase = bg_framebufferBase g, g_framebufferSize = bg_framebufferSize g,
          g_width = bg_width g, g_height = bg_height g, g_pixelsPerScanLine = bg_pixelsPerScanLine g, g_owners = owners\<rparr>)"

definition boot_screen :: "kernel \<Rightarrow> kernel" where
  "boot_screen s = s\<lparr>k_term := KeAddToBootScreen (k_term s)\<rparr>"

definition phase_ar :: "platform \<Rightarrow> kernel \<Rightarrow> kernel run option" where
  "phase_ar p s =
     do { s \<leftarrow> kprint (p_vsn p) TERM_STATUS_IMPINFO ''Calling ArInitSystem'' [] s;
          let (status, t) = ArInitSystem (p_gdt p) (p_handlers p) (p_idt p) (k_tables s)
          in after_phase p status ''ArInitSystem PASS'' (s\<lparr>k_tables := t\<rparr>) }"

definition phase_mm :: "platform \<Rightarrow> BootInfo \<Rightarrow> kernel \<Rightarrow> kernel run option" where
  "phase_mm p info s =
     do { s \<leftarrow> kprint (p_vsn p) TERM_STATUS_IMPINFO ''Calling MmInitSystem'' [] (boot_screen s);
          (status, s) \<leftarrow> MmInitSystem (p_vsn p) info s;
          after_phase p status ''MmInitSystem PASS'' s }"

definition phase_ke :: "platform \<Rightarrow> BootInfo \<Rightarrow> kernel \<Rightarrow> kernel run option" where
  "phase_ke p info s =
     do { s \<leftarrow> kprint (p_vsn p) TERM_STATUS_UNKNOWN ''--------------------PHASE 1--------------------'' [] s;
          s \<leftarrow> kprint (p_vsn p) TERM_STATUS_IMPINFO ''Calling KeInitSystem'' [] s;
          let (status, s) = KeInitSystem info s in after_phase p status ''KeInitSystem PASS'' s }"

definition phase_acpi :: "platform \<Rightarrow> BootInfo \<Rightarrow> kernel \<Rightarrow> kernel run option" where
  "phase_acpi p info s =
     do { s \<leftarrow> kprint (p_vsn p) TERM_STATUS_IMPINFO ''RSDP: 0x%x'' [rsdp info] s;
          s \<leftarrow> kprint (p_vsn p) TERM_STATUS_IMPINFO ''Calling AcpiInitSystem'' [] s;
          (status, s) \<leftarrow> AcpiInitSystem p s;
          after_phase p status ''AcpiInitSystem PASS'' s }"

definition phase_ki :: "platform \<Rightarrow> kernel \<Rightarrow> kernel run option" where
  "phase_ki p s =
     do { s \<leftarrow> kprint (p_vsn p) TERM_STATUS_IMPINFO ''Calling KiInitSystem'' [] s;
          let (status, a) = KiInitSystem (p_find_table p) (k_apic s)
          in after_phase p status ''KiInitSystem PASS'' (s\<lparr>k_apic := a\<rparr>) }"

definition start_screen :: "platform \<Rightarrow> BootInfo \<Rightarrow> kernel \<Rightarrow> kernel option" where
  "start_screen p info s =
     do { t \<leftarrow> KeBeginSplashScreen 10 (KeGraphicsSetup (boot_graphics info) (k_term s));
          s \<leftarrow> kprint (p_vsn p) TERM_STATUS_UNKNOWN ''--------------------PHASE 0--------------------'' [] (s\<lparr>k_term := KeTermClear t\<rparr>);
          kprint (p_vsn p) TERM_STATUS_PASS ''Physical kernel address is 0x%x'' [kernelLocPhys info] (boot_screen s) }"

definition KeSystemStartup :: "platform \<Rightarrow> BootInfo \<Rightarrow> kernel \<Rightarrow> kernel run option" where
  "KeSystemStartup p info s =
     do { s \<leftarrow> start_screen p info s;
          and_then (phase_ar p s) (\<lambda>s.
          and_then (phase_mm p info s) (\<lambda>s.
          and_then (phase_ke p info s) (\<lambda>s.
          and_then (phase_acpi p info s) (\<lambda>s.
          and_then (phase_ki p s) (\<lambda>s.
            map_option Hangs (kprint (p_vsn p) TERM_STATUS_ERROR ''WORK IN PROGRESS - come back later!'' [] s)))))) }"

end
