(* ===== verification/KernelProps.thy ===== *)
theory KernelProps
  imports Kernel PmmInit TermProps EcsProps InterruptProps
begin

text \<open>The properties of the composed kernel: its start, its component types and its interrupt controller.\<close>

section \<open>Messages always get out\<close>

lemma kprint_result:
  assumes "fits_buffer vsn"
  shows "\<exists>t. kprint vsn st msg args s = Some (s\<lparr>k_term := t\<rparr>) \<and> colorPalette t = colorPalette (k_term s)"
  using KeTermPrint_result[OF assms, of st "QSTR msg" args "k_term s"] by (auto simp: kprint_def)

lemma print_log_result:
  assumes "fits_buffer vsn"
  shows "\<exists>t'. print_log vsn l t = Some t' \<and> colorPalette t' = colorPalette t"
  using assms
proof (induction vsn l t rule: print_log.induct)
  case (1 vsn t)
  then show ?case by simp
next
  case (2 vsn st msg args l t)
  obtain t1 where t1: "KeTermPrint vsn st (QSTR msg) args t = Some t1" "colorPalette t1 = colorPalette t"
    using KeTermPrint_result[OF 2(2), of st "QSTR msg" args t] by blast
  with 2(1)[OF t1(1) 2(2)] show ?case by simp
qed

lemma flush_log_result:
  assumes "fits_buffer vsn"
  shows "\<exists>t. flush_log vsn s = Some (set_galloc ((k_galloc s)\<lparr>ga_log := []\<rparr>) s\<lparr>k_term := t\<rparr>) \<and> colorPalette t = colorPalette (k_term s)"
  using print_log_result[OF assms, of "ga_log (k_galloc s)" "k_term s"] by (auto simp: flush_log_def)

lemma start_screen_result:
  assumes "fits_buffer (p_vsn p)"
  shows "\<exists>t. start_screen p info s = Some (s\<lparr>k_term := t\<rparr>) \<and> colorPalette t = colorPalette (k_term s)"
proof -
  note print = kprint_result[OF assms]
  let ?t0 = "KeGraphicsSetup (boot_graphics info) (k_term s)"
  obtain t where t: "KeBeginSplashScreen 10 ?t0 = Some t" using KeBeginSplashScreen_returns by blast
  have ct: "colorPalette t = colorPalette (k_term s)" using KeBeginSplashScreen_palette[OF t] by (simp add: KeGraphicsSetup_def)
  let ?s1 = "s\<lparr>k_term := KeTermClear t\<rparr>"
  obtain t2 where 2: "kprint (p_vsn p) TERM_STATUS_UNKNOWN ''--------------------PHASE 0--------------------'' [] ?s1 = Some (?s1\<lparr>k_term := t2\<rparr>)"
    "colorPalette t2 = colorPalette (k_term s)" using print[of TERM_STATUS_UNKNOWN _ "[]" ?s1] ct by force
  let ?s2 = "boot_screen (?s1\<lparr>k_term := t2\<rparr>)"
  obtain t3 where 3: "kprint (p_vsn p) TERM_STATUS_PASS ''Physical kernel address is 0x%x'' [kernelLocPhys info] ?s2 = Some (?s2\<lparr>k_term := t3\<rparr>)"
    "colorPalette t3 = colorPalette (k_term ?s2)" using print by blast
  have "colorPalette (k_term ?s2) = colorPalette t2"
    by (simp add: boot_screen_def KeAddToBootScreen_def Let_def draw_char_fields)
  with 3 2 t show ?thesis by (intro exI[of _ t3]) (simp add: start_screen_def boot_screen_def)
qed

text \<open>A phase that fails puts its status on the panic screen, and nothing runs after it.\<close>

lemma after_phase_fails:
  assumes "fits_buffer (p_vsn p)" and "length (colorPalette (k_term s)) = 7" and "\<not> NR_SUCCESS status"
  shows "\<exists>t g. after_phase p status msg s = Some (Hangs (set_galloc g s\<lparr>k_term := t\<rparr>)) \<and>
    colorPalette t = panicScreenPalette \<and>
    (case KeNrStatusToCString status of None \<Rightarrow> True
     | Some m \<Rightarrow> \<exists>pre post. ports t = pre @ map (Pair 0x3f8) (map of_char m @ [10]) @ post)"
proof -
  let ?g = "(k_galloc s)\<lparr>ga_log := []\<rparr>"
  obtain t0 where t0: "flush_log (p_vsn p) s = Some (set_galloc ?g s\<lparr>k_term := t0\<rparr>)" "length (colorPalette t0) = 7"
    using flush_log_result[OF assms(1), of s] assms(2) by auto
  obtain t where t: "KePanic (p_vsn p) status t0 = Some (Hangs t)" "colorPalette t = panicScreenPalette"
    "case KeNrStatusToCString status of None \<Rightarrow> True
     | Some m \<Rightarrow> \<exists>pre post. ports t = pre @ map (Pair 0x3f8) (map of_char m @ [10]) @ post"
    using KePanic_result[OF assms(1) t0(2), of status] by blast
  have "after_phase p status msg s = Some (Hangs (set_galloc ?g s\<lparr>k_term := t\<rparr>))"
    using t0(1) t(1) assms(3) by (simp add: after_phase_def kpanic_def)
  with t(2,3) show ?thesis by blast
qed

lemma after_phase_passes:
  assumes "fits_buffer (p_vsn p)" and "NR_SUCCESS status"
  shows "\<exists>t. after_phase p status msg s = Some (Runs (set_galloc ((k_galloc s)\<lparr>ga_log := []\<rparr>) s\<lparr>k_term := t\<rparr>)) \<and>
    colorPalette t = colorPalette (k_term s)"
proof -
  obtain t0 where t0: "flush_log (p_vsn p) s = Some (set_galloc ((k_galloc s)\<lparr>ga_log := []\<rparr>) s\<lparr>k_term := t0\<rparr>)"
    "colorPalette t0 = colorPalette (k_term s)" using flush_log_result[OF assms(1), of s] by blast
  obtain t where "kprint (p_vsn p) TERM_STATUS_PASS msg [] (set_galloc ((k_galloc s)\<lparr>ga_log := []\<rparr>) s\<lparr>k_term := t0\<rparr>) =
      Some (set_galloc ((k_galloc s)\<lparr>ga_log := []\<rparr>) s\<lparr>k_term := t\<rparr>)" "colorPalette t = colorPalette (k_term s)"
    using kprint_result[OF assms(1), of TERM_STATUS_PASS msg "[]" "set_galloc ((k_galloc s)\<lparr>ga_log := []\<rparr>) s\<lparr>k_term := t0\<rparr>"] t0(2) by auto
  with t0(1) assms(2) show ?thesis by (intro exI[of _ t]) (simp add: after_phase_def)
qed

lemma phase_ar_result:
  assumes "fits_buffer (p_vsn p)"
  shows "\<exists>t g. phase_ar p s = Some (Runs (set_galloc g s\<lparr>k_term := t, k_tables := snd (ArInitSystem (p_gdt p) (p_handlers p) (p_idt p) (k_tables s))\<rparr>)) \<and>
    colorPalette t = colorPalette (k_term s) \<and> g = (k_galloc s)\<lparr>ga_log := []\<rparr>"
proof -
  obtain t1 where 1: "kprint (p_vsn p) TERM_STATUS_IMPINFO ''Calling ArInitSystem'' [] s = Some (s\<lparr>k_term := t1\<rparr>)"
    "colorPalette t1 = colorPalette (k_term s)" using kprint_result[OF assms] by blast
  let ?s = "s\<lparr>k_term := t1, k_tables := snd (ArInitSystem (p_gdt p) (p_handlers p) (p_idt p) (k_tables s))\<rparr>"
  obtain t2 where 2: "after_phase p STATUS_SUCCESS ''ArInitSystem PASS'' ?s = Some (Runs (set_galloc ((k_galloc ?s)\<lparr>ga_log := []\<rparr>) ?s\<lparr>k_term := t2\<rparr>))"
    "colorPalette t2 = colorPalette t1" using after_phase_passes[OF assms, of STATUS_SUCCESS _ ?s] by (force simp: NR_SUCCESS_def)
  show ?thesis using 1 2
    by (intro exI[of _ t2] exI[of _ "(k_galloc s)\<lparr>ga_log := []\<rparr>"]) (simp add: phase_ar_def ArInitSystem_def set_galloc_def k_galloc_def)
qed

section \<open>Starting without memory\<close>

text \<open>
  C36: when the loader's map has fewer than eight pages, \<open>KeSystemStartup\<close> ends in the panic screen with the message of
  \<open>STATUS_NO_VALID_MEMORY\<close> on the serial port; the interrupt tables are set up by then, and neither the kernel's
  components nor the interrupt controller have been touched.
\<close>

theorem startup_without_memory_panics:
  assumes "fits_buffer (p_vsn p)" and "length (colorPalette (k_term s)) = 7" and "bitmapSize (init_counts (memMap info) (k_pmm s)) = 0"
  shows "\<exists>s'. KeSystemStartup p info s = Some (Hangs s') \<and> colorPalette (k_term s') = panicScreenPalette \<and>
    (\<exists>pre post. ports (k_term s') = pre @ map (Pair 0x3f8) (map of_char ''Not enough valid memory present'' @ [10]) @ post) \<and>
    k_tables s' = snd (ArInitSystem (p_gdt p) (p_handlers p) (p_idt p) (k_tables s)) \<and>
    bInfo s' = bInfo s \<and> k_apic s' = k_apic s \<and> curComponentIndex (k_ecs s') = curComponentIndex (k_ecs s)"
proof -
  note print = kprint_result[OF assms(1)]
  obtain t0 where 0: "start_screen p info s = Some (s\<lparr>k_term := t0\<rparr>)" "colorPalette t0 = colorPalette (k_term s)"
    using start_screen_result[OF assms(1)] by blast
  let ?g = "(k_galloc s)\<lparr>ga_log := []\<rparr>"
  let ?T = "snd (ArInitSystem (p_gdt p) (p_handlers p) (p_idt p) (k_tables s))"
  obtain t1 where 1: "phase_ar p (s\<lparr>k_term := t0\<rparr>) = Some (Runs (set_galloc ?g (s\<lparr>k_term := t0\<rparr>)\<lparr>k_term := t1, k_tables := ?T\<rparr>))"
    "colorPalette t1 = colorPalette (k_term s)"
    using phase_ar_result[OF assms(1), of "s\<lparr>k_term := t0\<rparr>"] 0(2) by (auto simp: k_galloc_def)
  let ?s1 = "boot_screen (set_galloc ?g (s\<lparr>k_term := t0\<rparr>)\<lparr>k_term := t1, k_tables := ?T\<rparr>)"
  have c1: "colorPalette (k_term ?s1) = colorPalette (k_term s)"
    using 1(2) by (simp add: boot_screen_def KeAddToBootScreen_def Let_def draw_char_fields)
  obtain msg amount where m: "memory_message (sizeOfEntireMemory (memMap info)) = (msg, amount)" by force
  obtain t2 where 2: "kprint (p_vsn p) TERM_STATUS_IMPINFO ''Calling MmInitSystem'' [] ?s1 = Some (?s1\<lparr>k_term := t2\<rparr>)"
    "colorPalette t2 = colorPalette (k_term s)" using print[of TERM_STATUS_IMPINFO _ "[]" ?s1] c1 by force
  let ?s2 = "?s1\<lparr>k_term := t2\<rparr>"
  obtain t3 where 3: "kprint (p_vsn p) TERM_STATUS_INFO msg [amount] ?s2 = Some (?s2\<lparr>k_term := t3\<rparr>)"
    "colorPalette t3 = colorPalette (k_term s)" using print[of TERM_STATUS_INFO msg "[amount]" ?s2] 2(2) by force
  let ?s3 = "?s2\<lparr>k_term := t3\<rparr>"
  have pm: "k_pmm ?s3 = k_pmm s" by (simp add: k_pmm_def k_galloc_def boot_screen_def set_galloc_def)
  obtain pm' where "MmInitPhysicalMemoryManager (memMap info) (k_pmm s) = (STATUS_NO_VALID_MEMORY, pm')"
    using assms(3) by (auto simp: MmInitPhysicalMemoryManager_def init_counts_def Let_def)
  then have no: "MmInitPhysicalMemoryManager (memMap info) (k_pmm ?s3) = (STATUS_NO_VALID_MEMORY, pm')" unfolding pm .
  let ?s4 = "set_pmm pm' ?s3"
  obtain t5 where 5: "kprint (p_vsn p) TERM_STATUS_INFO ''setting up the physical memory manager'' [] ?s4 = Some (?s4\<lparr>k_term := t5\<rparr>)"
    "colorPalette t5 = colorPalette (k_term s)"
    using print[of TERM_STATUS_INFO _ "[]" ?s4] 3(2) by (force simp: set_pmm_def set_galloc_def)
  let ?s5 = "?s4\<lparr>k_term := t5\<rparr>"
  obtain t6 where 6: "kprint (p_vsn p) TERM_STATUS_ERROR ''Couldn't Setup Physical Memory Manager'' [] ?s5 = Some (?s5\<lparr>k_term := t6\<rparr>)"
    "colorPalette t6 = colorPalette (k_term s)" using print[of TERM_STATUS_ERROR _ "[]" ?s5] 5(2) by force
  let ?s6 = "?s5\<lparr>k_term := t6\<rparr>"
  have mm: "MmInitSystem (p_vsn p) info ?s2 = Some (STATUS_NO_VALID_MEMORY, ?s6)"
    unfolding MmInitSystem_def m prod.case 3(1) Option.bind.bind_lunit no Let_def 5(1)
    using 6(1) by (simp add: NR_SUCCESS_def)
  have l6: "length (colorPalette (k_term ?s6)) = 7" "\<not> NR_SUCCESS STATUS_NO_VALID_MEMORY"
    using 6(2) assms(2) by (simp_all add: NR_SUCCESS_def)
  obtain t g where 7: "after_phase p STATUS_NO_VALID_MEMORY ''MmInitSystem PASS'' ?s6 = Some (Hangs (set_galloc g ?s6\<lparr>k_term := t\<rparr>))"
    "colorPalette t = panicScreenPalette"
    "case KeNrStatusToCString STATUS_NO_VALID_MEMORY of None \<Rightarrow> True
     | Some m \<Rightarrow> \<exists>pre post. ports t = pre @ map (Pair 0x3f8) (map of_char m @ [10]) @ post"
    using after_phase_fails[OF assms(1) l6] by blast
  have msg: "KeNrStatusToCString STATUS_NO_VALID_MEMORY = Some ''Not enough valid memory present''"
    by (simp add: KeNrStatusToCString_def statusToString_def)
  have "KeSystemStartup p info s = Some (Hangs (set_galloc g ?s6\<lparr>k_term := t\<rparr>))"
    using 0(1) 1(1) 2(1) mm 7(1) by (simp add: KeSystemStartup_def and_then_def phase_mm_def)
  then show ?thesis
    using 7(2,3) unfolding msg option.case
    by (intro exI[of _ "set_galloc g ?s6\<lparr>k_term := t\<rparr>"]) (simp add: set_pmm_def set_galloc_def boot_screen_def)
qed

text \<open>A kernel at boot, and a platform on which every call succeeds and changes nothing.\<close>

definition sample_kernel :: kernel where
  "sample_kernel = \<lparr>k_term = sample_term, k_vmm = \<lparr>kernPTable = \<lparr>pml4 = 0\<rparr>, vm_pm = sample_ga_pmm, cr3 = 0, invalidated = []\<rparr>,
     k_ecs = ecs_boot (sample_galloc\<lparr>ga_pm := sample_ga_pmm\<lparr>pageCount := 0\<rparr>\<rparr>), ktCIndex = 0, utCIndex = 0, spinlockCompIndex = 0,
     bInfo = None, k_tables = sample_tables,
     k_apic = \<lparr>apicTable_addr = 0, lapicBase = 0, msr = (\<lambda>_. 0xFEE00900), mmio = [], interrupts_on = True\<rparr>\<rparr>"

definition sample_platform :: platform where
  "sample_platform = \<lparr>p_vsn = copy_format, p_gdt = 0x1000, p_idt = 0x2000, p_handlers = (\<lambda>_. 0x7000), p_find_table = (\<lambda>_. (0, 0x9000)),
     uacpi_initialize = (\<lambda>s. Some (0, s)), uacpi_namespace_load = (\<lambda>s. Some (0, s)), uacpi_namespace_initialize = (\<lambda>s. Some (0, s)),
     uacpi_finalize_gpe_initialization = (\<lambda>s. Some (0, s)), uacpi_prepare_for_sleep_state = (\<lambda>s. Some (0, s)),
     uacpi_enter_sleep_state = (\<lambda>s. Some (0, s)), uacpi_reboot = (\<lambda>s. Some (0, s))\<rparr>"

definition sample_info :: BootInfo where
  "sample_info = \<lparr>graphicsData = \<lparr>bg_init = True, bg_framebufferBase = 0x80000000, bg_framebufferSize = 0x10000, bg_width = 100,
       bg_height = 50, bg_pixelsPerScanLine = 128\<rparr>,
     memMap = \<lparr>memEntries = [], amountOfEntries = 0, sizeOfEntireMemory = 0, mapKey = 0\<rparr>, hhdmOffset = 0, kernelLocVirt = 0,
     kernelLocPhys = 0, kernelSizeInPages = 0, typeOfBoot = 1, rsdp = 0\<rparr>"

lemma startup_without_memory_panics_witness:
  "\<exists>s'. KeSystemStartup sample_platform sample_info sample_kernel = Some (Hangs s') \<and> bInfo s' = None"
proof -
  have "fits_buffer (p_vsn sample_platform)" using copy_format_fits by (simp add: sample_platform_def)
  moreover have "length (colorPalette (k_term sample_kernel)) = 7" by (simp add: sample_kernel_def sample_term_def default_palette_def)
  moreover have "bitmapSize (init_counts (memMap sample_info) (k_pmm sample_kernel)) = 0"
    by (simp add: init_counts_def map_entries_def sample_info_def k_pmm_def k_galloc_def sample_kernel_def ecs_boot_def)
  ultimately show ?thesis
    using startup_without_memory_panics[of sample_platform sample_kernel sample_info] by (auto simp: sample_kernel_def)
qed

section \<open>The kernel's component types\<close>

lemma EcsCreateNewComponent_first:
  assumes "componentSizeArr s = NULL" and "MmAllocateSinglePage (ga_pm (ecs_ga s)) = (p, pm)" and "p \<noteq> NULL"
  shows "EcsCreateNewComponent n s = EcsCreateNewComponent n ((Ecs.set_pm pm s)\<lparr>componentSizeArr := p\<rparr>)"
  using assms by (simp add: EcsCreateNewComponent_def)

lemma EcsCreateNewComponent_next:
  assumes "componentSizeArr s \<noteq> NULL" and "unat (curComponentIndex s) < 512"
  shows "fst (EcsCreateNewComponent n s) = curComponentIndex s \<and>
    curComponentIndex (snd (EcsCreateNewComponent n s)) = curComponentIndex s + 1 \<and>
    componentSizeArr (snd (EcsCreateNewComponent n s)) = componentSizeArr s \<and>
    ecs_mem (snd (EcsCreateNewComponent n s)) = st64 (ecs_mem s) (componentSizeArr s + 8 * ucast (curComponentIndex s)) n"
proof -
  have "\<not> MAX_COMPONENT \<le> ucast (curComponentIndex s)"
    using assms(2) by (simp add: MAX_COMPONENT_def word_le_nat_alt unsigned_ucast_eq take_bit_eq_mod)
  moreover have "ucast (ucast (curComponentIndex s) :: u64) = curComponentIndex s"
    by (rule bit_word_eqI) (simp add: bit_simps)
  ultimately show ?thesis using assms(1) by (simp add: EcsCreateNewComponent_def Ecs.set_pm_def ecs_mem_def Let_def)
qed

text \<open>
  \<open>KeInitSystem\<close> registers the component types of kernel threads, user threads and spin locks as 1, 2 and 3 with the sizes of their
  structures and stores the boot information; without a page for the sizes it reports \<open>STATUS_CANT_CREATE_ECS_COMP\<close> and stores nothing.
\<close>

theorem ke_init_registers_components:
  assumes "componentSizeArr (k_ecs s) = NULL" and "curComponentIndex (k_ecs s) = 1" and "MmAllocateSinglePage (k_pmm s) = (p, pm)"
    and "KeInitSystem info s = (st, s')"
  shows "if p = NULL then st = STATUS_CANT_CREATE_ECS_COMP \<and> bInfo s' = bInfo s
    else st = STATUS_SUCCESS \<and> bInfo s' = Some info \<and> ktCIndex s' = 1 \<and> utCIndex s' = 2 \<and> spinlockCompIndex s' = 3 \<and>
      curComponentIndex (k_ecs s') = 4 \<and> component_size (k_ecs s') 1 = 16 \<and> component_size (k_ecs s') 2 = 16 \<and>
      component_size (k_ecs s') 3 = 1"
proof (cases "p = NULL")
  case True
  then show ?thesis
    using assms
    by (auto simp: KeInitSystem_def KeInitializeThreadComponent_def EcsCreateNewComponent_def Let_def k_pmm_def k_galloc_def
        ecs_print_def Ecs.set_pm_def NR_SUCCESS_def)
next
  case False
  let ?m = "st64 (st64 (st64 (pm_mem pm) (p + 8) 16) (p + 16) 16) (p + 24) 1"
  let ?e0 = "(Ecs.set_pm pm (k_ecs s))\<lparr>componentSizeArr := p\<rparr>"
  have e0: "componentSizeArr ?e0 \<noteq> NULL" "curComponentIndex ?e0 = 1" "ecs_mem ?e0 = pm_mem pm" "componentSizeArr ?e0 = p"
    using False assms(2) by (simp_all add: Ecs.set_pm_def ecs_mem_def)
  obtain e1 where 1: "EcsCreateNewComponent 16 (k_ecs s) = (1, e1)" "curComponentIndex e1 = 2" "componentSizeArr e1 = p"
    "ecs_mem e1 = st64 (pm_mem pm) (p + 8) 16"
    using EcsCreateNewComponent_next[of ?e0 16, OF e0(1)] e0 assms(3)
      EcsCreateNewComponent_first[OF assms(1) _ False, of pm 16]
    by (cases "EcsCreateNewComponent 16 ?e0") (simp add: k_pmm_def k_galloc_def)
  obtain e2 where 2: "EcsCreateNewComponent 16 e1 = (2, e2)" "curComponentIndex e2 = 3" "componentSizeArr e2 = p"
    "ecs_mem e2 = st64 (st64 (pm_mem pm) (p + 8) 16) (p + 16) 16"
    using EcsCreateNewComponent_next[of e1 16] 1 False by (cases "EcsCreateNewComponent 16 e1") simp
  obtain e3 where 3: "EcsCreateNewComponent 1 e2 = (3, e3)" "curComponentIndex e3 = 4" "componentSizeArr e3 = p" "ecs_mem e3 = ?m"
    using EcsCreateNewComponent_next[of e2 1] 2 False by (cases "EcsCreateNewComponent 1 e2") simp
  have e: "st = STATUS_SUCCESS \<and> bInfo s' = Some info \<and> ktCIndex s' = 1 \<and> utCIndex s' = 2 \<and> spinlockCompIndex s' = 3 \<and>
      curComponentIndex (k_ecs s') = 4 \<and> componentSizeArr (k_ecs s') = p \<and> ecs_mem (k_ecs s') = ?m"
    using assms(4) 1(1) 2(1) 3
    by (auto simp: KeInitSystem_def KeInitializeThreadComponent_def KeInitializeSpinlockComponent_def KeStoreBootInformationAddress_def
        NR_SUCCESS_def SIZEOF_KERN_THREAD_COMPONENT_def SIZEOF_USER_THREAD_COMPONENT_def SIZEOF_SPINLOCK_def)
  have "ld64 ?m (p + 8) = 16" "ld64 ?m (p + 16) = 16" "ld64 ?m (p + 24) = 1"
    by (simp_all add: ld64_st64_apart)
  with e False show ?thesis by (simp add: component_size_def)
qed

lemma ke_init_registers_components_witness:
  "let s' = snd (KeInitSystem sample_info (sample_kernel\<lparr>k_ecs := ecs_boot sample_galloc\<rparr>))
   in spinlockCompIndex s' = 3 \<and> component_size (k_ecs s') 3 = 1"
proof -
  let ?s = "sample_kernel\<lparr>k_ecs := ecs_boot sample_galloc\<rparr>"
  have pm: "k_pmm ?s = sample_ga_pmm" by (simp add: k_pmm_def k_galloc_def ecs_boot_def sample_galloc_def)
  have "pmm_wf sample_ga_pmm" by (simp add: pmm_wf_def sample_ga_pmm_def)
  then obtain pm' where "MmAllocateSinglePage (k_pmm ?s) = (GetAddressFromPageLocation 2, pm')"
    using single_first[OF _ sample_ga_frontier] by (simp add: pm sample_ga_pmm_def)
  moreover have "GetAddressFromPageLocation 2 \<noteq> NULL" by (simp add: GetAddressFromPageLocation_def PAGE_SIZE_def)
  ultimately show ?thesis
    using ke_init_registers_components[of ?s _ pm' sample_info, OF _ _ _ prod.collapse [symmetric]]
    by (simp add: ecs_boot_def Let_def)
qed

section \<open>The interrupt controller\<close>

text \<open>
  When the \<open>APIC\<close> table exists, \<open>KiInitSystem\<close> enables the local APIC by setting bit 11 of its base register and no other bit, disables
  interrupts, and writes the task priority and the spurious vector, in this order, to the controller's page, provided
  that the base lies below 4 GiB; of a higher base it drops the high bits.
\<close>

theorem apic_init:
  assumes "find_table ''APIC'' = (0, addr)" and "KiInitSystem find_table a = (st, a')"
  shows "st = STATUS_SUCCESS \<and> \<not> interrupts_on a' \<and> KiReturnAPICAddress a' = addr \<and>
    (\<forall>n. bit (msr a' 0x1B) n \<longleftrightarrow> n = 11 \<or> bit (msr a 0x1B) n) \<and> (\<forall>i. i \<noteq> 0x1B \<longrightarrow> msr a' i = msr a i) \<and>
    mmio a' = mmio a @ [(lapicBase a' + 0x80, 0), (lapicBase a' + 0xF0, 0x1FF)] \<and>
    (lapicBase a' = msr a 0x1B AND NOT 0xFFF \<longleftrightarrow> msr a 0x1B < 0x100000000)"
proof -
  let ?x = "msr a 0x1B"
  have m: "(0xFFFFF000 :: u64) = mask 32 AND NOT (mask 12)" "(0xFFF :: u64) = mask 12"
    by (simp_all add: mask_eq_exp_minus_1)
  have base: "?x AND 0xFFFFF000 = ?x AND NOT 0xFFF \<longleftrightarrow> ?x < 0x100000000"
  proof
    assume eq: "?x AND 0xFFFFF000 = ?x AND NOT 0xFFF"
    have "bit ?x n \<Longrightarrow> n < 32" for n
      using arg_cong[OF eq, of "\<lambda>w. bit w n"] bit_imp_le_length[of ?x n] unfolding m
      by (cases "n < 12") (auto simp: bit_simps)
    then have "take_bit 32 ?x = ?x" by (intro bit_word_eqI) (auto simp: bit_simps)
    then have "unat ?x < 2 ^ 32" by (metis take_bit_nat_less_exp unsigned_take_bit_eq)
    then show "?x < 0x100000000" by (simp add: word_less_nat_alt)
  next
    assume "?x < 0x100000000"
    then have "unat ?x < 2 ^ 32" by (simp add: word_less_nat_alt)
    then have "take_bit 32 ?x = ?x" by (metis take_bit_nat_eq_self unsigned_take_bit_eq word_unat_eq_iff)
    then have "bit ?x n \<Longrightarrow> n < 32" for n by (metis bit_take_bit_iff)
    then show "?x AND 0xFFFFF000 = ?x AND NOT 0xFFF" unfolding m by (intro bit_word_eqI) (auto simp: bit_simps)
  qed
  have bit11: "bit (2048 :: u64) n \<longleftrightarrow> n = 11" for n
  proof -
    have "(2048 :: u64) = push_bit 11 1" by simp
    then show ?thesis by (simp only: bit_push_bit_iff bit_1_iff) auto
  qed
  have st: "st = STATUS_SUCCESS" and a': "a' = a\<lparr>apicTable_addr := addr, interrupts_on := False,
     lapicBase := ?x AND 0xFFFFF000, msr := (msr a)(0x1B := ?x OR 2048),
     mmio := mmio a @ [((?x AND 0xFFFFF000) + 0x80, 0), ((?x AND 0xFFFFF000) + 0xF0, 0x1FF)]\<rparr>"
    using assms(2) unfolding KiInitSystem_def KiInitApic_result[where find_table = find_table and addr = addr and a = a, OF assms(1)]
    by simp_all
  have f: "\<not> interrupts_on a'" "apicTable_addr a' = addr" "lapicBase a' = ?x AND 0xFFFFF000" "msr a' = (msr a)(0x1B := ?x OR 2048)"
    "mmio a' = mmio a @ [(lapicBase a' + 0x80, 0), (lapicBase a' + 0xF0, 0x1FF)]"
    by (simp_all add: a')
  have "\<forall>n. bit (msr a' 0x1B) n \<longleftrightarrow> n = 11 \<or> bit ?x n" by (auto simp only: f(4) fun_upd_same bit_or_iff bit11)
  moreover have "\<forall>i. i \<noteq> 0x1B \<longrightarrow> msr a' i = msr a i" by (simp add: f(4))
  ultimately show ?thesis using st f(1,2,5) base[folded f(3)] unfolding KiReturnAPICAddress_def by blast
qed

lemma apic_init_witness:
  "let a' = snd (KiInitSystem (\<lambda>_. (0, 0x9000)) (k_apic sample_kernel)) in bit (msr a' 0x1B) 11 \<and> lapicBase a' = 0xFEE00000"
proof -
  let ?a = "k_apic sample_kernel" and ?f = "\<lambda>_ :: string. (0 :: u32, 0x9000 :: u64)"
  have "KiInitSystem ?f ?a = (fst (KiInitSystem ?f ?a), snd (KiInitSystem ?f ?a))" by simp
  from apic_init[OF _ this] show ?thesis by (simp add: sample_kernel_def)
qed

text \<open>
  The vector that \<open>KiInitSystem\<close> gives to spurious interrupts is 255, and the interrupt table that \<open>ArInitSystem\<close> has set up has no
  gate there.
\<close>

theorem spurious_vector_has_no_gate:
  assumes "ArInitSystem g addr d t = (st, t')" and "\<not> gate_present (desc t 255)"
    and "KiInitSystem find_table a = (STATUS_SUCCESS, a')"
  shows "\<exists>v. last (mmio a') = (lapicBase a' + APIC_SPURIOUS_INT_VEC, v) \<and> bit v 8 \<and> \<not> gate_present (desc t' (ucast v))"
proof -
  obtain table where f: "find_table ''APIC'' = (0, table)"
    using assms(3) by (cases "find_table ''APIC''") (auto simp: KiInitSystem_def KiInitApic_def Let_def split: if_splits)
  have "last (mmio a') = (lapicBase a' + APIC_SPURIOUS_INT_VEC, 0x1FF)"
    using assms(3) unfolding KiInitSystem_def KiInitApic_result[where find_table = find_table and addr = table and a = a, OF f]
    by (auto simp: APIC_SPURIOUS_INT_VEC_def)
  moreover have "desc t' 255 = desc t 255"
  proof -
    have "t' = Amd64SetupIDT addr d (Amd64SetupGDT g t)" using assms(1) by (simp add: ArInitSystem_def)
    moreover have "vector_handler 255 = None" by (simp add: vector_handler_def exception_entries_def)
    ultimately show ?thesis using Amd64SetupIDT_desc[of addr d "Amd64SetupGDT g t" 255]
      by (simp add: Amd64SetupGDT_def Amd64LoadGDT_def Let_def)
  qed
  moreover have "desc t' (ucast (0x1FF :: u32)) = desc t' 255" by (rule arg_cong) simp
  moreover have "bit (0x1FF :: u32) 8" by simp
  ultimately show ?thesis using assms(2) by (intro exI[of _ "0x1FF"] conjI) (simp_all only: simp_thms)
qed

lemma spurious_vector_has_no_gate_witness:
  "let t' = snd (ArInitSystem 0x1000 (\<lambda>_. 0x7000) 0x2000 sample_tables) in \<not> gate_present (desc t' (ucast (0x1FF :: u32)))"
proof -
  let ?f = "\<lambda>_ :: string. (0 :: u32, 0x9000 :: u64)"
  have r: "ArInitSystem 0x1000 (\<lambda>_. 0x7000) 0x2000 sample_tables = (STATUS_SUCCESS, snd (ArInitSystem 0x1000 (\<lambda>_. 0x7000) 0x2000 sample_tables))"
    by (simp add: ArInitSystem_def)
  have k: "KiInitSystem ?f (k_apic sample_kernel) = (STATUS_SUCCESS, snd (KiInitSystem ?f (k_apic sample_kernel)))"
    by (simp add: KiInitSystem_def KiInitApic_result)
  have n: "\<not> gate_present (desc sample_tables 255)" by (simp add: sample_tables_def gate_present_def)
  have "last (mmio (snd (KiInitSystem ?f (k_apic sample_kernel)))) = (0xFEE000F0, 0x1FF)"
    by (simp add: KiInitSystem_def KiInitApic_result sample_kernel_def)
  with spurious_vector_has_no_gate[OF r n k] show ?thesis by (auto simp: Let_def)
qed

end
