(* ===== verification/LegacyAlloc.thy ===== *)
theory LegacyAlloc
  imports PmmBitmap SpinLock
begin

text \<open>
  The earlier general allocator \<open>mm/amd64pc/legacyalloc.c\<close>, built instead of \<open>alloc.c\<close> when \<open>USE_LEGACY_ALLOC\<close> is defined: it takes memory from
  the front of one region of pages and keeps freed chunks in a list. Every chunk has a header in front of it; the headers
  are a typed heap. The names carry the prefix \<open>Legacy\<close> where \<open>alloc.c\<close> has the same.
\<close>

section \<open>State\<close>

definition FREELIST_HEADER_MAGIC :: u16 where
  "FREELIST_HEADER_MAGIC = 0x6767"

record FreeList =
  fh_address :: u64
  fh_next :: u64
  fh_prev :: u64
  fh_header :: u64
  fh_size :: u16
  fh_memSize :: u16
  fh_magic :: u16
  fh_isFree :: bool

text \<open>The structure is packed: four pointers, three 16-bit words and a boolean.\<close>

definition SIZEOF_FREE_LIST :: u64 where
  "SIZEOF_FREE_LIST = 39"

definition zero_free_list :: FreeList where
  "zero_free_list = \<lparr>fh_address = 0, fh_next = 0, fh_prev = 0, fh_header = 0, fh_size = 0, fh_memSize = 0, fh_magic = 0, fh_isFree = False\<rparr>"

record legacy =
  lg_lock :: SpinLock
  allocBase :: u64
  allocCur :: u64
  allocLimit :: u64
  lg_head :: u64
  lg_tail :: u64
  allowFrees :: bool
  hdrs :: "u64 \<Rightarrow> FreeList"
  lg_pm :: pmm
  lg_log :: klog

definition upd_hdr :: "u64 \<Rightarrow> (FreeList \<Rightarrow> FreeList) \<Rightarrow> legacy \<Rightarrow> legacy" where
  "upd_hdr a f s = s\<lparr>hdrs := (hdrs s)(a := f (hdrs s a))\<rparr>"

section \<open>The free list\<close>

definition AddToFreeList :: "u64 \<Rightarrow> legacy \<Rightarrow> legacy" where
  "AddToFreeList l s =
     (let s1 = upd_hdr l (\<lambda>h. h\<lparr>fh_next := NULL, fh_prev := lg_tail s\<rparr>) s;
          s2 = (if lg_tail s1 \<noteq> NULL then upd_hdr (lg_tail s1) (\<lambda>h. h\<lparr>fh_next := l\<rparr>) s1 else s1);
          s3 = s2\<lparr>lg_tail := l\<rparr>
      in if lg_head s3 = NULL then s3\<lparr>lg_head := l\<rparr> else s3)"

definition RemoveFromFreeList :: "u64 \<Rightarrow> legacy \<Rightarrow> legacy" where
  "RemoveFromFreeList l s =
     (let s1 = (if l = lg_head s then s\<lparr>lg_head := fh_next (hdrs s l)\<rparr> else s);
          s2 = (if l = lg_tail s1 then s1\<lparr>lg_tail := fh_prev (hdrs s1 l)\<rparr> else s1);
          prev = fh_prev (hdrs s2 l);
          nxt = fh_next (hdrs s2 l);
          s3 = (if prev \<noteq> NULL then upd_hdr prev (\<lambda>h. h\<lparr>fh_next := nxt\<rparr>) s2 else s2);
          s4 = (if nxt \<noteq> NULL then upd_hdr nxt (\<lambda>h. h\<lparr>fh_prev := prev\<rparr>) s3 else s3)
      in upd_hdr l (\<lambda>h. h\<lparr>fh_prev := NULL, fh_next := NULL\<rparr>) s4)"

definition FreeMemory :: "u64 \<Rightarrow> legacy \<Rightarrow> NearStatus \<times> legacy" where
  "FreeMemory address s =
     (if address = NULL then (STATUS_INVALID_ADDRESS, s)
      else if \<not> allowFrees s then (STATUS_ACCESS_DENIED, s)
      else let header = address - SIZEOF_FREE_LIST
           in if header = NULL then (STATUS_CANT_FIND_HEADER, s)
              else if fh_magic (hdrs s header) \<noteq> FREELIST_HEADER_MAGIC then (STATUS_CANT_FIND_HEADER, s)
              else (STATUS_SUCCESS, AddToFreeList header (upd_hdr header (\<lambda>h. h\<lparr>fh_isFree := True\<rparr>) s)))"

section \<open>Memory from pages\<close>

definition ReinitGeneralAllocator :: "u64 \<Rightarrow> legacy \<Rightarrow> (bool \<times> legacy) option" where
  "ReinitGeneralAllocator minSize s =
     (let minSizeInPages = (minSize + (PAGE_SIZE - 1)) div PAGE_SIZE
      in do { (p, pm) \<leftarrow> MmAllocateMultiplePages (minSizeInPages + PAGE_SIZE) (lg_pm s);
              let s1 = s\<lparr>lg_pm := pm, allocBase := p\<rparr>
              in if p = NULL then Some (False, s1)
                 else Some (True, s1\<lparr>allocCur := p, allocLimit := p + PAGE_SIZE\<rparr>) })"

definition InitFreeList :: "u64 \<Rightarrow> bool \<Rightarrow> u64 \<Rightarrow> u64 \<Rightarrow> u64 \<Rightarrow> legacy \<Rightarrow> legacy" where
  "InitFreeList header isfree totalSize memSize address s =
     upd_hdr header (\<lambda>h. h\<lparr>fh_magic := FREELIST_HEADER_MAGIC, fh_isFree := isfree, fh_address := address,
       fh_size := ucast totalSize, fh_memSize := ucast memSize, fh_header := header\<rparr>) s"

definition LegacyInitGeneralAllocator :: "legacy \<Rightarrow> NearStatus \<times> legacy" where
  "LegacyInitGeneralAllocator s =
     (let s0 = s\<lparr>lg_lock := KeCreateSpinLock\<rparr>;
          (p, pm) = MmAllocateSinglePage (lg_pm s0);
          s1 = s0\<lparr>lg_pm := pm, allocBase := p\<rparr>
      in if p = NULL then (STATUS_OUT_OF_MEMORY, s1)
         else (STATUS_SUCCESS, s1\<lparr>allocCur := p, allocLimit := p + PAGE_SIZE\<rparr>))"

section \<open>Allocation\<close>

definition lg_release :: "legacy \<Rightarrow> legacy" where
  "lg_release s = s\<lparr>lg_lock := KeReleaseSpinLock (lg_lock s)\<rparr>"

text \<open>The walk along the free list: the first free chunk that is large enough, whole or split at its front.\<close>

partial_function (option) search_free_list :: "u64 \<Rightarrow> u64 \<Rightarrow> u64 \<Rightarrow> legacy \<Rightarrow> (u64 option \<times> legacy) option" where
  "search_free_list allocSize n cur s =
     (if cur = NULL then Some (None, s)
      else let h = hdrs s cur; sz = (ucast (fh_size h) :: u64)
           in if \<not> fh_isFree h \<or> sz < n then search_free_list allocSize n (fh_next h) s
              else if sz = n
              then let s1 = upd_hdr cur (\<lambda>h. h\<lparr>fh_isFree := False\<rparr>) (RemoveFromFreeList cur s)
                   in Some (Some (fh_address (hdrs s1 cur)), s1)
              else let allocAddr = fh_address h;
                       s1 = upd_hdr cur (\<lambda>h. h\<lparr>fh_size := ucast (ucast (fh_size h) - n), fh_address := fh_address h + n\<rparr>) s;
                       s2 = upd_hdr allocAddr (\<lambda>_. zero_free_list) s1;
                       allocAddr2 = allocAddr + SIZEOF_FREE_LIST
                   in Some (Some allocAddr2, InitFreeList allocAddr False n allocSize allocAddr2 s2))"

text \<open>The part of the region that is left becomes a free chunk, and a new region is taken.\<close>

definition expand_heap :: "u64 \<Rightarrow> legacy \<Rightarrow> legacy option" where
  "expand_heap n s =
     (let s0 = s\<lparr>lg_log := lg_log s @ [(TERM_STATUS_INFO, ''expanding heap outreach'', [])]\<rparr>;
          amountUntilLimit = allocLimit s0 - allocCur s0;
          s1 = (if SIZEOF_FREE_LIST \<le> amountUntilLimit
                then let header = allocCur s0;
                         s1 = upd_hdr header (\<lambda>_. zero_free_list) s0;
                         s2 = s1\<lparr>allocCur := allocCur s1 + SIZEOF_FREE_LIST\<rparr>;
                         s3 = InitFreeList header True amountUntilLimit (amountUntilLimit - SIZEOF_FREE_LIST) (allocCur s2) s2
                     in snd (FreeMemory (allocCur s3) s3)
                else s0)
      in map_option snd (ReinitGeneralAllocator n s1))"

definition carve_front :: "u64 \<Rightarrow> u64 \<Rightarrow> legacy \<Rightarrow> u64 \<times> legacy" where
  "carve_front allocSize n s =
     (let header = allocCur s;
          s1 = upd_hdr header (\<lambda>_. zero_free_list) s;
          s2 = s1\<lparr>allocCur := allocCur s1 + SIZEOF_FREE_LIST\<rparr>;
          s3 = InitFreeList header False n allocSize (allocCur s2) s2;
          prev = allocCur s3
      in (prev, s3\<lparr>allocCur := allocCur s3 + allocSize\<rparr>))"

definition LegacyAllocateGeneralMemory :: "u64 \<Rightarrow> legacy \<Rightarrow> (u64 \<times> legacy) option" where
  "LegacyAllocateGeneralMemory allocSize s =
     do { l \<leftarrow> KeAcquireSpinLock (lg_lock s);
          let s0 = s\<lparr>lg_lock := l\<rparr>; n = allocSize + SIZEOF_FREE_LIST
          in do { (found, s1) \<leftarrow> (if allowFrees s0 then search_free_list allocSize n (lg_head s0) s0 else Some (None, s0));
                  case found of
                    Some p \<Rightarrow> Some (p, lg_release s1)
                  | None \<Rightarrow>
                      do { s2 \<leftarrow> (if allocLimit s1 \<le> allocCur s1 + n then expand_heap n s1 else Some s1);
                           let (p, s3) = carve_front allocSize n s2 in Some (p, lg_release s3) } } }"

definition LegacyFreeGeneralMemory :: "u64 \<Rightarrow> legacy \<Rightarrow> (NearStatus \<times> legacy) option" where
  "LegacyFreeGeneralMemory address s =
     do { l \<leftarrow> KeAcquireSpinLock (lg_lock s);
          let (result, s1) = FreeMemory address (s\<lparr>lg_lock := l\<rparr>)
          in if \<not> NR_SUCCESS result then Some (result, s1) else Some (result, lg_release s1) }"

section \<open>Properties\<close>

definition sample_legacy :: legacy where
  "sample_legacy = \<lparr>lg_lock = KeCreateSpinLock, allocBase = 0x5000, allocCur = 0x5000, allocLimit = 0x6000, lg_head = NULL, lg_tail = NULL,
     allowFrees = True, hdrs = (\<lambda>_. zero_free_list),
     lg_pm = \<lparr>pageCount = 16, usablePageCount = 16, bitmapSize = 2, bitmap = 0x1000, pageUsed = 1, pm_mem = (\<lambda>_. 0)(0x1000 := 3)\<rparr>, lg_log = []\<rparr>"

text \<open>
  In the earlier allocator a refused \<open>MmFreeGeneralMemory\<close>, of \<open>NULL\<close> or of memory without a header, returns with the spin lock held:
  from then on no allocation and no free returns.
\<close>

theorem legacy_refused_free_deadlocks:
  assumes "LegacyFreeGeneralMemory address s = Some (result, s')" and "\<not> NR_SUCCESS result"
  shows "LegacyAllocateGeneralMemory n s' = None \<and> LegacyFreeGeneralMemory p s' = None"
proof -
  have "lock (lg_lock s')"
    using assms by (auto simp: LegacyFreeGeneralMemory_def KeAcquireSpinLock_eq FreeMemory_def NR_SUCCESS_def Let_def split: if_splits)
  then show ?thesis
    by (simp add: LegacyAllocateGeneralMemory_def LegacyFreeGeneralMemory_def KeAcquireSpinLock_eq)
qed

lemma legacy_refused_free_deadlocks_witness:
  "\<exists>s'. LegacyFreeGeneralMemory NULL sample_legacy = Some (STATUS_INVALID_ADDRESS, s') \<and> LegacyAllocateGeneralMemory 8 s' = None"
proof -
  obtain s' where s': "LegacyFreeGeneralMemory NULL sample_legacy = Some (STATUS_INVALID_ADDRESS, s')"
    by (simp add: LegacyFreeGeneralMemory_def KeAcquireSpinLock_eq FreeMemory_def NR_SUCCESS_def sample_legacy_def KeCreateSpinLock_def)
  from legacy_refused_free_deadlocks[OF this] s' show ?thesis by (auto simp: NR_SUCCESS_def)
qed

text \<open>
  Freeing what the earlier allocator has just carved off its region and asking for the same size again gives the same memory, provided that
  the size with its header fits 16 bits and the free list was empty.
\<close>

theorem legacy_free_reuses:
  assumes "lg_head s = NULL" and "lg_tail s = NULL" and "allowFrees s" and "\<not> lock (lg_lock s)"
    and "allocCur s + (n + SIZEOF_FREE_LIST) < allocLimit s" and "unat n + 39 < 65536" and "allocCur s \<noteq> NULL"
    and "allocCur s + SIZEOF_FREE_LIST \<noteq> NULL"
  shows "\<exists>p s1 s2 s3. LegacyAllocateGeneralMemory n s = Some (p, s1) \<and> LegacyFreeGeneralMemory p s1 = Some (STATUS_SUCCESS, s2) \<and>
    LegacyAllocateGeneralMemory n s2 = Some (p, s3) \<and> allocCur s3 = allocCur s1 \<and> \<not> lock (lg_lock s3)"
proof -
  let ?h = "allocCur s" and ?n = "n + SIZEOF_FREE_LIST"
  let ?p = "?h + SIZEOF_FREE_LIST"
  have un: "unat ?n = unat n + 39" using assms(6) by (simp add: SIZEOF_FREE_LIST_def unat_add_no_wrap)
  have fits: "(ucast (ucast ?n :: u16) :: u64) = ?n"
    using un assms(6) by (simp add: word_unat_eq_iff unsigned_ucast_eq take_bit_eq_mod unat_mod_u64)
  let ?H = "zero_free_list\<lparr>fh_magic := FREELIST_HEADER_MAGIC, fh_isFree := False, fh_address := ?p, fh_size := ucast ?n,
     fh_memSize := ucast n, fh_header := ?h\<rparr>"
  define s1 where "s1 = s\<lparr>lg_lock := KeReleaseSpinLock (lg_lock s), allocCur := ?p + n, hdrs := (hdrs s)(?h := ?H)\<rparr>"
  have fit: "\<not> allocLimit s \<le> allocCur s + ?n" using assms(5) by simp
  have 1: "LegacyAllocateGeneralMemory n s = Some (?p, s1)"
    using assms(1,3,4) fit
    by (simp add: LegacyAllocateGeneralMemory_def KeAcquireSpinLock_eq search_free_list.simps[of n ?n NULL] carve_front_def Let_def
        InitFreeList_def upd_hdr_def lg_release_def KeReleaseSpinLock_def s1_def del: not_le)
  define s2 where "s2 = s1\<lparr>lg_head := ?h, lg_tail := ?h, hdrs := (hdrs s)(?h := ?H\<lparr>fh_isFree := True, fh_next := NULL, fh_prev := NULL\<rparr>)\<rparr>"
  have 2: "LegacyFreeGeneralMemory ?p s1 = Some (STATUS_SUCCESS, s2)"
    using assms(1,2,3,7,8)
    by (simp add: LegacyFreeGeneralMemory_def KeAcquireSpinLock_eq FreeMemory_def AddToFreeList_def upd_hdr_def Let_def NR_SUCCESS_def
        lg_release_def KeReleaseSpinLock_def s1_def s2_def)
  have f: "fh_isFree (hdrs s2 ?h)" "(ucast (fh_size (hdrs s2 ?h)) :: u64) = ?n" "fh_address (hdrs s2 ?h) = ?p"
    by (simp_all add: s2_def fits)
  let ?s2 = "s2\<lparr>lg_lock := (lg_lock s2)\<lparr>lock := True\<rparr>\<rparr>"
  have "search_free_list n ?n ?h ?s2 = Some (Some ?p, upd_hdr ?h (\<lambda>h. h\<lparr>fh_isFree := False\<rparr>) (RemoveFromFreeList ?h ?s2))"
    using f assms(7) by (subst search_free_list.simps) (simp add: Let_def upd_hdr_def RemoveFromFreeList_def s2_def)
  moreover have "lg_head s2 = ?h" "allowFrees s2" "\<not> lock (lg_lock s2)"
    using assms(3) by (simp_all add: s2_def s1_def KeReleaseSpinLock_def)
  ultimately have 3: "LegacyAllocateGeneralMemory n s2 = Some (?p, lg_release (upd_hdr ?h (\<lambda>h. h\<lparr>fh_isFree := False\<rparr>) (RemoveFromFreeList ?h ?s2)))"
    by (simp add: LegacyAllocateGeneralMemory_def KeAcquireSpinLock_eq Let_def)
  have "allocCur (RemoveFromFreeList ?h ?s2) = allocCur s2"
    by (simp add: RemoveFromFreeList_def Let_def upd_hdr_def)
  then have "allocCur (lg_release (upd_hdr ?h (\<lambda>h. h\<lparr>fh_isFree := False\<rparr>) (RemoveFromFreeList ?h ?s2))) = allocCur s1"
    by (simp add: lg_release_def upd_hdr_def s2_def)
  moreover have "\<not> lock (lg_lock (lg_release (upd_hdr ?h (\<lambda>h. h\<lparr>fh_isFree := False\<rparr>) (RemoveFromFreeList ?h ?s2))))"
    by (simp add: lg_release_def KeReleaseSpinLock_def)
  ultimately show ?thesis using 1 2 3 by blast
qed

lemma legacy_free_reuses_witness:
  "\<exists>p s1 s2 s3. LegacyAllocateGeneralMemory 100 sample_legacy = Some (p, s1) \<and>
     LegacyFreeGeneralMemory p s1 = Some (STATUS_SUCCESS, s2) \<and> LegacyAllocateGeneralMemory 100 s2 = Some (p, s3)"
proof -
  have "\<exists>p s1 s2 s3. LegacyAllocateGeneralMemory 100 sample_legacy = Some (p, s1) \<and>
     LegacyFreeGeneralMemory p s1 = Some (STATUS_SUCCESS, s2) \<and> LegacyAllocateGeneralMemory 100 s2 = Some (p, s3) \<and>
     allocCur s3 = allocCur s1 \<and> \<not> lock (lg_lock s3)"
    by (rule legacy_free_reuses) (simp_all add: sample_legacy_def KeCreateSpinLock_def SIZEOF_FREE_LIST_def)
  then show ?thesis by blast
qed

end
