(* ===== verification/AcpiHost.thy ===== *)
theory AcpiHost
  imports Kernel QString
begin

text \<open>
  The services the kernel gives to uACPI, \<open>acpi/uacpiwrap.c\<close>, with the 16-bit and input functions of \<open>ar/amd64pc/io.c\<close> and
  \<open>port.c\<close>. A handle is a pointer or a port number. \<open>*out\<close> parameters are stores to the machine memory. What an
  input instruction delivers is up to the device: the environment gives it for the n-th input instruction.
\<close>

section \<open>State\<close>

text \<open>\<open>h_outw\<close> are the words written to ports, each with the number of bytes written to ports before it.\<close>

record acpi_host =
  h_kernel :: kernel
  h_reads :: nat
  h_outw :: "(nat \<times> u16 \<times> u16) list"

record acpi_env = platform +
  fname :: "string \<Rightarrow> u64"
  device8 :: "nat \<Rightarrow> u16 \<Rightarrow> u8"
  device16 :: "nat \<Rightarrow> u16 \<Rightarrow> u16"

record uacpi_pci_address =
  pci_segment :: u16
  pci_bus :: u8
  pci_device :: u8
  pci_function :: u8

definition UACPI_STATUS_OK :: u32 where
  "UACPI_STATUS_OK = 0"

definition h_mem :: "acpi_host \<Rightarrow> bytes" where
  "h_mem h = pm_mem (k_pmm (h_kernel h))"

definition set_mem :: "bytes \<Rightarrow> acpi_host \<Rightarrow> acpi_host" where
  "set_mem m h = h\<lparr>h_kernel := set_pmm ((k_pmm (h_kernel h))\<lparr>pm_mem := m\<rparr>) (h_kernel h)\<rparr>"

section \<open>Ports\<close>

definition Amd64OutWord :: "u16 \<Rightarrow> u16 \<Rightarrow> acpi_host \<Rightarrow> acpi_host" where
  "Amd64OutWord port v h = h\<lparr>h_outw := h_outw h @ [(length (ports (k_term (h_kernel h))), port, v)]\<rparr>"

definition Amd64InByte :: "acpi_env \<Rightarrow> u16 \<Rightarrow> acpi_host \<Rightarrow> u8 \<times> acpi_host" where
  "Amd64InByte e port h = (device8 e (h_reads h) port, h\<lparr>h_reads := Suc (h_reads h)\<rparr>)"

definition Amd64InWord :: "acpi_env \<Rightarrow> u16 \<Rightarrow> acpi_host \<Rightarrow> u16 \<times> acpi_host" where
  "Amd64InWord e port h = (device16 e (h_reads h) port, h\<lparr>h_reads := Suc (h_reads h)\<rparr>)"

definition ArIoOutWord :: "u16 \<Rightarrow> u16 \<Rightarrow> acpi_host \<Rightarrow> acpi_host" where
  "ArIoOutWord port v h = Amd64OutWord port v h"

definition ArIoInByte :: "acpi_env \<Rightarrow> u16 \<Rightarrow> acpi_host \<Rightarrow> u8 \<times> acpi_host" where
  "ArIoInByte e port h = Amd64InByte e port h"

definition ArIoInWord :: "acpi_env \<Rightarrow> u16 \<Rightarrow> acpi_host \<Rightarrow> u16 \<times> acpi_host" where
  "ArIoInWord e port h = Amd64InWord e port h"

section \<open>Memory and messages\<close>

definition host_print :: "acpi_env \<Rightarrow> Status \<Rightarrow> string \<Rightarrow> u64 list \<Rightarrow> acpi_host \<Rightarrow> acpi_host option" where
  "host_print e st msg args h = map_option (\<lambda>k. h\<lparr>h_kernel := k\<rparr>) (kprint (p_vsn e) st msg args (h_kernel h))"

text \<open>A call of the allocator's functions, with what it prints.\<close>

definition host_galloc :: "acpi_env \<Rightarrow> (galloc \<Rightarrow> ('r \<times> galloc) option) \<Rightarrow> acpi_host \<Rightarrow> ('r \<times> acpi_host) option" where
  "host_galloc e f h =
     do { (r, g) \<leftarrow> f (k_galloc (h_kernel h));
          k \<leftarrow> flush_log (p_vsn e) (set_galloc g (h_kernel h));
          Some (r, h\<lparr>h_kernel := k\<rparr>) }"

definition uacpi_kernel_map :: "u64 \<Rightarrow> u64 \<Rightarrow> u64" where
  "uacpi_kernel_map addr len = addr"

definition uacpi_kernel_unmap :: "u64 \<Rightarrow> u64 \<Rightarrow> acpi_host \<Rightarrow> acpi_host" where
  "uacpi_kernel_unmap addr len h = h"

definition UACPI_LOG_DEBUG :: u32 where "UACPI_LOG_DEBUG = 5"
definition UACPI_LOG_TRACE :: u32 where "UACPI_LOG_TRACE = 4"
definition UACPI_LOG_INFO :: u32 where "UACPI_LOG_INFO = 3"
definition UACPI_LOG_WARN :: u32 where "UACPI_LOG_WARN = 2"
definition UACPI_LOG_ERROR :: u32 where "UACPI_LOG_ERROR = 1"

definition log_status :: "u32 \<Rightarrow> Status" where
  "log_status log =
     (if log = UACPI_LOG_TRACE then TERM_STATUS_IMPINFO
      else if log = UACPI_LOG_DEBUG \<or> log = UACPI_LOG_INFO then TERM_STATUS_INFO
      else if log = UACPI_LOG_ERROR then TERM_STATUS_ERROR
      else if log = UACPI_LOG_WARN then TERM_STATUS_WARNING
      else TERM_STATUS_UNKNOWN)"

definition uacpi_kernel_log :: "acpi_env \<Rightarrow> u32 \<Rightarrow> u64 \<Rightarrow> acpi_host \<Rightarrow> acpi_host option" where
  "uacpi_kernel_log e log str h =
     do { len \<leftarrow> QolGetStringLength str (h_mem h);
          if len = 0 then Some h
          else host_print e (log_status log) ''[uACPI]: %s'' [str] h }"

definition uacpi_kernel_alloc :: "acpi_env \<Rightarrow> u64 \<Rightarrow> acpi_host \<Rightarrow> (u64 \<times> acpi_host) option" where
  "uacpi_kernel_alloc e n h =
     do { (mem, h1) \<leftarrow> host_galloc e (MmAllocateGeneralMemory n) h;
          if mem = NULL
          then map_option (Pair mem) (host_print e TERM_STATUS_ERROR ''uacpi_kernel_alloc returning NULL'' [] h1)
          else Some (mem, h1) }"

text \<open>The result of the allocation is not checked before it is filled.\<close>

definition uacpi_kernel_alloc_zeroed :: "acpi_env \<Rightarrow> u64 \<Rightarrow> acpi_host \<Rightarrow> (u64 \<times> acpi_host) option" where
  "uacpi_kernel_alloc_zeroed e n h =
     do { (mem, h1) \<leftarrow> host_galloc e (MmAllocateGeneralMemory n) h;
          Some (mem, set_mem (snd (memset mem 0 n (h_mem h1))) h1) }"

definition uacpi_kernel_free :: "acpi_env \<Rightarrow> u64 \<Rightarrow> acpi_host \<Rightarrow> acpi_host option" where
  "uacpi_kernel_free e mem h = map_option snd (host_galloc e (MmFreeGeneralMemory mem) h)"

section \<open>Locks, mutexes and events\<close>

definition uacpi_kernel_create_spinlock :: "acpi_env \<Rightarrow> acpi_host \<Rightarrow> (u64 \<times> acpi_host) option" where
  "uacpi_kernel_create_spinlock e h =
     do { (l, h1) \<leftarrow> host_galloc e KeCreateSpinLockHeap h;
          if l = NULL
          then map_option (Pair l) (host_print e TERM_STATUS_ERROR ''[ACPI] !! lock is NULL, returning NULL lock'' [] h1)
          else Some (l, h1) }"

definition uacpi_kernel_free_spinlock :: "acpi_env \<Rightarrow> u64 \<Rightarrow> acpi_host \<Rightarrow> acpi_host option" where
  "uacpi_kernel_free_spinlock e l h = map_option snd (host_galloc e (KeDeleteSpinLockFromHeap l) h)"

definition uacpi_kernel_lock_spinlock :: "u64 \<Rightarrow> acpi_host \<Rightarrow> (u64 \<times> acpi_host) option" where
  "uacpi_kernel_lock_spinlock l h =
     map_option (\<lambda>g. (0, h\<lparr>h_kernel := set_galloc g (h_kernel h)\<rparr>)) (acquire_at l (k_galloc (h_kernel h)))"

definition uacpi_kernel_unlock_spinlock :: "u64 \<Rightarrow> u64 \<Rightarrow> acpi_host \<Rightarrow> acpi_host" where
  "uacpi_kernel_unlock_spinlock l flags h = h\<lparr>h_kernel := set_galloc (release_at l (k_galloc (h_kernel h))) (h_kernel h)\<rparr>"

definition uacpi_kernel_create_mutex :: "acpi_env \<Rightarrow> acpi_host \<Rightarrow> (u64 \<times> acpi_host) option" where
  "uacpi_kernel_create_mutex e h = uacpi_kernel_create_spinlock e h"

definition uacpi_kernel_free_mutex :: "acpi_env \<Rightarrow> u64 \<Rightarrow> acpi_host \<Rightarrow> acpi_host option" where
  "uacpi_kernel_free_mutex e m h = uacpi_kernel_free_spinlock e m h"

definition uacpi_kernel_get_thread_id :: "acpi_host \<Rightarrow> u64" where
  "uacpi_kernel_get_thread_id h = 0"

definition uacpi_kernel_acquire_mutex :: "u64 \<Rightarrow> u16 \<Rightarrow> acpi_host \<Rightarrow> u32 \<times> acpi_host" where
  "uacpi_kernel_acquire_mutex m millis h = (UACPI_STATUS_OK, h)"

definition uacpi_kernel_release_mutex :: "u64 \<Rightarrow> acpi_host \<Rightarrow> acpi_host" where
  "uacpi_kernel_release_mutex m h = h"

definition uacpi_kernel_create_event :: "acpi_env \<Rightarrow> acpi_host \<Rightarrow> (u64 \<times> acpi_host) option" where
  "uacpi_kernel_create_event e h = uacpi_kernel_create_mutex e h"

definition uacpi_kernel_free_event :: "acpi_env \<Rightarrow> u64 \<Rightarrow> acpi_host \<Rightarrow> acpi_host option" where
  "uacpi_kernel_free_event e ev h = uacpi_kernel_free_mutex e ev h"

section \<open>Port access\<close>

text \<open>A word is stored low byte first.\<close>

definition uacpi_kernel_io_map :: "u64 \<Rightarrow> u64 \<Rightarrow> u64 \<Rightarrow> acpi_host \<Rightarrow> u32 \<times> acpi_host" where
  "uacpi_kernel_io_map base len out h = (UACPI_STATUS_OK, set_mem (st64 (h_mem h) out base) h)"

definition uacpi_kernel_io_read8 :: "acpi_env \<Rightarrow> u64 \<Rightarrow> u64 \<Rightarrow> u64 \<Rightarrow> acpi_host \<Rightarrow> u32 \<times> acpi_host" where
  "uacpi_kernel_io_read8 e handle offset out h =
     (let target = handle + offset; (v, h1) = ArIoInByte e (ucast target) h
      in (UACPI_STATUS_OK, set_mem ((h_mem h1)(out := v)) h1))"

definition uacpi_kernel_io_read16 :: "acpi_env \<Rightarrow> u64 \<Rightarrow> u64 \<Rightarrow> u64 \<Rightarrow> acpi_host \<Rightarrow> u32 \<times> acpi_host" where
  "uacpi_kernel_io_read16 e handle offset out h =
     (let target = handle + offset; (v, h1) = ArIoInWord e (ucast target) h
      in (UACPI_STATUS_OK, set_mem ((h_mem h1)(out := ucast v, out + 1 := ucast (drop_bit 8 v))) h1))"

definition uacpi_kernel_io_write8 :: "u64 \<Rightarrow> u64 \<Rightarrow> u8 \<Rightarrow> acpi_host \<Rightarrow> u32 \<times> acpi_host" where
  "uacpi_kernel_io_write8 handle offset v h =
     (let target = handle + offset; k = h_kernel h
      in (UACPI_STATUS_OK, h\<lparr>h_kernel := k\<lparr>k_term := ArIoOutByte (ucast target) v (k_term k)\<rparr>\<rparr>))"

definition uacpi_kernel_io_write16 :: "u64 \<Rightarrow> u64 \<Rightarrow> u16 \<Rightarrow> acpi_host \<Rightarrow> u32 \<times> acpi_host" where
  "uacpi_kernel_io_write16 handle offset v h =
     (let target = handle + offset in (UACPI_STATUS_OK, ArIoOutWord (ucast target) v h))"

text \<open>The address of the root pointer; the kernel must have stored the boot information before.\<close>

definition uacpi_kernel_get_rsdp :: "u64 \<Rightarrow> acpi_host \<Rightarrow> (u32 \<times> acpi_host) option" where
  "uacpi_kernel_get_rsdp out h =
     map_option (\<lambda>info. (UACPI_STATUS_OK, set_mem (st64 (h_mem h) out (rsdp info)) h)) (KeReturnBootInformation (h_kernel h))"

section \<open>Services that are not implemented\<close>

text \<open>They print a message; those with a status return 0, which is \<open>UACPI_STATUS_OK\<close>, and no \<open>*out\<close> parameter is set.\<close>

definition unimplemented :: "acpi_env \<Rightarrow> string \<Rightarrow> acpi_host \<Rightarrow> acpi_host option" where
  "unimplemented e name h = host_print e TERM_STATUS_ERROR ''[ACPI]: %s: UNIMPLEMENTED'' [fname e name] h"

definition uacpi_kernel_get_nanoseconds_since_boot :: "acpi_env \<Rightarrow> acpi_host \<Rightarrow> (u64 \<times> acpi_host) option" where
  "uacpi_kernel_get_nanoseconds_since_boot e h = map_option (Pair 0) (unimplemented e ''uacpi_kernel_get_nanoseconds_since_boot'' h)"

definition uacpi_kernel_stall :: "acpi_env \<Rightarrow> u8 \<Rightarrow> acpi_host \<Rightarrow> acpi_host option" where
  "uacpi_kernel_stall e a h = unimplemented e ''uacpi_kernel_stall'' h"

definition uacpi_kernel_sleep :: "acpi_env \<Rightarrow> u64 \<Rightarrow> acpi_host \<Rightarrow> acpi_host option" where
  "uacpi_kernel_sleep e a h = unimplemented e ''uacpi_kernel_sleep'' h"

definition uacpi_kernel_wait_for_event :: "acpi_env \<Rightarrow> u64 \<Rightarrow> u16 \<Rightarrow> acpi_host \<Rightarrow> (bool \<times> acpi_host) option" where
  "uacpi_kernel_wait_for_event e a b h = map_option (Pair False) (unimplemented e ''uacpi_kernel_wait_for_event'' h)"

definition uacpi_kernel_signal_event :: "acpi_env \<Rightarrow> u64 \<Rightarrow> acpi_host \<Rightarrow> acpi_host option" where
  "uacpi_kernel_signal_event e a h = unimplemented e ''uacpi_kernel_signal_event'' h"

definition uacpi_kernel_reset_event :: "acpi_env \<Rightarrow> u64 \<Rightarrow> acpi_host \<Rightarrow> acpi_host option" where
  "uacpi_kernel_reset_event e a h = unimplemented e ''uacpi_kernel_reset_event'' h"

definition uacpi_kernel_handle_firmware_request :: "acpi_env \<Rightarrow> u64 \<Rightarrow> acpi_host \<Rightarrow> (u32 \<times> acpi_host) option" where
  "uacpi_kernel_handle_firmware_request e a h = map_option (Pair UACPI_STATUS_OK) (unimplemented e ''uacpi_kernel_handle_firmware_request'' h)"

definition uacpi_kernel_install_interrupt_handler :: "acpi_env \<Rightarrow> u32 \<Rightarrow> u64 \<Rightarrow> u64 \<Rightarrow> u64 \<Rightarrow> acpi_host \<Rightarrow> (u32 \<times> acpi_host) option" where
  "uacpi_kernel_install_interrupt_handler e a b c d h = map_option (Pair UACPI_STATUS_OK) (unimplemented e ''uacpi_kernel_install_interrupt_handler'' h)"

definition uacpi_kernel_uninstall_interrupt_handler :: "acpi_env \<Rightarrow> u64 \<Rightarrow> u64 \<Rightarrow> acpi_host \<Rightarrow> (u32 \<times> acpi_host) option" where
  "uacpi_kernel_uninstall_interrupt_handler e a b h = map_option (Pair UACPI_STATUS_OK) (unimplemented e ''uacpi_kernel_uninstall_interrupt_handler'' h)"

definition uacpi_kernel_wait_for_work_completion :: "acpi_env \<Rightarrow> acpi_host \<Rightarrow> (u32 \<times> acpi_host) option" where
  "uacpi_kernel_wait_for_work_completion e h = map_option (Pair UACPI_STATUS_OK) (unimplemented e ''uacpi_kernel_wait_for_work_completion'' h)"

definition uacpi_kernel_io_read32 :: "acpi_env \<Rightarrow> u64 \<Rightarrow> u64 \<Rightarrow> u64 \<Rightarrow> acpi_host \<Rightarrow> (u32 \<times> acpi_host) option" where
  "uacpi_kernel_io_read32 e a b c h = map_option (Pair UACPI_STATUS_OK) (unimplemented e ''uacpi_kernel_io_read32'' h)"

definition uacpi_kernel_io_write32 :: "acpi_env \<Rightarrow> u64 \<Rightarrow> u64 \<Rightarrow> u32 \<Rightarrow> acpi_host \<Rightarrow> (u32 \<times> acpi_host) option" where
  "uacpi_kernel_io_write32 e a b c h = map_option (Pair UACPI_STATUS_OK) (unimplemented e ''uacpi_kernel_io_write32'' h)"

definition uacpi_kernel_pci_read8 :: "acpi_env \<Rightarrow> u64 \<Rightarrow> u64 \<Rightarrow> u64 \<Rightarrow> acpi_host \<Rightarrow> (u32 \<times> acpi_host) option" where
  "uacpi_kernel_pci_read8 e a b c h = map_option (Pair UACPI_STATUS_OK) (unimplemented e ''uacpi_kernel_pci_read8'' h)"

definition uacpi_kernel_pci_read16 :: "acpi_env \<Rightarrow> u64 \<Rightarrow> u64 \<Rightarrow> u64 \<Rightarrow> acpi_host \<Rightarrow> (u32 \<times> acpi_host) option" where
  "uacpi_kernel_pci_read16 e a b c h = map_option (Pair UACPI_STATUS_OK) (unimplemented e ''uacpi_kernel_pci_read16'' h)"

definition uacpi_kernel_pci_read32 :: "acpi_env \<Rightarrow> u64 \<Rightarrow> u64 \<Rightarrow> u64 \<Rightarrow> acpi_host \<Rightarrow> (u32 \<times> acpi_host) option" where
  "uacpi_kernel_pci_read32 e a b c h = map_option (Pair UACPI_STATUS_OK) (unimplemented e ''uacpi_kernel_pci_read32'' h)"

definition uacpi_kernel_pci_write8 :: "acpi_env \<Rightarrow> u64 \<Rightarrow> u64 \<Rightarrow> u8 \<Rightarrow> acpi_host \<Rightarrow> (u32 \<times> acpi_host) option" where
  "uacpi_kernel_pci_write8 e a b c h = map_option (Pair UACPI_STATUS_OK) (unimplemented e ''uacpi_kernel_pci_write8'' h)"

definition uacpi_kernel_pci_write16 :: "acpi_env \<Rightarrow> u64 \<Rightarrow> u64 \<Rightarrow> u16 \<Rightarrow> acpi_host \<Rightarrow> (u32 \<times> acpi_host) option" where
  "uacpi_kernel_pci_write16 e a b c h = map_option (Pair UACPI_STATUS_OK) (unimplemented e ''uacpi_kernel_pci_write16'' h)"

definition uacpi_kernel_pci_write32 :: "acpi_env \<Rightarrow> u64 \<Rightarrow> u64 \<Rightarrow> u32 \<Rightarrow> acpi_host \<Rightarrow> (u32 \<times> acpi_host) option" where
  "uacpi_kernel_pci_write32 e a b c h = map_option (Pair UACPI_STATUS_OK) (unimplemented e ''uacpi_kernel_pci_write32'' h)"

definition uacpi_kernel_pci_device_open :: "acpi_env \<Rightarrow> uacpi_pci_address \<Rightarrow> u64 \<Rightarrow> acpi_host \<Rightarrow> (u32 \<times> acpi_host) option" where
  "uacpi_kernel_pci_device_open e a b h = map_option (Pair UACPI_STATUS_OK) (unimplemented e ''uacpi_kernel_pci_device_open'' h)"

definition uacpi_kernel_pci_device_close :: "acpi_env \<Rightarrow> u64 \<Rightarrow> acpi_host \<Rightarrow> acpi_host option" where
  "uacpi_kernel_pci_device_close e a h = unimplemented e ''uacpi_kernel_pci_device_close'' h"

definition uacpi_kernel_io_unmap :: "acpi_env \<Rightarrow> u64 \<Rightarrow> acpi_host \<Rightarrow> acpi_host option" where
  "uacpi_kernel_io_unmap e a h = unimplemented e ''uacpi_kernel_io_unmap'' h"

definition uacpi_kernel_schedule_work :: "acpi_env \<Rightarrow> u32 \<Rightarrow> u64 \<Rightarrow> u64 \<Rightarrow> acpi_host \<Rightarrow> (u32 \<times> acpi_host) option" where
  "uacpi_kernel_schedule_work e a b c h = map_option (Pair UACPI_STATUS_OK) (unimplemented e ''uacpi_kernel_schedule_work'' h)"

end
