(* ===== verification/AcpiHostProps.thy ===== *)
theory AcpiHostProps
  imports AcpiHost KernelProps
begin

text \<open>What uACPI can rely on in the services of \<open>acpi/uacpiwrap.c\<close>, and what not.\<close>

section \<open>State\<close>

lemma host_mem_simps [simp]:
  "h_mem (set_mem m h) = m"
  "h_mem (h\<lparr>h_reads := n\<rparr>) = h_mem h"
  "h_mem (h\<lparr>h_outw := w\<rparr>) = h_mem h"
  "h_mem (h\<lparr>h_kernel := set_galloc g k\<rparr>) = pm_mem (ga_pm g)"
  "h_mem (h\<lparr>h_kernel := k\<lparr>k_term := t\<rparr>\<rparr>) = pm_mem (k_pmm k)"
  by (simp_all add: h_mem_def set_mem_def set_pmm_def set_galloc_def k_pmm_def k_galloc_def)

lemma host_term_simps [simp]:
  "k_term (h_kernel (set_mem m h)) = k_term (h_kernel h)"
  "h_outw (set_mem m h) = h_outw h"
  by (simp_all add: set_mem_def set_pmm_def set_galloc_def)

lemma host_print_result:
  assumes "fits_buffer (p_vsn e)"
  shows "\<exists>t. host_print e st msg args h = Some (h\<lparr>h_kernel := (h_kernel h)\<lparr>k_term := t\<rparr>\<rparr>)"
  using kprint_result[OF assms, of st msg args "h_kernel h"] by (auto simp: host_print_def)

lemma host_galloc_result:
  assumes "fits_buffer (p_vsn e)" and "f (k_galloc (h_kernel h)) = Some (r, g)"
  shows "\<exists>h'. host_galloc e f h = Some (r, h') \<and> h_mem h' = pm_mem (ga_pm g)"
proof -
  obtain t where "flush_log (p_vsn e) (set_galloc g (h_kernel h)) =
      Some (set_galloc ((k_galloc (set_galloc g (h_kernel h)))\<lparr>ga_log := []\<rparr>) (set_galloc g (h_kernel h))\<lparr>k_term := t\<rparr>)"
    using flush_log_result[OF assms(1)] by blast
  with assms(2) show ?thesis
    by (simp add: host_galloc_def h_mem_def k_pmm_def k_galloc_def set_galloc_def)
qed

section \<open>Properties\<close>

text \<open>
  \<open>uacpi_kernel_alloc_zeroed\<close> zeroes exactly the \<open>n\<close> bytes from the pointer it returns and leaves the rest of the memory as the allocation did;
  since it does not check the allocation, with no memory left it overwrites the first \<open>n\<close> bytes of physical memory instead.
\<close>

theorem acpi_alloc_zeroed:
  assumes "fits_buffer (p_vsn e)" and "MmAllocateGeneralMemory n (k_galloc (h_kernel h)) = Some (p, g)"
  shows "\<exists>h'. uacpi_kernel_alloc_zeroed e n h = Some (p, h') \<and>
    (\<forall>x. h_mem h' x = (if unat (x - p) < unat n then 0 else pm_mem (ga_pm g) x)) \<and>
    (p = NULL \<longrightarrow> (\<forall>x < n. h_mem h' x = 0))"
proof -
  obtain h1 where h1: "host_galloc e (MmAllocateGeneralMemory n) h = Some (p, h1)" "h_mem h1 = pm_mem (ga_pm g)"
    using host_galloc_result[where f = "MmAllocateGeneralMemory n", OF assms] by blast
  then show ?thesis
    by (simp add: uacpi_kernel_alloc_zeroed_def memset_apply word_less_nat_alt)
qed

definition sample_env :: acpi_env where
  "sample_env = \<lparr>p_vsn = copy_format, p_gdt = 0x1000, p_idt = 0x2000, p_handlers = (\<lambda>_. 0x7000), p_find_table = (\<lambda>_. (0, 0x9000)),
     uacpi_initialize = (\<lambda>s. Some (0, s)), uacpi_namespace_load = (\<lambda>s. Some (0, s)), uacpi_namespace_initialize = (\<lambda>s. Some (0, s)),
     uacpi_finalize_gpe_initialization = (\<lambda>s. Some (0, s)), uacpi_prepare_for_sleep_state = (\<lambda>s. Some (0, s)),
     uacpi_enter_sleep_state = (\<lambda>s. Some (0, s)), uacpi_reboot = (\<lambda>s. Some (0, s)),
     fname = (\<lambda>_. 0x8000), device8 = (\<lambda>n p. ucast p), device16 = (\<lambda>n p. p)\<rparr>"

definition sample_host :: acpi_host where
  "sample_host = \<lparr>h_kernel = set_galloc sample_galloc sample_kernel, h_reads = 0, h_outw = []\<rparr>"

lemma sample_env_fits: "fits_buffer (p_vsn sample_env)"
  using copy_format_fits by (simp add: sample_env_def)

lemma acpi_alloc_zeroed_witness:
  "\<exists>p h'. uacpi_kernel_alloc_zeroed sample_env 100 sample_host = Some (p, h') \<and> h_mem h' p = 0 \<and> h_mem h' (p + 99) = 0"
proof -
  have k: "k_galloc (h_kernel sample_host) = sample_galloc" by (simp add: sample_host_def k_galloc_def set_galloc_def)
  obtain p g where "MmAllocateGeneralMemory 100 (k_galloc (h_kernel sample_host)) = Some (p, g)"
    using MmAllocateGeneralMemory_result[OF sample_ga_inv sample_ga_lock _ sample_ga_fresh]
    by (auto simp: alloc_result_def k)
  from acpi_alloc_zeroed[OF sample_env_fits this] show ?thesis by fastforce
qed

text \<open>
  A spin lock that uACPI holds cannot be taken again until it is released, but a mutex can: \<open>uacpi_kernel_acquire_mutex\<close> reports
  success to everyone, at once and with any timeout.
\<close>

theorem acpi_mutex_does_not_exclude:
  assumes "uacpi_kernel_lock_spinlock l h = Some (flags, h1)"
  shows "uacpi_kernel_lock_spinlock l h1 = None \<and>
    (\<exists>h2. uacpi_kernel_lock_spinlock l (uacpi_kernel_unlock_spinlock l flags h1) = Some (0, h2)) \<and>
    fst (uacpi_kernel_acquire_mutex l t (snd (uacpi_kernel_acquire_mutex l t' h))) = UACPI_STATUS_OK"
  using assms
  by (auto simp: uacpi_kernel_lock_spinlock_def uacpi_kernel_unlock_spinlock_def uacpi_kernel_acquire_mutex_def acquire_at_def release_at_def
      lock_at_def KeAcquireSpinLock_eq KeReleaseSpinLock_def ga_store_def k_galloc_def set_galloc_def split: if_splits)

lemma acpi_mutex_does_not_exclude_witness:
  "\<exists>h1. uacpi_kernel_lock_spinlock 0x9000 (set_mem (\<lambda>_. 0) sample_host) = Some (0, h1) \<and> uacpi_kernel_lock_spinlock 0x9000 h1 = None"
proof -
  have "pm_mem (ga_pm (k_galloc (h_kernel (set_mem (\<lambda>_. 0) sample_host)))) 0x9000 = 0"
    using host_mem_simps(1)[of "\<lambda>_. 0" sample_host] by (simp add: h_mem_def k_pmm_def)
  then obtain h1 where h1: "uacpi_kernel_lock_spinlock 0x9000 (set_mem (\<lambda>_. 0) sample_host) = Some (0, h1)"
    by (simp add: uacpi_kernel_lock_spinlock_def acquire_at_def lock_at_def KeAcquireSpinLock_eq)
  from acpi_mutex_does_not_exclude[OF this] h1 show ?thesis by blast
qed

text \<open>
  A port range that uACPI maps is addressed by port number: a write through the stored handle goes to the port of the low 16 bits of base
  plus offset, a read of a byte delivers what the device gives at that port, and neither touches other memory or the order of earlier writes.
\<close>

theorem acpi_port_access:
  assumes "uacpi_kernel_io_map base len slot h = (st, h1)"
  shows "st = UACPI_STATUS_OK \<and>
    ports (k_term (h_kernel (snd (uacpi_kernel_io_write8 (ld64 (h_mem h1) slot) offset v h1)))) = ports (k_term (h_kernel h)) @ [(ucast (base + offset), v)] \<and>
    h_outw (snd (uacpi_kernel_io_write16 (ld64 (h_mem h1) slot) offset w h1)) =
      h_outw h @ [(length (ports (k_term (h_kernel h))), ucast (base + offset), w)] \<and>
    h_mem (snd (uacpi_kernel_io_read8 e (ld64 (h_mem h1) slot) offset out h1)) = (h_mem h1)(out := device8 e (h_reads h) (ucast (base + offset))) \<and>
    h_mem (snd (uacpi_kernel_io_write8 (ld64 (h_mem h1) slot) offset v h1)) = h_mem h1"
proof -
  have h1: "st = UACPI_STATUS_OK" "h1 = set_mem (st64 (h_mem h) slot base) h"
    using assms by (simp_all add: uacpi_kernel_io_map_def)
  have r: "h_reads (set_mem m h) = h_reads h" for m by (simp add: set_mem_def)
  have m: "pm_mem (k_pmm (h_kernel (set_mem m h))) = m" for m using host_mem_simps(1)[of m h] by (simp add: h_mem_def)
  show ?thesis
    by (simp add: h1 r m uacpi_kernel_io_write8_def uacpi_kernel_io_write16_def uacpi_kernel_io_read8_def Let_def ArIoOutByte_def Amd64OutByte_def
        ArIoOutWord_def Amd64OutWord_def ArIoInByte_def Amd64InByte_def)
qed

lemma acpi_port_access_witness:
  "\<exists>h1. uacpi_kernel_io_map 0xB2 2 0x9000 sample_host = (UACPI_STATUS_OK, h1) \<and>
     h_mem (snd (uacpi_kernel_io_read8 sample_env (ld64 (h_mem h1) 0x9000) 1 0x9100 h1)) 0x9100 = 0xB3"
proof -
  obtain h1 where h1: "uacpi_kernel_io_map 0xB2 2 0x9000 sample_host = (UACPI_STATUS_OK, h1)"
    by (simp add: uacpi_kernel_io_map_def)
  from acpi_port_access[OF this, where e = sample_env and offset = 1 and out = "0x9100"] h1 show ?thesis by (simp add: sample_env_def)
qed

text \<open>
  A service that is not implemented reports success: \<open>uacpi_kernel_io_read32\<close> and \<open>uacpi_kernel_pci_read32\<close> return
  \<open>UACPI_STATUS_OK\<close> without setting the value, and \<open>uacpi_kernel_install_interrupt_handler\<close> without setting a gate.
\<close>

theorem acpi_missing_services_report_success:
  assumes "fits_buffer (p_vsn e)"
  shows "(\<exists>h'. uacpi_kernel_io_read32 e handle offset out h = Some (UACPI_STATUS_OK, h') \<and> h_mem h' = h_mem h \<and> h_reads h' = h_reads h) \<and>
    (\<exists>h'. uacpi_kernel_pci_read32 e handle offset out h = Some (UACPI_STATUS_OK, h') \<and> h_mem h' = h_mem h \<and> h_reads h' = h_reads h) \<and>
    (\<exists>h'. uacpi_kernel_install_interrupt_handler e irq addr ctx out h = Some (UACPI_STATUS_OK, h') \<and> h_mem h' = h_mem h \<and>
       k_tables (h_kernel h') = k_tables (h_kernel h))"
proof -
  have *: "\<exists>h'. unimplemented e name h = Some h' \<and> h_mem h' = h_mem h \<and> h_reads h' = h_reads h \<and> k_tables (h_kernel h') = k_tables (h_kernel h)" for name
    using host_print_result[OF assms, of TERM_STATUS_ERROR _ "[fname e name]" h]
    by (fastforce simp: unimplemented_def h_mem_def k_pmm_def k_galloc_def)
  show ?thesis
    using *[of "''uacpi_kernel_io_read32''"] *[of "''uacpi_kernel_pci_read32''"] *[of "''uacpi_kernel_install_interrupt_handler''"]
    by (auto simp: uacpi_kernel_io_read32_def uacpi_kernel_pci_read32_def uacpi_kernel_install_interrupt_handler_def)
qed

lemma acpi_missing_services_report_success_witness:
  "\<exists>h'. uacpi_kernel_io_read32 sample_env 0x40 0 0x9000 sample_host = Some (UACPI_STATUS_OK, h') \<and> h_mem h' = h_mem sample_host"
  using acpi_missing_services_report_success[OF sample_env_fits, where handle = "0x40" and offset = 0 and out = "0x9000" and h = sample_host] by blast

end
