(* ===== verification/LdrTerm.thy ===== *)
theory LdrTerm
  imports Panic
begin

text \<open>
  The loader's screen, terminal and panic: \<open>ldr/graphics.c\<close>, \<open>ldr/term.c\<close>, \<open>ldr/panic.c\<close>, \<open>ar/amd64pc/serial.c\<close> and
  \<open>port.c\<close> of \<open>nearmonia\<close>. The source is close to the kernel's, and the screen has no owner. The state is a record that the
  loader's other components extend.
\<close>

section \<open>State\<close>

record LdrGraphicsData =
  lg_init :: bool
  lg_framebufferBase :: u64
  lg_framebufferSize :: u64
  lg_width :: u32
  lg_height :: u32
  lg_pixelsPerScanLine :: u32

record lscreen =
  lgraphics :: LdrGraphicsData
  lfb :: "u32 \<Rightarrow> u32"
  lbelow_font :: "u8 \<Rightarrow> nat \<Rightarrow> u8"

record lterm = lscreen +
  ltermCurrentX :: u32
  ltermCurrentY :: u32
  lports :: "(u16 \<times> u8) list"

section \<open>Graphics\<close>

definition LdrGraphicsSetup :: "LdrGraphicsData \<Rightarrow> 'a lscreen_scheme \<Rightarrow> 'a lscreen_scheme" where
  "LdrGraphicsSetup data s = s\<lparr>lgraphics := (lgraphics s)\<lparr>lg_framebufferBase := lg_framebufferBase data,
     lg_framebufferSize := lg_framebufferSize data, lg_height := lg_height data, lg_width := lg_width data,
     lg_pixelsPerScanLine := lg_pixelsPerScanLine data, lg_init := True\<rparr>\<rparr>"

definition LdrGraphicsReturnData :: "'a lscreen_scheme \<Rightarrow> LdrGraphicsData" where
  "LdrGraphicsReturnData s = lgraphics s"

definition lset_pixel :: "u32 \<Rightarrow> u64 \<Rightarrow> 'a lscreen_scheme \<Rightarrow> 'a lscreen_scheme" where
  "lset_pixel i color s = s\<lparr>lfb := (lfb s)(i := ucast color)\<rparr>"

text \<open>Both loops run to the height.\<close>

definition LdrGraphicsClear :: "u64 \<Rightarrow> 'a lscreen_scheme \<Rightarrow> 'a lscreen_scheme" where
  "LdrGraphicsClear color s =
     (if \<not> lg_init (lgraphics s) then s
      else for_u32 0 (lg_height (lgraphics s))
        (\<lambda>j s. if lg_height (lgraphics s) \<le> j then s
               else for_u32 0 (lg_height (lgraphics s))
                 (\<lambda>i s. if lg_height (lgraphics s) \<le> j then s
                        else lset_pixel (j * lg_pixelsPerScanLine (lgraphics s) + i) color s) s) s)"

definition LdrGraphicsDrawRect :: "u32 \<Rightarrow> u32 \<Rightarrow> u32 \<Rightarrow> u32 \<Rightarrow> u64 \<Rightarrow> 'a lscreen_scheme \<Rightarrow> 'a lscreen_scheme" where
  "LdrGraphicsDrawRect x y width height color s =
     (if \<not> lg_init (lgraphics s) then s
      else for_u32 y (y + height)
        (\<lambda>j s. if lg_height (lgraphics s) \<le> j then s
               else for_u32 x (x + width)
                 (\<lambda>i s. if lg_width (lgraphics s) \<le> i then s
                        else lset_pixel (j * lg_pixelsPerScanLine (lgraphics s) + i) color s) s) s)"

definition lglyph_row :: "'a lscreen_scheme \<Rightarrow> u8 \<Rightarrow> nat \<Rightarrow> u8" where
  "lglyph_row s c i = (if c < 128 then font_8x12 ! unat c ! i else lbelow_font s c i)"

definition LdrGraphicsDrawChar :: "u8 \<Rightarrow> u32 \<Rightarrow> u32 \<Rightarrow> u32 \<Rightarrow> u64 \<Rightarrow> 'a lscreen_scheme \<Rightarrow> 'a lscreen_scheme" where
  "LdrGraphicsDrawChar c x y sz color s =
     (if \<not> lg_init (lgraphics s) then s
      else fold (\<lambda>i. fold (\<lambda>j s.
          if (ucast (lglyph_row s c i) :: u32) AND push_bit j 1 \<noteq> 0
          then LdrGraphicsDrawRect (x + of_nat j * sz) (y + of_nat i * sz) sz sz color s
          else s) [0..<12]) [0..<12] s)"

partial_function (option) ldraw_raw_loop ::
    "(u64 \<Rightarrow> u8) \<Rightarrow> u64 \<Rightarrow> u32 \<Rightarrow> u32 \<Rightarrow> u32 \<Rightarrow> u64 \<Rightarrow> 'a lscreen_scheme \<Rightarrow> 'a lscreen_scheme option" where
  "ldraw_raw_loop str i currentX currentY sz color s =
     (if str i \<noteq> 0
      then ldraw_raw_loop str (i + 1) (currentX + sz * 8) currentY sz color
             (LdrGraphicsDrawChar (str i) currentX currentY sz color s)
      else Some s)"

definition LdrGraphicsDrawStringRaw ::
    "(u64 \<Rightarrow> u8) \<Rightarrow> u32 \<Rightarrow> u32 \<Rightarrow> u32 \<Rightarrow> u64 \<Rightarrow> 'a lscreen_scheme \<Rightarrow> 'a lscreen_scheme option" where
  "LdrGraphicsDrawStringRaw str x y sz color s =
     (if \<not> lg_init (lgraphics s) then Some s else ldraw_raw_loop str 0 x y sz color s)"

definition LdrGraphicsDrawString :: "QText \<Rightarrow> u32 \<Rightarrow> u32 \<Rightarrow> u32 \<Rightarrow> u64 \<Rightarrow> 'a lscreen_scheme \<Rightarrow> 'a lscreen_scheme" where
  "LdrGraphicsDrawString str x y sz color s =
     (if \<not> lg_init (lgraphics s) then s
      else snd (for_upto (unat (tlength str))
        (\<lambda>i (currentX, s). (currentX + sz * 8, LdrGraphicsDrawChar (tbytes str i) currentX y sz color s)) (x, s)))"

partial_function (option) lmeasure_loop :: "(u64 \<Rightarrow> u8) \<Rightarrow> u64 \<Rightarrow> u32 \<Rightarrow> u32 \<Rightarrow> u32 option" where
  "lmeasure_loop str i sz acc = (if str i \<noteq> 0 then lmeasure_loop str (i + 1) sz (acc + sz * 8) else Some acc)"

definition LdrGraphicsMeasureTextSizeFromDefaultFont :: "(u64 \<Rightarrow> u8) \<Rightarrow> u32 \<Rightarrow> u32 option" where
  "LdrGraphicsMeasureTextSizeFromDefaultFont str sz = lmeasure_loop str 0 sz 0"

section \<open>The serial port\<close>

definition LdrAmd64OutByte :: "u16 \<Rightarrow> u8 \<Rightarrow> 'a lterm_scheme \<Rightarrow> 'a lterm_scheme" where
  "LdrAmd64OutByte port v s = s\<lparr>lports := lports s @ [(port, v)]\<rparr>"

definition LdrArSerialWrite :: "u8 \<Rightarrow> 'a lterm_scheme \<Rightarrow> 'a lterm_scheme" where
  "LdrArSerialWrite c s = LdrAmd64OutByte 0x3f8 c s"

partial_function (option) lserial_raw_loop :: "(u64 \<Rightarrow> u8) \<Rightarrow> u64 \<Rightarrow> 'a lterm_scheme \<Rightarrow> 'a lterm_scheme option" where
  "lserial_raw_loop str i s = (if str i \<noteq> 0 then lserial_raw_loop str (i + 1) (LdrArSerialWrite (str i) s) else Some s)"

definition LdrArPrintToSerialRaw :: "(u64 \<Rightarrow> u8) \<Rightarrow> 'a lterm_scheme \<Rightarrow> 'a lterm_scheme option" where
  "LdrArPrintToSerialRaw str s = lserial_raw_loop str 0 s"

definition LdrArPrintToSerial :: "QText \<Rightarrow> 'a lterm_scheme \<Rightarrow> 'a lterm_scheme" where
  "LdrArPrintToSerial str s = for_upto (unat (tlength str)) (\<lambda>i. LdrArSerialWrite (tbytes str i)) s"

section \<open>The terminal\<close>

definition LdrTermClear :: "'a lterm_scheme \<Rightarrow> 'a lterm_scheme" where
  "LdrTermClear s =
     (let s1 = (if lg_init (lgraphics s)
                then LdrGraphicsDrawRect 0 0 (lg_width (lgraphics s)) (lg_height (lgraphics s)) 0x112121 s
                else s)
      in LdrArSerialWrite 10 (s1\<lparr>ltermCurrentX := 10, ltermCurrentY := 10\<rparr>))"

text \<open>To the start of the next line; a full screen is cleared.\<close>

definition lnext_line :: "'a lterm_scheme \<Rightarrow> 'a lterm_scheme" where
  "lnext_line s =
     (let s1 = s\<lparr>ltermCurrentX := 10, ltermCurrentY := ltermCurrentY s + 12\<rparr>
      in if lg_height (lgraphics s1) \<le> ltermCurrentY s1 then LdrTermClear s1 else s1)"

definition LdrTermMoveDown :: "u32 \<Rightarrow> 'a lterm_scheme \<Rightarrow> 'a lterm_scheme" where
  "LdrTermMoveDown amount s = for_u32 0 amount (\<lambda>i. lnext_line) s"

definition LdrTermPuts :: "bool \<Rightarrow> QText \<Rightarrow> u64 \<Rightarrow> 'a lterm_scheme \<Rightarrow> 'a lterm_scheme option" where
  "LdrTermPuts addNewLine str color s =
     (let s1 = (if lg_init (lgraphics s)
                then LdrGraphicsDrawString str (ltermCurrentX s) (ltermCurrentY s) 1 color s else s);
          s2 = LdrArPrintToSerial str s1
      in if addNewLine then Some (LdrArSerialWrite 10 (lnext_line s2))
         else if lg_init (lgraphics s2)
         then map_option (\<lambda>w. s2\<lparr>ltermCurrentX := ltermCurrentX s2 + w\<rparr>)
                (LdrGraphicsMeasureTextSizeFromDefaultFont (tbytes str) 1)
         else Some s2)"

definition LdrTermPrint :: "formatter \<Rightarrow> Status \<Rightarrow> QText \<Rightarrow> u64 list \<Rightarrow> 'a lterm_scheme \<Rightarrow> 'a lterm_scheme option" where
  "LdrTermPrint vsn stat str args s =
     (let buffer = format_text vsn str args;
          tagged = (\<lambda>tag color. do { s1 \<leftarrow> LdrTermPuts False (QSTR tag) color s; LdrTermPuts True buffer 0xFFFFFF s1 })
      in case stat of
           TERM_STATUS_ERROR \<Rightarrow> tagged ''[-] '' 0xFF0000
         | TERM_STATUS_PASS \<Rightarrow> tagged ''[+] '' 0x00FF00
         | TERM_STATUS_INFO \<Rightarrow> tagged ''[.] '' 0x00AAFF
         | TERM_STATUS_WARNING \<Rightarrow> tagged ''[!] '' 0xFFFF00
         | TERM_STATUS_IMPINFO \<Rightarrow> tagged ''[!] '' 0xFDA172
         | TERM_STATUS_UNKNOWN \<Rightarrow> LdrTermPuts True buffer 0xFFFFFF s)"

section \<open>Panic\<close>

definition ldr_rule :: string where
  "ldr_rule = [CHR 0x0A, CHR 0x0A] @ replicate 64 CHR ''-'' @ [CHR 0x0A]"

definition LdrPanic :: "QText \<Rightarrow> 'a lterm_scheme \<Rightarrow> 'a lterm_scheme run" where
  "LdrPanic string s =
     (let s1 = LdrArPrintToSerial string (LdrArPrintToSerial (QSTR (''An error has occured!!!!'' @ [CHR 0x0A, CHR 0x0A]))
                 (LdrArPrintToSerial (QSTR ldr_rule) s));
          s2 = (if lg_init (lgraphics s1)
                then LdrGraphicsDrawString string 10 50 1 0xFFFFFF
                      (LdrGraphicsDrawString string 10 10 2 0xFFFFFF
                        (LdrGraphicsDrawRect 0 0 (lg_width (lgraphics s1)) (lg_height (lgraphics s1)) 0x0000FF s1))
                else s1)
      in Hangs (LdrArPrintToSerial (QSTR ldr_rule) s2))"

end
