(* ===== verification/LdrEfi.thy ===== *)
theory LdrEfi
  imports LdrTerm
begin

text \<open>
  What the loader \<open>nearmonia\<close> sees of the firmware, and its state. The data structures of the UEFI headers are records, and
  objects of such a type are looked up by address. The firmware's services are functions on the loader's
  state, the record \<open>firmware\<close>, an argument of what calls them: an in/out parameter is passed with its old value and
  returned with the new one. The firmware keeps a state \<open>'f\<close> of its own.
\<close>

section \<open>Firmware data\<close>

datatype EFI_MEMORY_TYPE =
    EfiReservedMemoryType | EfiLoaderCode | EfiLoaderData | EfiBootServicesCode | EfiBootServicesData
  | EfiRuntimeServicesCode | EfiRuntimeServicesData | EfiConventionalMemory | EfiUnusableMemory
  | EfiACPIReclaimMemory | EfiACPIMemoryNVS | EfiMemoryMappedIO | EfiMemoryMappedIOPortSpace | EfiPalCode | EfiMaxMemoryType

text \<open>The value of the enumeration, as the type field of a descriptor has it.\<close>

fun efi_memory_code :: "EFI_MEMORY_TYPE \<Rightarrow> u32" where
  "efi_memory_code EfiReservedMemoryType = 0"
| "efi_memory_code EfiLoaderCode = 1"
| "efi_memory_code EfiLoaderData = 2"
| "efi_memory_code EfiBootServicesCode = 3"
| "efi_memory_code EfiBootServicesData = 4"
| "efi_memory_code EfiRuntimeServicesCode = 5"
| "efi_memory_code EfiRuntimeServicesData = 6"
| "efi_memory_code EfiConventionalMemory = 7"
| "efi_memory_code EfiUnusableMemory = 8"
| "efi_memory_code EfiACPIReclaimMemory = 9"
| "efi_memory_code EfiACPIMemoryNVS = 10"
| "efi_memory_code EfiMemoryMappedIO = 11"
| "efi_memory_code EfiMemoryMappedIOPortSpace = 12"
| "efi_memory_code EfiPalCode = 13"
| "efi_memory_code EfiMaxMemoryType = 14"

datatype EFI_ALLOCATE_TYPE = AllocateAnyPages | AllocateMaxAddress | AllocateAddress | MaxAllocateType

definition EFI_SUCCESS :: u64 where
  "EFI_SUCCESS = 0"

record EFI_MEMORY_DESCRIPTOR =
  ed_Type :: u32
  ed_PhysicalStart :: u64
  ed_VirtualStart :: u64
  ed_NumberOfPages :: u64
  ed_Attribute :: u64

record GUID =
  Data1 :: u32
  Data2 :: u16
  Data3 :: u16
  Data4 :: "u8 list"

record EFI_CONFIGURATION_TABLE =
  VendorGuid :: GUID
  VendorTable :: u64

datatype EFI_GRAPHICS_PIXEL_FORMAT =
    PixelRedGreenBlueReserved8BitPerColor | PixelBlueGreenRedReserved8BitPerColor | PixelBitMask | PixelBltOnly | PixelFormatMax

record EFI_PIXEL_BITMASK =
  RedMask :: u32
  GreenMask :: u32
  BlueMask :: u32
  ReservedMask :: u32

record EFI_GRAPHICS_OUTPUT_MODE_INFORMATION =
  go_Version :: u32
  HorizontalResolution :: u32
  VerticalResolution :: u32
  PixelFormat :: EFI_GRAPHICS_PIXEL_FORMAT
  PixelInformation :: EFI_PIXEL_BITMASK
  PixelsPerScanLine :: u32

record EFI_GRAPHICS_OUTPUT_PROTOCOL_MODE =
  MaxMode :: u32
  go_Mode :: u32
  go_Info :: EFI_GRAPHICS_OUTPUT_MODE_INFORMATION
  SizeOfInfo :: u64
  FrameBufferBase :: u64
  FrameBufferSize :: u64

record EFI_LOADED_IMAGE_PROTOCOL =
  li_Revision :: u32
  ParentHandle :: u64
  li_SystemTable :: u64
  DeviceHandle :: u64
  FilePath :: u64
  li_Reserved :: u64
  LoadOptionsSize :: u32
  LoadOptions :: u64
  li_ImageBase :: u64
  ImageSize :: u64
  ImageCodeType :: EFI_MEMORY_TYPE
  ImageDataType :: EFI_MEMORY_TYPE
  li_Unload :: u64

section \<open>The loader's memory map\<close>

datatype MemoryEntryTypes = MEM_TYPE_FREE | MEM_TYPE_USED | MEM_TYPE_ACPI

record MemoryMapEntry =
  lme_base :: u64
  lme_size :: u64
  lme_type :: MemoryEntryTypes

record MemoryMap =
  lm_memEntries :: u64
  lm_amountOfEntries :: u64
  lm_sizeOfEntireMemory :: u64
  lm_mapKey :: u64

definition SIZEOF_MEMORY_MAP :: u64 where
  "SIZEOF_MEMORY_MAP = 32"

definition SIZEOF_MEMORY_MAP_ENTRY :: u64 where
  "SIZEOF_MEMORY_MAP_ENTRY = 24"

definition HHDM_OFFSET :: u64 where
  "HHDM_OFFSET = 0xFFFFFF8000000000"

section \<open>State and services\<close>

text \<open>\<open>l_pml4\<close> is the address of the static root table and \<open>l_binfo\<close> that of the boot information on the stack.\<close>

record 'f loader = lterm +
  l_mem :: bytes
  l_desc :: "u64 \<Rightarrow> EFI_MEMORY_DESCRIPTOR"
  l_memmap :: "u64 \<Rightarrow> MemoryMap"
  l_entry :: "u64 \<Rightarrow> MemoryMapEntry"
  globalSysTab :: u64
  globalHandle :: u64
  sfs_root :: u64
  l_pml4 :: u64
  l_cr3 :: u64
  l_binfo :: u64
  l_fw :: 'f

text \<open>The in/out parameters of \<open>GetMemoryMap\<close>.\<close>

record map_args =
  ma_size :: u64
  ma_key :: u64
  ma_descSize :: u64
  ma_descVer :: u32

record 'f firmware =
  fw_vsn :: formatter
  GetMemoryMap :: "map_args \<Rightarrow> u64 \<Rightarrow> 'f loader \<Rightarrow> u64 \<times> map_args \<times> 'f loader"
  AllocatePool :: "EFI_MEMORY_TYPE \<Rightarrow> u64 \<Rightarrow> u64 \<Rightarrow> 'f loader \<Rightarrow> u64 \<times> u64 \<times> 'f loader"
  FreePool :: "u64 \<Rightarrow> 'f loader \<Rightarrow> u64 \<times> 'f loader"
  AllocatePages :: "EFI_ALLOCATE_TYPE \<Rightarrow> EFI_MEMORY_TYPE \<Rightarrow> u64 \<Rightarrow> u64 \<Rightarrow> 'f loader \<Rightarrow> u64 \<times> u64 \<times> 'f loader"
  SetMem :: "u64 \<Rightarrow> u64 \<Rightarrow> u8 \<Rightarrow> 'f loader \<Rightarrow> 'f loader"
  LocateProtocol :: "GUID \<Rightarrow> u64 \<Rightarrow> 'f loader \<Rightarrow> u64 \<times> u64 \<times> 'f loader"
  HandleProtocol :: "u64 \<Rightarrow> GUID \<Rightarrow> u64 \<Rightarrow> 'f loader \<Rightarrow> u64 \<times> u64 \<times> 'f loader"
  ExitBootServices :: "u64 \<Rightarrow> u64 \<Rightarrow> 'f loader \<Rightarrow> u64 \<times> 'f loader"
  NumberOfTableEntries :: u64
  ConfigurationTable :: "u64 \<Rightarrow> EFI_CONFIGURATION_TABLE"
  gop_Mode :: "u64 \<Rightarrow> EFI_GRAPHICS_OUTPUT_PROTOCOL_MODE"
  loaded_image :: "u64 \<Rightarrow> EFI_LOADED_IMAGE_PROTOCOL"
  OpenVolume :: "u64 \<Rightarrow> u64 \<Rightarrow> 'f loader \<Rightarrow> u64 \<times> u64 \<times> 'f loader"
  file_Open :: "u64 \<Rightarrow> u64 \<Rightarrow> (u64 \<Rightarrow> u16) \<Rightarrow> u64 \<Rightarrow> u64 \<Rightarrow> 'f loader \<Rightarrow> u64 \<times> u64 \<times> 'f loader"
  file_Read :: "u64 \<Rightarrow> u64 \<Rightarrow> u64 \<Rightarrow> 'f loader \<Rightarrow> u64 \<times> u64 \<times> 'f loader"
  file_SetPosition :: "u64 \<Rightarrow> u64 \<Rightarrow> 'f loader \<Rightarrow> u64 \<times> 'f loader"
  file_Close :: "u64 \<Rightarrow> 'f loader \<Rightarrow> u64 \<times> 'f loader"

definition ldr_print :: "'f firmware \<Rightarrow> Status \<Rightarrow> string \<Rightarrow> u64 list \<Rightarrow> 'f loader \<Rightarrow> 'f loader option" where
  "ldr_print fw st msg args s = LdrTermPrint (fw_vsn fw) st (QSTR msg) args s"

end
