(* ===== verification/LdrMem.thy ===== *)
theory LdrMem
  imports LdrEfi QMem Vmm
begin

text \<open>
  The loader's memory code \<open>mm/amd64pc/mem.c\<close>, \<open>pmm.c\<close> and \<open>vmm.c\<close>: the memory map it asks the firmware for and
  translates, and the four-level page tables it builds in pages of the firmware. The macros for page table entries are the same as in the
  kernel's \<open>vmm.h\<close>.
\<close>

section \<open>The memory map\<close>

definition upd_memmap :: "u64 \<Rightarrow> (MemoryMap \<Rightarrow> MemoryMap) \<Rightarrow> 'f loader \<Rightarrow> 'f loader" where
  "upd_memmap a f s = s\<lparr>l_memmap := (l_memmap s)(a := f (l_memmap s a))\<rparr>"

definition upd_entry :: "u64 \<Rightarrow> (MemoryMapEntry \<Rightarrow> MemoryMapEntry) \<Rightarrow> 'f loader \<Rightarrow> 'f loader" where
  "upd_entry a f s = s\<lparr>l_entry := (l_entry s)(a := f (l_entry s a))\<rparr>"

definition entry_type :: "u32 \<Rightarrow> MemoryEntryTypes" where
  "entry_type t =
     (if t = efi_memory_code EfiConventionalMemory then MEM_TYPE_FREE
      else if t = efi_memory_code EfiACPIMemoryNVS \<or> t = efi_memory_code EfiACPIReclaimMemory then MEM_TYPE_ACPI
      else MEM_TYPE_USED)"

text \<open>The body of the translation loop.\<close>

definition copy_descriptor :: "u64 \<Rightarrow> u64 \<Rightarrow> u64 \<Rightarrow> u64 \<Rightarrow> 'f loader \<Rightarrow> 'f loader" where
  "copy_descriptor efiMemMap descSize lmap i s =
     (let d = l_desc s (efiMemMap + i * descSize);
          e = lm_memEntries (l_memmap s lmap) + i * SIZEOF_MEMORY_MAP_ENTRY;
          s1 = upd_entry e (\<lambda>x. x\<lparr>lme_base := ed_PhysicalStart d\<rparr>) s;
          s2 = upd_entry e (\<lambda>x. x\<lparr>lme_size := ed_NumberOfPages d * 4096\<rparr>) s1;
          s3 = upd_memmap lmap (\<lambda>m. m\<lparr>lm_sizeOfEntireMemory := lm_sizeOfEntireMemory m + lme_size (l_entry s2 e)\<rparr>) s2
      in upd_entry e (\<lambda>x. x\<lparr>lme_type := entry_type (ed_Type d)\<rparr>) s3)"

text \<open>The end of the function, once all memory is there: the number of entries, the entries and the key of the map.\<close>

definition fill_memory_map :: "u64 \<Rightarrow> map_args \<Rightarrow> u64 \<Rightarrow> u64 \<Rightarrow> 'f loader \<Rightarrow> 'f loader" where
  "fill_memory_map efiMemMap a lmap n s =
     (let s = upd_memmap lmap (\<lambda>m. m\<lparr>lm_amountOfEntries := n\<rparr>) s;
          s = for_upto (unat n) (copy_descriptor efiMemMap (ma_descSize a) lmap) s
      in upd_memmap lmap (\<lambda>m. m\<lparr>lm_mapKey := ma_key a\<rparr>) s)"

text \<open>The calls that a failure path makes after its message; the map is \<open>NULL\<close> then.\<close>

fun free_pools :: "'f firmware \<Rightarrow> u64 list \<Rightarrow> 'f loader \<Rightarrow> 'f loader" where
  "free_pools fw [] s = s"
| "free_pools fw (p # ps) s = free_pools fw ps (snd (FreePool fw p s))"

definition memmap_fails :: "'f firmware \<Rightarrow> string \<Rightarrow> u64 \<Rightarrow> u64 list \<Rightarrow> 'f loader \<Rightarrow> (u64 \<times> 'f loader) option" where
  "memmap_fails fw msg status ps s = map_option (\<lambda>s. (NULL, free_pools fw ps s)) (ldr_print fw TERM_STATUS_ERROR msg [status] s)"

text \<open>A division by a descriptor size of 0 does not come back.\<close>

definition MmRetrieveCurrentMemoryMap :: "'f firmware \<Rightarrow> 'f loader \<Rightarrow> (u64 \<times> 'f loader) option" where
  "MmRetrieveCurrentMemoryMap fw s =
     (let (_, a, s) = GetMemoryMap fw \<lparr>ma_size = 0, ma_key = 0, ma_descSize = 0, ma_descVer = 0\<rparr> NULL s;
          a = a\<lparr>ma_size := ma_size a + ma_descSize a * 8\<rparr>;
          (status, efiMemMap, s) = AllocatePool fw EfiLoaderData (ma_size a) NULL s
      in if status \<noteq> EFI_SUCCESS then memmap_fails fw ''Couldn't allocate pool for Efi Memory Map, 0x%x'' status [] s else
      let (status, lmap, s) = AllocatePool fw EfiLoaderData SIZEOF_MEMORY_MAP NULL s
      in if status \<noteq> EFI_SUCCESS then memmap_fails fw ''Couldn't allocate pool for Nearmonia Memory Map, 0x%x'' status [efiMemMap] s else
      let s = SetMem fw lmap SIZEOF_MEMORY_MAP 0 s;
          (status, a, s) = GetMemoryMap fw a efiMemMap s
      in if status \<noteq> EFI_SUCCESS then memmap_fails fw ''Couldn't get EFI memory map, 0x%x'' status [efiMemMap, lmap] s else
      if ma_descSize a = 0 then None else
      let amountOfEntries = ma_size a div ma_descSize a;
          (status, entries, s) = AllocatePool fw EfiLoaderData (amountOfEntries * SIZEOF_MEMORY_MAP_ENTRY) (lm_memEntries (l_memmap s lmap)) s;
          s = upd_memmap lmap (\<lambda>m. m\<lparr>lm_memEntries := entries\<rparr>) s
      in if status \<noteq> EFI_SUCCESS then memmap_fails fw ''Couldn't get EFI memory map, 0x%x'' status [efiMemMap, lmap] s else
      let s = SetMem fw (lm_memEntries (l_memmap s lmap)) (amountOfEntries * SIZEOF_MEMORY_MAP_ENTRY) 0 s
      in Some (lmap, fill_memory_map efiMemMap a lmap amountOfEntries s))"

section \<open>The physical allocator\<close>

definition LdrMmInitPhysicalAllocator :: bool where
  "LdrMmInitPhysicalAllocator = False"

definition LdrMmAllocatePhysicalPages :: "u64 \<Rightarrow> u64" where
  "LdrMmAllocatePhysicalPages amountOfPages = NULL"

definition LdrMmFreePhysicalPages :: "u64 \<Rightarrow> u64 \<Rightarrow> 'f loader \<Rightarrow> 'f loader" where
  "LdrMmFreePhysicalPages pages amountOfPages s = s"

section \<open>Page tables\<close>

definition lget :: "'f loader \<Rightarrow> u64 \<Rightarrow> u64 \<Rightarrow> u64" where
  "lget s t i = ld64 (l_mem s) (entry_addr t i)"

definition lset :: "u64 \<Rightarrow> u64 \<Rightarrow> u64 \<Rightarrow> 'f loader \<Rightarrow> 'f loader" where
  "lset t i v s = s\<lparr>l_mem := st64 (l_mem s) (entry_addr t i) v\<rparr>"

text \<open>\<open>*address\<close> is set only on success.\<close>

definition LdrGetNextLevel :: "'f firmware \<Rightarrow> 'f loader \<Rightarrow> u64 option \<times> 'f loader" where
  "LdrGetNextLevel fw s =
     (let (status, addr, s) = AllocatePages fw AllocateAnyPages EfiLoaderCode 1 0 s
      in if status \<noteq> EFI_SUCCESS then (None, s)
         else (Some addr, s\<lparr>l_mem := snd (memset addr 0 0x1000 (l_mem s))\<rparr>))"

text \<open>One level of the walk: an entry of 0 gets a new table.\<close>

definition ldr_level :: "'f firmware \<Rightarrow> u64 \<Rightarrow> u64 \<Rightarrow> 'f loader \<Rightarrow> bool \<times> 'f loader" where
  "ldr_level fw t i s =
     (if lget s t i = 0
      then let (r, s) = LdrGetNextLevel fw s
           in case r of None \<Rightarrow> (False, s) | Some a \<Rightarrow> (True, lset t i (a OR PG_PRESENT OR PG_READ_WRITE) s)
      else (True, s))"

definition MmMapSinglePage :: "'f firmware \<Rightarrow> u64 \<Rightarrow> u64 \<Rightarrow> 'f loader \<Rightarrow> bool \<times> 'f loader" where
  "MmMapSinglePage fw address virtAddress s =
     (let pml4Entry = GET_PML4_ENTRY virtAddress;
          pdptEntry = GET_PDPT_ENTRY virtAddress;
          pdEntry = GET_PD_ENTRY virtAddress;
          ptEntry = GET_PT_ENTRY virtAddress;
          (r1, s1) = ldr_level fw (l_pml4 s) pml4Entry s
      in if \<not> r1 then (False, s1) else
      let pdpt = PARSE_ENTRY_VALUE (lget s1 (l_pml4 s1) pml4Entry);
          (r2, s2) = ldr_level fw pdpt pdptEntry s1
      in if \<not> r2 then (False, s2) else
      let pd = PARSE_ENTRY_VALUE (lget s2 pdpt pdptEntry);
          (r3, s3) = ldr_level fw pd pdEntry s2
      in if \<not> r3 then (False, s3) else
      let pt = PARSE_ENTRY_VALUE (lget s3 pd pdEntry)
      in (True, lset pt ptEntry (address OR PG_PRESENT OR PG_READ_WRITE) s3))"

definition LdrMmUpdateCr3 :: "u64 \<Rightarrow> 'f loader \<Rightarrow> 'f loader" where
  "LdrMmUpdateCr3 a s = s\<lparr>l_cr3 := a\<rparr>"

text \<open>The identity mapping of \<open>n\<close> bytes from \<open>base\<close>; failures are ignored.\<close>

definition identity_map :: "'f firmware \<Rightarrow> u64 \<Rightarrow> u64 \<Rightarrow> 'f loader \<Rightarrow> 'f loader option" where
  "identity_map fw base n s = stride_loop 0 n (\<lambda>j s. snd (MmMapSinglePage fw (base + j) (base + j) s)) s"

partial_function (option) map_all_entries :: "'f firmware \<Rightarrow> u64 \<Rightarrow> u64 \<Rightarrow> 'f loader \<Rightarrow> 'f loader option" where
  "map_all_entries fw lmap i s =
     (if i < lm_amountOfEntries (l_memmap s lmap)
      then let e = l_entry s (lm_memEntries (l_memmap s lmap) + i * SIZEOF_MEMORY_MAP_ENTRY)
           in do { s \<leftarrow> identity_map fw (lme_base e) (lme_size e) s; map_all_entries fw lmap (i + 1) s }
      else Some s)"

text \<open>The map is not compared with \<open>NULL\<close>; the frame buffer's size, in bytes, is taken for a number of pages.\<close>

definition MmInitPaging :: "'f firmware \<Rightarrow> 'f loader \<Rightarrow> (bool \<times> 'f loader) option" where
  "MmInitPaging fw s =
     do { (lmap, s) \<leftarrow> MmRetrieveCurrentMemoryMap fw s;
          s \<leftarrow> map_all_entries fw lmap 0 s;
          let g = LdrGraphicsReturnData s
          in do { s \<leftarrow> identity_map fw (lg_framebufferBase g) (lg_framebufferSize g * 0x1000) s;
                  Some (True, LdrMmUpdateCr3 (l_pml4 s) s) } }"

partial_function (option) map_higher_half :: "'f firmware \<Rightarrow> u64 \<Rightarrow> u64 \<Rightarrow> u64 \<Rightarrow> 'f loader \<Rightarrow> (bool \<times> 'f loader) option" where
  "map_higher_half fw address kernSize i s =
     (if i < kernSize
      then let (result, s) = MmMapSinglePage fw (address + i) (HHDM_OFFSET + i) s
           in if \<not> result then Some (False, s) else map_higher_half fw address kernSize (i + 0x1000) s
      else Some (True, s))"

definition MmMapHigherHalfMemoryForKernel :: "'f firmware \<Rightarrow> u64 \<Rightarrow> u64 \<Rightarrow> 'f loader \<Rightarrow> (bool \<times> 'f loader) option" where
  "MmMapHigherHalfMemoryForKernel fw address kernSize s =
     do { (result, s) \<leftarrow> map_higher_half fw address kernSize 0 s;
          if \<not> result then Some (False, s) else Some (True, LdrMmUpdateCr3 (l_pml4 s) s) }"

end
