(* ===== verification/LdrFile.thy ===== *)
theory LdrFile
  imports LdrEfi QMem QString
begin

text \<open>
  The loader's access to the firmware's protocols: \<open>ldr/abs.c\<close>, \<open>ldr/gop.c\<close>, \<open>fs/sfs.c\<close>, and the strings \<open>qol/qstring.c\<close> it
  needs for them. Counted strings have the kernel's structure \<open>QString\<close>; wide strings are arrays of 16-bit characters.
\<close>

section \<open>Strings\<close>

partial_function (option) ldr_count_string :: "bytes \<Rightarrow> u64 \<Rightarrow> u64 \<Rightarrow> u64 option" where
  "ldr_count_string m copy len = (if m copy \<noteq> 0 then ldr_count_string m (copy + 1) (len + 1) else Some len)"

definition LdrQolGetStringLength :: "u64 \<Rightarrow> bytes \<Rightarrow> u64 option" where
  "LdrQolGetStringLength str m = (if str = NULL then Some 0 else ldr_count_string m str 0)"

definition LdrQolGetStringLengthEx :: "u64 \<Rightarrow> bool \<Rightarrow> bytes \<Rightarrow> u64 option" where
  "LdrQolGetStringLengthEx str addNewLine m =
     (if str = NULL then Some 0
      else map_option (\<lambda>len. if addNewLine then len + 1 else len) (ldr_count_string m str 0))"

definition LdrQolInitStringEx :: "u64 \<Rightarrow> u64 \<Rightarrow> QString" where
  "LdrQolInitStringEx str len = \<lparr>qs_buffer = str, qs_length = len\<rparr>"

definition LdrQolInitString :: "u64 \<Rightarrow> bytes \<Rightarrow> QString option" where
  "LdrQolInitString str m = map_option (LdrQolInitStringEx str) (LdrQolGetStringLength str m)"

definition LdrQolCopyString :: "QString \<Rightarrow> QString \<Rightarrow> QString" where
  "LdrQolCopyString src dest = dest\<lparr>qs_buffer := qs_buffer src, qs_length := qs_length src\<rparr>"

text \<open>The bytes and a zero byte after them.\<close>

definition copy_terminated :: "u64 \<Rightarrow> QString \<Rightarrow> 'f loader \<Rightarrow> 'f loader" where
  "copy_terminated buffer src s =
     (let m = snd (memcpy buffer (qs_buffer src) (qs_length src) (l_mem s)) in s\<lparr>l_mem := m(buffer + qs_length src := 0)\<rparr>)"

definition QolCopyStringPool :: "'f firmware \<Rightarrow> QString \<Rightarrow> QString \<Rightarrow> 'f loader \<Rightarrow> bool \<times> QString \<times> 'f loader" where
  "QolCopyStringPool fw src dest s =
     (if qs_buffer src = NULL then (False, dest, s)
      else let (status, p, s) = AllocatePool fw EfiLoaderData (qs_length src + 1) (qs_buffer dest) s;
               dest = dest\<lparr>qs_buffer := p\<rparr>
           in if status \<noteq> EFI_SUCCESS then (False, dest, s)
              else (True, dest\<lparr>qs_length := qs_length src\<rparr>, copy_terminated p src s))"

definition LdrQolDupeString :: "QString \<Rightarrow> QString" where
  "LdrQolDupeString src = \<lparr>qs_buffer = qs_buffer src, qs_length = qs_length src\<rparr>"

definition QolDupeStringPool :: "'f firmware \<Rightarrow> QString \<Rightarrow> 'f loader \<Rightarrow> QString \<times> 'f loader" where
  "QolDupeStringPool fw src s =
     (let result = \<lparr>qs_buffer = NULL, qs_length = 0\<rparr>
      in if qs_buffer src = NULL then (result, s)
         else let (status, p, s) = AllocatePool fw EfiLoaderData (qs_length src + 1) (qs_buffer result) s;
                  result = result\<lparr>qs_buffer := p\<rparr>
              in if status \<noteq> EFI_SUCCESS then (result, s)
                 else (result\<lparr>qs_length := qs_length src\<rparr>, copy_terminated p src s))"

definition LdrQolSliceString :: "QString \<Rightarrow> u64 \<Rightarrow> QString" where
  "LdrQolSliceString str len =
     (if qs_buffer str = NULL then \<lparr>qs_buffer = NULL, qs_length = 0\<rparr>
      else if qs_length str \<le> len then str
      else \<lparr>qs_buffer = qs_buffer str, qs_length = len\<rparr>)"

lemma unat_succ_u32: "(c :: u32) < b \<Longrightarrow> unat (c + 1) = Suc (unat c)"
proof -
  assume "c < b"
  moreover have "unat b < 4294967296" using unsigned_less[of b] by simp
  ultimately have "unat c + 1 < 4294967296" by (simp add: word_less_nat_alt)
  then show ?thesis by (simp add: unat_word_ariths)
qed

text \<open>
  The conversion loop with the counter and the destination, for either direction. \<open>char\<close> is signed, so widening extends the sign. The bound
  \<open>strSize - 1\<close> wraps around for a size of 0.
\<close>

function convert_loop :: "('a :: zero \<Rightarrow> 'b) \<Rightarrow> (u64 \<Rightarrow> 'a) \<Rightarrow> u32 \<Rightarrow> u32 \<Rightarrow> (u64 \<Rightarrow> 'b) \<Rightarrow> u32 \<times> (u64 \<Rightarrow> 'b)" where
  "convert_loop f src bound count dst =
     (if src (ucast count) \<noteq> 0 \<and> count < bound
      then convert_loop f src bound (count + 1) (dst(ucast count := f (src (ucast count))))
      else (count, dst))"
  by pat_completeness auto
termination
  by (relation "measure (\<lambda>(f, src, bound, count, dst). unat bound - unat count)")
    (auto simp: unat_succ_u32 word_less_nat_alt)

declare convert_loop.simps [simp del]

definition wide_to_ansi_loop :: "(u64 \<Rightarrow> u16) \<Rightarrow> u32 \<Rightarrow> u32 \<Rightarrow> (u64 \<Rightarrow> u8) \<Rightarrow> u32 \<times> (u64 \<Rightarrow> u8)" where
  "wide_to_ansi_loop = convert_loop ucast"

definition ansi_to_wide_loop :: "(u64 \<Rightarrow> u8) \<Rightarrow> u32 \<Rightarrow> u32 \<Rightarrow> (u64 \<Rightarrow> u16) \<Rightarrow> u32 \<times> (u64 \<Rightarrow> u16)" where
  "ansi_to_wide_loop = convert_loop scast"

definition QolWideStringToAnsiString :: "(u64 \<Rightarrow> u16) \<Rightarrow> (u64 \<Rightarrow> u8) \<Rightarrow> u32 \<Rightarrow> u64 \<Rightarrow> u8" where
  "QolWideStringToAnsiString wideString dst strSize =
     (let (count, dst) = wide_to_ansi_loop wideString (strSize - 1) 0 dst in dst(ucast count := 0))"

definition QolAnsiStringToWideString :: "(u64 \<Rightarrow> u8) \<Rightarrow> (u64 \<Rightarrow> u16) \<Rightarrow> u32 \<Rightarrow> u64 \<Rightarrow> u16" where
  "QolAnsiStringToWideString ansiString dst strSize =
     (let (count, dst) = ansi_to_wide_loop ansiString (strSize - 1) 0 dst in dst(ucast count := 0))"

section \<open>Firmware tables\<close>

definition ACPI_1_TABLE_GUID :: GUID where
  "ACPI_1_TABLE_GUID = \<lparr>Data1 = 0xeb9d2d30, Data2 = 0x2d88, Data3 = 0x11d3, Data4 = [0x9a, 0x16, 0x0, 0x90, 0x27, 0x3f, 0xc1, 0x4d]\<rparr>"

definition ACPI_2_TABLE_GUID :: GUID where
  "ACPI_2_TABLE_GUID = \<lparr>Data1 = 0x8868e871, Data2 = 0xe4f1, Data3 = 0x11d3, Data4 = [0xbc, 0x22, 0x0, 0x80, 0xc7, 0x3c, 0x88, 0x81]\<rparr>"

definition LdrSetupAbstractions :: "u64 \<Rightarrow> u64 \<Rightarrow> 'f loader \<Rightarrow> 'f loader" where
  "LdrSetupAbstractions handle systab s = s\<lparr>globalHandle := handle, globalSysTab := systab\<rparr>"

definition LdrReturnSystemTable :: "'f loader \<Rightarrow> u64" where
  "LdrReturnSystemTable s = globalSysTab s"

definition LdrReturnImagehandle :: "'f loader \<Rightarrow> u64" where
  "LdrReturnImagehandle s = globalHandle s"

text \<open>The sixteen bytes of the structure, which has no padding, as \<open>memcmp\<close> reads them.\<close>

definition guid_bytes :: "GUID \<Rightarrow> u8 list" where
  "guid_bytes g = map (\<lambda>i. ucast (drop_bit (8 * i) (Data1 g))) [0..<4] @ map (\<lambda>i. ucast (drop_bit (8 * i) (Data2 g))) [0..<2] @
     map (\<lambda>i. ucast (drop_bit (8 * i) (Data3 g))) [0..<2] @ Data4 g"

definition LdrCompareGUID :: "GUID \<Rightarrow> GUID \<Rightarrow> bool" where
  "LdrCompareGUID first second \<longleftrightarrow> guid_bytes first = guid_bytes second"

partial_function (option) find_rsdp :: "'f firmware \<Rightarrow> u64 \<Rightarrow> 'f loader \<Rightarrow> (u64 \<times> 'f loader) option" where
  "find_rsdp fw i s =
     (if i < NumberOfTableEntries fw
      then let table = ConfigurationTable fw i
           in if LdrCompareGUID (VendorGuid table) ACPI_2_TABLE_GUID
              then map_option (Pair (VendorTable table)) (ldr_print fw TERM_STATUS_PASS ''Got RSDP: location 0x%x'' [VendorTable table] s)
              else find_rsdp fw (i + 1) s
      else Some (0, s))"

definition LdrGetRSDPLocation :: "'f firmware \<Rightarrow> 'f loader \<Rightarrow> (u64 \<times> 'f loader) option" where
  "LdrGetRSDPLocation fw s = find_rsdp fw 0 s"

section \<open>The screen\<close>

definition EFI_GRAPHICS_OUTPUT_PROTOCOL_GUID :: GUID where
  "EFI_GRAPHICS_OUTPUT_PROTOCOL_GUID = \<lparr>Data1 = 0x9042a9de, Data2 = 0x23dc, Data3 = 0x4a38,
     Data4 = [0x96, 0xfb, 0x7a, 0xde, 0xd0, 0x80, 0x51, 0x6a]\<rparr>"

definition LdrSetupGOP :: "'f firmware \<Rightarrow> 'f loader \<Rightarrow> bool \<times> 'f loader" where
  "LdrSetupGOP fw s =
     (let (status, gop, s) = LocateProtocol fw EFI_GRAPHICS_OUTPUT_PROTOCOL_GUID NULL s
      in if status \<noteq> EFI_SUCCESS then (False, LdrArPrintToSerial (QSTR ''LocateProtocol for GOP failed'') s)
         else let mode = gop_Mode fw gop;
                  gData = \<lparr>lg_init = True, lg_framebufferBase = FrameBufferBase mode, lg_framebufferSize = FrameBufferSize mode,
                    lg_width = HorizontalResolution (go_Info mode), lg_height = VerticalResolution (go_Info mode),
                    lg_pixelsPerScanLine = PixelsPerScanLine (go_Info mode)\<rparr>
              in (True, LdrGraphicsSetup gData s))"

section \<open>Files\<close>

definition EFI_LOADED_IMAGE_PROTOCOL_GUID :: GUID where
  "EFI_LOADED_IMAGE_PROTOCOL_GUID = \<lparr>Data1 = 0x5B1B31A1, Data2 = 0x9562, Data3 = 0x11d2,
     Data4 = [0x8E, 0x3F, 0x00, 0xA0, 0xC9, 0x69, 0x72, 0x3B]\<rparr>"

definition EFI_SIMPLE_FILE_SYSTEM_PROTOCOL_GUID :: GUID where
  "EFI_SIMPLE_FILE_SYSTEM_PROTOCOL_GUID = \<lparr>Data1 = 0x964e5b22, Data2 = 0x6459, Data3 = 0x11d2,
     Data4 = [0x8e, 0x39, 0x0, 0xa0, 0xc9, 0x69, 0x72, 0x3b]\<rparr>"

definition EFI_FILE_MODE_READ :: u64 where
  "EFI_FILE_MODE_READ = 1"

definition SFsSetupSimpleFilesystem :: "'f firmware \<Rightarrow> 'f loader \<Rightarrow> bool \<times> 'f loader" where
  "SFsSetupSimpleFilesystem fw s =
     (let (status, lip, s) = HandleProtocol fw (LdrReturnImagehandle s) EFI_LOADED_IMAGE_PROTOCOL_GUID NULL s
      in if status \<noteq> EFI_SUCCESS then (False, LdrArPrintToSerial (QSTR (''Couldn't access loaded image protocol'' @ [CHR 0x0A])) s) else
      let (status, sfs, s) = HandleProtocol fw (DeviceHandle (loaded_image fw lip)) EFI_SIMPLE_FILE_SYSTEM_PROTOCOL_GUID NULL s
      in if status \<noteq> EFI_SUCCESS then (False, LdrArPrintToSerial (QSTR (''Couldn't access simple file system protocol'' @ [CHR 0x0A])) s) else
      let (_, root, s) = OpenVolume fw sfs (sfs_root s) s
      in (True, s\<lparr>sfs_root := root\<rparr>))"

text \<open>\<open>wFileName\<close> is the uninitialised array on the stack.\<close>

definition SFsOpenFile :: "'f firmware \<Rightarrow> (u64 \<Rightarrow> u16) \<Rightarrow> (u64 \<Rightarrow> u8) \<Rightarrow> u64 \<Rightarrow> 'f loader \<Rightarrow> u64 \<times> 'f loader" where
  "SFsOpenFile fw wFileName fileName mode s =
     (if sfs_root s = NULL then (NULL, s)
      else let (_, file, s) = file_Open fw (sfs_root s) NULL (QolAnsiStringToWideString fileName wFileName 256) mode 0 s
           in (file, s))"

text \<open>The loop that measures the file reads into \<open>content\<close>, which is still \<open>NULL\<close>.\<close>

partial_function (option) measure_file :: "'f firmware \<Rightarrow> u64 \<Rightarrow> u64 \<Rightarrow> 'f loader \<Rightarrow> (u64 \<times> 'f loader) option" where
  "measure_file fw file finalSize s =
     (let (status, n, s) = file_Read fw file 16 NULL s
      in if status \<noteq> EFI_SUCCESS \<or> n = 0 then Some (finalSize, s) else measure_file fw file (finalSize + n) s)"

text \<open>The content and the length that is stored through \<open>length\<close>, if any.\<close>

definition SFsReadFileContent :: "'f firmware \<Rightarrow> u64 \<Rightarrow> 'f loader \<Rightarrow> (u64 \<times> u64 option \<times> 'f loader) option" where
  "SFsReadFileContent fw file s =
     (if file = NULL then Some (NULL, None, s)
      else do { (finalSize, s) \<leftarrow> measure_file fw file 16 s;
                if finalSize = 0 then Some (NULL, None, s) else
                let (status, s) = file_SetPosition fw file 0 s
                in if status \<noteq> EFI_SUCCESS then Some (NULL, None, s) else
                let (status, content, s) = AllocatePool fw EfiLoaderData finalSize NULL s
                in if status \<noteq> EFI_SUCCESS then Some (NULL, None, s) else
                let (status, finalSize, s) = file_Read fw file finalSize content s
                in if status \<noteq> EFI_SUCCESS then Some (NULL, None, snd (FreePool fw content s))
                   else Some (content, Some finalSize, s) })"

definition SFsCloseFile :: "'f firmware \<Rightarrow> u64 \<Rightarrow> 'f loader \<Rightarrow> bool \<times> 'f loader" where
  "SFsCloseFile fw file s = (let (status, s) = file_Close fw file s in (status = EFI_SUCCESS, s))"

end
