(* ===== verification/PeLdr.thy ===== *)
theory PeLdr
  imports LdrMem LdrFile
begin

text \<open>
  The kernel loader \<open>ldr/peldr.c\<close> and the loader's entry point \<open>entry.c\<close>. The image is read in place: a header is the address
  of its first byte and a field is a load at its offset. \<open>long\<close> has 32 bits, as the target is a COFF one.
\<close>

section \<open>Headers\<close>

definition ld16 :: "bytes \<Rightarrow> u64 \<Rightarrow> u16" where
  "ld16 m a = ucast (m a) OR push_bit 8 (ucast (m (a + 1)))"

definition ld32 :: "bytes \<Rightarrow> u64 \<Rightarrow> u32" where
  "ld32 m a = ucast (m a) OR push_bit 8 (ucast (m (a + 1))) OR push_bit 16 (ucast (m (a + 2))) OR push_bit 24 (ucast (m (a + 3)))"

definition st32 :: "bytes \<Rightarrow> u64 \<Rightarrow> u32 \<Rightarrow> bytes" where
  "st32 m a v = m(a := ucast v, a + 1 := ucast (drop_bit 8 v), a + 2 := ucast (drop_bit 16 v), a + 3 := ucast (drop_bit 24 v))"

text \<open>The last field of \<open>IMAGE_DOS_HEADER\<close>, after thirty 16-bit words; it is signed.\<close>

definition e_lfanew :: "bytes \<Rightarrow> u64 \<Rightarrow> u64" where
  "e_lfanew m dos = scast (ld32 m (dos + 60))"

text \<open>\<open>IMAGE_NT_HEADERS64\<close>: the signature, the file header and the optional header.\<close>

definition NumberOfSections :: "bytes \<Rightarrow> u64 \<Rightarrow> u16" where
  "NumberOfSections m nt = ld16 m (nt + 4 + 2)"

definition SizeOfOptionalHeader :: "bytes \<Rightarrow> u64 \<Rightarrow> u16" where
  "SizeOfOptionalHeader m nt = ld16 m (nt + 4 + 16)"

definition AddressOfEntryPoint :: "bytes \<Rightarrow> u64 \<Rightarrow> u32" where
  "AddressOfEntryPoint m nt = ld32 m (nt + 24 + 16)"

definition pe_ImageBase :: "bytes \<Rightarrow> u64 \<Rightarrow> u64" where
  "pe_ImageBase m nt = ld64 m (nt + 24 + 24)"

definition SizeOfImage :: "bytes \<Rightarrow> u64 \<Rightarrow> u32" where
  "SizeOfImage m nt = ld32 m (nt + 24 + 56)"

text \<open>\<open>IMAGE_SECTION_HEADER\<close>, 40 bytes.\<close>

definition SIZEOF_SECTION_HEADER :: u64 where
  "SIZEOF_SECTION_HEADER = 40"

definition VirtualSize :: "bytes \<Rightarrow> u64 \<Rightarrow> u32" where
  "VirtualSize m sec = ld32 m (sec + 8)"

definition sec_VirtualAddress :: "bytes \<Rightarrow> u64 \<Rightarrow> u32" where
  "sec_VirtualAddress m sec = ld32 m (sec + 12)"

definition SizeOfRawData :: "bytes \<Rightarrow> u64 \<Rightarrow> u32" where
  "SizeOfRawData m sec = ld32 m (sec + 16)"

definition PointerToRawData :: "bytes \<Rightarrow> u64 \<Rightarrow> u32" where
  "PointerToRawData m sec = ld32 m (sec + 20)"

definition GET_FIRST_SECTION :: "bytes \<Rightarrow> u64 \<Rightarrow> u64" where
  "GET_FIRST_SECTION m h = h + 24 + ucast (SizeOfOptionalHeader m h)"

text \<open>\<open>memcmp\<close> with a literal is 0.\<close>

definition starts_with :: "bytes \<Rightarrow> u64 \<Rightarrow> u8 list \<Rightarrow> bool" where
  "starts_with m a bs \<longleftrightarrow> (\<forall>i \<in> set [0..<length bs]. m (a + of_nat i) = bs ! i)"

section \<open>Sections\<close>

definition SIZEOF_BOOT_INFO :: u64 where
  "SIZEOF_BOOT_INFO = 96"

text \<open>The body of the loop. The fields are read again after each store, as the code does.\<close>

definition load_section :: "'f firmware \<Rightarrow> u64 \<Rightarrow> u64 \<Rightarrow> u64 \<Rightarrow> u64 \<Rightarrow> 'f loader \<Rightarrow> 'f loader option" where
  "load_section fw content imageBase bInfo sec s =
     (let m = l_mem s;
          s = s\<lparr>l_mem := snd (memset (imageBase + ucast (sec_VirtualAddress m sec)) 0 (ucast (VirtualSize m sec)) m)\<rparr>
      in do { s \<leftarrow> ldr_print fw TERM_STATUS_INFO ''Loading section %s'' [sec] s;
              let m = l_mem s; dest = imageBase + ucast (sec_VirtualAddress m sec)
              in if starts_with m sec (map of_char ''.ldr'')
                 then Some (s\<lparr>l_mem := snd (memcpy dest bInfo SIZEOF_BOOT_INFO m)\<rparr>)
                 else Some (s\<lparr>l_mem := snd (memcpy dest (content + ucast (PointerToRawData m sec)) (ucast (SizeOfRawData m sec)) m)\<rparr>) })"

partial_function (option) load_sections :: "'f firmware \<Rightarrow> u64 \<Rightarrow> u64 \<Rightarrow> u64 \<Rightarrow> u64 \<Rightarrow> u16 \<Rightarrow> u64 \<Rightarrow> 'f loader \<Rightarrow> 'f loader option" where
  "load_sections fw content nt imageBase bInfo i sec s =
     (if i < NumberOfSections (l_mem s) nt
      then do { s \<leftarrow> load_section fw content imageBase bInfo sec s;
                load_sections fw content nt imageBase bInfo (i + 1) (sec + SIZEOF_SECTION_HEADER) s }
      else Some s)"

definition LoadSectionsIntoMemory :: "'f firmware \<Rightarrow> u64 \<Rightarrow> u64 \<Rightarrow> u64 \<Rightarrow> 'f loader \<Rightarrow> 'f loader option" where
  "LoadSectionsIntoMemory fw content nt bInfo s =
     load_sections fw content nt (pe_ImageBase (l_mem s) nt) bInfo 0 (GET_FIRST_SECTION (l_mem s) nt) s"

section \<open>The kernel image\<close>

text \<open>
  What becomes of the machine: the loader hangs in a panic, the kernel is entered at an address, or the loader waits in the loop at its end.
\<close>

datatype 's boot = Stuck 's | EntersKernel u64 's

definition panic_with :: "string \<Rightarrow> 'f loader \<Rightarrow> 'f loader boot option" where
  "panic_with msg s = (case LdrPanic (QSTR msg) s of Hangs t \<Rightarrow> Some (Stuck t) | Runs t \<Rightarrow> Some (Stuck t))"

text \<open>The structure \<open>bInfo\<close>, 96 bytes with the padding after the boolean and the three 32-bit fields, once all its fields are known.\<close>

definition store_boot_info :: "u64 \<Rightarrow> LdrGraphicsData \<Rightarrow> u64 \<Rightarrow> u64 \<Rightarrow> u64 \<Rightarrow> u64 \<Rightarrow> bytes \<Rightarrow> bytes" where
  "store_boot_info a g lmap physBase pages root m =
     (let m = snd (memset a 0 SIZEOF_BOOT_INFO m);
          m = m(a := if lg_init g then 1 else 0);
          m = st64 m (a + 8) (lg_framebufferBase g);
          m = st64 m (a + 16) (lg_framebufferSize g);
          m = st32 m (a + 24) (lg_width g);
          m = st32 m (a + 28) (lg_height g);
          m = st32 m (a + 32) (lg_pixelsPerScanLine g);
          m = st64 m (a + 40) lmap;
          m = st64 m (a + 48) HHDM_OFFSET;
          m = st64 m (a + 56) HHDM_OFFSET;
          m = st64 m (a + 64) physBase;
          m = st64 m (a + 72) pages;
          m = st64 m (a + 80) 1
      in st64 m (a + 88) root)"

text \<open>From the boot information to the jump. \<open>binfo_arg\<close> is what the variadic call passes for the structure.\<close>

definition start_kernel :: "'f firmware \<Rightarrow> u64 \<Rightarrow> u64 \<Rightarrow> u64 \<Rightarrow> u64 \<Rightarrow> u64 \<Rightarrow> u64 \<Rightarrow> 'f loader \<Rightarrow> 'f loader boot option" where
  "start_kernel fw binfo_arg content nt KernelEntry physBase pages s =
     do { (lmap, s) \<leftarrow> MmRetrieveCurrentMemoryMap fw s;
          (root, s) \<leftarrow> LdrGetRSDPLocation fw s;
          let s = s\<lparr>l_mem := store_boot_info (l_binfo s) (LdrGraphicsReturnData s) lmap physBase pages root (l_mem s)\<rparr>
          in do { s \<leftarrow> LoadSectionsIntoMemory fw content nt (l_binfo s) s;
                  s \<leftarrow> ldr_print fw TERM_STATUS_PASS ''About to jump to kernel!'' [] s;
                  s \<leftarrow> ldr_print fw TERM_STATUS_INFO ''BootInfo is located at 0x%x'' [binfo_arg] s;
                  s \<leftarrow> ldr_print fw TERM_STATUS_UNKNOWN '' '' [] s;
                  s \<leftarrow> ldr_print fw TERM_STATUS_UNKNOWN '' '' [] s;
                  let (_, s) = ExitBootServices fw (LdrReturnImagehandle s) (lm_mapKey (l_memmap s lmap)) s
                  in Some (EntersKernel KernelEntry s) } }"

text \<open>If the kernel returns.\<close>

definition kernel_returned :: "'f loader \<Rightarrow> 'f loader boot option" where
  "kernel_returned s = panic_with ''Kernel returned from entrypoint!'' s"

definition load_image :: "'f firmware \<Rightarrow> u64 \<Rightarrow> u64 \<Rightarrow> u64 \<Rightarrow> u64 \<Rightarrow> 'f loader \<Rightarrow> 'f loader boot option" where
  "load_image fw binfo_arg path content nt s =
     do { s \<leftarrow> ldr_print fw TERM_STATUS_PASS (''%s is a valid kernel!'' @ [CHR 0x0A]) [path] s;
          let sizeOfImage = (ucast (SizeOfImage (l_mem s) nt) :: u64);
              imageBase = pe_ImageBase (l_mem s) nt;
              amountOfPagesForImage = (sizeOfImage + 4095) div 4096;
              (status, physBase, s) = AllocatePages fw AllocateAnyPages EfiLoaderData amountOfPagesForImage 0 s
          in if status \<noteq> EFI_SUCCESS then panic_with ''Not enough memory to load kernel!'' s
             else do { (result, s) \<leftarrow> MmMapHigherHalfMemoryForKernel fw physBase (amountOfPagesForImage * 4096) s;
                       if \<not> result then panic_with ''Couldn't map higher half memory pages for kernel!'' s
                       else do { s \<leftarrow> ldr_print fw TERM_STATUS_PASS ''Kernel physical base is located at 0x%x, page size is %d''
                                        [physBase, amountOfPagesForImage] s;
                                 let KernelEntry = imageBase + ucast (AddressOfEntryPoint (l_mem s) nt)
                                 in start_kernel fw binfo_arg content nt KernelEntry physBase amountOfPagesForImage s } } }"

definition LdrPeLoadPEImageAsKernel ::
    "'f firmware \<Rightarrow> (u64 \<Rightarrow> u16) \<Rightarrow> u64 \<Rightarrow> u64 \<Rightarrow> 'f loader \<Rightarrow> 'f loader boot option" where
  "LdrPeLoadPEImageAsKernel fw stack binfo_arg path s =
     (let (kernFile, s) = SFsOpenFile fw stack (\<lambda>i. l_mem s (path + i)) EFI_FILE_MODE_READ s
      in if kernFile = NULL then panic_with ''Couldn't load kernel image! Please Reboot'' s
         else do { (content, _, s) \<leftarrow> SFsReadFileContent fw kernFile s;
                   let (_, s) = SFsCloseFile fw kernFile s
                   in if content = NULL then panic_with ''Kernel image is empty or corrupted! Please Reboot'' s
                      else if \<not> starts_with (l_mem s) content [0x4D, 0x5A]
                      then panic_with ''Kernel image isn't of PE type! (failed at MZ) Please Reboot'' s
                      else let nt = content + e_lfanew (l_mem s) content
                           in if \<not> starts_with (l_mem s) nt [0x50, 0x45, 0, 0]
                              then panic_with ''Kernel image isn't of PE type! (failed at PE) Please Reboot'' s
                              else load_image fw binfo_arg path content nt s })"

section \<open>The entry point\<close>

definition serial_line :: "string \<Rightarrow> 'f loader \<Rightarrow> 'f loader" where
  "serial_line msg s = LdrArPrintToSerial (QSTR (msg @ [CHR 0x0A])) s"

definition LdrEfiEntry :: "'f firmware \<Rightarrow> (u64 \<Rightarrow> u16) \<Rightarrow> u64 \<Rightarrow> u64 \<Rightarrow> u64 \<Rightarrow> u64 \<Rightarrow> 'f loader \<Rightarrow> 'f loader boot option" where
  "LdrEfiEntry fw stack binfo_arg path imageHandle systemTable s =
     (let s = serial_line ''hello!'' (LdrSetupAbstractions imageHandle systemTable s);
          (result, s) = LdrSetupGOP fw s;
          s = (if \<not> result
               then LdrArPrintToSerial (QSTR ''Failure to setup Graphics Output Protocol, going off with serial mode'') s else s);
          s = serial_line ''set up the graphics output protocol'' s
      in do { (result, s) \<leftarrow> MmInitPaging fw s;
              if \<not> result then panic_with ''Failure to setup Paging'' s
              else let (result, s) = SFsSetupSimpleFilesystem fw (serial_line ''set up paging'' s)
                   in if \<not> result then panic_with ''Failure to setup Simple File System'' s
                      else do { s \<leftarrow> ldr_print fw TERM_STATUS_PASS (''Nearmonia Bootloader'' @ [CHR 0x0A])
                                       [] (LdrTermClear (serial_line ''set up simple file system'' s));
                                LdrPeLoadPEImageAsKernel fw stack binfo_arg path s } })"

end
