(* ===== verification/LdrTermProps.thy ===== *)
theory LdrTermProps
  imports LdrTerm TermProps
begin

text \<open>The loader's drawing routines against the kernel's, and what its panic does.\<close>

section \<open>The kernel's screen as the loader has it\<close>

definition kernel_view :: "'a lscreen_scheme \<Rightarrow> screen" where
  "kernel_view s = \<lparr>globalGraphics = \<lparr>g_init = lg_init (lgraphics s), g_framebufferBase = lg_framebufferBase (lgraphics s),
       g_framebufferSize = lg_framebufferSize (lgraphics s), g_width = lg_width (lgraphics s), g_height = lg_height (lgraphics s),
       g_pixelsPerScanLine = lg_pixelsPerScanLine (lgraphics s), g_owners = OWNER_DEBUG_TERM\<rparr>,
     fb = lfb s, below_font = lbelow_font s\<rparr>"

lemma kernel_view_simps [simp]:
  "g_init (globalGraphics (kernel_view s)) = lg_init (lgraphics s)"
  "g_width (globalGraphics (kernel_view s)) = lg_width (lgraphics s)"
  "g_height (globalGraphics (kernel_view s)) = lg_height (lgraphics s)"
  "g_pixelsPerScanLine (globalGraphics (kernel_view s)) = lg_pixelsPerScanLine (lgraphics s)"
  "fb (kernel_view s) = lfb s"
  by (simp_all add: kernel_view_def)

lemma fold_hom: "(\<And>x s. h (f x s) = g x (h s)) \<Longrightarrow> h (fold f xs s) = fold g xs (h s)"
  by (induction xs arbitrary: s) simp_all

lemma for_u32_hom: "(\<And>i s. h (f i s) = g i (h s)) \<Longrightarrow> h (for_u32 lo hi f s) = for_u32 lo hi g (h s)"
  unfolding for_u32_def by (rule fold_hom)

lemma view_pixel: "kernel_view (lset_pixel i color s) = set_pixel i color (kernel_view s)"
  by (simp add: kernel_view_def lset_pixel_def set_pixel_def)

lemma view_rect: "kernel_view (LdrGraphicsDrawRect x y w h color s) = KeGraphicsDrawRect x y w h color (kernel_view s)"
  unfolding LdrGraphicsDrawRect_def KeGraphicsDrawRect_def
  by (auto intro!: for_u32_hom simp: view_pixel)

lemma view_char: "kernel_view (LdrGraphicsDrawChar c x y sz color s) = KeGraphicsDrawChar c x y sz color (kernel_view s)"
proof -
  have "lglyph_row t c i = glyph_row (kernel_view t) c i" for t :: "'a lscreen_scheme" and i
    by (simp add: lglyph_row_def glyph_row_def kernel_view_def)
  then show ?thesis
    unfolding LdrGraphicsDrawChar_def KeGraphicsDrawChar_def
    by (auto intro!: fold_hom simp: view_rect)
qed

lemma view_string: "kernel_view (LdrGraphicsDrawString str x y sz color s) = KeGraphicsDrawString str x y sz color (kernel_view s)"
proof -
  let ?h = "map_prod id kernel_view"
  have "?h (for_upto n (\<lambda>i (cx, s). (cx + sz * 8, LdrGraphicsDrawChar (tbytes str i) cx y sz color s)) (x, s)) =
      for_upto n (\<lambda>i (cx, s). (cx + sz * 8, KeGraphicsDrawChar (tbytes str i) cx y sz color s)) (?h (x, s))" for n
    unfolding for_upto_def by (rule fold_hom) (auto simp: view_char)
  from arg_cong[OF this[of "unat (tlength str)"], of snd] show ?thesis
    by (simp add: LdrGraphicsDrawString_def KeGraphicsDrawString_def)
qed

text \<open>
  C25: The loader's \<open>LdrGraphicsDrawRect\<close>, \<open>LdrGraphicsDrawChar\<close> and \<open>LdrGraphicsDrawString\<close> are the kernel's drawing routines:
  on the same screen they leave the same framebuffer.
\<close>

theorem ldr_drawing_is_kernel_drawing:
  "lfb (LdrGraphicsDrawRect x y w h color s) = fb (KeGraphicsDrawRect x y w h color (kernel_view s)) \<and>
   lfb (LdrGraphicsDrawChar c x y sz color s) = fb (KeGraphicsDrawChar c x y sz color (kernel_view s)) \<and>
   lfb (LdrGraphicsDrawString str x y sz color s) = fb (KeGraphicsDrawString str x y sz color (kernel_view s))"
  by (simp flip: view_rect view_char view_string)

section \<open>Clearing\<close>

lemma lset_pixels:
  "fold (\<lambda>i. lset_pixel (f i) color) xs s = s\<lparr>lfb := \<lambda>p. if p \<in> f ` set xs then ucast color else lfb s p\<rparr>"
  by (induction xs arbitrary: s) (auto simp: lset_pixel_def fun_eq_iff)

lemma lset_pixels_nested:
  "fold (\<lambda>j. fold (\<lambda>i. lset_pixel (f j i) color) ys) xs s =
    s\<lparr>lfb := \<lambda>p. if \<exists>j \<in> set xs. p \<in> f j ` set ys then ucast color else lfb s p\<rparr>"
  unfolding lset_pixels by (induction xs arbitrary: s) (auto simp: fun_eq_iff)

lemma of_nat_below_u32:
  assumes "j < unat (h :: u32)"
  shows "\<not> h \<le> of_nat j"
proof -
  have "unat h < 4294967296" using unsigned_less[of h] by simp
  then have "unat (of_nat j :: u32) = j" using assms by (simp add: unat_of_nat)
  then show ?thesis using assms by (simp add: word_le_nat_alt)
qed

lemma fold_fixed:
  assumes "\<And>x t. x \<in> set xs \<Longrightarrow> k t = g \<Longrightarrow> f x t = h x t \<and> k (h x t) = g" and "k s = g"
  shows "fold f xs s = fold h xs s"
  using assms by (induction xs arbitrary: s) auto

lemma lgraphics_fb [simp]: "lgraphics (s\<lparr>lfb := F\<rparr>) = lgraphics s"
  by simp

lemma LdrGraphicsClear_fb:
  fixes s :: "'a lscreen_scheme"
  assumes "lg_init (lgraphics s)"
  defines "g \<equiv> lgraphics s"
  shows "LdrGraphicsClear color s =
    s\<lparr>lfb := \<lambda>p. if \<exists>j < unat (lg_height g). \<exists>i < unat (lg_height g). p = of_nat j * lg_pixelsPerScanLine g + of_nat i
      then ucast color else lfb s p\<rparr>"
proof -
  let ?n = "unat (lg_height g)" and ?w = "lg_pixelsPerScanLine g"
  let ?row = "\<lambda>j. fold (\<lambda>i. lset_pixel (of_nat j * ?w + of_nat i) color) [0..<?n]"
  have row: "fold (\<lambda>i t. if lg_height (lgraphics t) \<le> of_nat j then t
         else lset_pixel (of_nat j * lg_pixelsPerScanLine (lgraphics t) + of_nat i) color t) [0..<?n] t = ?row j t"
    if "lgraphics t = g" "j < ?n" for j and t :: "'a lscreen_scheme"
    by (rule fold_fixed[where k = lgraphics and g = g]) (use that of_nat_below_u32[OF that(2)] in \<open>auto simp: lset_pixel_def\<close>)
  have "LdrGraphicsClear color s = fold ?row [0..<?n] s"
  proof -
    have "LdrGraphicsClear color s = fold (\<lambda>j t. if lg_height (lgraphics t) \<le> of_nat j then t
      else fold (\<lambda>i t. if lg_height (lgraphics t) \<le> of_nat j then t
         else lset_pixel (of_nat j * lg_pixelsPerScanLine (lgraphics t) + of_nat i) color t)
         [0..<unat (lg_height (lgraphics t))] t) [0..<?n] s"
      unfolding LdrGraphicsClear_def for_u32_def unsigned_0 using assms(1) by (simp add: g_def)
    also have "\<dots> = fold ?row [0..<?n] s"
      by (rule fold_fixed[where k = lgraphics and g = g]) (use row of_nat_below_u32 in \<open>auto simp: lset_pixels g_def\<close>)
    finally show ?thesis .
  qed
  also have "\<dots> = s\<lparr>lfb := \<lambda>p. if \<exists>j \<in> set [0..<?n]. p \<in> (\<lambda>i. of_nat j * ?w + of_nat i) ` set [0..<?n] then ucast color else lfb s p\<rparr>"
    by (rule lset_pixels_nested)
  finally show ?thesis by (simp add: image_iff Bex_def)
qed

text \<open>
  \<open>LdrGraphicsClear\<close> paints exactly the square of the screen's height at its left edge: it never looks at the width, so a wide screen
  keeps the pixels to the right of the square.
\<close>

theorem ldr_clear_square:
  assumes "lg_init (lgraphics s)" and "g = lgraphics s"
  shows "lfb (LdrGraphicsClear color s) p =
    (if \<exists>j < unat (lg_height g). \<exists>i < unat (lg_height g). p = of_nat j * lg_pixelsPerScanLine g + of_nat i then ucast color else lfb s p)"
  using LdrGraphicsClear_fb[OF assms(1)] assms(2) by simp

definition sample_lterm :: lterm where
  "sample_lterm = \<lparr>lgraphics = \<lparr>lg_init = True, lg_framebufferBase = 0x80000000, lg_framebufferSize = 0x10000, lg_width = 4, lg_height = 2,
     lg_pixelsPerScanLine = 4\<rparr>, lfb = (\<lambda>_. 7), lbelow_font = (\<lambda>_ _. 0), ltermCurrentX = 10, ltermCurrentY = 10, lports = []\<rparr>"

lemma ldr_clear_square_witness:
  "lfb (LdrGraphicsClear 5 sample_lterm) 1 = 5 \<and> lfb (LdrGraphicsClear 5 sample_lterm) 3 = 7"
proof -
  have "lg_init (lgraphics sample_lterm)" by (simp add: sample_lterm_def)
  note c = ldr_clear_square[OF this refl, of 5]
  have two: "(\<exists>i < 2. P i) \<longleftrightarrow> P 0 \<or> P (1 :: nat)" for P by (auto simp: numeral_2_eq_2 less_Suc_eq)
  show ?thesis
    unfolding c by (simp add: sample_lterm_def two)
qed

section \<open>Printing\<close>

lemma LdrSerial_ports [simp]:
  "lports (LdrArSerialWrite c t) = lports t @ [(0x3f8, c)]"
  "lgraphics (LdrArSerialWrite c t) = lgraphics t"
  "ltermCurrentY (LdrArSerialWrite c t) = ltermCurrentY t"
  by (simp_all add: LdrArSerialWrite_def LdrAmd64OutByte_def)

lemma LdrArPrintToSerial_text:
  assumes "length bs < 18446744073709551616"
  shows "LdrArPrintToSerial (text_of_bytes bs) s = s\<lparr>lports := lports s @ map (Pair 0x3f8) bs\<rparr>"
proof -
  have "for_upto n (\<lambda>i. LdrArSerialWrite (tbytes (text_of_bytes bs) i)) s = s\<lparr>lports := lports s @ map (Pair 0x3f8) (take n bs)\<rparr>"
    if "n \<le> length bs" for n
    using that
  proof (induction n)
    case (Suc n)
    then have "tbytes (text_of_bytes bs) (of_nat n) = bs ! n" using assms by (intro text_of_bytes_nth) simp_all
    with Suc show ?case by (simp add: LdrArSerialWrite_def LdrAmd64OutByte_def take_Suc_conv_app_nth)
  qed simp
  from this[of "length bs"] show ?thesis
    using assms by (simp add: LdrArPrintToSerial_def text_of_bytes_def unat_of_nat_u64)
qed

text \<open>Drawing changes nothing but the pixels.\<close>

definition only_draws :: "('a lscreen_scheme \<Rightarrow> 'a lscreen_scheme) \<Rightarrow> bool" where
  "only_draws f \<longleftrightarrow> (\<forall>t. f t = t\<lparr>lfb := lfb (f t)\<rparr>)"

lemma only_drawsI: "(\<And>t. \<exists>F. f t = t\<lparr>lfb := F\<rparr>) \<Longrightarrow> only_draws f"
proof -
  assume a: "\<And>t. \<exists>F. f t = t\<lparr>lfb := F\<rparr>"
  have "f t = t\<lparr>lfb := lfb (f t)\<rparr>" for t
  proof -
    obtain F where F: "f t = t\<lparr>lfb := F\<rparr>" using a by blast
    then have "lfb (f t) = F" by simp
    with F show ?thesis by simp
  qed
  then show ?thesis by (simp add: only_draws_def)
qed

lemma only_drawsD: "only_draws f \<Longrightarrow> \<exists>F. f t = t\<lparr>lfb := F\<rparr>"
  unfolding only_draws_def by (rule exI, erule spec)

lemma only_draws_same: "(\<And>t. f t = t) \<Longrightarrow> only_draws f"
  by (simp add: only_draws_def)

lemma only_draws_comp: "only_draws f \<Longrightarrow> only_draws h \<Longrightarrow> only_draws (\<lambda>t. h (f t))"
proof (rule only_drawsI)
  fix t
  assume "only_draws f" and "only_draws h"
  then obtain F G where "f t = t\<lparr>lfb := F\<rparr>" and "h (t\<lparr>lfb := F\<rparr>) = t\<lparr>lfb := F\<rparr>\<lparr>lfb := G\<rparr>"
    using only_drawsD[of f t] only_drawsD[of h "t\<lparr>lfb := F\<rparr>" for F] by metis
  then have "h (f t) = t\<lparr>lfb := G\<rparr>" by simp
  then show "\<exists>F. h (f t) = t\<lparr>lfb := F\<rparr>" by blast
qed

lemma only_draws_if: "only_draws f \<Longrightarrow> only_draws (\<lambda>t. if P t then t else f t)"
  "only_draws f \<Longrightarrow> only_draws (\<lambda>t. if P t then f t else t)"
  by (simp_all add: only_draws_def)

lemma only_draws_fold: "(\<And>x. only_draws (f x)) \<Longrightarrow> only_draws (fold f xs)"
proof (induction xs)
  case Nil
  then show ?case by (simp add: only_draws_same)
next
  case (Cons x xs)
  from only_draws_comp[OF Cons.prems Cons.IH[OF Cons.prems], of x] show ?case by (simp add: comp_def)
qed

lemma only_draws_for: "(\<And>i. only_draws (f i)) \<Longrightarrow> only_draws (\<lambda>t. for_u32 (lo t) (hi t) f t)"
  using only_draws_fold[of "\<lambda>i. f (of_nat i)"] unfolding only_draws_def for_u32_def by blast

lemma only_draws_rect: "only_draws (LdrGraphicsDrawRect x y w h color)"
proof -
  have "only_draws (\<lambda>t. lset_pixel (k t) color t)" for k by (auto simp: only_draws_def lset_pixel_def)
  then show ?thesis
    unfolding LdrGraphicsDrawRect_def by (intro only_draws_if only_draws_for)
qed

lemma only_draws_char: "only_draws (LdrGraphicsDrawChar c x y sz color)"
  unfolding LdrGraphicsDrawChar_def by (intro only_draws_if only_draws_fold only_draws_rect)

lemma only_draws_string: "only_draws (LdrGraphicsDrawString str x y sz color)"
proof -
  have *: "\<exists>F. snd (for_upto n (\<lambda>i (cx, s). (cx + sz * 8, LdrGraphicsDrawChar (tbytes str i) cx y sz color s)) (x, t)) = t\<lparr>lfb := F\<rparr>"
    for n and t :: "'a lscreen_scheme"
  proof (induction n)
    case 0
    show ?case by (rule exI[of _ "lfb t"]) simp
  next
    case (Suc n)
    obtain cx u where r: "for_upto n (\<lambda>i (cx, s). (cx + sz * 8, LdrGraphicsDrawChar (tbytes str i) cx y sz color s)) (x, t) = (cx, u)"
      by fastforce
    with Suc obtain F where u: "u = t\<lparr>lfb := F\<rparr>" by auto
    obtain G where "LdrGraphicsDrawChar (tbytes str (of_nat n)) cx y sz color u = u\<lparr>lfb := G\<rparr>"
      using only_drawsD[OF only_draws_char] by blast
    then have "LdrGraphicsDrawChar (tbytes str (of_nat n)) cx y sz color u = t\<lparr>lfb := G\<rparr>" by (simp add: u)
    with r show ?case by auto
  qed
  have "only_draws (\<lambda>t :: 'a lscreen_scheme. snd (for_upto n (\<lambda>i (cx, s). (cx + sz * 8, LdrGraphicsDrawChar (tbytes str i) cx y sz color s)) (x, t)))" for n
    by (rule only_drawsI) (rule *)
  then show ?thesis unfolding LdrGraphicsDrawString_def by (intro only_draws_if)
qed

lemma ldraw_fields [simp]:
  "lgraphics (LdrGraphicsDrawRect x y w h color s) = lgraphics s"
  "lports (LdrGraphicsDrawRect x y w h color t) = lports t"
  "ltermCurrentY (LdrGraphicsDrawRect x y w h color t) = ltermCurrentY t"
  "lgraphics (LdrGraphicsDrawString str x y sz color s) = lgraphics s"
  "lports (LdrGraphicsDrawString str x y sz color t) = lports t"
  "ltermCurrentY (LdrGraphicsDrawString str x y sz color t) = ltermCurrentY t"
  using only_drawsD[OF only_draws_rect, of x y w h color s]
    only_drawsD[OF only_draws_rect, of x y w h color t]
    only_drawsD[OF only_draws_string, of str x y sz color s]
    only_drawsD[OF only_draws_string, of str x y sz color t]
  by auto

text \<open>
  \<open>LdrPanic\<close> never returns; the serial port gets the rule, the notice, the message and the rule again, whether or not there is a screen.
\<close>

theorem ldr_panic_reports:
  assumes "length msg < 18446744073709551616"
  shows "\<exists>s'. LdrPanic (text_of_bytes msg) s = Hangs s' \<and> lports s' = lports s @ map (Pair 0x3f8)
    (map of_char ldr_rule @ map of_char (''An error has occured!!!!'' @ [CHR 0x0A, CHR 0x0A]) @ msg @ map of_char ldr_rule)"
proof -
  have "length ldr_rule < 18446744073709551616" by (simp add: ldr_rule_def)
  then show ?thesis
    by (simp add: LdrPanic_def Let_def QSTR_def LdrArPrintToSerial_text assms)
qed

lemma ldr_panic_reports_witness:
  "\<exists>s'. LdrPanic (text_of_bytes [111, 104]) sample_lterm = Hangs s' \<and> lports s' \<noteq> []"
  using ldr_panic_reports[of "[111, 104]" sample_lterm] by (auto simp: ldr_rule_def)

lemma LdrTermClear_fields [simp]:
  "lgraphics (LdrTermClear s) = lgraphics s" "ltermCurrentY (LdrTermClear s) = 10" "lports (LdrTermClear s) = lports s @ [(0x3f8, 10)]"
  by (simp_all add: LdrTermClear_def Let_def)

lemma lnext_line_cursor:
  assumes "10 < lg_height (lgraphics s)"
  shows "ltermCurrentY (lnext_line s) < lg_height (lgraphics s)" and "lgraphics (lnext_line s) = lgraphics s"
  using assms by (simp_all add: lnext_line_def Let_def not_le)

lemma lmeasure_text:
  assumes "\<forall>b \<in> set bs. b \<noteq> 0" and "length bs < 18446744073709551616"
  shows "LdrGraphicsMeasureTextSizeFromDefaultFont (tbytes (text_of_bytes bs)) sz = Some (of_nat (length bs) * (sz * 8))"
proof -
  have "lmeasure_loop str i sz acc = Some r" if "measure_loop str i sz acc = Some r" for str i acc r
    using that
    by (induction rule: measure_loop.raw_induct[rotated, consumes 1]) (subst lmeasure_loop.simps, auto split: if_splits)
  then show ?thesis
    using measure_text[OF assms] by (simp add: LdrGraphicsMeasureTextSizeFromDefaultFont_def KeGraphicsMeasureTextSizeFromDefaultFont_def)
qed

lemma LdrTermPuts_result:
  assumes "nl \<or> (\<forall>b \<in> set bs. b \<noteq> 0)" and "length bs < 18446744073709551616"
  shows "\<exists>s'. LdrTermPuts nl (text_of_bytes bs) color s = Some s' \<and> lgraphics s' = lgraphics s \<and>
    (10 < lg_height (lgraphics s) \<longrightarrow> ltermCurrentY s < lg_height (lgraphics s) \<longrightarrow> ltermCurrentY s' < lg_height (lgraphics s)) \<and>
    (\<exists>suf. lports s' = lports s @ map (Pair 0x3f8) bs @ suf)"
proof -
  define s1 where "s1 = (if lg_init (lgraphics s)
                then LdrGraphicsDrawString (text_of_bytes bs) (ltermCurrentX s) (ltermCurrentY s) 1 color s else s)"
  have s1: "lgraphics s1 = lgraphics s" "lports s1 = lports s" "ltermCurrentY s1 = ltermCurrentY s" by (simp_all add: s1_def)
  define s2 where "s2 = LdrArPrintToSerial (text_of_bytes bs) s1"
  have s2: "lgraphics s2 = lgraphics s" "lports s2 = lports s @ map (Pair 0x3f8) bs" "ltermCurrentY s2 = ltermCurrentY s"
    using s1 by (simp_all add: s2_def LdrArPrintToSerial_text[OF assms(2)])
  have eq: "LdrTermPuts nl (text_of_bytes bs) color s =
      (if nl then Some (LdrArSerialWrite 10 (lnext_line s2))
       else if lg_init (lgraphics s2)
       then map_option (\<lambda>w. s2\<lparr>ltermCurrentX := ltermCurrentX s2 + w\<rparr>) (LdrGraphicsMeasureTextSizeFromDefaultFont (tbytes (text_of_bytes bs)) 1)
       else Some s2)"
    by (simp only: LdrTermPuts_def s1_def s2_def Let_def)
  have nl: "\<exists>suf. lports (lnext_line s2) = lports s2 @ suf" by (simp add: lnext_line_def Let_def)
  show ?thesis
  proof (cases nl)
    case True
    then show ?thesis using eq s2 nl lnext_line_cursor[of s2] by auto (simp add: lnext_line_def Let_def)
  next
    case False
    then show ?thesis using eq s2 lmeasure_text[of bs 1] assms by (cases "lg_init (lgraphics s2)") auto
  qed
qed

fun ldr_tag :: "Status \<Rightarrow> string" where
  "ldr_tag TERM_STATUS_ERROR = ''[-] ''"
| "ldr_tag TERM_STATUS_PASS = ''[+] ''"
| "ldr_tag TERM_STATUS_INFO = ''[.] ''"
| "ldr_tag TERM_STATUS_WARNING = ''[!] ''"
| "ldr_tag TERM_STATUS_IMPINFO = ''[!] ''"
| "ldr_tag TERM_STATUS_UNKNOWN = ''''"

lemma LdrTermPrint_result:
  assumes "fits_buffer vsn"
  shows "\<exists>s'. LdrTermPrint vsn stat str args s = Some s' \<and> lgraphics s' = lgraphics s \<and>
    (10 < lg_height (lgraphics s) \<longrightarrow> ltermCurrentY s < lg_height (lgraphics s) \<longrightarrow> ltermCurrentY s' < lg_height (lgraphics s)) \<and>
    (\<exists>suf. lports s' = lports s @ map (Pair 0x3f8) (map of_char (ldr_tag stat)) @ suf) \<and>
    (\<exists>pre suf. lports s' = lports s @ pre @ map (Pair 0x3f8) (message_bytes vsn str args) @ suf)"
proof -
  let ?m = "message_bytes vsn str args"
  have len: "length ?m < 18446744073709551616" using message_fits[OF assms, of str args] by simp
  have msg: "format_text vsn str args = text_of_bytes ?m" by (simp add: format_text_def message_bytes_def)
  show ?thesis
  proof (cases "stat = TERM_STATUS_UNKNOWN")
    case True
    obtain s' where s': "LdrTermPuts True (text_of_bytes ?m) 0xFFFFFF s = Some s'" "lgraphics s' = lgraphics s"
      "10 < lg_height (lgraphics s) \<longrightarrow> ltermCurrentY s < lg_height (lgraphics s) \<longrightarrow> ltermCurrentY s' < lg_height (lgraphics s)"
      "\<exists>suf. lports s' = lports s @ map (Pair 0x3f8) ?m @ suf"
      using LdrTermPuts_result[of True ?m "0xFFFFFF" s] len by blast
    then obtain suf where "lports s' = lports s @ [] @ map (Pair 0x3f8) ?m @ suf" by auto
    with s' show ?thesis by (intro exI[of _ s']) (auto simp: True LdrTermPrint_def msg)
  next
    case False
    then obtain c where eq: "LdrTermPrint vsn stat str args s =
        do { s1 \<leftarrow> LdrTermPuts False (QSTR (ldr_tag stat)) c s; LdrTermPuts True (text_of_bytes ?m) 0xFFFFFF s1 }"
      by (cases stat) (simp_all add: LdrTermPrint_def msg Let_def)
    have tag: "\<forall>b \<in> set (map of_char (ldr_tag stat)). b \<noteq> (0 :: u8)" "length (map of_char (ldr_tag stat) :: u8 list) < 18446744073709551616"
      using False by (cases stat; simp)+
    obtain s1 suf where 1: "LdrTermPuts False (QSTR (ldr_tag stat)) c s = Some s1" "lgraphics s1 = lgraphics s"
      "10 < lg_height (lgraphics s) \<longrightarrow> ltermCurrentY s < lg_height (lgraphics s) \<longrightarrow> ltermCurrentY s1 < lg_height (lgraphics s)"
      "lports s1 = lports s @ map (Pair 0x3f8) (map of_char (ldr_tag stat)) @ suf"
      using LdrTermPuts_result[of False "map of_char (ldr_tag stat)" c s] tag unfolding QSTR_def by blast
    obtain s' suf2 where 2: "LdrTermPuts True (text_of_bytes ?m) 0xFFFFFF s1 = Some s'" "lgraphics s' = lgraphics s1"
      "10 < lg_height (lgraphics s1) \<longrightarrow> ltermCurrentY s1 < lg_height (lgraphics s1) \<longrightarrow> ltermCurrentY s' < lg_height (lgraphics s1)"
      "lports s' = lports s1 @ map (Pair 0x3f8) ?m @ suf2"
      using LdrTermPuts_result[of True ?m "0xFFFFFF" s1] len by blast
    have "LdrTermPrint vsn stat str args s = Some s'" using eq 1(1) 2(1) by simp
    moreover have "lports s' = lports s @ (map (Pair 0x3f8) (map of_char (ldr_tag stat)) @ suf) @ map (Pair 0x3f8) ?m @ suf2"
      "lports s' = lports s @ map (Pair 0x3f8) (map of_char (ldr_tag stat)) @ (suf @ map (Pair 0x3f8) ?m @ suf2)"
      using 1(4) 2(4) by simp_all
    ultimately show ?thesis using 1(2,3) 2(2,3) by (intro exI[of _ s']) metis
  qed
qed

text \<open>
  The loader's \<open>LdrTermPrint\<close> always returns, the serial port gets the class's tag first and later the formatted message, and a cursor on a
  screen of more than ten rows stays on the screen.
\<close>

theorem ldr_print_cursor_on_screen:
  assumes "fits_buffer vsn" and "10 < lg_height (lgraphics s)" and "ltermCurrentY s < lg_height (lgraphics s)"
  shows "\<exists>s'. LdrTermPrint vsn stat str args s = Some s' \<and> ltermCurrentY s' < lg_height (lgraphics s') \<and>
    (\<exists>suf. lports s' = lports s @ map (Pair 0x3f8) (map of_char (ldr_tag stat)) @ suf) \<and>
    (\<exists>pre suf. lports s' = lports s @ pre @ map (Pair 0x3f8) (message_bytes vsn str args) @ suf)"
  using LdrTermPrint_result[OF assms(1), of stat str args s] assms(2,3) by metis

lemma ldr_print_cursor_on_screen_witness:
  "let s = sample_lterm\<lparr>lgraphics := (lgraphics sample_lterm)\<lparr>lg_height := 20\<rparr>\<rparr>
   in \<exists>s'. LdrTermPrint copy_format TERM_STATUS_INFO (QSTR ''x'') [] s = Some s' \<and> ltermCurrentY s' < 20"
proof -
  let ?s = "sample_lterm\<lparr>lgraphics := (lgraphics sample_lterm)\<lparr>lg_height := 20\<rparr>\<rparr>"
  have "lgraphics s' = lgraphics ?s" if "LdrTermPrint copy_format TERM_STATUS_INFO (QSTR ''x'') [] ?s = Some s'" for s'
    using LdrTermPrint_result[OF copy_format_fits, of TERM_STATUS_INFO "QSTR ''x''" "[]" ?s] that by auto
  with ldr_print_cursor_on_screen[OF copy_format_fits, of ?s TERM_STATUS_INFO "QSTR ''x''" "[]"] show ?thesis
    by (force simp: sample_lterm_def Let_def)
qed

end
