(* ===== verification/LdrProps.thy ===== *)
theory LdrProps
  imports PeLdr LdrTermProps
begin

text \<open>The loader: the memory map it hands over, its strings, the firmware tables it searches and the images it accepts.\<close>

section \<open>The memory map\<close>

text \<open>The kernel's boot information has the same structure as the loader's map; the kernel reads it as this list.\<close>

fun boot_type :: "MemoryEntryTypes \<Rightarrow> BootMemoryEntryTypes" where
  "boot_type MEM_TYPE_FREE = BOOT_MEM_TYPE_FREE"
| "boot_type MEM_TYPE_USED = BOOT_MEM_TYPE_USED"
| "boot_type MEM_TYPE_ACPI = BOOT_MEM_TYPE_ACPI"

definition boot_entry :: "MemoryMapEntry \<Rightarrow> BootMemoryMapEntry" where
  "boot_entry e = \<lparr>me_base = lme_base e, me_size = lme_size e, me_type = boot_type (lme_type e)\<rparr>"

definition kernel_map :: "'f loader \<Rightarrow> u64 \<Rightarrow> BootMemoryMap" where
  "kernel_map s p =
     (let m = l_memmap s p
      in \<lparr>memEntries = map (\<lambda>k. boot_entry (l_entry s (lm_memEntries m + of_nat k * SIZEOF_MEMORY_MAP_ENTRY))) [0..<unat (lm_amountOfEntries m)],
          amountOfEntries = lm_amountOfEntries m, sizeOfEntireMemory = lm_sizeOfEntireMemory m, mapKey = lm_mapKey m\<rparr>)"

text \<open>What one descriptor of the firmware becomes.\<close>

definition of_descriptor :: "EFI_MEMORY_DESCRIPTOR \<Rightarrow> MemoryMapEntry" where
  "of_descriptor d = \<lparr>lme_base = ed_PhysicalStart d, lme_size = ed_NumberOfPages d * 4096, lme_type = entry_type (ed_Type d)\<rparr>"

lemma entries_apart:
  assumes "i < 0x100000000000000" and "j < 0x100000000000000"
  shows "E + of_nat i * SIZEOF_MEMORY_MAP_ENTRY = E + of_nat j * SIZEOF_MEMORY_MAP_ENTRY \<longleftrightarrow> i = j"
proof -
  have "unat (of_nat k * SIZEOF_MEMORY_MAP_ENTRY :: u64) = k * 24" if "k < 0x100000000000000" for k
    using that by (subst unat_mult_no_wrap) (simp_all add: SIZEOF_MEMORY_MAP_ENTRY_def unat_of_nat_u64)
  with assms show ?thesis by (metis add_left_cancel mult_cancel2 zero_neq_numeral)
qed

lemma copy_descriptors:
  assumes "n \<le> 0x100000000000000"
  shows "let s' = for_upto n (copy_descriptor buf dsz p) s; E = lm_memEntries (l_memmap s p) in
    (\<forall>k < n. l_entry s' (E + of_nat k * SIZEOF_MEMORY_MAP_ENTRY) = of_descriptor (l_desc s (buf + of_nat k * dsz))) \<and>
    l_memmap s' p = (l_memmap s p)\<lparr>lm_sizeOfEntireMemory := lm_sizeOfEntireMemory (l_memmap s p) +
      (\<Sum>k < n. ed_NumberOfPages (l_desc s (buf + of_nat k * dsz)) * 4096)\<rparr> \<and> l_desc s' = l_desc s"
  using assms
proof (induction n)
  case 0
  then show ?case by (simp add: Let_def)
next
  case (Suc n)
  let ?t = "for_upto n (copy_descriptor buf dsz p) s" and ?E = "lm_memEntries (l_memmap s p)"
  have IH: "\<forall>k < n. l_entry ?t (?E + of_nat k * SIZEOF_MEMORY_MAP_ENTRY) = of_descriptor (l_desc s (buf + of_nat k * dsz))"
    "l_memmap ?t p = (l_memmap s p)\<lparr>lm_sizeOfEntireMemory := lm_sizeOfEntireMemory (l_memmap s p) +
      (\<Sum>k < n. ed_NumberOfPages (l_desc s (buf + of_nat k * dsz)) * 4096)\<rparr>" "l_desc ?t = l_desc s"
    using Suc by (simp_all add: Let_def)
  have apart: "?E + of_nat k * SIZEOF_MEMORY_MAP_ENTRY \<noteq> ?E + of_nat n * SIZEOF_MEMORY_MAP_ENTRY" if "k < n" for k
    using entries_apart[of k n ?E] that Suc.prems by simp
  let ?d = "l_desc s (buf + of_nat n * dsz)" and ?e = "?E + of_nat n * SIZEOF_MEMORY_MAP_ENTRY"
  have step: "l_entry (copy_descriptor buf dsz p (of_nat n) ?t) = (l_entry ?t)(?e := of_descriptor ?d)"
    "l_memmap (copy_descriptor buf dsz p (of_nat n) ?t) p = (l_memmap ?t p)\<lparr>lm_sizeOfEntireMemory :=
       lm_sizeOfEntireMemory (l_memmap ?t p) + ed_NumberOfPages ?d * 4096\<rparr>"
    "l_desc (copy_descriptor buf dsz p (of_nat n) ?t) = l_desc s"
    using IH(2,3) by (simp_all add: copy_descriptor_def upd_entry_def upd_memmap_def Let_def of_descriptor_def fun_eq_iff)
  show ?case
    unfolding Let_def for_upto_Suc step
    using IH apart by (auto simp: less_Suc_eq algebra_simps)
qed

lemma kernel_map_result:
  assumes "unat n \<le> 0x100000000000000" and "lm_sizeOfEntireMemory (l_memmap s p) = 0"
  shows "kernel_map (fill_memory_map buf a p n s) p =
    (let ds = map (\<lambda>k. l_desc s (buf + of_nat k * ma_descSize a)) [0..<unat n]
     in \<lparr>memEntries = map (\<lambda>d. boot_entry (of_descriptor d)) ds, amountOfEntries = n,
         sizeOfEntireMemory = sum_list (map (\<lambda>d. ed_NumberOfPages d * 4096) ds), mapKey = ma_key a\<rparr>)"
proof -
  let ?s = "upd_memmap p (\<lambda>m. m\<lparr>lm_amountOfEntries := n\<rparr>) s"
  let ?t = "for_upto (unat n) (copy_descriptor buf (ma_descSize a) p) ?s"
  note c = copy_descriptors[OF assms(1), of buf "ma_descSize a" p ?s, unfolded Let_def]
  have s: "lm_memEntries (l_memmap ?s p) = lm_memEntries (l_memmap s p)" "l_desc ?s = l_desc s" "lm_amountOfEntries (l_memmap ?s p) = n"
    "lm_sizeOfEntireMemory (l_memmap ?s p) = 0" using assms(2) by (simp_all add: upd_memmap_def)
  have m: "l_memmap (fill_memory_map buf a p n s) p = (l_memmap ?t p)\<lparr>lm_mapKey := ma_key a\<rparr>" "l_entry (fill_memory_map buf a p n s) = l_entry ?t"
    by (simp_all add: fill_memory_map_def Let_def upd_memmap_def)
  have "(\<Sum>k < unat n. ed_NumberOfPages (l_desc s (buf + of_nat k * ma_descSize a)) * 4096) =
      sum_list (map (\<lambda>d. ed_NumberOfPages d * 4096) (map (\<lambda>k. l_desc s (buf + of_nat k * ma_descSize a)) [0..<unat n]))"
    by (simp add: interv_sum_list_conv_sum_set_nat atLeast0LessThan comp_def)
  with c s show ?thesis
    by (simp add: kernel_map_def m Let_def comp_def)
qed

text \<open>
  C8: The map that the loader hands to the kernel has one entry for every descriptor of the firmware, in order: free where the firmware
  reports conventional memory, ACPI for the two kinds of ACPI memory and used otherwise; the total is the sum of the entries' sizes and the key is the
  firmware's.
\<close>

theorem memory_map_handover:
  assumes "unat n \<le> 0x100000000000000" and "lm_sizeOfEntireMemory (l_memmap s p) = 0"
  shows "kernel_map (fill_memory_map buf a p n s) p =
    (let ds = map (\<lambda>k. l_desc s (buf + of_nat k * ma_descSize a)) [0..<unat n]
     in \<lparr>memEntries = map (\<lambda>d. \<lparr>me_base = ed_PhysicalStart d, me_size = ed_NumberOfPages d * 4096,
            me_type = (if ed_Type d = 7 then BOOT_MEM_TYPE_FREE else if ed_Type d \<in> {9, 10} then BOOT_MEM_TYPE_ACPI else BOOT_MEM_TYPE_USED)\<rparr>) ds,
         amountOfEntries = n, sizeOfEntireMemory = sum_list (map (\<lambda>d. ed_NumberOfPages d * 4096) ds), mapKey = ma_key a\<rparr>)"
proof -
  have e: "boot_entry (of_descriptor d) = \<lparr>me_base = ed_PhysicalStart d, me_size = ed_NumberOfPages d * 4096,
      me_type = (if ed_Type d = 7 then BOOT_MEM_TYPE_FREE else if ed_Type d \<in> {9, 10} then BOOT_MEM_TYPE_ACPI else BOOT_MEM_TYPE_USED)\<rparr>" for d
    by (simp add: boot_entry_def of_descriptor_def entry_type_def)
  show ?thesis unfolding kernel_map_result[OF assms] Let_def e by (rule refl)
qed

definition null_firmware :: "'f firmware" where
  "null_firmware = \<lparr>fw_vsn = copy_format, GetMemoryMap = (\<lambda>a b s. (0, a, s)), AllocatePool = (\<lambda>t n p s. (9, p, s)), FreePool = (\<lambda>p s. (0, s)),
     AllocatePages = (\<lambda>t m n p s. (9, p, s)), SetMem = (\<lambda>p n v s. s), LocateProtocol = (\<lambda>g p s. (14, p, s)),
     HandleProtocol = (\<lambda>h g p s. (14, p, s)), ExitBootServices = (\<lambda>h k s. (0, s)), NumberOfTableEntries = 2,
     ConfigurationTable = (\<lambda>i. if i = 1 then \<lparr>VendorGuid = ACPI_2_TABLE_GUID, VendorTable = 0xE0000\<rparr>
       else \<lparr>VendorGuid = ACPI_1_TABLE_GUID, VendorTable = 0xF0000\<rparr>),
     gop_Mode = (\<lambda>_. \<lparr>MaxMode = 1, go_Mode = 0, go_Info = \<lparr>go_Version = 0, HorizontalResolution = 100, VerticalResolution = 50,
       PixelFormat = PixelBitMask, PixelInformation = \<lparr>RedMask = 0, GreenMask = 0, BlueMask = 0, ReservedMask = 0\<rparr>, PixelsPerScanLine = 128\<rparr>,
       SizeOfInfo = 36, FrameBufferBase = 0x80000000, FrameBufferSize = 0x10000\<rparr>),
     loaded_image = (\<lambda>_. \<lparr>li_Revision = 0, ParentHandle = 0, li_SystemTable = 0, DeviceHandle = 0, FilePath = 0, li_Reserved = 0, LoadOptionsSize = 0,
       LoadOptions = 0, li_ImageBase = 0, ImageSize = 0, ImageCodeType = EfiLoaderCode, ImageDataType = EfiLoaderData, li_Unload = 0\<rparr>),
     OpenVolume = (\<lambda>v r s. (0, r, s)), file_Open = (\<lambda>r f n m x s. (14, f, s)), file_Read = (\<lambda>f n b s. (0, 0, s)),
     file_SetPosition = (\<lambda>f p s. (0, s)), file_Close = (\<lambda>f s. (0, s))\<rparr>"

definition loader_with :: "'f \<Rightarrow> 'f loader" where
  "loader_with f = lterm.extend sample_lterm \<lparr>l_mem = (\<lambda>_. 0),
     l_desc = (\<lambda>a. \<lparr>ed_Type = (if a = 0x1030 then 9 else 7), ed_PhysicalStart = a, ed_VirtualStart = 0, ed_NumberOfPages = 2, ed_Attribute = 0\<rparr>),
     l_memmap = (\<lambda>_. \<lparr>lm_memEntries = 0x3000, lm_amountOfEntries = 0, lm_sizeOfEntireMemory = 0, lm_mapKey = 0\<rparr>),
     l_entry = (\<lambda>_. \<lparr>lme_base = 0, lme_size = 0, lme_type = MEM_TYPE_USED\<rparr>), globalSysTab = 0, globalHandle = 0, sfs_root = 0,
     l_pml4 = 0x4000, l_cr3 = 0, l_binfo = 0x8000, l_fw = f\<rparr>"

definition sample_loader :: "unit loader" where
  "sample_loader = loader_with ()"

lemma memory_map_handover_witness:
  "kernel_map (fill_memory_map 0x1000 \<lparr>ma_size = 96, ma_key = 5, ma_descSize = 48, ma_descVer = 1\<rparr> 0x2000 2 sample_loader) 0x2000 =
    \<lparr>memEntries = [\<lparr>me_base = 0x1000, me_size = 0x2000, me_type = BOOT_MEM_TYPE_FREE\<rparr>, \<lparr>me_base = 0x1030, me_size = 0x2000, me_type = BOOT_MEM_TYPE_ACPI\<rparr>],
     amountOfEntries = 2, sizeOfEntireMemory = 0x4000, mapKey = 5\<rparr>"
  by (subst memory_map_handover) (simp_all add: sample_loader_def loader_with_def lterm.extend_def sample_lterm_def Let_def upt_rec)

section \<open>Strings\<close>

lemma ucast_of_nat_u32: "c < 4294967296 \<Longrightarrow> (ucast (of_nat c :: u32) :: u64) = of_nat c"
  by (simp add: word_unat_eq_iff unsigned_ucast_eq take_bit_eq_mod unat_of_nat)

lemma convert_loop_result:
  assumes "c \<le> n" and "n \<le> unat bound" and "\<And>i. i < n \<Longrightarrow> src (of_nat i) \<noteq> 0" and "src (of_nat n) = 0 \<or> n = unat bound"
  shows "convert_loop f src bound (of_nat c) dst =
    (of_nat n, \<lambda>x. if unat x < n \<and> c \<le> unat x then f (src x) else dst x)"
  using assms(1)
proof (induction "n - c" arbitrary: c dst)
  case 0
  have b: "unat bound < 4294967296" using unsigned_less[of bound] by simp
  from 0 have c: "c = n" by simp
  have "\<not> (src (ucast (of_nat n :: u32)) \<noteq> 0 \<and> (of_nat n :: u32) < bound)"
    using assms(2,4) b by (auto simp: ucast_of_nat_u32 word_less_nat_alt unat_of_nat)
  then show ?case unfolding c by (subst convert_loop.simps) (auto simp: fun_eq_iff)
next
  case (Suc k)
  have b: "unat bound < 4294967296" using unsigned_less[of bound] by simp
  from Suc(2) have c: "c < n" "k = n - Suc c" "Suc c \<le> n" by simp_all
  have u: "(ucast (of_nat c :: u32) :: u64) = of_nat c" using c(1) assms(2) b by (intro ucast_of_nat_u32) simp
  have uc: "unat (of_nat c :: u64) = c" using c(1) assms(2) b by (intro unat_of_nat_u64) simp
  have "src (ucast (of_nat c :: u32)) \<noteq> 0 \<and> (of_nat c :: u32) < bound"
    using c(1) assms(2,3) b by (simp add: u word_less_nat_alt unat_of_nat)
  then have "convert_loop f src bound (of_nat c) dst = convert_loop f src bound (of_nat (Suc c)) (dst(of_nat c := f (src (of_nat c))))"
    by (subst convert_loop.simps) (simp add: u add.commute)
  also have "\<dots> = (of_nat n, \<lambda>x. if unat x < n \<and> Suc c \<le> unat x then f (src x) else (dst(of_nat c := f (src (of_nat c)))) x)"
    by (rule Suc(1)[OF c(2,3)])
  also have "\<dots> = (of_nat n, \<lambda>x. if unat x < n \<and> c \<le> unat x then f (src x) else dst x)"
    using c(1) uc by (auto simp: fun_eq_iff Suc_le_eq le_less)
  finally show ?case .
qed

lemma narrow_widen: "(ucast (scast (b :: u8) :: u16) :: u8) = b"
  by (rule bit_word_eqI) (simp add: bit_simps)

text \<open>
  C34: An ASCII or other 8-bit string that is widened and narrowed again through buffers of the same size comes back: its characters up to the size less
  one, and then a terminator. The file name of the kernel image survives as it has fewer than 255 characters.
\<close>

theorem wide_string_roundtrip:
  assumes "strSize \<noteq> 0" and "n < 4294967296" and "\<And>i. i < n \<Longrightarrow> src (of_nat i) \<noteq> (0 :: u8)" and "src (of_nat n) = 0"
    and "m = min n (unat strSize - 1)"
    and "back = QolWideStringToAnsiString (QolAnsiStringToWideString src w strSize) d strSize"
  shows "(\<forall>i < m. back (of_nat i) = src (of_nat i)) \<and> back (of_nat m) = 0"
proof -
  have bound: "unat (strSize - 1) = unat strSize - 1" using assms(1) by (simp add: unat_minus_one)
  have m: "m \<le> unat (strSize - 1)" "m < 4294967296" using assms(2,5) bound by simp_all
  have um: "unat (of_nat m :: u64) = m" "(ucast (of_nat m :: u32) :: u64) = of_nat m"
    using m(2) by (simp_all add: unat_of_nat_u64 ucast_of_nat_u32)
  have uk: "unat (of_nat k :: u64) = k" if "k < m" for k using that m(2) by (simp add: unat_of_nat_u64)
  have end_src: "src (of_nat m) = 0 \<or> m = unat (strSize - 1)" using assms(4,5) bound by (auto simp: min_def)
  let ?w = "QolAnsiStringToWideString src w strSize"
  have "ansi_to_wide_loop src (strSize - 1) (of_nat 0) w = (of_nat m, \<lambda>x. if unat x < m \<and> 0 \<le> unat x then scast (src x) else w x)"
    unfolding ansi_to_wide_loop_def by (rule convert_loop_result[where c = 0 and n = m and src = src, OF le0 m(1) _ end_src]) (use assms(3,5) in simp)
  then have wide: "?w = (\<lambda>x. if unat x < m then scast (src x) else w x)(of_nat m := 0)"
    by (simp add: QolAnsiStringToWideString_def um)
  have nz: "?w (of_nat k) \<noteq> 0" if "k < m" for k
  proof -
    have "(scast (src (of_nat k)) :: u16) \<noteq> 0"
      using assms(3)[of k] assms(5) that narrow_widen[of "src (of_nat k)"] by auto
    moreover have "(of_nat k :: u64) \<noteq> of_nat m" using of_nat_eq_iff_u64[of k m] m(2) that by simp
    ultimately show ?thesis using that uk[OF that] by (simp add: wide)
  qed
  have "wide_to_ansi_loop ?w (strSize - 1) (of_nat 0) d = (of_nat m, \<lambda>x. if unat x < m \<and> 0 \<le> unat x then ucast (?w x) else d x)"
    unfolding wide_to_ansi_loop_def by (rule convert_loop_result[where c = 0 and n = m and src = ?w, OF le0 m(1) nz]) (simp_all add: wide)
  then have bk: "back = (\<lambda>x. if unat x < m then ucast (?w x) else d x)(of_nat m := 0)"
    by (simp add: assms(6) QolWideStringToAnsiString_def um)
  have "back (of_nat i) = src (of_nat i)" if "i < m" for i
  proof -
    have "(of_nat i :: u64) \<noteq> of_nat m" using of_nat_eq_iff_u64[of i m] m(2) that by simp
    then show ?thesis using that uk[OF that] by (simp add: bk wide narrow_widen)
  qed
  then show ?thesis by (simp add: bk)
qed

lemma wide_string_roundtrip_witness:
  "QolWideStringToAnsiString (QolAnsiStringToWideString (\<lambda>i. if i = 0 then 0xE9 else if i = 1 then 66 else 0) (\<lambda>_. 9) 256) (\<lambda>_. 7) 256 0 = 0xE9"
proof -
  let ?src = "\<lambda>i :: u64. if i = 0 then 0xE9 else if i = 1 then 66 else (0 :: u8)"
  have two: "i = 0 \<or> i = 1" if "i < 2" for i :: nat using that by auto
  have "\<forall>i < 2. QolWideStringToAnsiString (QolAnsiStringToWideString ?src (\<lambda>_. 9) 256) (\<lambda>_. 7) 256 (of_nat i) = ?src (of_nat i)"
    by (rule wide_string_roundtrip[where n = 2 and strSize = 256 and src = ?src and w = "\<lambda>_. 9" and d = "\<lambda>_. 7", THEN conjunct1]) (use two in force)+
  then show ?thesis by (auto dest: spec[of _ 0])
qed

section \<open>Firmware tables\<close>

lemma bytes_eq_iff:
  fixes x y :: "'a :: len word"
  assumes "LENGTH('a) \<le> 8 * n"
  shows "map (\<lambda>i. (ucast (drop_bit (8 * i) x) :: u8)) [0..<n] = map (\<lambda>i. ucast (drop_bit (8 * i) y)) [0..<n] \<longleftrightarrow> x = y"
proof
  assume e: "map (\<lambda>i. (ucast (drop_bit (8 * i) x) :: u8)) [0..<n] = map (\<lambda>i. ucast (drop_bit (8 * i) y)) [0..<n]"
  show "x = y"
  proof (rule bit_word_eqI)
    fix k
    assume k: "k < LENGTH('a)"
    then have "k div 8 < n" using assms by linarith
    with e have "(ucast (drop_bit (8 * (k div 8)) x) :: u8) = ucast (drop_bit (8 * (k div 8)) y)" by simp
    then have "bit (ucast (drop_bit (8 * (k div 8)) x) :: u8) (k mod 8) = bit (ucast (drop_bit (8 * (k div 8)) y) :: u8) (k mod 8)" by simp
    then show "bit x k = bit y k" using k by (simp add: bit_simps)
  qed
qed simp

lemma LdrCompareGUID_iff: "LdrCompareGUID g h \<longleftrightarrow> g = h"
proof -
  have "guid_bytes g = guid_bytes h \<longleftrightarrow> Data1 g = Data1 h \<and> Data2 g = Data2 h \<and> Data3 g = Data3 h \<and> Data4 g = Data4 h"
    unfolding guid_bytes_def
    using bytes_eq_iff[of 4 "Data1 g" "Data1 h"] bytes_eq_iff[of 2 "Data2 g" "Data2 h"] bytes_eq_iff[of 2 "Data3 g" "Data3 h"]
    by (simp del: upt_rec_numeral)
  then show ?thesis by (cases g, cases h) (simp add: LdrCompareGUID_def)
qed

lemma find_rsdp_result:
  assumes "fits_buffer (fw_vsn fw)" and "i \<le> unat (NumberOfTableEntries fw)"
  shows "\<exists>s'. find_rsdp fw (of_nat i) s =
    Some (case find (\<lambda>i. VendorGuid (ConfigurationTable fw (of_nat i)) = ACPI_2_TABLE_GUID) [i..<unat (NumberOfTableEntries fw)] of
        None \<Rightarrow> 0 | Some i \<Rightarrow> VendorTable (ConfigurationTable fw (of_nat i)), s')"
  using assms(2)
proof (induction "unat (NumberOfTableEntries fw) - i" arbitrary: i)
  case 0
  then have "i = unat (NumberOfTableEntries fw)" by simp
  then show ?case by (subst find_rsdp.simps) simp
next
  case (Suc k)
  then have i: "i < unat (NumberOfTableEntries fw)" "k = unat (NumberOfTableEntries fw) - Suc i" "Suc i \<le> unat (NumberOfTableEntries fw)" by simp_all
  have lt: "(of_nat i :: u64) < NumberOfTableEntries fw"
    using i(1) unat_lt_2p64[of "NumberOfTableEntries fw"] by (simp add: word_less_nat_alt unat_of_nat_u64)
  show ?case
  proof (cases "VendorGuid (ConfigurationTable fw (of_nat i)) = ACPI_2_TABLE_GUID")
    case True
    obtain s' where "ldr_print fw TERM_STATUS_PASS ''Got RSDP: location 0x%x'' [VendorTable (ConfigurationTable fw (of_nat i))] s = Some s'"
      using LdrTermPrint_result[OF assms(1)] unfolding ldr_print_def by blast
    with True i(1) lt show ?thesis
      by (subst find_rsdp.simps) (simp add: LdrCompareGUID_iff Let_def upt_conv_Cons)
  next
    case False
    then show ?thesis
      using Suc(1)[OF i(2,3)] i(1) lt
      by (subst find_rsdp.simps) (simp add: LdrCompareGUID_iff Let_def upt_conv_Cons add.commute)
  qed
qed

text \<open>
  C35: \<open>LdrGetRSDPLocation\<close> returns the table of the first entry of the firmware's list with the ACPI 2.0 identifier, and 0 when there is none,
  also on a machine whose list has only an ACPI 1.0 table.
\<close>

theorem rsdp_is_first_acpi2:
  assumes "fits_buffer (fw_vsn fw)"
  shows "\<exists>s'. LdrGetRSDPLocation fw s =
    Some (case find (\<lambda>i. VendorGuid (ConfigurationTable fw (of_nat i)) = ACPI_2_TABLE_GUID) [0..<unat (NumberOfTableEntries fw)] of
        None \<Rightarrow> 0 | Some i \<Rightarrow> VendorTable (ConfigurationTable fw (of_nat i)), s')"
  using find_rsdp_result[OF assms le0, of s] by (simp add: LdrGetRSDPLocation_def)

lemma null_firmware_fits: "fits_buffer (fw_vsn null_firmware)"
  using copy_format_fits by (simp add: null_firmware_def)

lemma rsdp_is_first_acpi2_witness: "\<exists>s'. LdrGetRSDPLocation null_firmware sample_loader = Some (0xE0000, s')"
proof -
  have "ACPI_1_TABLE_GUID \<noteq> ACPI_2_TABLE_GUID" by (simp add: ACPI_1_TABLE_GUID_def ACPI_2_TABLE_GUID_def)
  with rsdp_is_first_acpi2[OF null_firmware_fits, of sample_loader] show ?thesis
    by (simp add: null_firmware_def upt_rec)
qed

section \<open>The boot information\<close>

lemma st32_apart: "4 \<le> unat (x - a) \<Longrightarrow> st32 m a v x = m x"
  by (auto simp: st32_def)

text \<open>Stores and loads at distances from a common base; \<open>far d n k\<close> says that \<open>k\<close> bytes from distance \<open>d\<close> on miss the first \<open>n\<close>.\<close>

definition far :: "u64 \<Rightarrow> nat \<Rightarrow> nat \<Rightarrow> bool" where
  "far d n k \<longleftrightarrow> n \<le> unat d \<and> unat d + k \<le> 18446744073709551616"

lemma far_byte:
  assumes "far (c - a) n w" and "k < w"
  shows "n \<le> unat (c + of_nat k - a)"
proof -
  have "unat (c - a + of_nat k) = unat (c - a) + k"
    using assms unat_lt_2p64[of "c - a"] by (subst unat_add_no_wrap) (simp_all add: far_def unat_of_nat_u64)
  then show ?thesis using assms(1) by (simp add: far_def algebra_simps)
qed

lemma ld64_st32_apart:
  assumes "far (c - a) 4 8"
  shows "ld64 (st32 m a v) c = ld64 m c"
  by (rule ld64_cong) (rule st32_apart, rule far_byte[OF assms])

lemma ld32_cong:
  assumes "\<And>k. k < 4 \<Longrightarrow> m (a + of_nat k) = m' (a + of_nat k)"
  shows "ld32 m a = ld32 m' a"
  using assms[of 0] assms[of 1] assms[of 2] assms[of 3] by (simp add: ld32_def)

lemma ld32_st64_apart:
  assumes "far (c - a) 8 4"
  shows "ld32 (st64 m a v) c = ld32 m c"
  by (rule ld32_cong) (rule st64_out, rule far_byte[OF assms])

lemma ld32_st32_apart:
  assumes "far (c - a) 4 4"
  shows "ld32 (st32 m a v) c = ld32 m c"
  by (rule ld32_cong) (rule st32_apart, rule far_byte[OF assms])

lemma ld32_st32_same: "ld32 (st32 m a v) a = v"
proof (rule bit_word_eqI)
  fix n
  assume n: "n < LENGTH(32)"
  consider "n < 8" | j where "n = 8 + j" "j < 8" | j where "n = 16 + j" "j < 8" | j where "n = 24 + j" "j < 8"
  proof -
    from n have "n < 8 \<or> (\<exists>j < 8. n = 8 + j) \<or> (\<exists>j < 8. n = 16 + j) \<or> (\<exists>j < 8. n = 24 + j)" by simp presburger
    with that show thesis by blast
  qed
  then show "bit (ld32 (st32 m a v) a) n = bit v n"
    using n by cases (auto simp: ld32_def st32_def bit_simps)
qed

lemma store_boot_info_outside:
  assumes "96 \<le> unat (x - a)"
  shows "store_boot_info a g lmap physBase pages root m x = m x"
proof -
  have out: "unat (x - (a + of_nat j)) \<ge> 96 - j" if "j < 96" for j :: nat
  proof -
    have "unat (x - a - of_nat j) = unat (x - a) - j"
      using that assms by (subst unat_sub) (simp_all add: word_le_nat_alt unat_of_nat_u64)
    then show ?thesis using assms by (simp add: algebra_simps)
  qed
  have "8 \<le> unat (x - (a + 8))" "8 \<le> unat (x - (a + 16))" "4 \<le> unat (x - (a + 24))" "4 \<le> unat (x - (a + 28))" "4 \<le> unat (x - (a + 32))"
    "8 \<le> unat (x - (a + 40))" "8 \<le> unat (x - (a + 48))" "8 \<le> unat (x - (a + 56))" "8 \<le> unat (x - (a + 64))" "8 \<le> unat (x - (a + 72))"
    "8 \<le> unat (x - (a + 80))" "8 \<le> unat (x - (a + 88))"
    using out[of 8] out[of 16] out[of 24] out[of 28] out[of 32] out[of 40] out[of 48] out[of 56] out[of 64] out[of 72] out[of 80] out[of 88] by simp_all
  then show ?thesis
    using assms by (auto simp: store_boot_info_def Let_def st64_out st32_apart memset_apply SIZEOF_BOOT_INFO_def)
qed

text \<open>
  The structure that the loader leaves for the kernel has every field at its place in the kernel's \<open>BootInfo\<close>: the values read back there, the
  image is declared at the start of the higher half, the kind of boot is 1, and no byte outside the 96 changes.
\<close>

theorem boot_info_layout:
  "let m' = store_boot_info a g lmap physBase pages root m
   in m' a = (if lg_init g then 1 else 0) \<and> ld64 m' (a + 8) = lg_framebufferBase g \<and> ld64 m' (a + 16) = lg_framebufferSize g \<and>
    ld32 m' (a + 24) = lg_width g \<and> ld32 m' (a + 28) = lg_height g \<and> ld32 m' (a + 32) = lg_pixelsPerScanLine g \<and>
    ld64 m' (a + 40) = lmap \<and> ld64 m' (a + 48) = HHDM_OFFSET \<and> ld64 m' (a + 56) = HHDM_OFFSET \<and> ld64 m' (a + 64) = physBase \<and>
    ld64 m' (a + 72) = pages \<and> ld64 m' (a + 80) = 1 \<and> ld64 m' (a + 88) = root \<and>
    (\<forall>x. 96 \<le> unat (x - a) \<longrightarrow> m' x = m x)"
proof -
  let ?m = "store_boot_info a g lmap physBase pages root m"
  have "?m x = m x" if "96 \<le> unat (x - a)" for x by (rule store_boot_info_outside[OF that])
  moreover have "?m a = (if lg_init g then 1 else 0)"
    by (simp add: store_boot_info_def Let_def st64_out st32_apart)
  moreover have "ld64 ?m (a + 88) = root" "ld64 ?m (a + 80) = 1" "ld64 ?m (a + 72) = pages" "ld64 ?m (a + 64) = physBase"
    "ld64 ?m (a + 56) = HHDM_OFFSET" "ld64 ?m (a + 48) = HHDM_OFFSET" "ld64 ?m (a + 40) = lmap"
    unfolding store_boot_info_def Let_def by (simp_all add: ld64_st64_apart)
  moreover have "ld32 ?m (a + 32) = lg_pixelsPerScanLine g" "ld32 ?m (a + 28) = lg_height g" "ld32 ?m (a + 24) = lg_width g"
    unfolding store_boot_info_def Let_def
    by (simp_all add: ld32_st64_apart ld32_st32_apart ld32_st32_same far_def)
  moreover have "ld64 ?m (a + 16) = lg_framebufferSize g" "ld64 ?m (a + 8) = lg_framebufferBase g"
    unfolding store_boot_info_def Let_def by (simp_all add: ld64_st64_apart ld64_st32_apart far_def)
  ultimately show ?thesis by (simp add: Let_def)
qed

lemma boot_info_layout_witness:
  "store_boot_info 0x8000 (lgraphics sample_lterm) 0x2000 0x100000 16 0xE0000 (\<lambda>_. 3) 0x8060 = 3 \<and>
   ld64 (store_boot_info 0x8000 (lgraphics sample_lterm) 0x2000 0x100000 16 0xE0000 (\<lambda>_. 3)) 0x8048 = 16"
  using boot_info_layout[of "0x8000" "lgraphics sample_lterm" "0x2000" "0x100000" 16 "0xE0000" "\<lambda>_. 3"]
  by (simp add: Let_def)

section \<open>Printing leaves the loader's memory alone\<close>

lemma more_simps [simp]:
  "lterm.more (LdrGraphicsDrawRect x y w h color s) = lterm.more s"
  "lterm.more (LdrGraphicsDrawString str x y sz color s) = lterm.more s"
  "lterm.more (LdrArSerialWrite c s) = lterm.more s"
  "lterm.more (LdrArPrintToSerial str s) = lterm.more s"
  "lterm.more (LdrTermClear s) = lterm.more s"
  "lterm.more (lnext_line s) = lterm.more s"
proof -
  show r: "lterm.more (LdrGraphicsDrawRect x y w h color s) = lterm.more s" for x y w h color and s :: "'a lterm_scheme"
    using only_drawsD[OF only_draws_rect, of x y w h color s] by auto
  show "lterm.more (LdrGraphicsDrawString str x y sz color s) = lterm.more s"
    using only_drawsD[OF only_draws_string, of str x y sz color s] by auto
  show w: "lterm.more (LdrArSerialWrite c s) = lterm.more s" for c and s :: "'a lterm_scheme"
    by (simp add: LdrArSerialWrite_def LdrAmd64OutByte_def)
  show "lterm.more (LdrArPrintToSerial str s) = lterm.more s"
    unfolding LdrArPrintToSerial_def by (rule for_upto_frame) (rule w)
  show c: "lterm.more (LdrTermClear s) = lterm.more s" for s :: "'a lterm_scheme" by (simp add: LdrTermClear_def Let_def r w)
  show "lterm.more (lnext_line s) = lterm.more s" by (simp add: lnext_line_def Let_def c)
qed

lemma LdrTermPuts_more: "LdrTermPuts nl str color s = Some s' \<Longrightarrow> lterm.more s' = lterm.more s"
  by (auto simp: LdrTermPuts_def Let_def split: if_splits)

lemma LdrTermPrint_more: "LdrTermPrint vsn stat str args s = Some s' \<Longrightarrow> lterm.more s' = lterm.more s"
  by (auto simp: LdrTermPrint_def Let_def bind_eq_Some_conv dest!: LdrTermPuts_more split: Status.splits)

lemma loader_fields:
  assumes "lterm.more s' = lterm.more (s :: 'f loader)"
  shows "l_mem s' = l_mem s \<and> l_desc s' = l_desc s \<and> l_memmap s' = l_memmap s \<and> l_entry s' = l_entry s \<and> globalHandle s' = globalHandle s \<and>
    sfs_root s' = sfs_root s \<and> l_pml4 s' = l_pml4 s \<and> l_cr3 s' = l_cr3 s \<and> l_binfo s' = l_binfo s \<and> l_fw s' = l_fw s"
  using assms by (cases s; cases s') simp

lemma ldr_print_frame:
  assumes "fits_buffer (fw_vsn fw)"
  shows "\<exists>s'. ldr_print fw st msg args s = Some s' \<and> lterm.more s' = lterm.more s"
  using LdrTermPrint_result[OF assms, of st "QSTR msg" args s] LdrTermPrint_more unfolding ldr_print_def by blast

section \<open>Sections\<close>


text \<open>
  C30: A section other than \<open>.ldr\<close>, whose header and file bytes lie outside its destination, is loaded as: the bytes of the file, then zeros up to its
  virtual size, and no other byte changes. The file's size of the section is not compared with the virtual size: if it is larger, that
  many bytes are written.
\<close>

theorem load_section_memory:
  fixes s :: "'f loader"
  assumes dest_def: "dest = imageBase + ucast (sec_VirtualAddress (l_mem s) sec)" and vs_def: "vs = unat (VirtualSize (l_mem s) sec)"
    and raw_def: "raw = unat (SizeOfRawData (l_mem s) sec)" and src_def: "src = content + ucast (PointerToRawData (l_mem s) sec)"
    and "load_section fw content imageBase bInfo sec s = Some s'" and "\<not> starts_with (l_mem s) sec (map of_char ''.ldr'')"
    and "\<And>k. k < 24 \<Longrightarrow> vs \<le> unat (sec + of_nat k - dest)" and "\<And>i. i < raw \<Longrightarrow> vs \<le> unat (src + of_nat i - dest)"
    and "raw \<le> unat (src - dest)" and "raw \<le> unat (dest - src)"
  shows "l_mem s' x = (if unat (x - dest) < raw then l_mem s (src + (x - dest)) else if unat (x - dest) < vs then 0 else l_mem s x)"
proof -
  let ?m = "snd (memset dest 0 (ucast (VirtualSize (l_mem s) sec)) (l_mem s))"
  have u: "unat (ucast (w :: u32) :: u64) = unat w" for w
  proof -
    have "unat w < 4294967296" using unsigned_less[of w] by simp
    then show ?thesis by (simp add: unsigned_ucast_eq take_bit_eq_mod)
  qed
  have m: "?m y = (if unat (y - dest) < vs then 0 else l_mem s y)" for y
    by (simp add: memset_apply u vs_def)
  have hdr: "?m (sec + of_nat k) = l_mem s (sec + of_nat k)" if "k < 24" for k using assms(7)[OF that] by (simp add: m)
  have hdr': "?m (sec + 0 + of_nat k) = l_mem s (sec + 0 + of_nat k)" if "k < 4" for k using hdr[of k] that by simp
  have ofs: "ld32 ?m (sec + of_nat d) = ld32 (l_mem s) (sec + of_nat d)" if "d + 4 \<le> 24" for d
    by (rule ld32_cong) (use hdr[of "d + k" for k] that in \<open>simp add: add.assoc\<close>)
  have f: "sec_VirtualAddress ?m sec = sec_VirtualAddress (l_mem s) sec" "SizeOfRawData ?m sec = SizeOfRawData (l_mem s) sec"
    "PointerToRawData ?m sec = PointerToRawData (l_mem s) sec"
    using ofs[of 12] ofs[of 16] ofs[of 20] by (simp_all add: sec_VirtualAddress_def SizeOfRawData_def PointerToRawData_def)
  have "starts_with ?m sec (map of_char ''.ldr'') = starts_with (l_mem s) sec (map of_char ''.ldr'')"
  proof -
    have "i < 24" if "i \<in> set [0..<length (map of_char ''.ldr'' :: u8 list)]" for i using that by auto
    then show ?thesis unfolding starts_with_def by (intro ball_cong refl) (simp only: hdr)
  qed
  with assms(6) have nl: "\<not> starts_with ?m sec (map of_char ''.ldr'')" by simp
  obtain t where t: "ldr_print fw TERM_STATUS_INFO ''Loading section %s'' [sec] (s\<lparr>l_mem := ?m\<rparr>) = Some t" "l_mem t = ?m"
    and s': "s' = t\<lparr>l_mem := snd (memcpy dest src (ucast (SizeOfRawData (l_mem s) sec)) ?m)\<rparr>"
  proof -
    from assms(5) obtain t where t: "ldr_print fw TERM_STATUS_INFO ''Loading section %s'' [sec] (s\<lparr>l_mem := ?m\<rparr>) = Some t"
      by (auto simp: load_section_def Let_def dest_def bind_eq_Some_conv)
    have "l_mem t = ?m" using loader_fields[OF LdrTermPrint_more[OF t[unfolded ldr_print_def]]] by simp
    moreover from this t nl f assms(5) have "s' = t\<lparr>l_mem := snd (memcpy dest src (ucast (SizeOfRawData (l_mem s) sec)) ?m)\<rparr>"
      by (simp add: load_section_def Let_def dest_def src_def)
    ultimately show thesis using that t by blast
  qed
  have "l_mem s' x = (if unat (x - dest) < raw then ?m (src + (x - dest)) else ?m x)"
    unfolding s' using memcpy_apply[of "ucast (SizeOfRawData (l_mem s) sec)" src dest ?m x] assms(9,10) by (simp add: u raw_def)
  moreover have "?m (src + (x - dest)) = l_mem s (src + (x - dest))" if "unat (x - dest) < raw"
    using assms(8)[OF that] by (simp add: m)
  ultimately show ?thesis by (simp add: m)
qed

text \<open>An image of one section at \<open>0x5000\<close>: two bytes of the file for a section of four.\<close>

definition section_memory :: bytes where
  "section_memory = (\<lambda>_. 9)(0x5008 := 4, 0x5009 := 0, 0x500A := 0, 0x500B := 0, 0x500C := 0, 0x500D := 0x10, 0x500E := 0, 0x500F := 0,
     0x5010 := 2, 0x5011 := 0, 0x5012 := 0, 0x5013 := 0, 0x5014 := 0x40, 0x5015 := 0, 0x5016 := 0, 0x5017 := 0, 0x5040 := 0x55, 0x5041 := 0x66)"

lemma load_section_memory_witness:
  "\<exists>s'. load_section null_firmware 0x5000 0x100000 0x8000 0x5000 (sample_loader\<lparr>l_mem := section_memory\<rparr>) = Some s' \<and>
     l_mem s' 0x101001 = 0x66 \<and> l_mem s' 0x101003 = 0 \<and> l_mem s' 0x101004 = 9"
proof -
  let ?s = "sample_loader\<lparr>l_mem := section_memory\<rparr>"
  have f: "sec_VirtualAddress section_memory 0x5000 = 0x1000" "VirtualSize section_memory 0x5000 = 4" "SizeOfRawData section_memory 0x5000 = 2"
    "PointerToRawData section_memory 0x5000 = 0x40"
    by (simp_all add: sec_VirtualAddress_def VirtualSize_def SizeOfRawData_def PointerToRawData_def ld32_def section_memory_def)
  have nl: "\<not> starts_with section_memory 0x5000 (map of_char ''.ldr'')" by (simp add: starts_with_def section_memory_def)
  have "\<exists>s'. load_section null_firmware 0x5000 0x100000 0x8000 0x5000 ?s = Some s'"
  proof -
    obtain t where "ldr_print null_firmware TERM_STATUS_INFO ''Loading section %s'' [0x5000] (?s\<lparr>l_mem := snd (memset 0x101000 0 4 section_memory)\<rparr>) = Some t"
      using ldr_print_frame[OF null_firmware_fits] by blast
    then show ?thesis by (simp add: load_section_def Let_def f)
  qed
  then obtain s' where s': "load_section null_firmware 0x5000 0x100000 0x8000 0x5000 ?s = Some s'" by blast
  have far: "4 \<le> unat (c + of_nat k - 0x101000 :: u64)" if "k < 24" "c = 0x5000 \<or> c = 0x5040" for k c
  proof -
    have e: "unat (c + of_nat k :: u64) = unat c + k" using that by (subst unat_add_no_wrap) (auto simp: unat_of_nat_u64)
    have l: "unat (c + of_nat k - 0x101000 :: u64) = 2 ^ 64 + (unat c + k) - 0x101000"
      using that e by (subst unat_sub_if') (auto simp: word_le_nat_alt)
    show ?thesis unfolding l using that by auto
  qed
  have mem: "l_mem ?s = section_memory" by simp
  have "l_mem s' x = (if unat (x - 0x101000) < 2 then l_mem ?s (0x5040 + (x - 0x101000)) else if unat (x - 0x101000) < 4 then 0 else l_mem ?s x)" for x
  proof (rule load_section_memory[OF _ _ _ _ s'])
    show "0x101000 = 0x100000 + ucast (sec_VirtualAddress (l_mem ?s) 0x5000)" "4 = unat (VirtualSize (l_mem ?s) 0x5000)"
      "2 = unat (SizeOfRawData (l_mem ?s) 0x5000)" "0x5040 = 0x5000 + ucast (PointerToRawData (l_mem ?s) 0x5000)"
      unfolding mem f by simp_all
    show "\<not> starts_with (l_mem ?s) 0x5000 (map of_char ''.ldr'')" unfolding mem by (rule nl)
    show "4 \<le> unat (0x5000 + of_nat k - 0x101000 :: u64)" if "k < 24" for k using far that by blast
    show "4 \<le> unat (0x5040 + of_nat k - 0x101000 :: u64)" if "k < 2" for k by (rule far) (use that in simp_all)
  qed simp_all
  note m = this[unfolded mem]
  have "l_mem s' 0x101001 = 0x66" "l_mem s' 0x101003 = 0" "l_mem s' 0x101004 = 9"
    unfolding m by (simp_all add: section_memory_def)
  with s' show ?thesis by blast
qed

end
