(* ===== verification/LdrTree.thy ===== *)
theory LdrTree
  imports PageTables LdrProps
begin

text \<open>
  The loader's page tables: under the contract of the firmware's page allocator, the loader's walk satisfies the laws of
  \<open>page_tables\<close>, and mapping the kernel into the higher half maps each of its pages and nothing else.
\<close>

section \<open>The firmware's pages\<close>

text \<open>
  What UEFI documents of \<open>AllocatePages\<close>: on success the address of a page that was free until then. \<open>held\<close> reads off the firmware's state
  the numbers of the pages that have been given out or were never free; the service writes none of them and does not move the loader's data.
  \<open>spare\<close> reads off a number of pages that the service still has, so that it does not fail while that number is positive.
\<close>

definition only_memory :: "'f loader \<Rightarrow> 'f loader \<Rightarrow> bool" where
  "only_memory s s' \<longleftrightarrow> (\<exists>m f. s' = s\<lparr>l_mem := m, l_fw := f\<rparr>)"

definition gives_fresh_pages :: "'f firmware \<Rightarrow> ('f \<Rightarrow> nat set) \<Rightarrow> ('f \<Rightarrow> nat) \<Rightarrow> bool" where
  "gives_fresh_pages fw held spare \<longleftrightarrow>
     (\<forall>s status a s'. AllocatePages fw AllocateAnyPages EfiLoaderCode 1 0 s = (status, a, s') \<longrightarrow>
        only_memory s s' \<and> held (l_fw s) \<subseteq> held (l_fw s') \<and> (\<forall>x. pgno x \<in> held (l_fw s) \<longrightarrow> l_mem s' x = l_mem s x) \<and>
        (status = EFI_SUCCESS \<longrightarrow> page_aligned a \<and> pgno a \<notin> held (l_fw s) \<and> pgno a \<in> held (l_fw s')) \<and>
        (status \<noteq> EFI_SUCCESS \<longrightarrow> spare (l_fw s) = 0) \<and> spare (l_fw s) \<le> Suc (spare (l_fw s')))"

definition ldr_page :: "('f \<Rightarrow> nat set) \<Rightarrow> 'f loader \<Rightarrow> u64 \<Rightarrow> bool" where
  "ldr_page held s t \<longleftrightarrow> page_aligned t \<and> pgno t \<in> held (l_fw s)"

definition ldr_tree :: "('f \<Rightarrow> nat set) \<Rightarrow> 'f loader \<Rightarrow> bool" where
  "ldr_tree held s \<longleftrightarrow> is_tree (ldr_page held s) (lget s) (l_pml4 s)"

definition ldr_translation :: "'f loader \<Rightarrow> u64 \<Rightarrow> u64" where
  "ldr_translation s = translation (lget s) (l_pml4 s)"

lemma only_memory_fields:
  assumes "only_memory s s'"
  shows "l_pml4 s' = l_pml4 s \<and> l_memmap s' = l_memmap s \<and> l_entry s' = l_entry s \<and> lgraphics s' = lgraphics s"
  using assms by (auto simp: only_memory_def)

lemma only_memory_trans: "only_memory s t \<Longrightarrow> only_memory t u \<Longrightarrow> only_memory s u"
proof -
  assume "only_memory s t" "only_memory t u"
  then obtain m f m' f' where "t = s\<lparr>l_mem := m, l_fw := f\<rparr>" "u = t\<lparr>l_mem := m', l_fw := f'\<rparr>" unfolding only_memory_def by blast
  then have "u = s\<lparr>l_mem := m', l_fw := f'\<rparr>" by simp
  then show ?thesis unfolding only_memory_def by blast
qed

lemma only_memory_intros: "only_memory s (s :: 'f loader)" "only_memory s (s\<lparr>l_mem := m\<rparr>)" "only_memory s (lset t i v s)"
proof -
  show "only_memory s (s\<lparr>l_mem := m\<rparr>)" for s :: "'f loader" and m
    unfolding only_memory_def by (rule exI[of _ m], rule exI[of _ "l_fw s"]) simp
  from this[of s "l_mem s"] this[of s] show "only_memory s s" "only_memory s (lset t i v s)" by (simp_all add: lset_def)
qed

lemma LdrGetNextLevel_result:
  assumes fresh: "gives_fresh_pages fw held spare" and n: "LdrGetNextLevel fw s = (r, s')"
  shows "only_memory s s'" and "ldr_page held s u \<Longrightarrow> ldr_page held s' u"
    and "ldr_page held s u \<Longrightarrow> unat j < 512 \<Longrightarrow> lget s' u j = lget s u j"
    and "r = Some a \<Longrightarrow> page_aligned a \<and> \<not> ldr_page held s a \<and> ldr_page held s' a"
    and "r = Some a \<Longrightarrow> unat j < 512 \<Longrightarrow> lget s' a j = 0"
    and "r = None \<Longrightarrow> spare (l_fw s) = 0" and "spare (l_fw s) \<le> Suc (spare (l_fw s'))"
proof -
  obtain status b t where al: "AllocatePages fw AllocateAnyPages EfiLoaderCode 1 0 s = (status, b, t)" by (metis surj_pair)
  with fresh have f: "only_memory s t" "held (l_fw s) \<subseteq> held (l_fw t)" "\<And>x. pgno x \<in> held (l_fw s) \<Longrightarrow> l_mem t x = l_mem s x"
    "status = EFI_SUCCESS \<Longrightarrow> page_aligned b \<and> pgno b \<notin> held (l_fw s) \<and> pgno b \<in> held (l_fw t)"
    "status \<noteq> EFI_SUCCESS \<Longrightarrow> spare (l_fw s) = 0" "spare (l_fw s) \<le> Suc (spare (l_fw t))"
    by (auto simp: gives_fresh_pages_def)
  have s': "s' = (if status = EFI_SUCCESS then t\<lparr>l_mem := snd (memset b 0 0x1000 (l_mem t))\<rparr> else t)" and r: "r = (if status = EFI_SUCCESS then Some b else None)"
    using n by (auto simp: LdrGetNextLevel_def al split: if_splits)
  show "only_memory s s'" using f(1) only_memory_trans[OF f(1) only_memory_intros(2)] by (simp add: s')
  have fwt: "l_fw s' = l_fw t" by (simp add: s')
  show "ldr_page held s' u" if "ldr_page held s u" using that f(2) by (auto simp: ldr_page_def fwt)
  show "lget s' u j = lget s u j" if "ldr_page held s u" "unat j < 512"
  proof -
    have u: "page_aligned u" "pgno u \<in> held (l_fw s)" using that(1) by (simp_all add: ldr_page_def)
    have "u \<noteq> b" if "status = EFI_SUCCESS" using f(4)[OF that] u by auto
    then have "lget s' u j = lget t u j" using f(4) u that(2) by (simp add: s' lget_def ld64_memset_page)
    also have "\<dots> = lget s u j" unfolding lget_def by (rule ld64_same_page_bytes[OF u(1) that(2)]) (use f(3) u(2) in simp)
    finally show ?thesis .
  qed
  show "page_aligned a \<and> \<not> ldr_page held s a \<and> ldr_page held s' a" if "r = Some a"
    using that f(4) by (auto simp: r ldr_page_def fwt split: if_splits)
  show "lget s' a j = 0" if "r = Some a" "unat j < 512"
    using that f(4) by (auto simp: r s' lget_def ld64_memset_page split: if_splits)
  show "spare (l_fw s) = 0" if "r = None" using that f(5) by (auto simp: r split: if_splits)
  show "spare (l_fw s) \<le> Suc (spare (l_fw s'))" using f(6) by (simp add: fwt)
qed

lemmas LdrGetNextLevel_pml4 = LdrGetNextLevel_result(1)[THEN only_memory_fields, THEN conjunct1]

lemma lset_entries:
  assumes "ldr_page held s t" and "ldr_page held s u" and "unat i < 512" and "unat j < 512"
  shows "lget (lset t i v s) u j = (if u = t \<and> j = i then v else lget s u j)"
  using assms by (simp add: lget_def lset_def ldr_page_def ld64_st64_entry)

lemma loader_tables:
  assumes "gives_fresh_pages fw held spare"
  shows "page_tables lget lset (LdrGetNextLevel fw) (\<lambda>s. l_pml4 s = root) (ldr_page held) (\<lambda>s. spare (l_fw s))"
  by unfold_locales
    (use LdrGetNextLevel_pml4[OF assms] LdrGetNextLevel_result(2-)[OF assms] lset_entries[of held] in \<open>simp_all add: lset_def ldr_page_def\<close>)

section \<open>Mapping\<close>

lemma ldr_level_walk: "ldr_level fw = walk_level lget lset (LdrGetNextLevel fw)"
  by (simp add: fun_eq_iff ldr_level_def walk_level_def split: prod.split)

lemma MmMapSinglePage_walk:
  assumes fresh: "gives_fresh_pages fw held spare"
  shows "MmMapSinglePage fw phys virt s = map_walk lget lset (LdrGetNextLevel fw) (l_pml4 s) phys virt s"
proof -
  obtain r1 s1 where 1: "walk_level lget lset (LdrGetNextLevel fw) (l_pml4 s) (GET_PML4_ENTRY virt) s = (r1, s1)" by fastforce
  have e: "l_pml4 s1 = l_pml4 s"
    using 1 LdrGetNextLevel_pml4[OF fresh] by (auto simp: walk_level_def lset_def split: if_splits prod.splits option.splits)
  show ?thesis unfolding MmMapSinglePage_def map_walk_def ldr_level_walk Let_def 1 prod.case e by (rule refl)
qed

lemma MmMapSinglePage_result:
  assumes fresh: "gives_fresh_pages fw held spare" and tree: "ldr_tree held s" and m: "MmMapSinglePage fw phys virt s = (r, s')"
  shows "l_pml4 s' = l_pml4 s" and "ldr_tree held s'"
    and "ldr_translation s' w = (if r \<and> same_slot w virt then phys OR PG_PRESENT OR PG_READ_WRITE else ldr_translation s w)"
    and "3 \<le> spare (l_fw s) \<Longrightarrow> r" and "spare (l_fw s) \<le> spare (l_fw s') + 3"
  using page_tables.map_result[OF loader_tables[OF fresh, of "l_pml4 s"] refl tree[unfolded ldr_tree_def] m[unfolded MmMapSinglePage_walk[OF fresh]]]
  by (simp_all add: ldr_tree_def ldr_translation_def)

section \<open>The higher half\<close>

text \<open>The pages of the upper 512 GiB lie in different slots.\<close>

lemma higher_half_slots:
  assumes "i < 0x8000000" and "j < 0x8000000"
  shows "same_slot (HHDM_OFFSET + of_nat i * 4096) (HHDM_OFFSET + of_nat j * 4096) \<longleftrightarrow> i = j"
proof -
  have "unat (take_bit 36 (drop_bit 12 (HHDM_OFFSET + of_nat k * 4096 :: u64))) = 0xFF8000000 + k" if "k < 0x8000000" for k
  proof -
    have m: "unat (of_nat k * 4096 :: u64) = k * 4096" using that by (subst unat_mult_no_wrap) (simp_all add: unat_of_nat_u64)
    have "unat (HHDM_OFFSET + of_nat k * 4096 :: u64) = 0xFFFFFF8000000000 + k * 4096"
      using that by (subst unat_add_no_wrap) (simp_all add: HHDM_OFFSET_def m)
    then have "unat (drop_bit 12 (HHDM_OFFSET + of_nat k * 4096 :: u64)) = 0xFFFFFF8000000 + k"
      by (simp add: drop_bit_eq_div unat_div)
    then have "unat (take_bit 36 (drop_bit 12 (HHDM_OFFSET + of_nat k * 4096 :: u64))) = take_bit 36 (0xFFFFFF8000000 + k)"
      by (simp only: unsigned_take_bit_eq)
    also have "\<dots> = 0xFF8000000 + k"
    proof -
      have "0xFFFFFF8000000 + k = (0xFF8000000 + k) + 65535 * 68719476736" by simp
      then have "(0xFFFFFF8000000 + k) mod 68719476736 = (0xFF8000000 + k) mod 68719476736" by (metis mod_mult_self1)
      then show ?thesis using that by (simp add: take_bit_eq_mod)
    qed
    finally show ?thesis .
  qed
  with assms show ?thesis unfolding same_slot_def by (metis add_left_cancel word_unat_eq_iff)
qed

lemma map_higher_half_result:
  assumes fresh: "gives_fresh_pages fw held spare" and n: "n \<le> 0x8000000" and "k \<le> n" and "ldr_tree held s"
  shows "\<exists>r s'. map_higher_half fw phys (of_nat n * 4096) (of_nat k * 4096) s = Some (r, s') \<and> ldr_tree held s' \<and> l_pml4 s' = l_pml4 s \<and>
    (3 * (n - k) \<le> spare (l_fw s) \<longrightarrow> r) \<and>
    (r \<longrightarrow> (\<forall>i. k \<le> i \<and> i < n \<longrightarrow>
        ldr_translation s' (HHDM_OFFSET + of_nat i * 4096) = (phys + of_nat i * 4096) OR PG_PRESENT OR PG_READ_WRITE) \<and>
      (\<forall>w. (\<forall>i. k \<le> i \<and> i < n \<longrightarrow> \<not> same_slot w (HHDM_OFFSET + of_nat i * 4096)) \<longrightarrow> ldr_translation s' w = ldr_translation s w))"
  using assms(3,4)
proof (induction "n - k" arbitrary: k s)
  case 0
  then have k: "k = n" by simp
  show ?case by (rule exI[of _ True], rule exI[of _ s]) (auto simp: k map_higher_half.simps[of _ _ "of_nat n * 4096"] 0(3)[unfolded k])
next
  case (Suc d)
  then have k: "k < n" "d = n - Suc k" "Suc k \<le> n" by simp_all
  have "unat (of_nat j * 4096 :: u64) = j * 4096" if "j \<le> 0x8000000" for j
    using that by (subst unat_mult_no_wrap) (simp_all add: unat_of_nat_u64)
  then have lt: "(of_nat k * 4096 :: u64) < of_nat n * 4096" using k(1) n by (simp add: word_less_nat_alt)
  have nx: "of_nat k * 4096 + 0x1000 = (of_nat (Suc k) * 4096 :: u64)" by (simp add: algebra_simps)
  obtain b t where m: "MmMapSinglePage fw (phys + of_nat k * 4096) (HHDM_OFFSET + of_nat k * 4096) s = (b, t)" by fastforce
  note p = MmMapSinglePage_result[OF fresh Suc.prems(2) m]
  show ?case
  proof (cases b)
    case False
    then have "map_higher_half fw phys (of_nat n * 4096) (of_nat k * 4096) s = Some (False, t)"
      using lt m by (subst map_higher_half.simps) simp
    moreover have "\<not> 3 * (n - k) \<le> spare (l_fw s)"
    proof
      assume "3 * (n - k) \<le> spare (l_fw s)"
      then have "3 \<le> spare (l_fw s)" using k(1) by simp
      with p(4) False show False by blast
    qed
    ultimately show ?thesis using p(1,2) by (intro exI[of _ False] exI[of _ t]) simp
  next
    case True
    obtain r s' where l: "map_higher_half fw phys (of_nat n * 4096) (of_nat (Suc k) * 4096) t = Some (r, s')" "ldr_tree held s'" "l_pml4 s' = l_pml4 t"
      "3 * (n - Suc k) \<le> spare (l_fw t) \<longrightarrow> r"
      and a: "r \<Longrightarrow> Suc k \<le> i \<Longrightarrow> i < n \<Longrightarrow> ldr_translation s' (HHDM_OFFSET + of_nat i * 4096) = (phys + of_nat i * 4096) OR PG_PRESENT OR PG_READ_WRITE"
      and o: "r \<Longrightarrow> (\<And>i. Suc k \<le> i \<Longrightarrow> i < n \<Longrightarrow> \<not> same_slot w (HHDM_OFFSET + of_nat i * 4096)) \<Longrightarrow> ldr_translation s' w = ldr_translation t w" for i w
      using Suc.hyps(1)[OF k(2,3) p(2)] by auto
    have run: "map_higher_half fw phys (of_nat n * 4096) (of_nat k * 4096) s = Some (r, s')"
      using lt m True l(1) by (subst map_higher_half.simps) (simp add: nx)
    have "ldr_translation s' (HHDM_OFFSET + of_nat i * 4096) = (phys + of_nat i * 4096) OR PG_PRESENT OR PG_READ_WRITE"
      if "r" "k \<le> i" "i < n" for i
    proof (cases "i = k")
      case True
      have "ldr_translation s' (HHDM_OFFSET + of_nat k * 4096) = ldr_translation t (HHDM_OFFSET + of_nat k * 4096)"
        by (rule o[OF that(1)]) (use higher_half_slots n k(1) in simp)
      also have "\<dots> = (phys + of_nat k * 4096) OR PG_PRESENT OR PG_READ_WRITE"
        unfolding p(3) using \<open>b\<close> by (simp add: same_slot_def)
      finally show ?thesis unfolding True .
    next
      case False
      then show ?thesis using a that by simp
    qed
    moreover have "ldr_translation s' w = ldr_translation s w"
      if "r" "\<And>i. k \<le> i \<Longrightarrow> i < n \<Longrightarrow> \<not> same_slot w (HHDM_OFFSET + of_nat i * 4096)" for w
      using o[OF that(1)] that(2) p(3)[of w] k(1) by simp
    moreover have "3 * (n - k) \<le> spare (l_fw s) \<longrightarrow> r" using l(4) p(5) k by auto
    ultimately show ?thesis using run l(2,3) p(1) by auto
  qed
qed

text \<open>
  C6: Mapping the kernel's pages into the higher half, at most 512 GiB of them, returns for every firmware that keeps the documented contract
  of its page allocator, and with success if that has three pages for each of the kernel's. The tables stay a tree of distinct pages. On success the processor uses them, page \<open>i\<close> of the kernel's virtual
  range leads to page \<open>i\<close> of its physical memory, present and writable, and every address outside the range translates as before.
\<close>

theorem kernel_mapped_in_higher_half:
  assumes "gives_fresh_pages fw held spare" and "ldr_tree held s" and "n \<le> 0x8000000"
  shows "\<exists>r s'. MmMapHigherHalfMemoryForKernel fw phys (of_nat n * 4096) s = Some (r, s') \<and> ldr_tree held s' \<and> l_pml4 s' = l_pml4 s \<and>
    (3 * n \<le> spare (l_fw s) \<longrightarrow> r) \<and>
    (r \<longrightarrow> l_cr3 s' = l_pml4 s \<and>
      (\<forall>i < n. ldr_translation s' (HHDM_OFFSET + of_nat i * 4096) = (phys + of_nat i * 4096) OR PG_PRESENT OR PG_READ_WRITE) \<and>
      (\<forall>w. (\<forall>i < n. \<not> same_slot w (HHDM_OFFSET + of_nat i * 4096)) \<longrightarrow> ldr_translation s' w = ldr_translation s w))"
proof -
  obtain r s' where l: "map_higher_half fw phys (of_nat n * 4096) 0 s = Some (r, s')" "ldr_tree held s'" "l_pml4 s' = l_pml4 s"
    "3 * n \<le> spare (l_fw s) \<longrightarrow> r"
    "r \<Longrightarrow> (\<forall>i < n. ldr_translation s' (HHDM_OFFSET + of_nat i * 4096) = (phys + of_nat i * 4096) OR PG_PRESENT OR PG_READ_WRITE) \<and>
      (\<forall>w. (\<forall>i < n. \<not> same_slot w (HHDM_OFFSET + of_nat i * 4096)) \<longrightarrow> ldr_translation s' w = ldr_translation s w)"
    using map_higher_half_result[OF assms(1,3) le0 assms(2), of phys] by auto
  have c: "ldr_tree held (LdrMmUpdateCr3 a s') = ldr_tree held s'" "ldr_translation (LdrMmUpdateCr3 a s') = ldr_translation s'" for a
  proof -
    have "lget (s'\<lparr>l_cr3 := a\<rparr>) = lget s'" "ldr_page held (s'\<lparr>l_cr3 := a\<rparr>) = ldr_page held s'"
      by (simp_all add: fun_eq_iff lget_def ldr_page_def)
    then show "ldr_tree held (LdrMmUpdateCr3 a s') = ldr_tree held s'" "ldr_translation (LdrMmUpdateCr3 a s') = ldr_translation s'"
      by (simp_all add: ldr_tree_def ldr_translation_def LdrMmUpdateCr3_def)
  qed
  show ?thesis
  proof (cases r)
    case False
    with l show ?thesis by (intro exI[of _ False] exI[of _ s']) (simp add: MmMapHigherHalfMemoryForKernel_def)
  next
    case True
    then have "MmMapHigherHalfMemoryForKernel fw phys (of_nat n * 4096) s = Some (True, LdrMmUpdateCr3 (l_pml4 s') s')"
      using l(1) by (simp add: MmMapHigherHalfMemoryForKernel_def)
    moreover have "l_cr3 (LdrMmUpdateCr3 (l_pml4 s') s') = l_pml4 s" "l_pml4 (LdrMmUpdateCr3 (l_pml4 s') s') = l_pml4 s"
      using l(3) by (simp_all add: LdrMmUpdateCr3_def)
    ultimately show ?thesis
      using l(2,4) True l(5)[OF True] by (intro exI[of _ True] exI[of _ "LdrMmUpdateCr3 (l_pml4 s') s'"]) (simp only: c simp_thms)
  qed
qed

text \<open>A firmware that gives out page after page.\<close>

definition page_firmware :: "nat firmware" where
  "page_firmware = null_firmware\<lparr>AllocatePages := (\<lambda>t m n p s.
     if l_fw s < 1000 then (0, of_nat (l_fw s) * 4096, s\<lparr>l_fw := l_fw s + 1\<rparr>) else (9, p, s))\<rparr>"

lemma page_firmware_fresh: "gives_fresh_pages page_firmware (\<lambda>k. {..<k}) (\<lambda>k. 1000 - k)"
proof -
  have "unat (of_nat k * 4096 :: u64) = k * 4096" if "k < 1000" for k
    using that by (subst unat_mult_no_wrap) (simp_all add: unat_of_nat_u64)
  moreover have "only_memory s (s\<lparr>l_fw := f\<rparr>)" for s :: "nat loader" and f
    unfolding only_memory_def by (rule exI[of _ "l_mem s"], rule exI[of _ f]) simp
  ultimately show ?thesis by (auto simp: only_memory_intros gives_fresh_pages_def page_firmware_def page_aligned_def pgno_def EFI_SUCCESS_def split: if_splits)
qed

lemma loader_with_tree: "ldr_tree (\<lambda>k. {..<k}) (loader_with 16)"
  unfolding ldr_tree_def
  by (rule empty_root)
    (simp_all add: ldr_page_def page_aligned_def pgno_def lget_def ld64_def loader_with_def lterm.extend_def)

lemma kernel_mapped_in_higher_half_witness:
  "\<exists>s'. MmMapHigherHalfMemoryForKernel page_firmware 0x200000 0x3000 (loader_with 16) = Some (True, s') \<and> l_cr3 s' = 0x4000 \<and>
     ldr_translation s' 0xFFFFFF8000002000 = 0x202003"
proof -
  have s: "l_pml4 (loader_with (16 :: nat)) = 0x4000" "l_fw (loader_with (16 :: nat)) = 16" by (simp_all add: loader_with_def lterm.extend_def)
  from kernel_mapped_in_higher_half[OF page_firmware_fresh loader_with_tree, of 3 "0x200000"]
  obtain s' where s': "MmMapHigherHalfMemoryForKernel page_firmware 0x200000 0x3000 (loader_with 16) = Some (True, s')" "l_cr3 s' = 0x4000"
    "\<forall>i < 3. ldr_translation s' (HHDM_OFFSET + of_nat i * 4096) = (0x200000 + of_nat i * 4096) OR PG_PRESENT OR PG_READ_WRITE"
    by (auto simp: s)
  from s'(3) have "ldr_translation s' (HHDM_OFFSET + of_nat 2 * 4096) = (0x200000 + of_nat 2 * 4096) OR PG_PRESENT OR PG_READ_WRITE"
    by (metis lessI numeral_2_eq_2 numeral_3_eq_3)
  then have "ldr_translation s' 0xFFFFFF8000002000 = 0x202003"
    by (simp add: HHDM_OFFSET_def PG_PRESENT_def PG_READ_WRITE_def)
  with s'(1,2) show ?thesis by blast
qed

end
