(* ===== verification/LdrBoot.thy ===== *)
theory LdrBoot
  imports LdrTree
begin

text \<open>The run of the loader up to the jump: on which path the kernel is entered, with a machine on which it is.\<close>

section \<open>The path to the kernel\<close>

lemma panic_with_stuck [simp]: "panic_with msg s \<noteq> Some (EntersKernel e s')"
  by (simp add: panic_with_def split: run.split)

lemma ldr_print_mem: "ldr_print fw st msg args s = Some s' \<Longrightarrow> l_mem s' = l_mem s"
  using LdrTermPrint_more[of "fw_vsn fw" st "QSTR msg" args s s'] loader_fields[of s' s] unfolding ldr_print_def by blast

lemma find_rsdp_frame: "find_rsdp fw i s = Some (r, s') \<Longrightarrow> lterm.more s' = lterm.more s"
proof -
  assume a: "find_rsdp fw i s = Some (r, s')"
  have "\<forall>r' t. x = (r', t) \<longrightarrow> lterm.more t = lterm.more s" if "find_rsdp fw i s = Some x" for x
    by (rule find_rsdp.raw_induct[where P = "\<lambda>fw i s x. \<forall>r' t. x = (r', t) \<longrightarrow> lterm.more t = lterm.more s", OF _ that])
      (auto simp: Let_def ldr_print_def dest!: LdrTermPrint_more split: if_splits)
  with a show ?thesis by blast
qed

lemma load_section_frame:
  assumes "load_section fw content imageBase b sec s = Some s'"
  shows "l_fw s' = l_fw s \<and> l_memmap s' = l_memmap s \<and> globalHandle s' = globalHandle s"
proof -
  let ?m = "snd (memset (imageBase + ucast (sec_VirtualAddress (l_mem s) sec)) 0 (ucast (VirtualSize (l_mem s) sec)) (l_mem s))"
  from assms obtain t where t: "ldr_print fw TERM_STATUS_INFO ''Loading section %s'' [sec] (s\<lparr>l_mem := ?m\<rparr>) = Some t"
    and s': "\<exists>m. s' = t\<lparr>l_mem := m\<rparr>"
    by (auto simp: load_section_def Let_def bind_eq_Some_conv split: if_splits)
  from s' loader_fields[OF LdrTermPrint_more[OF t[unfolded ldr_print_def]]] show ?thesis by auto
qed

lemma load_sections_frame:
  assumes "load_sections fw content nt imageBase b i sec s = Some s'"
  shows "l_fw s' = l_fw s \<and> l_memmap s' = l_memmap s \<and> globalHandle s' = globalHandle s"
  by (rule load_sections.raw_induct[where P = "\<lambda>fw content nt imageBase b i sec s s'. l_fw s' = l_fw s \<and> l_memmap s' = l_memmap s \<and> globalHandle s' = globalHandle s", OF _ assms])
    (auto simp: bind_eq_Some_conv dest!: load_section_frame split: if_splits)

text \<open>Between the memory map and the exit from the boot services nothing touches the map, the firmware or the image handle.\<close>

lemma start_kernel_exit:
  assumes "start_kernel fw binfo_arg content nt entry phys pages s = Some (EntersKernel e s')"
  obtains lmap s1 t where "MmRetrieveCurrentMemoryMap fw s = Some (lmap, s1)" "l_fw t = l_fw s1" "e = entry"
    "s' = snd (ExitBootServices fw (globalHandle s1) (lm_mapKey (l_memmap s1 lmap)) t)"
proof -
  from assms obtain lmap s1 where 1: "MmRetrieveCurrentMemoryMap fw s = Some (lmap, s1)" by (auto simp: start_kernel_def bind_eq_Some_conv)
  note run = assms[unfolded start_kernel_def 1 Option.bind.bind_lunit prod.case]
  from run obtain root s2 where 2: "LdrGetRSDPLocation fw s1 = Some (root, s2)" by (auto simp: bind_eq_Some_conv)
  define s3 where "s3 = s2\<lparr>l_mem := store_boot_info (l_binfo s2) (LdrGraphicsReturnData s2) lmap phys pages root (l_mem s2)\<rparr>"
  note run = run[unfolded 2 Option.bind.bind_lunit prod.case Let_def, folded s3_def]
  have 23: "l_fw s3 = l_fw s1" "l_memmap s3 = l_memmap s1" "globalHandle s3 = globalHandle s1"
    using loader_fields[OF find_rsdp_frame[OF 2[unfolded LdrGetRSDPLocation_def]]] by (simp_all add: s3_def)
  from run obtain s4 s5 s6 s7 s8 where
    4: "LoadSectionsIntoMemory fw content nt (l_binfo s3) s3 = Some s4" and
    5: "ldr_print fw TERM_STATUS_PASS ''About to jump to kernel!'' [] s4 = Some s5" and
    6: "ldr_print fw TERM_STATUS_INFO ''BootInfo is located at 0x%x'' [binfo_arg] s5 = Some s6" and
    7: "ldr_print fw TERM_STATUS_UNKNOWN '' '' [] s6 = Some s7" and
    8: "ldr_print fw TERM_STATUS_UNKNOWN '' '' [] s7 = Some s8"
    by (auto simp: bind_eq_Some_conv)
  obtain st s9 where 9: "ExitBootServices fw (LdrReturnImagehandle s8) (lm_mapKey (l_memmap s8 lmap)) s8 = (st, s9)" by fastforce
  from run have s': "s' = s9" "e = entry" unfolding 4 5 6 7 8 9 Option.bind.bind_lunit prod.case by simp_all
  have pr: "l_fw t' = l_fw t \<and> l_memmap t' = l_memmap t \<and> globalHandle t' = globalHandle t" if "ldr_print fw stat msg args t = Some t'" for stat msg args t t'
    using loader_fields[OF LdrTermPrint_more[OF that[unfolded ldr_print_def]]] by simp
  have "l_fw s8 = l_fw s1" "l_memmap s8 = l_memmap s1" "globalHandle s8 = globalHandle s1"
    using pr[OF 5] pr[OF 6] pr[OF 7] pr[OF 8] load_sections_frame[OF 4[unfolded LoadSectionsIntoMemory_def]] 23 by simp_all
  with 9 show ?thesis by (intro that[OF 1, of s8]) (simp_all add: s' LdrReturnImagehandle_def)
qed

text \<open>
  C15: The loader enters the kernel on one path only: the file was opened and read, its first bytes are \<open>MZ\<close> and the header it points to starts with
  \<open>PE\<close>, the firmware gave pages for the size that the header states, all of them were mapped into the higher half, the current memory map was
  asked for, and \<open>ExitBootServices\<close> was called, as the last thing before the jump, with the image handle and the key in that map. The entry point is the
  header's, relative to its image base. A run in which one of these conditions fails does not enter the kernel; the status of \<open>ExitBootServices\<close>
  and whether there is a map are not among them, as the loader looks at neither.
\<close>

theorem kernel_entered_only_if_pe:
  fixes s :: "'f loader"
  assumes "LdrPeLoadPEImageAsKernel fw stack binfo_arg path s = Some (EntersKernel e s')"
  shows "\<exists>kern s1 content len s2 s3 m nt pages phys t1 t2 t3.
    SFsOpenFile fw stack (\<lambda>i. l_mem s (path + i)) EFI_FILE_MODE_READ s = (kern, s1) \<and> kern \<noteq> NULL \<and>
    SFsReadFileContent fw kern s1 = Some (content, len, s2) \<and> content \<noteq> NULL \<and> s3 = snd (SFsCloseFile fw kern s2) \<and> m = l_mem s3 \<and>
    starts_with m content [0x4D, 0x5A] \<and> nt = content + e_lfanew m content \<and> starts_with m nt [0x50, 0x45, 0, 0] \<and>
    lterm.more t1 = lterm.more s3 \<and> pages = (ucast (SizeOfImage m nt) + 4095) div 4096 \<and>
    AllocatePages fw AllocateAnyPages EfiLoaderData pages 0 t1 = (EFI_SUCCESS, phys, t2) \<and>
    MmMapHigherHalfMemoryForKernel fw phys (pages * 4096) t2 = Some (True, t3) \<and>
    e = pe_ImageBase m nt + ucast (AddressOfEntryPoint (l_mem t3) nt) \<and>
    (\<exists>t4 lmap t5 t. lterm.more t4 = lterm.more t3 \<and> MmRetrieveCurrentMemoryMap fw t4 = Some (lmap, t5) \<and> l_fw t = l_fw t5 \<and>
       s' = snd (ExitBootServices fw (globalHandle t5) (lm_mapKey (l_memmap t5 lmap)) t))"
proof -
  let ?open = "SFsOpenFile fw stack (\<lambda>i. l_mem s (path + i)) EFI_FILE_MODE_READ s"
  obtain kern s1 where o: "?open = (kern, s1)" by fastforce
  note run = assms[unfolded LdrPeLoadPEImageAsKernel_def o Let_def prod.case]
  from run have f: "kern \<noteq> NULL" by (auto split: if_splits)
  with run obtain content len s2 where r: "SFsReadFileContent fw kern s1 = Some (content, len, s2)"
    by (auto simp: bind_eq_Some_conv)
  obtain b s3 where c: "SFsCloseFile fw kern s2 = (b, s3)" by fastforce
  define nt where "nt = content + e_lfanew (l_mem s3) content"
  have run: "(if content = NULL then panic_with ''Kernel image is empty or corrupted! Please Reboot'' s3
      else if \<not> starts_with (l_mem s3) content [0x4D, 0x5A] then panic_with ''Kernel image isn't of PE type! (failed at MZ) Please Reboot'' s3
      else if \<not> starts_with (l_mem s3) nt [0x50, 0x45, 0, 0] then panic_with ''Kernel image isn't of PE type! (failed at PE) Please Reboot'' s3
      else load_image fw binfo_arg path content nt s3) = Some (EntersKernel e s')"
    using run unfolding if_not_P[OF f] r Option.bind.bind_lunit prod.case c nt_def by simp
  then have h: "content \<noteq> NULL" "starts_with (l_mem s3) content [0x4D, 0x5A]" "starts_with (l_mem s3) nt [0x50, 0x45, 0, 0]"
    and run: "load_image fw binfo_arg path content nt s3 = Some (EntersKernel e s')"
    by (auto split: if_splits)
  define m where "m = l_mem s3"
  from run obtain t1 where t1: "ldr_print fw TERM_STATUS_PASS (''%s is a valid kernel!'' @ [CHR 0x0A]) [path] s3 = Some t1"
    by (auto simp: load_image_def bind_eq_Some_conv)
  have m1: "lterm.more t1 = lterm.more s3" "l_mem t1 = m"
    using LdrTermPrint_more[OF t1[unfolded ldr_print_def]] ldr_print_mem[OF t1] by (simp_all add: m_def)
  define pages where "pages = (ucast (SizeOfImage m nt) + 4095 :: u64) div 4096"
  obtain status phys t2 where al: "AllocatePages fw AllocateAnyPages EfiLoaderData pages 0 t1 = (status, phys, t2)" by (metis surj_pair)
  note run = run[unfolded load_image_def t1 Option.bind.bind_lunit Let_def m1(2) pages_def [symmetric] al prod.case]
  from run have st: "status = EFI_SUCCESS" by (auto split: if_splits)
  with run obtain result t3 where mp: "MmMapHigherHalfMemoryForKernel fw phys (pages * 4096) t2 = Some (result, t3)"
    by (auto simp: bind_eq_Some_conv)
  from run st mp have res: result by (cases result) auto
  from run st mp res obtain t4 where t4: "ldr_print fw TERM_STATUS_PASS ''Kernel physical base is located at 0x%x, page size is %d'' [phys, pages] t3 = Some t4"
    and sk: "start_kernel fw binfo_arg content nt (pe_ImageBase m nt + ucast (AddressOfEntryPoint (l_mem t4) nt)) phys pages t4 = Some (EntersKernel e s')"
    by (auto simp: bind_eq_Some_conv)
  have e: "e = pe_ImageBase m nt + ucast (AddressOfEntryPoint (l_mem t3) nt)"
    by (rule start_kernel_exit[OF sk]) (simp add: ldr_print_mem[OF t4])
  have x: "\<exists>t4 lmap t5 t. lterm.more t4 = lterm.more t3 \<and> MmRetrieveCurrentMemoryMap fw t4 = Some (lmap, t5) \<and> l_fw t = l_fw t5 \<and>
      s' = snd (ExitBootServices fw (globalHandle t5) (lm_mapKey (l_memmap t5 lmap)) t)"
    using LdrTermPrint_more[OF t4[unfolded ldr_print_def]] by (rule_tac start_kernel_exit[OF sk]) blast
  have "s3 = snd (SFsCloseFile fw kern s2)" by (simp add: c)
  with o f r h nt_def m1(1) pages_def al[unfolded st] mp[unfolded eqTrueI[OF res]] e x show ?thesis
    unfolding m_def by blast
qed

section \<open>The key of the memory map\<close>

text \<open>
  What UEFI documents of the key: \<open>GetMemoryMap\<close> gives the key of the current map, and \<open>ExitBootServices\<close> refuses any key but that of the
  map current at the call, and then the boot services go on. The other services used do not end them, and \<open>SetMem\<close> only fills memory. \<open>key\<close> and
  \<open>active\<close> read the key of the current map and whether the boot services run off the firmware's state. Nothing is assumed of
  what changes the map.
\<close>

definition keyed_map :: "'f firmware \<Rightarrow> ('f \<Rightarrow> u64) \<Rightarrow> ('f \<Rightarrow> bool) \<Rightarrow> bool" where
  "keyed_map fw key active \<longleftrightarrow>
     (\<forall>a buf s st a' s'. GetMemoryMap fw a buf s = (st, a', s') \<longrightarrow> active (l_fw s') = active (l_fw s) \<and>
        (st = EFI_SUCCESS \<longrightarrow> ma_key a' = key (l_fw s'))) \<and>
     (\<forall>t n p s st q s'. AllocatePool fw t n p s = (st, q, s') \<longrightarrow> active (l_fw s') = active (l_fw s)) \<and>
     (\<forall>p n v s. l_fw (SetMem fw p n v s) = l_fw s) \<and>
     (\<forall>h k s st s'. ExitBootServices fw h k s = (st, s') \<longrightarrow> k \<noteq> key (l_fw s) \<longrightarrow>
        st \<noteq> EFI_SUCCESS \<and> active (l_fw s') = active (l_fw s))"

text \<open>
  The states between which \<open>MmRetrieveCurrentMemoryMap\<close>, where it succeeds, asks for the memory of the map's entries: the map has been read in the
  first one, and the firmware has given the memory in the second.
\<close>

definition entries_pool :: "'f firmware \<Rightarrow> 'f loader \<Rightarrow> 'f loader \<times> 'f loader" where
  "entries_pool fw s =
     (let (_, a, s) = GetMemoryMap fw \<lparr>ma_size = 0, ma_key = 0, ma_descSize = 0, ma_descVer = 0\<rparr> NULL s;
          a = a\<lparr>ma_size := ma_size a + ma_descSize a * 8\<rparr>;
          (_, buf, s) = AllocatePool fw EfiLoaderData (ma_size a) NULL s;
          (_, lmap, s) = AllocatePool fw EfiLoaderData SIZEOF_MEMORY_MAP NULL s;
          (_, a, before) = GetMemoryMap fw a buf (SetMem fw lmap SIZEOF_MEMORY_MAP 0 s);
          (_, _, after) = AllocatePool fw EfiLoaderData (ma_size a div ma_descSize a * SIZEOF_MEMORY_MAP_ENTRY)
                            (lm_memEntries (l_memmap before lmap)) before
      in (before, after))"

lemma copy_descriptor_fw: "l_fw (copy_descriptor buf d p i s) = l_fw s"
  by (simp add: copy_descriptor_def upd_entry_def upd_memmap_def Let_def)

lemma fill_memory_map_key:
  "lm_mapKey (l_memmap (fill_memory_map buf a p n s) p) = ma_key a" "l_fw (fill_memory_map buf a p n s) = l_fw (s :: 'f loader)"
proof -
  have "l_fw (for_upto k (copy_descriptor buf d p) t) = l_fw t" for k d and t :: "'f loader"
    by (rule for_upto_frame) (rule copy_descriptor_fw)
  then show "l_fw (fill_memory_map buf a p n s) = l_fw s" by (simp add: fill_memory_map_def upd_memmap_def Let_def)
  show "lm_mapKey (l_memmap (fill_memory_map buf a p n s) p) = ma_key a" by (simp add: fill_memory_map_def upd_memmap_def Let_def)
qed

lemma memmap_fails_null: "memmap_fails fw msg st ps s = Some (lmap, s') \<Longrightarrow> lmap = NULL"
  by (auto simp: memmap_fails_def)

text \<open>The entries are allocated after the key has been read.\<close>

lemma memory_map_key_is_old:
  assumes keyed: "keyed_map fw key active" and r: "MmRetrieveCurrentMemoryMap fw s = Some (lmap, s')" and "lmap \<noteq> NULL"
    and pool: "entries_pool fw s = (before, after)"
  shows "active (l_fw s') = active (l_fw s) \<and> lm_mapKey (l_memmap s' lmap) = key (l_fw before) \<and> l_fw s' = l_fw after"
proof -
  obtain st0 a0 s0 where 0: "GetMemoryMap fw \<lparr>ma_size = 0, ma_key = 0, ma_descSize = 0, ma_descVer = 0\<rparr> NULL s = (st0, a0, s0)" by (metis surj_pair)
  define a1 where "a1 = a0\<lparr>ma_size := ma_size a0 + ma_descSize a0 * 8\<rparr>"
  obtain st1 buf s1 where 1: "AllocatePool fw EfiLoaderData (ma_size a1) NULL s0 = (st1, buf, s1)" by (metis surj_pair)
  note r = r[unfolded MmRetrieveCurrentMemoryMap_def 0 prod.case Let_def a1_def [symmetric] 1]
  from r assms(3) have st1: "st1 = EFI_SUCCESS" by (auto dest: memmap_fails_null split: if_splits)
  obtain st2 p s2 where 2: "AllocatePool fw EfiLoaderData SIZEOF_MEMORY_MAP NULL s1 = (st2, p, s2)" by (metis surj_pair)
  note r = r[unfolded 2 prod.case]
  from r assms(3) st1 have st2: "st2 = EFI_SUCCESS" by (auto dest: memmap_fails_null split: if_splits)
  define s3 where "s3 = SetMem fw p SIZEOF_MEMORY_MAP 0 s2"
  obtain st4 a4 s4 where 4: "GetMemoryMap fw a1 buf s3 = (st4, a4, s4)" by (metis surj_pair)
  note r = r[folded s3_def, unfolded 4 prod.case]
  from r assms(3) st1 st2 have st4: "st4 = EFI_SUCCESS" by (auto dest: memmap_fails_null split: if_splits)
  define n where "n = ma_size a4 div ma_descSize a4"
  obtain st5 e s5 where 5: "AllocatePool fw EfiLoaderData (n * SIZEOF_MEMORY_MAP_ENTRY) (lm_memEntries (l_memmap s4 p)) s4 = (st5, e, s5)"
    by (metis surj_pair)
  note r = r[unfolded n_def [symmetric] 5 prod.case]
  from r assms(3) st1 st2 st4 have st5: "st5 = EFI_SUCCESS" by (auto dest: memmap_fails_null split: if_splits)
  define s6 where "s6 = upd_memmap p (\<lambda>m. m\<lparr>lm_memEntries := e\<rparr>) s5"
  define s7 where "s7 = SetMem fw (lm_memEntries (l_memmap s6 p)) (n * SIZEOF_MEMORY_MAP_ENTRY) 0 s6"
  from r st1 st2 st4 st5 have l: "lmap = p" "s' = fill_memory_map buf a4 p n s7"
    by (auto simp: s7_def s6_def split: if_splits)
  have p: "before = s4" "after = s5"
    using pool unfolding entries_pool_def 0 prod.case Let_def a1_def [symmetric] 1 2 s3_def [symmetric] 4 n_def [symmetric] 5 by simp_all
  have k: "ma_key a4 = key (l_fw s4)" using keyed 4 st4 by (simp add: keyed_map_def)
  have f: "l_fw s' = l_fw s5" using keyed by (simp add: l fill_memory_map_key s7_def s6_def upd_memmap_def keyed_map_def)
  have "active (l_fw s5) = active (l_fw s)"
    using keyed 0 1 2 4 5 by (simp add: keyed_map_def s3_def)
  with k show ?thesis by (simp add: f p) (simp add: l fill_memory_map_key)
qed

text \<open>
  C21: with a firmware that keeps the documented rules of map keys (\<open>keyed_map\<close>) and gives the memory for the map, the key that the loader gives to
  \<open>ExitBootServices\<close> is that of the map before the memory for the map's entries is asked for, while the firmware compares it with the key after that. If
  giving that memory changes the key of the map, the firmware refuses, the loader does not look at the status, and the kernel is entered with the
  boot services as they were.
\<close>

theorem kernel_entered_with_boot_services:
  assumes "keyed_map fw key active" and "MmRetrieveCurrentMemoryMap fw s = Some (lmap, s1)" and "lmap \<noteq> NULL"
    and "start_kernel fw binfo_arg content nt entry phys pages s = Some (EntersKernel e s')"
    and "entries_pool fw s = (before, after)"
  shows "(\<exists>h t. l_fw t = l_fw after \<and> s' = snd (ExitBootServices fw h (key (l_fw before)) t)) \<and>
    (key (l_fw after) \<noteq> key (l_fw before) \<longrightarrow> active (l_fw s') = active (l_fw s))"
proof -
  note old = memory_map_key_is_old[OF assms(1-3,5)]
  obtain t where t: "l_fw t = l_fw s1" "s' = snd (ExitBootServices fw (globalHandle s1) (lm_mapKey (l_memmap s1 lmap)) t)"
    using assms(2) by (rule_tac start_kernel_exit[OF assms(4)]) auto
  obtain st u where u: "ExitBootServices fw (globalHandle s1) (key (l_fw before)) t = (st, u)" by fastforce
  have s': "s' = snd (ExitBootServices fw (globalHandle s1) (key (l_fw before)) t)" using t(2) old by simp
  have "active (l_fw s') = active (l_fw s)" if "key (l_fw after) \<noteq> key (l_fw before)"
  proof -
    have "key (l_fw before) \<noteq> key (l_fw t)" using that old t(1) by simp
    then have "active (l_fw u) = active (l_fw t)" using assms(1) u unfolding keyed_map_def by blast
    moreover have "l_fw t = l_fw s1" "active (l_fw s1) = active (l_fw s)" using t(1) old by blast+
    ultimately show ?thesis by (simp add: s' u)
  qed
  with s' t(1) old show ?thesis by auto
qed

section \<open>A machine that boots\<close>

definition boot_memory :: bytes where
  "boot_memory = (\<lambda>_. 0)(0x5000 := 0x4D, 0x5001 := 0x5A, 0x503C := 0x40, 0x5040 := 0x50, 0x5041 := 0x45, 0x5069 := 0x10)"

definition boot_firmware :: "'f firmware" where
  "boot_firmware = null_firmware\<lparr>GetMemoryMap := (\<lambda>a b s. (0, a\<lparr>ma_descSize := 48, ma_size := 0\<rparr>, s)),
     AllocatePool := (\<lambda>t n p s. (0, 0x5000, s)), AllocatePages := (\<lambda>t m n p s. (0, 0x200000, s)),
     file_Open := (\<lambda>r f n m x s. (0, 0x77, s))\<rparr>"

definition boot_loader :: "'f \<Rightarrow> 'f loader" where
  "boot_loader f = loader_with f\<lparr>l_mem := boot_memory, sfs_root := 5\<rparr>"

lemma boot_firmware_fits: "fits_buffer (fw_vsn boot_firmware)"
  using copy_format_fits by (simp add: boot_firmware_def null_firmware_def)

lemma boot_loader_fields: "l_mem (boot_loader f) = boot_memory" "l_binfo (boot_loader f) = 0x8000" "sfs_root (boot_loader f) = 5" "l_fw (boot_loader f) = f"
  by (simp_all add: boot_loader_def loader_with_def lterm.extend_def)

lemma boot_headers:
  "starts_with boot_memory 0x5000 [0x4D, 0x5A]" "starts_with boot_memory 0x5040 [0x50, 0x45, 0, 0]"
  "e_lfanew boot_memory 0x5000 = 0x40" "SizeOfImage boot_memory 0x5040 = 0" "pe_ImageBase boot_memory 0x5040 = 0"
  "AddressOfEntryPoint boot_memory 0x5040 = 0x1000"
  by (simp_all add: starts_with_def boot_memory_def e_lfanew_def ld32_def SizeOfImage_def pe_ImageBase_def ld64_def AddressOfEntryPoint_def)

text \<open>The map is empty: the firmware reports a size of 0.\<close>

lemma boot_memory_map:
  assumes "l_mem s = boot_memory"
  shows "\<exists>lmap s'. MmRetrieveCurrentMemoryMap boot_firmware s = Some (lmap, s') \<and> l_mem s' = boot_memory \<and> l_binfo s' = l_binfo s"
proof -
  let ?a = "\<lparr>ma_size = 0, ma_key = 0, ma_descSize = 48, ma_descVer = 0\<rparr>"
  let ?s = "fill_memory_map 0x5000 ?a 0x5000 0 (upd_memmap 0x5000 (\<lambda>m. m\<lparr>lm_memEntries := 0x5000\<rparr>) s)"
  have "MmRetrieveCurrentMemoryMap boot_firmware s = Some (0x5000, ?s)"
    unfolding MmRetrieveCurrentMemoryMap_def Let_def by (simp add: boot_firmware_def null_firmware_def EFI_SUCCESS_def)
  moreover have "l_mem ?s = boot_memory" "l_binfo ?s = l_binfo s" using assms by (simp_all add: fill_memory_map_def upd_memmap_def)
  ultimately show ?thesis by blast
qed

text \<open>With any firmware that prints, an image without sections is started once the map is there.\<close>

lemma boot_start:
  assumes fits: "fits_buffer (fw_vsn fw)"
    and 1: "MmRetrieveCurrentMemoryMap fw s = Some (lmap, s1)" "l_mem s1 = boot_memory" "l_binfo s1 = 0x8000"
  shows "\<exists>s'. start_kernel fw b 0x5000 0x5040 entry phys pages s = Some (EntersKernel entry s')"
proof -
  note pr = ldr_print_frame[OF fits]
  obtain root s2 where 2: "LdrGetRSDPLocation fw s1 = Some (root, s2)" using find_rsdp_result[OF fits le0, of s1] by (auto simp: LdrGetRSDPLocation_def)
  note f2 = loader_fields[OF find_rsdp_frame[OF 2[unfolded LdrGetRSDPLocation_def]]]
  let ?m = "store_boot_info (l_binfo s2) (LdrGraphicsReturnData s2) lmap phys pages root (l_mem s2)"
  have "?m x = boot_memory x" if "x = 0x5046 \<or> x = 0x5047" for x
    using store_boot_info_outside[of x "0x8000" "LdrGraphicsReturnData s2" lmap phys pages root boot_memory] f2 1 that by auto
  then have "NumberOfSections ?m 0x5040 = 0" by (simp add: NumberOfSections_def ld16_def boot_memory_def)
  then have 3: "LoadSectionsIntoMemory fw 0x5000 0x5040 a (s2\<lparr>l_mem := ?m\<rparr>) = Some (s2\<lparr>l_mem := ?m\<rparr>)" for a
    unfolding LoadSectionsIntoMemory_def by (subst load_sections.simps) simp
  let ?s3 = "s2\<lparr>l_mem := ?m\<rparr>"
  obtain s4 where 4: "ldr_print fw TERM_STATUS_PASS ''About to jump to kernel!'' [] ?s3 = Some s4" using pr by blast
  obtain s5 where 5: "ldr_print fw TERM_STATUS_INFO ''BootInfo is located at 0x%x'' [b] s4 = Some s5" using pr by blast
  obtain s6 where 6: "ldr_print fw TERM_STATUS_UNKNOWN '' '' [] s5 = Some s6" using pr by blast
  obtain s7 where 7: "ldr_print fw TERM_STATUS_UNKNOWN '' '' [] s6 = Some s7" using pr by blast
  show ?thesis
    unfolding start_kernel_def 1(1) 2 Option.bind.bind_lunit prod.case Let_def 3 4 5 6 7 by (simp split: prod.split)
qed

text \<open>The same machine with a firmware that numbers its maps, makes a new one for every pool it gives, and checks the key; its state is the
  number, and whether the services run.\<close>

definition keyed_firmware :: "(nat \<times> bool) firmware" where
  "keyed_firmware = boot_firmware\<lparr>GetMemoryMap := (\<lambda>a b s. (0, a\<lparr>ma_descSize := 48, ma_size := 0, ma_key := of_nat (fst (l_fw s))\<rparr>, s)),
     AllocatePool := (\<lambda>t n p s. (0, 0x5000, s\<lparr>l_fw := (Suc (fst (l_fw s)), snd (l_fw s))\<rparr>)),
     ExitBootServices := (\<lambda>h k s. if k = of_nat (fst (l_fw s)) then (0, s\<lparr>l_fw := (fst (l_fw s), False)\<rparr>) else (2, s))\<rparr>"

lemma keyed_firmware_keyed: "keyed_map keyed_firmware (of_nat \<circ> fst) snd"
  by (auto simp: keyed_map_def keyed_firmware_def boot_firmware_def null_firmware_def EFI_SUCCESS_def split: if_splits)

lemma kernel_entered_with_boot_services_witness:
  "\<exists>s'. start_kernel keyed_firmware 0 0x5000 0x5040 0x1000 0x200000 0 (boot_loader (7, True)) = Some (EntersKernel 0x1000 s') \<and> snd (l_fw s')"
proof -
  let ?s = "boot_loader (7 :: nat, True)\<lparr>l_fw := (10, True)\<rparr>"
  let ?a = "\<lparr>ma_size = 0, ma_key = 9, ma_descSize = 48, ma_descVer = 0\<rparr>"
  let ?t = "fill_memory_map 0x5000 ?a 0x5000 0 (upd_memmap 0x5000 (\<lambda>m. m\<lparr>lm_memEntries := 0x5000\<rparr>) ?s)"
  have fits: "fits_buffer (fw_vsn keyed_firmware)" using boot_firmware_fits by (simp add: keyed_firmware_def)
  have 1: "MmRetrieveCurrentMemoryMap keyed_firmware (boot_loader (7, True)) = Some (0x5000, ?t)"
    unfolding MmRetrieveCurrentMemoryMap_def Let_def
    by (simp add: keyed_firmware_def boot_firmware_def null_firmware_def EFI_SUCCESS_def boot_loader_fields)
  have 2: "l_mem ?t = boot_memory" "l_binfo ?t = 0x8000" by (simp_all add: fill_memory_map_def upd_memmap_def boot_loader_fields)
  from boot_start[OF fits 1 2] obtain s' where
    s': "start_kernel keyed_firmware 0 0x5000 0x5040 0x1000 0x200000 0 (boot_loader (7, True)) = Some (EntersKernel 0x1000 s')" by blast
  obtain t t' where p: "entries_pool keyed_firmware (boot_loader (7, True)) = (t, t')" by fastforce
  then have "fst (l_fw t') = 10" "fst (l_fw t) = 9"
    by (auto simp: entries_pool_def keyed_firmware_def boot_firmware_def null_firmware_def EFI_SUCCESS_def boot_loader_fields Let_def)
  with s' kernel_entered_with_boot_services[OF keyed_firmware_keyed 1 _ s' p] show ?thesis by (simp add: boot_loader_fields)
qed

lemma kernel_entered_only_if_pe_witness:
  "\<exists>s' t m. LdrPeLoadPEImageAsKernel boot_firmware (\<lambda>_. 0) 0 0x7000 (boot_loader ()) = Some (EntersKernel 0x1000 s') \<and>
     starts_with m 0x5000 [0x4D, 0x5A] \<and> MmMapHigherHalfMemoryForKernel boot_firmware 0x200000 0 (boot_loader ()) = Some (True, t)"
proof -
  let ?s = "boot_loader ()"
  have o: "SFsOpenFile boot_firmware (\<lambda>_. 0) (\<lambda>i. l_mem ?s (0x7000 + i)) EFI_FILE_MODE_READ ?s = (0x77, ?s)"
    by (simp add: SFsOpenFile_def boot_loader_fields boot_firmware_def)
  have r: "SFsReadFileContent boot_firmware 0x77 ?s = Some (0x5000, Some 0, ?s)"
    by (simp add: SFsReadFileContent_def measure_file.simps boot_firmware_def null_firmware_def EFI_SUCCESS_def)
  have c: "SFsCloseFile boot_firmware 0x77 ?s = (True, ?s)"
    by (simp add: SFsCloseFile_def boot_firmware_def null_firmware_def EFI_SUCCESS_def)
  have mem: "l_mem ?s = boot_memory" by (simp add: boot_loader_fields)
  have load: "LdrPeLoadPEImageAsKernel boot_firmware (\<lambda>_. 0) 0 0x7000 ?s = load_image boot_firmware 0 0x7000 0x5000 0x5040 ?s"
    unfolding LdrPeLoadPEImageAsKernel_def Let_def o prod.case r Option.bind.bind_lunit c by (simp add: mem boot_headers)
  obtain t1 where t1: "ldr_print boot_firmware TERM_STATUS_PASS (''%s is a valid kernel!'' @ [CHR 0x0A]) [0x7000] ?s = Some t1"
    "lterm.more t1 = lterm.more ?s"
    using ldr_print_frame[OF boot_firmware_fits] by blast
  note f1 = loader_fields[OF t1(2)]
  have tm: "l_mem t1 = boot_memory" using f1 mem by simp
  have al: "AllocatePages boot_firmware AllocateAnyPages EfiLoaderData 0 0 t1 = (EFI_SUCCESS, 0x200000, t1)"
    by (simp add: boot_firmware_def EFI_SUCCESS_def)
  define t2 where "t2 = LdrMmUpdateCr3 (l_pml4 t1) t1"
  have mp: "MmMapHigherHalfMemoryForKernel boot_firmware 0x200000 0 u = Some (True, LdrMmUpdateCr3 (l_pml4 u) u)" for u
    by (simp add: MmMapHigherHalfMemoryForKernel_def map_higher_half.simps)
  obtain t3 where t3: "ldr_print boot_firmware TERM_STATUS_PASS ''Kernel physical base is located at 0x%x, page size is %d'' [0x200000, 0] t2 = Some t3"
    "lterm.more t3 = lterm.more t2"
    using ldr_print_frame[OF boot_firmware_fits] by blast
  have f3: "l_mem t3 = boot_memory" "l_binfo t3 = 0x8000"
    using loader_fields[OF t3(2)] f1 by (simp_all add: t2_def LdrMmUpdateCr3_def boot_loader_fields)
  obtain s' where "start_kernel boot_firmware 0 0x5000 0x5040 0x1000 0x200000 0 t3 = Some (EntersKernel 0x1000 s')"
    using boot_memory_map[OF f3(1)] boot_start[OF boot_firmware_fits] f3(2) by metis
  then have run: "LdrPeLoadPEImageAsKernel boot_firmware (\<lambda>_. 0) 0 0x7000 ?s = Some (EntersKernel 0x1000 s')"
    unfolding load load_image_def t1(1) Option.bind.bind_lunit Let_def by (simp add: tm boot_headers al mp t2_def [symmetric] t3(1) f3(1))
  from kernel_entered_only_if_pe[OF run] o r obtain m where "starts_with m 0x5000 [0x4D, 0x5A]" by auto
  with run mp show ?thesis by blast
qed

end
