(* ===== verification/LdrPaging.thy ===== *)
theory LdrPaging
  imports LdrTree
begin

text \<open>
  \<open>MmInitPaging\<close>: which addresses the loader's first page tables map, and what it reports when the firmware runs out of pages.
\<close>

section \<open>Mapping a page changes only the memory\<close>

lemma walk_level_only:
  assumes "gives_fresh_pages fw held spare" and "walk_level lget lset (LdrGetNextLevel fw) t i s = (r, s')"
  shows "only_memory s s'"
proof (cases "lget s t i = 0")
  case False
  then show ?thesis using assms(2) only_memory_intros(1) by (simp add: walk_level_def)
next
  case True
  obtain x s1 where n: "LdrGetNextLevel fw s = (x, s1)" by fastforce
  note o = LdrGetNextLevel_result(1)[OF assms(1) n]
  show ?thesis
  proof (cases x)
    case None
    then show ?thesis using assms(2) True n o by (simp add: walk_level_def)
  next
    case (Some a)
    then have "s' = lset t i (a OR PG_PRESENT OR PG_READ_WRITE) s1" using assms(2) True n by (simp add: walk_level_def)
    then show ?thesis using only_memory_trans[OF o only_memory_intros(3)] by simp
  qed
qed

lemma map_walk_only:
  assumes fresh: "gives_fresh_pages fw held spare" and m: "map_walk lget lset (LdrGetNextLevel fw) root phys virt s = (r, s')"
  shows "only_memory s s'"
proof -
  let ?wl = "walk_level lget lset (LdrGetNextLevel fw)"
  obtain r1 s1 where 1: "?wl root (GET_PML4_ENTRY virt) s = (r1, s1)" by fastforce
  define t1 where "t1 = PARSE_ENTRY_VALUE (lget s1 root (GET_PML4_ENTRY virt))"
  obtain r2 s2 where 2: "?wl t1 (GET_PDPT_ENTRY virt) s1 = (r2, s2)" by fastforce
  define t2 where "t2 = PARSE_ENTRY_VALUE (lget s2 t1 (GET_PDPT_ENTRY virt))"
  obtain r3 s3 where 3: "?wl t2 (GET_PD_ENTRY virt) s2 = (r3, s3)" by fastforce
  note o = walk_level_only[OF fresh 1] only_memory_trans[OF walk_level_only[OF fresh 1] walk_level_only[OF fresh 2]]
  note o3 = only_memory_trans[OF o(2) walk_level_only[OF fresh 3]]
  from m have "s' = s1 \<or> s' = s2 \<or> s' = s3 \<or> (\<exists>t i v. s' = lset t i v s3)"
    unfolding map_walk_def 1 prod.case Let_def t1_def [symmetric] 2 t2_def [symmetric] 3
    by (cases r1; cases r2; cases r3) auto
  then show ?thesis using o o3 only_memory_trans[OF o3 only_memory_intros(3)] by blast
qed

definition ldr_mapped :: "'f loader \<Rightarrow> u64 \<Rightarrow> bool" where
  "ldr_mapped s w \<longleftrightarrow> ldr_translation s w \<noteq> 0"

text \<open>What is kept while pages are mapped: with \<open>n\<close> mappings still to pay for.\<close>

definition paging_step :: "('f \<Rightarrow> nat set) \<Rightarrow> ('f \<Rightarrow> nat) \<Rightarrow> nat \<Rightarrow> 'f loader \<Rightarrow> 'f loader \<Rightarrow> bool" where
  "paging_step held spare n s s' \<longleftrightarrow> ldr_tree held s' \<and> only_memory s s' \<and> (\<forall>w. ldr_mapped s w \<longrightarrow> ldr_mapped s' w) \<and>
     spare (l_fw s) \<le> spare (l_fw s') + 3 * n"

lemma paging_step_refl: "ldr_tree held s \<Longrightarrow> paging_step held spare 0 s s"
  by (simp add: paging_step_def only_memory_intros)

lemma paging_step_trans: "paging_step held spare m s t \<Longrightarrow> paging_step held spare n t u \<Longrightarrow> paging_step held spare (m + n) s u"
  using only_memory_trans[of s t u] by (auto simp: paging_step_def)

lemma map_page_step:
  assumes fresh: "gives_fresh_pages fw held spare" and tree: "ldr_tree held s" and s': "s' = snd (MmMapSinglePage fw phys virt s)"
  shows "paging_step held spare 1 s s'" and "3 \<le> spare (l_fw s) \<Longrightarrow> ldr_mapped s' virt"
proof -
  obtain r where m: "MmMapSinglePage fw phys virt s = (r, s')" using s' by (metis prod.collapse)
  note p = MmMapSinglePage_result[OF fresh tree m]
  have "only_memory s s'" by (rule map_walk_only[OF fresh m[unfolded MmMapSinglePage_walk[OF fresh]]])
  then show "paging_step held spare 1 s s'" using p leaf_nonzero by (simp add: paging_step_def ldr_mapped_def)
  show "ldr_mapped s' virt" if "3 \<le> spare (l_fw s)"
    using p(3)[of virt] p(4)[OF that] leaf_nonzero by (simp add: ldr_mapped_def same_slot_def)
qed

section \<open>The identity mapping of a range\<close>

definition pages_in :: "u64 \<Rightarrow> nat" where
  "pages_in n = (unat n + 4095) div 4096"

definition range_mapped :: "'f loader \<Rightarrow> u64 \<Rightarrow> u64 \<Rightarrow> bool" where
  "range_mapped s base n \<longleftrightarrow> (\<forall>k. k * 4096 < unat n \<longrightarrow> ldr_mapped s (base + of_nat k * PAGE_SIZE))"

lemma range_mapped_mono: "paging_step held spare m s s' \<Longrightarrow> range_mapped s base n \<Longrightarrow> range_mapped s' base n"
  by (simp add: range_mapped_def paging_step_def)

lemma identity_map_result:
  fixes s :: "'f loader"
  assumes fresh: "gives_fresh_pages fw held spare" and tree: "ldr_tree held s" and n: "unat n \<le> 18446744073709547520"
  obtains s' where "identity_map fw base n s = Some s'" and "paging_step held spare (pages_in n) s s'"
    and "3 * pages_in n \<le> spare (l_fw s) \<Longrightarrow> range_mapped s' base n"
proof -
  define body where "body = (\<lambda>k (s :: 'f loader). snd (MmMapSinglePage fw (base + (0 + k * PAGE_SIZE)) (base + (0 + k * PAGE_SIZE)) s))"
  define s' where "s' = for_upto (pages_in n) body s"
  have run: "identity_map fw base n s = Some s'"
    unfolding identity_map_def stride_loop_result[OF n] s'_def body_def pages_in_def by simp
  have loop: "paging_step held spare m s (for_upto m body s) \<and>
    (3 * m \<le> spare (l_fw s) \<longrightarrow> (\<forall>k < m. ldr_mapped (for_upto m body s) (base + of_nat k * PAGE_SIZE)))" for m
  proof (induction m)
    case 0
    then show ?case using paging_step_refl[OF tree] by simp
  next
    case (Suc m)
    let ?t = "for_upto m body s"
    have t: "ldr_tree held ?t" using Suc by (simp add: paging_step_def)
    have u: "for_upto (Suc m) body s = snd (MmMapSinglePage fw (base + (0 + of_nat m * PAGE_SIZE)) (base + (0 + of_nat m * PAGE_SIZE)) ?t)"
      by (simp add: for_upto_Suc body_def)
    note p = map_page_step[OF fresh t u]
    have "paging_step held spare (Suc m) s (for_upto (Suc m) body s)"
      using paging_step_trans[OF Suc[THEN conjunct1] p(1)] by simp
    moreover have "ldr_mapped (for_upto (Suc m) body s) (base + of_nat k * PAGE_SIZE)"
      if "3 * Suc m \<le> spare (l_fw s)" "k < Suc m" for k
    proof (cases "k = m")
      case True
      have "spare (l_fw s) \<le> spare (l_fw ?t) + 3 * m" using Suc by (simp add: paging_step_def)
      then show ?thesis using p(2) that(1) True by simp
    next
      case False
      then have "ldr_mapped ?t (base + of_nat k * PAGE_SIZE)" using Suc that by simp
      then show ?thesis using p(1) by (simp add: paging_step_def)
    qed
    ultimately show ?case by blast
  qed
  have "range_mapped s' base n" if "3 * pages_in n \<le> spare (l_fw s)"
  proof -
    have "k < pages_in n" if "k * 4096 < unat n" for k using that by (simp add: pages_in_def)
    then show ?thesis using loop[of "pages_in n"] that by (simp add: range_mapped_def s'_def)
  qed
  then show thesis using that[OF run] loop[of "pages_in n"] by (simp add: s'_def)
qed

section \<open>All entries of the map\<close>

definition map_entry_at :: "'f loader \<Rightarrow> u64 \<Rightarrow> u64 \<Rightarrow> MemoryMapEntry" where
  "map_entry_at s lmap i = l_entry s (lm_memEntries (l_memmap s lmap) + i * SIZEOF_MEMORY_MAP_ENTRY)"

lemma map_entry_at_same: "only_memory s s' \<Longrightarrow> map_entry_at s' lmap = map_entry_at s lmap"
  using only_memory_fields[of s s'] by (simp add: map_entry_at_def fun_eq_iff)

lemma map_all_entries_result:
  fixes s :: "'f loader"
  assumes fresh: "gives_fresh_pages fw held spare"
  shows "ldr_tree held s \<Longrightarrow> N = unat (lm_amountOfEntries (l_memmap s lmap)) \<Longrightarrow> i \<le> N \<Longrightarrow>
    (\<And>j. i \<le> j \<Longrightarrow> j < N \<Longrightarrow> unat (lme_size (map_entry_at s lmap (of_nat j))) \<le> 18446744073709547520) \<Longrightarrow>
    P = (\<Sum>j = i..<N. pages_in (lme_size (map_entry_at s lmap (of_nat j)))) \<Longrightarrow>
    \<exists>s'. map_all_entries fw lmap (of_nat i) s = Some s' \<and> paging_step held spare P s s' \<and>
      (3 * P \<le> spare (l_fw s) \<longrightarrow> (\<forall>j. i \<le> j \<and> j < N \<longrightarrow>
        range_mapped s' (lme_base (map_entry_at s lmap (of_nat j))) (lme_size (map_entry_at s lmap (of_nat j)))))"
proof (induction "N - i" arbitrary: i s P)
  case 0
  then have "i = N" by simp
  then have "map_all_entries fw lmap (of_nat i) s = Some s" using 0(3) by (subst map_all_entries.simps) simp
  then show ?case using paging_step_refl[OF 0(2), of spare] 0(6) \<open>i = N\<close> by auto
next
  case (Suc d)
  then have i: "i < N" "d = N - Suc i" "Suc i \<le> N" by simp_all
  have N: "N < 18446744073709551616" using Suc(4) unat_lt_2p64 by simp
  have lt: "(of_nat i :: u64) < lm_amountOfEntries (l_memmap s lmap)" using i(1) N Suc(4) by (simp add: word_less_nat_alt unat_of_nat_u64)
  let ?e = "\<lambda>j. map_entry_at s lmap (of_nat j)"
  have P: "P = pages_in (lme_size (?e i)) + (\<Sum>j = Suc i..<N. pages_in (lme_size (?e j)))"
    using Suc(7) i(1) by (simp add: sum.atLeast_Suc_lessThan)
  have size: "unat (lme_size (?e i)) \<le> 18446744073709547520" using Suc(6) i(1) by simp
  obtain t where t: "identity_map fw (lme_base (?e i)) (lme_size (?e i)) s = Some t" "paging_step held spare (pages_in (lme_size (?e i))) s t"
    "3 * pages_in (lme_size (?e i)) \<le> spare (l_fw s) \<Longrightarrow> range_mapped t (lme_base (?e i)) (lme_size (?e i))"
    by (rule identity_map_result[OF fresh Suc(3) size, of "lme_base (?e i)"]) blast
  have o: "only_memory s t" "ldr_tree held t" using t(2) by (simp_all add: paging_step_def)
  note same = map_entry_at_same[OF o(1), of lmap]
  have N': "N = unat (lm_amountOfEntries (l_memmap t lmap))" using Suc(4) only_memory_fields[OF o(1)] by simp
  have size': "unat (lme_size (map_entry_at t lmap (of_nat j))) \<le> 18446744073709547520" if "Suc i \<le> j" "j < N" for j
    unfolding same using Suc(6) that by simp
  obtain s' where s': "map_all_entries fw lmap (of_nat (Suc i)) t = Some s'"
    "paging_step held spare (\<Sum>j = Suc i..<N. pages_in (lme_size (?e j))) t s'"
    "3 * (\<Sum>j = Suc i..<N. pages_in (lme_size (?e j))) \<le> spare (l_fw t) \<longrightarrow> (\<forall>j. Suc i \<le> j \<and> j < N \<longrightarrow> range_mapped s' (lme_base (?e j)) (lme_size (?e j)))"
    using Suc(1)[OF i(2) o(2) N' i(3) size' refl] unfolding same by blast
  have run: "map_all_entries fw lmap (of_nat i) s = Some s'"
    using lt t(1) s'(1) by (subst map_all_entries.simps) (simp add: map_entry_at_def Let_def add.commute)
  have step: "paging_step held spare P s s'" unfolding P by (rule paging_step_trans[OF t(2) s'(2)])
  have "range_mapped s' (lme_base (?e j)) (lme_size (?e j))" if "3 * P \<le> spare (l_fw s)" "i \<le> j" "j < N" for j
  proof (cases "j = i")
    case True
    have "range_mapped t (lme_base (?e i)) (lme_size (?e i))" using t(3) that(1) P by simp
    then show ?thesis using range_mapped_mono[OF s'(2)] True by simp
  next
    case False
    have "3 * (\<Sum>j = Suc i..<N. pages_in (lme_size (?e j))) \<le> spare (l_fw t)"
      using that(1) t(2) P by (simp add: paging_step_def)
    then show ?thesis using s'(3) that False by simp
  qed
  with run step show ?case by blast
qed

text \<open>
  C11: \<open>MmInitPaging\<close> returns whenever the memory map is there and no region reaches into the last page of the address space, and always reports
  success. The tables it activates are a tree, and if the firmware has three pages for each page to map, every page of every entry of the
  map is mapped, and so are the pages of the frame buffer; with fewer pages it reports success all the same.
\<close>

theorem init_paging_maps_memory:
  fixes s :: "'f loader"
  assumes "gives_fresh_pages fw held spare" and "MmRetrieveCurrentMemoryMap fw s = Some (lmap, s1)" and "ldr_tree held s1"
    and N_def: "N = unat (lm_amountOfEntries (l_memmap s1 lmap))"
    and size: "\<And>j. j < N \<Longrightarrow> unat (lme_size (map_entry_at s1 lmap (of_nat j))) \<le> 18446744073709547520"
    and pixels_def: "pixels = lg_framebufferSize (lgraphics s1) * 0x1000" and pixels: "unat pixels \<le> 18446744073709547520"
  shows "\<exists>s'. MmInitPaging fw s = Some (True, s') \<and> ldr_tree held s' \<and> l_cr3 s' = l_pml4 s' \<and> l_pml4 s' = l_pml4 s1 \<and>
    (3 * ((\<Sum>j < N. pages_in (lme_size (map_entry_at s1 lmap (of_nat j)))) + pages_in pixels) \<le> spare (l_fw s1) \<longrightarrow>
      (\<forall>j < N. range_mapped s' (lme_base (map_entry_at s1 lmap (of_nat j))) (lme_size (map_entry_at s1 lmap (of_nat j)))) \<and>
      range_mapped s' (lg_framebufferBase (lgraphics s1)) pixels)"
proof -
  let ?e = "\<lambda>j. map_entry_at s1 lmap (of_nat j)"
  define P where "P = (\<Sum>j = 0..<N. pages_in (lme_size (?e j)))"
  obtain s2 where 2: "map_all_entries fw lmap 0 s1 = Some s2" "paging_step held spare P s1 s2"
    "3 * P \<le> spare (l_fw s1) \<longrightarrow> (\<forall>j. 0 \<le> j \<and> j < N \<longrightarrow> range_mapped s2 (lme_base (?e j)) (lme_size (?e j)))"
    using map_all_entries_result[OF assms(1,3) N_def le0 size P_def] by auto
  have o: "only_memory s1 s2" "ldr_tree held s2" using 2(2) by (simp_all add: paging_step_def)
  note f = only_memory_fields[OF o(1)]
  obtain s3 where 3: "identity_map fw (lg_framebufferBase (lgraphics s1)) pixels s2 = Some s3" "paging_step held spare (pages_in pixels) s2 s3"
    "3 * pages_in pixels \<le> spare (l_fw s2) \<Longrightarrow> range_mapped s3 (lg_framebufferBase (lgraphics s1)) pixels"
    by (rule identity_map_result[OF assms(1) o(2) pixels]) blast
  have t3: "ldr_tree held s3" "l_pml4 s3 = l_pml4 s1"
    using 3(2) only_memory_fields[of s2 s3] f by (simp_all add: paging_step_def)
  let ?s = "LdrMmUpdateCr3 (l_pml4 s3) s3"
  have run: "MmInitPaging fw s = Some (True, ?s)"
    using 2(1) 3(1) f by (simp add: MmInitPaging_def assms(2) LdrGraphicsReturnData_def pixels_def)
  have c: "lget ?s = lget s3" "ldr_page held ?s = ldr_page held s3" "l_pml4 ?s = l_pml4 s3" "l_cr3 ?s = l_pml4 s3"
    by (simp_all add: fun_eq_iff lget_def ldr_page_def LdrMmUpdateCr3_def)
  have "ldr_translation ?s = ldr_translation s3" unfolding ldr_translation_def c by (rule refl)
  then have m: "ldr_tree held ?s" "range_mapped ?s = range_mapped s3"
    using t3(1) unfolding ldr_tree_def c by (simp_all add: range_mapped_def ldr_mapped_def fun_eq_iff)
  let ?sum = "\<Sum>j < N. pages_in (lme_size (?e j))"
  have sum: "?sum = P" by (simp add: P_def atLeast0LessThan)
  have all: "(\<forall>j < N. range_mapped s3 (lme_base (?e j)) (lme_size (?e j))) \<and> range_mapped s3 (lg_framebufferBase (lgraphics s1)) pixels"
    if enough: "3 * (P + pages_in pixels) \<le> spare (l_fw s1)"
  proof -
    have p: "3 * P \<le> spare (l_fw s1)" "3 * pages_in pixels \<le> spare (l_fw s2)" using enough 2(2) by (simp_all add: paging_step_def)
    have "range_mapped s2 (lme_base (?e j)) (lme_size (?e j))" if "j < N" for j using 2(3) p(1) that by simp
    then show ?thesis using range_mapped_mono[OF 3(2)] 3(3)[OF p(2)] by blast
  qed
  show ?thesis unfolding sum
    by (rule exI[of _ ?s]) (use run m c t3(2) all in simp)
qed

text \<open>A machine whose map has one region of two pages and whose frame buffer is reported with a size of 3.\<close>

definition paging_firmware :: "nat firmware" where
  "paging_firmware = page_firmware\<lparr>GetMemoryMap := (\<lambda>a b s. (0, a\<lparr>ma_size := 48, ma_descSize := 48\<rparr>, s)), AllocatePool := (\<lambda>t n p s. (0, 0x5000, s))\<rparr>"

definition paging_loader :: "nat loader" where
  "paging_loader = loader_with 16\<lparr>lgraphics := lgraphics (loader_with (16 :: nat))\<lparr>lg_framebufferBase := 0x80000000, lg_framebufferSize := 3\<rparr>\<rparr>"

lemma paging_firmware_fresh: "gives_fresh_pages paging_firmware (\<lambda>k. {..<k}) (\<lambda>k. 1000 - k)"
  using page_firmware_fresh by (simp add: gives_fresh_pages_def paging_firmware_def)

lemma init_paging_maps_memory_witness:
  "\<exists>s'. MmInitPaging paging_firmware paging_loader = Some (True, s') \<and> ldr_mapped s' 0x6000 \<and> ldr_mapped s' 0x80002000"
proof -
  let ?a = "\<lparr>ma_size = 48, ma_key = 0, ma_descSize = 48, ma_descVer = 0\<rparr>"
  let ?t = "fill_memory_map 0x5000 ?a 0x5000 1 (upd_memmap 0x5000 (\<lambda>m. m\<lparr>lm_memEntries := 0x5000\<rparr>) paging_loader)"
  have 1: "MmRetrieveCurrentMemoryMap paging_firmware paging_loader = Some (0x5000, ?t)"
    unfolding MmRetrieveCurrentMemoryMap_def Let_def
    by (simp add: paging_firmware_def page_firmware_def null_firmware_def EFI_SUCCESS_def)
  have l: "lgraphics ?t = lgraphics paging_loader" "l_mem ?t = (\<lambda>_. 0)" "l_pml4 ?t = 0x4000" "l_fw ?t = 16"
    by (simp_all add: fill_memory_map_def upd_memmap_def upd_entry_def copy_descriptor_def paging_loader_def loader_with_def lterm.extend_def Let_def)
  have e: "lm_amountOfEntries (l_memmap ?t 0x5000) = 1" "map_entry_at ?t 0x5000 0 = \<lparr>lme_base = 0x5000, lme_size = 0x2000, lme_type = entry_type 7\<rparr>"
    by (simp_all add: map_entry_at_def fill_memory_map_def upd_memmap_def upd_entry_def copy_descriptor_def paging_loader_def loader_with_def lterm.extend_def Let_def)
  have g: "lg_framebufferBase (lgraphics ?t) = 0x80000000" "lg_framebufferSize (lgraphics ?t) = 3"
    unfolding l(1) by (simp_all add: paging_loader_def)
  have tree: "ldr_tree (\<lambda>k. {..<k}) ?t"
    unfolding ldr_tree_def by (rule empty_root) (simp_all add: ldr_page_def page_aligned_def pgno_def lget_def ld64_def l)
  have "\<exists>s'. MmInitPaging paging_firmware paging_loader = Some (True, s') \<and>
    range_mapped s' 0x5000 0x2000 \<and> range_mapped s' 0x80000000 0x3000"
    using init_paging_maps_memory[OF paging_firmware_fresh 1 tree refl _ refl] unfolding g by (auto simp: e l pages_in_def)
  then obtain s' where s': "MmInitPaging paging_firmware paging_loader = Some (True, s')" "range_mapped s' 0x5000 0x2000" "range_mapped s' 0x80000000 0x3000"
    by blast
  have "ldr_mapped s' (0x5000 + of_nat 1 * PAGE_SIZE)" "ldr_mapped s' (0x80000000 + of_nat 2 * PAGE_SIZE)"
    using s'(2)[unfolded range_mapped_def, rule_format, of 1] s'(3)[unfolded range_mapped_def, rule_format, of 2] by simp_all
  with s'(1) show ?thesis by (auto simp: PAGE_SIZE_def)
qed

end
