(* ===== verification/Handover.thy ===== *)
theory Handover
  imports LdrProps PmmProps
begin

text \<open>
  Loader and kernel together: the map that the loader translates from the firmware's descriptors, and the physical memory manager that the kernel
  builds from it.
\<close>

text \<open>The numbers of the pages of a descriptor.\<close>

definition descriptor_pages :: "EFI_MEMORY_DESCRIPTOR \<Rightarrow> u64 set" where
  "descriptor_pages d = {GetPageLocationFromAddress (ed_PhysicalStart d + j * PAGE_SIZE) | j. j < ed_NumberOfPages d}"

lemma IN_PAGES_of_pages:
  assumes "unat n \<le> 0xFFFFFFFFFFFFE"
  shows "IN_PAGES (n * 4096) = n"
proof -
  have m: "unat (n * 4096) = unat n * 4096" using assms by (subst unat_mult_no_wrap) simp_all
  have "unat (n * 4096 + 4095) = unat n * 4096 + 4095" using assms by (subst unat_add_no_wrap) (simp_all add: m)
  then have "unat ((n * 4096 + 4095) div 4096) = unat n" by (simp add: unat_div)
  then show ?thesis by (simp add: IN_PAGES_def PAGE_SIZE_def word_unat_eq_iff)
qed

lemma entry_of_descriptor:
  assumes "unat (ed_NumberOfPages d) \<le> 0xFFFFFFFFFFFFE"
  shows "entry_pages (boot_entry (of_descriptor d)) = descriptor_pages d"
    and "me_type (boot_entry (of_descriptor d)) = BOOT_MEM_TYPE_FREE \<longleftrightarrow> ed_Type d = 7"
  using IN_PAGES_of_pages[OF assms]
  by (simp_all add: entry_pages_def descriptor_pages_def boot_entry_def of_descriptor_def entry_type_def)

lemma map_entries_handover:
  assumes "unat n \<le> 0x100000000000000" and "lm_sizeOfEntireMemory (l_memmap s p) = 0"
  shows "map_entries (kernel_map (fill_memory_map buf a p n s) p) =
    map (\<lambda>k. boot_entry (of_descriptor (l_desc s (buf + of_nat k * ma_descSize a)))) [0..<unat n]"
  by (simp add: map_entries_def kernel_map_result[OF assms] Let_def comp_def)

text \<open>The pages that the initialised manager takes for free.\<close>

lemma free_after_init:
  assumes i: "MmInitPhysicalMemoryManager mm k = (STATUS_SUCCESS, k1)" and b: "\<not> page_bit k1 q"
  shows "(\<forall>e \<in> set (map_entries mm). me_type e \<noteq> BOOT_MEM_TYPE_FREE \<longrightarrow> q \<notin> entry_pages e) \<and>
    (q div 8 < bitmapSize k1 \<longrightarrow> (\<exists>e \<in> set (map_entries mm). me_type e = BOOT_MEM_TYPE_FREE \<and> q \<in> entry_pages e))"
proof -
  have nz: "bitmapSize (init_counts mm k) \<noteq> 0"
  proof
    assume "bitmapSize (init_counts mm k) = 0"
    then have "fst (MmInitPhysicalMemoryManager mm k) = STATUS_NO_VALID_MEMORY"
      by (simp add: MmInitPhysicalMemoryManager_def init_counts_def Let_def)
    with i show False by simp
  qed
  from init_page_bit[OF nz, of q] b i show ?thesis by (auto simp: init_fields(4)[OF nz, unfolded i snd_conv])
qed

text \<open>
  C2: across the hand-over no memory that the firmware keeps is given out: when the kernel's manager has started from the map that the loader
  translated, every page that any run of single-page allocations returns lies outside all descriptors that are not conventional memory, and, as far as
  the bitmap reaches, inside one that is.
\<close>

theorem firmware_memory_never_given_out:
  assumes "unat n \<le> 0x100000000000000" and "lm_sizeOfEntireMemory (l_memmap s p) = 0"
    and "\<forall>i < unat n. unat (ed_NumberOfPages (l_desc s (buf + of_nat i * ma_descSize a))) \<le> 0xFFFFFFFFFFFFE"
    and "MmInitPhysicalMemoryManager (kernel_map (fill_memory_map buf a p n s) p) k = (STATUS_SUCCESS, k1)" and "pmm_wf k1"
    and "alloc_many MmAllocateSinglePage m k1 = (as, k2)" and "x \<in> set as"
  shows "(\<forall>i < unat n. ed_Type (l_desc s (buf + of_nat i * ma_descSize a)) \<noteq> 7 \<longrightarrow>
      GetPageLocationFromAddress x \<notin> descriptor_pages (l_desc s (buf + of_nat i * ma_descSize a))) \<and>
    (GetPageLocationFromAddress x div 8 < bitmapSize k1 \<longrightarrow>
      (\<exists>i < unat n. ed_Type (l_desc s (buf + of_nat i * ma_descSize a)) = 7 \<and>
        GetPageLocationFromAddress x \<in> descriptor_pages (l_desc s (buf + of_nat i * ma_descSize a))))"
proof -
  have "x \<in> managed_pages k1 - inuse_pages k1" using bitmap_pmm.alloc_many_inv[OF assms(5,6)] assms(7) by blast
  then obtain q where q: "x = GetAddressFromPageLocation q" "0 < q" "q < pageCount k1" "\<not> page_bit k1 q"
    by (auto simp: managed_pages_def inuse_pages_def)
  have loc: "GetPageLocationFromAddress x = q" unfolding q(1) by (rule page_address_props(3)[OF page_small[OF assms(5) q(3)]])
  let ?d = "\<lambda>i. l_desc s (buf + of_nat i * ma_descSize a)"
  have e: "entry_pages (boot_entry (of_descriptor (?d i))) = descriptor_pages (?d i)"
    "me_type (boot_entry (of_descriptor (?d i))) = BOOT_MEM_TYPE_FREE \<longleftrightarrow> ed_Type (?d i) = 7" if "i < unat n" for i
    using entry_of_descriptor assms(3) that by blast+
  let ?es = "set (map_entries (kernel_map (fill_memory_map buf a p n s) p))"
  note f = free_after_init[OF assms(4) q(4)]
  have es: "?es = (\<lambda>i. boot_entry (of_descriptor (?d i))) ` {..<unat n}"
    unfolding map_entries_handover[OF assms(1,2)] by (simp add: atLeast0LessThan)
  show ?thesis
    unfolding loc
  proof (intro conjI allI impI)
    fix i
    assume i: "i < unat n" "ed_Type (?d i) \<noteq> 7"
    then have "boot_entry (of_descriptor (?d i)) \<in> ?es" unfolding es by blast
    with f e[OF i(1)] i(2) show "q \<notin> descriptor_pages (?d i)" by blast
  next
    assume "q div 8 < bitmapSize k1"
    with f obtain b where b: "b \<in> ?es" "me_type b = BOOT_MEM_TYPE_FREE" "q \<in> entry_pages b" by blast
    from b(1) obtain i where "i < unat n" "b = boot_entry (of_descriptor (?d i))" unfolding es by blast
    with b e show "\<exists>i < unat n. ed_Type (?d i) = 7 \<and> q \<in> descriptor_pages (?d i)" by blast
  qed
qed

text \<open>Two descriptors: sixteen pages of conventional memory, and two of ACPI memory inside them.\<close>

definition handover_loader :: "unit loader" where
  "handover_loader = sample_loader\<lparr>l_desc := (\<lambda>a. \<lparr>ed_Type = (if a = 0x1030 then 9 else 7), ed_PhysicalStart = (if a = 0x1030 then 0x8000 else 0),
     ed_VirtualStart = 0, ed_NumberOfPages = (if a = 0x1030 then 2 else 16), ed_Attribute = 0\<rparr>)\<rparr>"

lemma firmware_memory_never_given_out_witness:
  "\<exists>k1 as k2. MmInitPhysicalMemoryManager (kernel_map (fill_memory_map 0x1000 \<lparr>ma_size = 96, ma_key = 5, ma_descSize = 48, ma_descVer = 1\<rparr> 0x2000 2
       handover_loader) 0x2000) boot_pmm = (STATUS_SUCCESS, k1) \<and>
     alloc_many MmAllocateSinglePage 30 k1 = (as, k2) \<and> 0x8000 \<notin> set as \<and> 0x9000 \<notin> set as"
proof -
  let ?a = "\<lparr>ma_size = 96, ma_key = 5, ma_descSize = 48, ma_descVer = 1\<rparr>"
  let ?mm = "kernel_map (fill_memory_map 0x1000 ?a 0x2000 2 handover_loader) 0x2000"
  have z: "lm_sizeOfEntireMemory (l_memmap handover_loader 0x2000) = 0"
    by (simp add: handover_loader_def sample_loader_def loader_with_def lterm.extend_def)
  have two: "i = 0 \<or> i = Suc 0" if "i < 2" for i :: nat using that by auto
  have me: "map_entries ?mm = [boot_entry (of_descriptor (l_desc handover_loader 0x1000)), boot_entry (of_descriptor (l_desc handover_loader 0x1030))]"
    using map_entries_handover[of 2 handover_loader "0x2000" "0x1000" ?a] z by (simp add: upt_rec)
  have ip: "IN_PAGES 0x10000 = 16" "IN_PAGES 0x2000 = 2" by (simp_all add: IN_PAGES_def PAGE_SIZE_def)
  have counts: "pageCount (init_counts ?mm boot_pmm) = 18" "bitmapSize (init_counts ?mm boot_pmm) = 2"
    unfolding init_counts_eq me
    by (simp_all add: pages_of_def boot_entry_def of_descriptor_def entry_type_def handover_loader_def boot_pmm_def ip)
  then have nz: "bitmapSize (init_counts ?mm boot_pmm) \<noteq> 0" by simp
  define k1 where "k1 = snd (MmInitPhysicalMemoryManager ?mm boot_pmm)"
  have i: "MmInitPhysicalMemoryManager ?mm boot_pmm = (STATUS_SUCCESS, k1)"
    using init_fields(1)[OF nz] by (simp add: k1_def prod_eq_iff)
  have wf: "pmm_wf k1" using init_fields(2)[OF nz] counts by (simp add: k1_def pmm_wf_def)
  obtain as k2 where as: "alloc_many MmAllocateSinglePage 30 k1 = (as, k2)" by fastforce
  have "\<forall>i < unat (2 :: u64). unat (ed_NumberOfPages (l_desc handover_loader (0x1000 + of_nat i * ma_descSize ?a))) \<le> 0xFFFFFFFFFFFFE"
    using two by (auto simp: handover_loader_def)
  note safe = firmware_memory_never_given_out[OF _ z this i wf as, THEN conjunct1, rule_format, of _ 1]
  have acpi: "GetPageLocationFromAddress 0x8000 \<in> descriptor_pages (l_desc handover_loader 0x1030)"
    "GetPageLocationFromAddress 0x9000 \<in> descriptor_pages (l_desc handover_loader 0x1030)"
    unfolding descriptor_pages_def handover_loader_def
    by (auto intro: exI[of _ 0]) (auto intro!: exI[of _ 1] simp: PAGE_SIZE_def)
  have "0x8000 \<notin> set as" "0x9000 \<notin> set as"
    using safe[of "0x8000"] safe[of "0x9000"] acpi by (auto simp: handover_loader_def)
  with i as show ?thesis by blast
qed

end
