(* ===== verification/UacpiBits.thy ===== *)
theory UacpiBits
  imports QMem
begin

text \<open>
  The bit fields of AML buffers, \<open>io.c\<close> of uACPI: a field is a run of bits of a buffer at any bit offset. Reading it gives its bits from
  bit 0 on, writing it changes its bits only.
\<close>

section \<open>Definitions\<close>

record uacpi_buffer =
  ub_data :: u64
  ub_size :: u64

record uacpi_buffer_field =
  backing :: uacpi_buffer
  bit_index :: u64
  bit_length :: u32
  force_buffer :: bool

record bit_span =
  span_data :: u64
  span_index :: u64
  span_length :: u64

definition UACPI_ALIGN_UP_MASK :: "u64 \<Rightarrow> u64 \<Rightarrow> u64" where
  "UACPI_ALIGN_UP_MASK x msk = (x + msk) AND NOT msk"

definition uacpi_round_up_bits_to_bytes :: "u64 \<Rightarrow> u64" where
  "uacpi_round_up_bits_to_bytes bits = UACPI_ALIGN_UP_MASK bits (8 - 1) div 8"

definition uacpi_memcpy_zerout :: "u64 \<Rightarrow> u64 \<Rightarrow> u64 \<Rightarrow> u64 \<Rightarrow> bytes \<Rightarrow> bytes" where
  "uacpi_memcpy_zerout dst src dst_size src_size m =
     (let bytes_to_copy = (if src_size < dst_size then src_size else dst_size);
          m = (if bytes_to_copy \<noteq> 0 then snd (memcpy dst src bytes_to_copy m) else m)
      in if bytes_to_copy < dst_size then snd (memset (dst + bytes_to_copy) 0 (dst_size - bytes_to_copy) m) else m)"

definition cut_misaligned_tail :: "u64 \<Rightarrow> u64 \<Rightarrow> u32 \<Rightarrow> bytes \<Rightarrow> bytes" where
  "cut_misaligned_tail data offset len m =
     (let remainder = ucast (len AND 7) :: u8
      in if remainder = 0 then m
         else m(data + offset := ucast (ucast (m (data + offset)) AND (push_bit (unat remainder) 1 - 1 :: u64))))"

definition bit_span_offset :: "bit_span \<Rightarrow> u64 \<Rightarrow> u64 \<times> bit_span" where
  "bit_span_offset span bits =
     (let delta = (if span_length span < bits then span_length span else bits)
      in (delta, span\<lparr>span_index := span_index span + delta, span_length := span_length span - delta\<rparr>))"

text \<open>
  One round of \<open>bit_copy\<close>: up to eight bits are taken from the source, whose byte may have to be completed by the next one, and stored under
  a mask that may reach into the next byte of the destination. The operators work on \<open>int\<close>, the results are cut off when they are stored.
\<close>

definition take_bits :: "u64 \<Rightarrow> u8 \<Rightarrow> u64 \<Rightarrow> bytes \<Rightarrow> u8" where
  "take_bits src_ptr src_shift src_count m =
     (if src_count = 0 then 0
      else let bits = drop_bit (unat src_shift) (m src_ptr);
               bits = (if src_shift \<noteq> 0 \<and> ucast (8 - src_shift) < src_count
                       then bits OR ucast (push_bit (unat (8 - src_shift)) (ucast (m (src_ptr + 1)) :: u32)) else bits)
           in if src_count < 8 then bits AND ucast (push_bit (unat src_count) (1 :: u32) - 1) else bits)"

definition put_bits :: "u64 \<Rightarrow> u8 \<Rightarrow> u64 \<Rightarrow> u8 \<Rightarrow> bytes \<Rightarrow> bytes" where
  "put_bits dst_ptr dst_shift dst_count bits m =
     (let dst_mask = ucast (push_bit (unat dst_shift) (if dst_count < 8 then push_bit (unat dst_count) 1 - 1 else 0xFF :: u32)) :: u16;
          m = m(dst_ptr := ucast ((ucast (m dst_ptr) AND NOT (ucast dst_mask)) OR (push_bit (unat dst_shift) (ucast bits) AND ucast dst_mask) :: u32))
      in if dst_shift \<noteq> 0 \<and> ucast (8 - dst_shift) < dst_count
         then let dst_mask = drop_bit 8 dst_mask;
                  m = m(dst_ptr + 1 := ucast (ucast (m (dst_ptr + 1)) AND NOT (ucast dst_mask) :: u32))
              in m(dst_ptr + 1 := ucast (ucast (m (dst_ptr + 1)) OR (drop_bit (unat (8 - dst_shift)) (ucast bits) AND ucast dst_mask) :: u32))
         else m)"

function bit_copy_loop :: "u8 \<Rightarrow> u8 \<Rightarrow> u64 \<Rightarrow> u64 \<Rightarrow> u64 \<Rightarrow> u64 \<Rightarrow> bytes \<Rightarrow> bytes" where
  "bit_copy_loop dst_shift src_shift dst_ptr src_ptr dst_count src_count m =
     (if dst_count = 0 then m
      else bit_copy_loop dst_shift src_shift (dst_ptr + 1) (if 8 \<le> src_count then src_ptr + 1 else src_ptr)
             (if 8 < dst_count then dst_count - 8 else 0) (if src_count < 8 then 0 else src_count - 8)
             (put_bits dst_ptr dst_shift dst_count (take_bits src_ptr src_shift src_count m) m))"
  by pat_completeness auto
termination
  by (relation "measure (\<lambda>(_, _, _, _, dst_count, _, _). unat dst_count)") (auto simp: unat_sub word_le_nat_alt word_less_nat_alt unat_gt_0)

definition bit_copy :: "bit_span \<Rightarrow> bit_span \<Rightarrow> bytes \<Rightarrow> bytes" where
  "bit_copy dst src m =
     bit_copy_loop (ucast (span_index dst AND 7)) (ucast (span_index src AND 7)) (span_data dst + span_index dst div 8)
       (span_data src + span_index src div 8) (span_length dst) (span_length src) m"

definition do_misaligned_buffer_read :: "uacpi_buffer_field \<Rightarrow> u64 \<Rightarrow> bytes \<Rightarrow> bytes" where
  "do_misaligned_buffer_read field dst m =
     bit_copy \<lparr>span_data = dst, span_index = 0, span_length = uacpi_round_up_bits_to_bytes (ucast (bit_length field)) * 8\<rparr>
       \<lparr>span_data = ub_data (backing field), span_index = bit_index field, span_length = ucast (bit_length field)\<rparr> m"

definition uacpi_read_buffer_field :: "uacpi_buffer_field \<Rightarrow> u64 \<Rightarrow> bytes \<Rightarrow> bytes" where
  "uacpi_read_buffer_field field dst m =
     (if bit_index field AND 7 = 0
      then let src = ub_data (backing field);
               count = uacpi_round_up_bits_to_bytes (ucast (bit_length field));
               m = snd (memcpy dst (src + bit_index field div 8) count m)
           in cut_misaligned_tail dst (count - 1) (bit_length field) m
      else do_misaligned_buffer_read field dst m)"

definition do_write_misaligned_buffer_field :: "uacpi_buffer_field \<Rightarrow> u64 \<Rightarrow> u64 \<Rightarrow> bytes \<Rightarrow> bytes" where
  "do_write_misaligned_buffer_field field src n m =
     bit_copy \<lparr>span_data = ub_data (backing field), span_index = bit_index field, span_length = ucast (bit_length field)\<rparr>
       \<lparr>span_data = src, span_index = 0, span_length = n * 8\<rparr> m"

definition uacpi_write_buffer_field :: "uacpi_buffer_field \<Rightarrow> u64 \<Rightarrow> u64 \<Rightarrow> bytes \<Rightarrow> bytes" where
  "uacpi_write_buffer_field field src n m =
     (if bit_index field AND 7 = 0
      then let dst = ub_data (backing field) + bit_index field div 8;
               count = uacpi_round_up_bits_to_bytes (ucast (bit_length field));
               tail = dst + (count - 1);
               last_byte = m tail;
               tail_shift = ucast (bit_length field AND 7) :: u8;
               m = uacpi_memcpy_zerout dst src count n m
           in if tail_shift = 0 then m
              else let last_shift = 8 - tail_shift;
                       m = m(tail := ucast (push_bit (unat last_shift) (ucast (m tail)) :: u32));
                       m = m(tail := ucast (drop_bit (unat last_shift) (ucast (m tail)) :: u32))
                   in m(tail := ucast (ucast (m tail) OR push_bit (unat tail_shift) (drop_bit (unat tail_shift) (ucast last_byte)) :: u32))
      else do_write_misaligned_buffer_field field src n m)"

declare bit_copy_loop.simps [simp del]

section \<open>Bits of the memory\<close>

text \<open>Bit \<open>k\<close> of the bytes from \<open>a\<close> on.\<close>

definition mem_bit :: "bytes \<Rightarrow> u64 \<Rightarrow> nat \<Rightarrow> bool" where
  "mem_bit m a k \<longleftrightarrow> bit (m (a + of_nat (k div 8))) (k mod 8)"

lemma mem_bit_first: "k < 8 \<Longrightarrow> mem_bit m a k = bit (m a) k"
  by (simp add: mem_bit_def)

lemma mem_bit_next: "mem_bit m (a + 1) k = mem_bit m a (8 + k)"
proof -
  have "(8 + k) div 8 = Suc (k div 8)" "(8 + k) mod 8 = k mod 8" by simp_all
  then show ?thesis unfolding mem_bit_def by (simp only: of_nat_Suc add_ac)
qed

lemma bit_low_mask: "bit (2 ^ n - 1 :: 'a :: len word) i \<longleftrightarrow> i < n \<and> i < LENGTH('a)"
  using bit_mask_iff[where 'a = "'a word", of n i] by (auto simp: mask_eq_decr_exp)

lemma unat_8_minus: "unat (s :: u8) < 8 \<Longrightarrow> unat (8 - s) = 8 - unat s"
  by (subst unat_sub) (simp_all add: word_le_nat_alt)

lemma rest_less: "unat (s :: u8) < 8 \<Longrightarrow> (ucast (8 - s) :: u64) < c \<longleftrightarrow> 8 - unat s < unat c"
  by (simp add: word_less_nat_alt unsigned_ucast_eq take_bit_eq_mod unat_8_minus)

lemma take_bits_bit:
  assumes s: "unat s < 8"
  shows "bit (take_bits p s c m) j \<longleftrightarrow> j < 8 \<and> j < unat c \<and> mem_bit m p (unat s + j)"
proof (cases "j < 8")
  case False
  then show ?thesis by (auto dest: bit_imp_le_length)
next
  case j: True
  have lo: "bit (m p) (unat s + j) \<longleftrightarrow> mem_bit m p (unat s + j)" if "unat s + j < 8" using that by (simp add: mem_bit_first)
  have hi: "bit (m (p + 1)) (j + unat s - 8) \<longleftrightarrow> mem_bit m p (unat s + j)" if "8 \<le> unat s + j"
    using that s j mem_bit_next[of m p "j + unat s - 8"] by (simp add: mem_bit_first add.commute)
  have b: "bit (m p) (unat s + j) \<Longrightarrow> unat s + j < 8" by (auto dest: bit_imp_le_length)
  have z: "s = 0 \<Longrightarrow> unat s + j < 8" using j by simp
  define more where "more \<longleftrightarrow> s \<noteq> 0 \<and> 8 - unat s < unat c"
  have m: "s \<noteq> 0 \<and> (ucast (8 - s) :: u64) < c \<longleftrightarrow> more" using rest_less[OF s] by (simp add: more_def)
  have bits: "bit (if more then drop_bit (unat s) (m p) OR ucast (push_bit (unat (8 - s)) (ucast (m (p + 1)) :: u32)) else drop_bit (unat s) (m p)) j
    \<longleftrightarrow> (if unat s + j < 8 then mem_bit m p (unat s + j) else more \<and> mem_bit m p (unat s + j))"
    using j s lo hi b by (auto simp: bit_simps unat_8_minus)
  have "unat s + j < 8 \<or> more" if "j < unat c" using that s z by (auto simp: more_def)
  then show ?thesis
    unfolding take_bits_def Let_def m
    using j bits by (auto simp: bit_and_iff bit_ucast_iff bit_low_mask word_less_nat_alt)
qed

lemma put_bits_byte:
  assumes s: "unat s < 8" and i: "i < 8"
  shows "bit (put_bits p s c b m x) i \<longleftrightarrow>
    (if x = p then if unat s \<le> i \<and> i < unat s + min 8 (unat c) then bit b (i - unat s) else bit (m p) i
     else if x = p + 1 then if 8 + i < unat s + min 8 (unat c) then bit b (8 + i - unat s) else bit (m x) i
     else bit (m x) i)"
proof -
  define msk where "msk = (ucast (push_bit (unat s) (if c < 8 then push_bit (unat c) 1 - 1 else 0xFF :: u32)) :: u16)"
  define m1 where "m1 = m(p := ucast ((ucast (m p) AND NOT (ucast msk)) OR (push_bit (unat s) (ucast b) AND ucast msk) :: u32))"
  have msk: "bit msk n \<longleftrightarrow> unat s \<le> n \<and> n < unat s + min 8 (unat c)" for n
  proof -
    have "(if c < 8 then push_bit (unat c) 1 - 1 else 0xFF :: u32) = 2 ^ min 8 (unat c) - 1" by (simp add: word_less_nat_alt)
    then show ?thesis using s unfolding msk_def by (auto simp: bit_ucast_iff bit_push_bit_iff bit_low_mask)
  qed
  have b8: "bit b n \<Longrightarrow> n < 8" for n by (auto dest: bit_imp_le_length)
  have 1: "bit (m1 x) i \<longleftrightarrow> (if x = p then if unat s \<le> i \<and> i < unat s + min 8 (unat c) then bit b (i - unat s) else bit (m p) i else bit (m x) i)" for x
  proof -
    have w: "m1 p = ucast ((ucast (m p) AND NOT (ucast msk)) OR (push_bit (unat s) (ucast b) AND ucast msk) :: u32)" by (simp add: m1_def)
    have "bit (m1 p) i \<longleftrightarrow> bit (m p) i \<and> \<not> bit msk i \<or> unat s \<le> i \<and> bit b (i - unat s) \<and> bit msk i"
      unfolding w using i by (simp add: bit_or_iff bit_and_iff bit_not_iff bit_ucast_iff bit_push_bit_iff) auto
    moreover have "m1 x = m x" if "x \<noteq> p" using that by (simp add: m1_def)
    ultimately show ?thesis by (cases "x = p") (auto simp: msk)
  qed
  have ne: "p + 1 \<noteq> p" by simp
  show ?thesis
  proof (cases "s \<noteq> 0 \<and> (ucast (8 - s) :: u64) < c")
    case False
    have carry: "\<not> 8 + i < unat s + min 8 (unat c)"
    proof (cases "s = 0")
      case False
      with \<open>\<not> (s \<noteq> 0 \<and> ucast (8 - s) < c)\<close> have "unat c \<le> 8 - unat s" using rest_less[OF s, of c] by simp
      then show ?thesis using s by simp
    qed simp
    have "put_bits p s c b m = m1" unfolding put_bits_def Let_def msk_def [symmetric] m1_def [symmetric] by (rule if_not_P[OF False])
    then show ?thesis using carry by (simp only: 1 if_False split: if_split) simp
  next
    case True
    have 2: "put_bits p s c b m = m1(p + 1 := ucast ((ucast (ucast (ucast (m1 (p + 1)) AND NOT (ucast (drop_bit 8 msk)) :: u32) :: u8)
        OR (drop_bit (unat (8 - s)) (ucast b) AND ucast (drop_bit 8 msk))) :: u32))"
      unfolding put_bits_def Let_def msk_def [symmetric] m1_def [symmetric] if_P[OF True] by simp
    have "8 - (8 - unat s) = unat s" using s by simp
    then have "bit (put_bits p s c b m (p + 1)) i \<longleftrightarrow> (if 8 + i < unat s + min 8 (unat c) then bit b (8 + i - unat s) else bit (m1 (p + 1)) i)"
    proof -
      have "bit (put_bits p s c b m (p + 1)) i \<longleftrightarrow> bit (m1 (p + 1)) i \<and> \<not> bit msk (8 + i) \<or> bit b (8 - unat s + i) \<and> bit msk (8 + i)"
        unfolding 2 using i by (simp add: bit_or_iff bit_and_iff bit_not_iff bit_ucast_iff bit_drop_bit_eq unat_8_minus[OF s] add.commute) (use b8 in fastforce)
      moreover have "8 - unat s + i = 8 + i - unat s" using s by simp
      ultimately show ?thesis using s i unfolding msk by auto
    qed
    moreover have "put_bits p s c b m x = m1 x" if "x \<noteq> p + 1" unfolding 2 using that by simp
    ultimately show ?thesis using ne 1 by (cases "x = p + 1") simp_all
  qed
qed

lemma put_bits_bit:
  assumes s: "unat s < 8" and k: "k < 8 * 18446744073709551616"
  shows "mem_bit (put_bits p s c b m) p k \<longleftrightarrow>
    (if unat s \<le> k \<and> k < unat s + min 8 (unat c) then bit b (k - unat s) else mem_bit m p k)"
proof -
  have d: "k div 8 < 18446744073709551616" using k by (simp add: div_less_iff_less_mult)
  have 0: "(of_nat (k div 8) :: u64) = 0 \<longleftrightarrow> k div 8 = 0" and 1: "(of_nat (k div 8) :: u64) = 1 \<longleftrightarrow> k div 8 = 1"
    using d by (simp_all add: word_unat_eq_iff[of "of_nat (k div 8)"] unat_of_nat_u64)
  consider "k div 8 = 0" "k mod 8 = k" | "k div 8 = 1" "8 + k mod 8 = k" | "16 \<le> k" "k div 8 \<noteq> 0" "k div 8 \<noteq> 1"
  proof (cases "k < 8 \<or> k div 8 = 1")
    case True
    then show ?thesis
    proof
      assume "k div 8 = 1"
      moreover have "8 * (k div 8) + k mod 8 = k" by simp
      ultimately show thesis using that(2) by simp
    qed (use that(1) in simp)
  next
    case False
    then show ?thesis using that(3) by (simp add: div_eq_dividend_iff) linarith
  qed
  then show ?thesis
  proof cases
    case 3
    then have "\<not> k < unat s + min 8 (unat c)" using s by simp
    moreover have "(of_nat (k div 8) :: u64) \<noteq> 0" "(of_nat (k div 8) :: u64) \<noteq> 1" using 3 by (simp_all only: 0 1 not_False_eq_True)
    ultimately show ?thesis by (simp add: mem_bit_def put_bits_byte[OF s])
  qed (use s in \<open>auto simp: mem_bit_def put_bits_byte[OF s]\<close>)
qed

text \<open>The bytes of the first \<open>a\<close> bits from \<open>p\<close> and of the first \<open>b\<close> bits from \<open>q\<close> do not overlap.\<close>

definition bits_apart :: "u64 \<Rightarrow> nat \<Rightarrow> u64 \<Rightarrow> nat \<Rightarrow> bool" where
  "bits_apart p a q b \<longleftrightarrow> (\<forall>i j. 8 * i < a \<longrightarrow> 8 * j < b \<longrightarrow> p + of_nat i \<noteq> q + of_nat j)"

lemma bits_apart_mono: "bits_apart p a q b \<Longrightarrow> a' \<le> a \<Longrightarrow> b' \<le> b \<Longrightarrow> bits_apart p a' q b'"
  by (auto simp: bits_apart_def)

lemma bits_apart_shift:
  assumes "bits_apart p a q b" and "a' + 8 * u \<le> a" and "b' + 8 * v \<le> b"
  shows "bits_apart (p + of_nat u) a' (q + of_nat v) b'"
  unfolding bits_apart_def
proof (intro allI impI)
  fix i j assume "8 * i < a'" "8 * j < b'"
  then have "8 * (u + i) < a" "8 * (v + j) < b" using assms(2,3) by simp_all
  then have "p + of_nat (u + i) \<noteq> q + of_nat (v + j)" using assms(1) unfolding bits_apart_def by blast
  then show "p + of_nat u + of_nat i \<noteq> q + of_nat v + of_nat j" by (simp add: add_ac)
qed

lemma put_bits_outside:
  assumes s: "unat s < 8" and "x \<noteq> p" and "8 < unat s + unat c \<Longrightarrow> x \<noteq> p + 1"
  shows "put_bits p s c b m x = m x"
proof (rule bit_word_eqI)
  fix i assume "i < LENGTH(8)"
  then show "bit (put_bits p s c b m x) i \<longleftrightarrow> bit (m x) i"
    using assms by (auto simp: put_bits_byte[OF s])
qed

text \<open>The last bits before \<open>a + 1\<close>, around the end of the address space, are those of \<open>a\<close>.\<close>

lemma mem_bit_around:
  assumes "k < 8"
  shows "mem_bit m (a + 1) (8 * 18446744073709551615 + k) = mem_bit m a k"
proof -
  have "(8 * n + k) div 8 = n \<and> (8 * n + k) mod 8 = k" for n using assms by simp
  from this[of 18446744073709551615] have d: "(8 * 18446744073709551615 + k) div 8 = 18446744073709551615" "(8 * 18446744073709551615 + k) mod 8 = k"
    by blast+
  have e: "a + 1 + of_nat 18446744073709551615 = a" by (simp add: word_unat_eq_iff unat_word_ariths unat_lt_2p64)
  show ?thesis unfolding mem_bit_def d e using assms by simp
qed

lemma bit_copy_loop_bits:
  assumes "unat ds < 8" and "unat ss < 8"
  shows "bits_apart sp (unat ss + unat sc) dp (unat ds + unat dc) \<Longrightarrow> k < 8 * 18446744073709551616 \<Longrightarrow>
    mem_bit (bit_copy_loop ds ss dp sp dc sc m) dp k \<longleftrightarrow>
      (if unat ds \<le> k \<and> k < unat ds + unat dc then k - unat ds < unat sc \<and> mem_bit m sp (unat ss + (k - unat ds)) else mem_bit m dp k)"
  using assms
proof (induction ds ss dp sp dc sc m arbitrary: k rule: bit_copy_loop.induct)
  case (1 ds ss dp sp dc sc m)
  let ?b = "take_bits sp ss sc m"
  let ?m = "put_bits dp ds dc ?b m"
  let ?sc = "if sc < 8 then 0 else sc - 8"
  let ?sp = "if 8 \<le> sc then sp + 1 else sp"
  have m': "mem_bit ?m dp j \<longleftrightarrow> (if unat ds \<le> j \<and> j < unat ds + min 8 (unat dc) then j - unat ds < unat sc \<and> mem_bit m sp (unat ss + (j - unat ds)) else mem_bit m dp j)"
    if "j < 8 * 18446744073709551616" for j
    using put_bits_bit[OF 1(4) that] take_bits_bit[OF 1(5)] by auto
  consider "dc = 0" | "0 < unat dc" "unat dc \<le> 8" | "8 < unat dc" by (metis not_gr_zero not_le unat_eq_0)
  then show ?case
  proof cases
    case 1
    then show ?thesis by (auto simp: bit_copy_loop.simps)
  next
    case 2
    then have "dc \<noteq> 0" by auto
    with 2 have "bit_copy_loop ds ss dp sp dc sc m = ?m"
      by (simp add: bit_copy_loop.simps[of ds ss dp] bit_copy_loop.simps[of ds ss "dp + 1"] word_less_nat_alt)
    then show ?thesis using m'[OF 1(3)] 2 by simp
  next
    case big: 3
    have dc: "unat (dc - 8) = unat dc - 8" "8 < dc" "dc \<noteq> 0" using big by (auto simp add: unat_sub word_less_nat_alt word_le_nat_alt)
    have sc: "unat ?sc = unat sc - 8" by (simp add: unat_sub word_less_nat_alt word_le_nat_alt)
    have apart: "bits_apart ?sp (unat ss + unat ?sc) (dp + 1) (unat ds + unat (if 8 < dc then dc - 8 else 0))"
    proof (cases "8 \<le> sc")
      case True
      then have "unat ss + unat ?sc + 8 * 1 \<le> unat ss + unat sc" unfolding sc by (simp add: word_le_nat_alt)
      from bits_apart_shift[OF 1(2) this, of "unat ds + unat (dc - 8)" 1] show ?thesis using True dc big by simp
    next
      case False
      have "unat ss + unat ?sc + 8 * 0 \<le> unat ss + unat sc" unfolding sc by simp
      from bits_apart_shift[OF 1(2) this, of "unat ds + unat (dc - 8)" 1] show ?thesis using False dc big by simp
    qed
    note IH = 1(1)[OF dc(3) apart _ 1(4,5), unfolded if_P[OF dc(2)] dc(1)]
    have eq: "bit_copy_loop ds ss dp sp dc sc m = bit_copy_loop ds ss (dp + 1) ?sp (dc - 8) ?sc ?m"
      using dc by (simp add: bit_copy_loop.simps[of ds ss dp])
    show ?thesis
    proof (cases "k < 8")
      case True
      have "mem_bit (bit_copy_loop ds ss dp sp dc sc m) dp k = mem_bit ?m dp k"
        unfolding eq mem_bit_around[OF True, symmetric]
        by (subst IH) (use True unat_lt_2p64[of dc] 1(4) in auto)
      then show ?thesis using m'[OF 1(3)] True big by auto
    next
      case k: False
      have src: "mem_bit ?m sp j = mem_bit m sp j" if "j < unat ss + unat sc" for j
      proof -
        have "8 * (j div 8) < unat ss + unat sc" using that by simp
        then have "sp + of_nat (j div 8) \<noteq> dp + of_nat 0" "8 < unat ds + unat dc \<Longrightarrow> sp + of_nat (j div 8) \<noteq> dp + of_nat 1"
          using 1(2) big unfolding bits_apart_def by (metis add_gr_0 mult_0_right not_gr_zero not_less_zero, metis mult.right_neutral)
        then have "?m (sp + of_nat (j div 8)) = m (sp + of_nat (j div 8))" by (intro put_bits_outside[OF 1(4)]) simp_all
        then show ?thesis by (simp add: mem_bit_def)
      qed
      have 8: "mem_bit n dp k = mem_bit n (dp + 1) (k - 8)" for n using k by (simp add: mem_bit_next)
      have k8: "k - 8 < 8 * 18446744073709551616" using 1(3) by simp
      have tail: "(k - 8 - unat ds < unat ?sc \<and> mem_bit ?m ?sp (unat ss + (k - 8 - unat ds))) \<longleftrightarrow>
          k - unat ds < unat sc \<and> mem_bit m sp (unat ss + (k - unat ds))" if "unat ds \<le> k - 8"
      proof (cases "8 \<le> sc")
        case True
        have "8 + (unat ss + (k - 8 - unat ds)) = unat ss + (k - unat ds)" using that k by simp
        then show ?thesis using True that k src[of "unat ss + (k - unat ds)"] unfolding sc by (auto simp: mem_bit_next word_le_nat_alt)
      next
        case False
        then have "\<not> k - unat ds < unat sc" "\<not> k - 8 - unat ds < unat sc - 8" using that k by (simp_all add: word_le_nat_alt)
        then show ?thesis unfolding sc by blast
      qed
      show ?thesis
      proof (cases "unat ds \<le> k - 8 \<and> k - 8 < unat ds + (unat dc - 8)")
        case True
        then show ?thesis unfolding eq 8[of "bit_copy_loop _ _ _ _ _ _ _"] IH[OF k8] using tail by auto
      next
        case False
        then have "mem_bit (bit_copy_loop ds ss dp sp dc sc m) dp k = mem_bit ?m dp k"
          unfolding eq 8[of "bit_copy_loop _ _ _ _ _ _ _"] IH[OF k8] by (simp only: if_False 8[of ?m])
        then show ?thesis using m'[OF 1(3)] False k big 1(4) by auto
      qed
    qed
  qed
qed

section \<open>Copying between spans\<close>

lemma mem_bit_shift: "mem_bit m (a + of_nat n) k = mem_bit m a (8 * n + k)"
proof -
  have "(8 * n + k) div 8 = n + k div 8" "(8 * n + k) mod 8 = k mod 8" by simp_all
  then show ?thesis unfolding mem_bit_def by (simp only: of_nat_add add_ac)
qed

lemma unat_low_bits: "unat (ucast (w AND 7 :: u64) :: u8) = unat w mod 8"
proof -
  have "w AND 7 = take_bit 3 w" by (simp add: take_bit_eq_mask mask_eq_exp_minus_1)
  then have "unat (w AND 7) = unat w mod 8" by (simp add: take_bit_eq_mod unat_mod)
  then show ?thesis by (simp add: unsigned_ucast_eq take_bit_eq_mod)
qed

lemma span_split: "w div 8 = of_nat (unat w div 8)" "8 * (unat w div 8) + unat w mod 8 = unat (w :: u64)"
proof -
  have "unat w div 8 < 18446744073709551616" using unat_lt_2p64[of w] by simp
  then show "w div 8 = of_nat (unat w div 8)" by (simp add: word_unat_eq_iff unat_div unat_of_nat_u64)
qed simp

lemma mem_bit_wrap: "mem_bit m a (k + 8 * 18446744073709551616) = mem_bit m a k"
proof -
  have "(k + 8 * n) div 8 = k div 8 + n" "(k + 8 * n) mod 8 = k mod 8" for n by simp_all
  from this[of 18446744073709551616] have d: "(k + 8 * 18446744073709551616) div 8 = k div 8 + 18446744073709551616" "(k + 8 * 18446744073709551616) mod 8 = k mod 8"
    by blast+
  have z: "(of_nat 18446744073709551616 :: u64) = 0" by (simp add: word_unat_eq_iff)
  show ?thesis unfolding mem_bit_def d of_nat_add z by simp
qed

lemma bit_copy_bits:
  fixes dst src :: bit_span
  defines "d \<equiv> span_data dst" and "di \<equiv> unat (span_index dst)" and "dn \<equiv> unat (span_length dst)"
    and "s \<equiv> span_data src" and "si \<equiv> unat (span_index src)" and "sn \<equiv> unat (span_length src)"
  assumes apart: "bits_apart s (si + sn) d (di + dn)" and k: "k < 8 * 18446744073709551616"
  shows "mem_bit (bit_copy dst src m) d k \<longleftrightarrow> (if di \<le> k \<and> k < di + dn then k - di < sn \<and> mem_bit m s (si + (k - di)) else mem_bit m d k)"
proof -
  let ?ds = "ucast (span_index dst AND 7) :: u8" and ?ss = "ucast (span_index src AND 7) :: u8"
  let ?dp = "d + of_nat (di div 8)" and ?sp = "s + of_nat (si div 8)"
  have sh: "unat ?ds = di mod 8" "unat ?ss = si mod 8" unfolding di_def si_def by (rule unat_low_bits)+
  have eq: "bit_copy dst src m = bit_copy_loop ?ds ?ss ?dp ?sp (span_length dst) (span_length src) m"
    unfolding bit_copy_def d_def s_def di_def si_def span_split(1) by (rule refl)
  have small: "di < 18446744073709551616" "dn < 18446744073709551616" unfolding di_def dn_def by (rule unat_lt_2p64)+
  have ap: "bits_apart ?sp (unat ?ss + unat (span_length src)) ?dp (unat ?ds + unat (span_length dst))"
    unfolding sh sn_def [symmetric] dn_def [symmetric] by (rule bits_apart_shift[OF apart]) simp_all
  have lt: "unat ?ds < 8" "unat ?ss < 8" unfolding sh by simp_all
  note loop = bit_copy_loop_bits[OF lt ap, where m = m, folded eq, unfolded sh, folded dn_def sn_def]
  show ?thesis
  proof (cases "8 * (di div 8) \<le> k")
    case True
    define j where "j = k - 8 * (di div 8)"
    have j: "k = 8 * (di div 8) + j" "j < 8 * 18446744073709551616" using True k by (simp_all add: j_def)
    have c: "di mod 8 \<le> j \<longleftrightarrow> di \<le> k" "j < di mod 8 + dn \<longleftrightarrow> k < di + dn" "j - di mod 8 = k - di" "8 * (si div 8) + (si mod 8 + (k - di)) = si + (k - di)"
      unfolding j(1) using mod_div_mult_eq[of di 8] mod_div_mult_eq[of si 8] by linarith+
    have r: "mem_bit x d k = mem_bit x ?dp j" for x unfolding mem_bit_shift j(1)[symmetric] by (rule refl)
    have "mem_bit (bit_copy dst src m) d k \<longleftrightarrow>
        (if di mod 8 \<le> j \<and> j < di mod 8 + dn then j - di mod 8 < sn \<and> mem_bit m ?sp (si mod 8 + (j - di mod 8)) else mem_bit m ?dp j)"
      using r loop[OF j(2)] by simp
    then show ?thesis unfolding mem_bit_shift c j(1)[symmetric] .
  next
    case False
    define j where "j = k + 8 * 18446744073709551616 - 8 * (di div 8)"
    have j: "k + 8 * 18446744073709551616 = 8 * (di div 8) + j" "j < 8 * 18446744073709551616" "\<not> j < di mod 8 + dn" "\<not> di \<le> k"
      using False small by (simp_all add: j_def)
    have r: "mem_bit x d k = mem_bit x ?dp j" for x unfolding mem_bit_shift j(1)[symmetric] mem_bit_wrap by (rule refl)
    show ?thesis unfolding r[of "bit_copy dst src m"] loop[OF j(2)] using j(3,4) r[of m] by simp
  qed
qed

section \<open>Reading and writing a field\<close>

text \<open>The bits of the field from bit \<open>bit_index\<close> of the buffer on, and whether the bytes of another buffer are apart from them.\<close>

abbreviation field_data :: "uacpi_buffer_field \<Rightarrow> u64" where
  "field_data f \<equiv> ub_data (backing f)"

abbreviation field_start :: "uacpi_buffer_field \<Rightarrow> nat" where
  "field_start f \<equiv> unat (bit_index f)"

abbreviation field_bits :: "uacpi_buffer_field \<Rightarrow> nat" where
  "field_bits f \<equiv> unat (bit_length f)"

lemma field_bits_small: "field_bits f < 4294967296"
  using unsigned_less[of "bit_length f"] by simp

lemma round_up_bits:
  assumes "unat b < 4294967296"
  shows "unat (uacpi_round_up_bits_to_bytes b) = (unat b + 7) div 8"
proof -
  have p: "unat (b + 7) = unat b + 7" using assms by (subst unat_add_no_wrap) simp_all
  have "drop_bit 3 ((b + 7) AND NOT (mask 3)) = drop_bit 3 (b + 7)"
    by (rule bit_word_eqI) (auto simp: bit_drop_bit_eq bit_and_iff bit_not_iff bit_mask_iff dest: bit_imp_le_length)
  moreover have "(mask 3 :: u64) = 7" by (simp add: mask_eq_exp_minus_1)
  ultimately have "((b + 7) AND NOT 7) div 8 = (b + 7) div 8" by (simp add: drop_bit_eq_div)
  then show ?thesis by (simp add: uacpi_round_up_bits_to_bytes_def UACPI_ALIGN_UP_MASK_def unat_div p)
qed

lemma memcpy_bits:
  assumes "bits_apart src (8 * unat n) dst (8 * unat n)" and "k < 8 * 18446744073709551616"
  shows "mem_bit (snd (memcpy dst src n m)) dst k \<longleftrightarrow> (if k < 8 * unat n then mem_bit m src k else mem_bit m dst k)"
proof -
  have d: "k div 8 < 18446744073709551616" using assms(2) by (simp add: div_less_iff_less_mult)
  note ap = assms(1)[unfolded bits_apart_def, rule_format]
  have "unat n \<le> unat (src - dst)"
  proof (rule ccontr)
    assume "\<not> unat n \<le> unat (src - dst)"
    then show False using ap[of 0 "unat (src - dst)"] by simp
  qed
  moreover have "unat n \<le> unat (dst - src)"
  proof (rule ccontr)
    assume "\<not> unat n \<le> unat (dst - src)"
    then show False using ap[of "unat (dst - src)" 0] by simp
  qed
  ultimately have c: "snd (memcpy dst src n m) x = (if unat (x - dst) < unat n then m (src + (x - dst)) else m x)" for x by (rule memcpy_apply)
  have "k div 8 < unat n \<longleftrightarrow> k < 8 * unat n" by (simp add: div_less_iff_less_mult mult.commute)
  then show ?thesis unfolding mem_bit_def c using d by (simp add: unat_of_nat_u64)
qed

lemma unat_low_bits32: "unat (ucast (w AND 7 :: u32) :: u8) = unat w mod 8"
proof -
  have "w AND 7 = take_bit 3 w" by (simp add: take_bit_eq_mask mask_eq_exp_minus_1)
  then have "unat (w AND 7) = unat w mod 8" by (simp add: take_bit_eq_mod unat_mod)
  then show ?thesis by (simp add: unsigned_ucast_eq take_bit_eq_mod)
qed

text \<open>The bits of one byte among the bits from an address on.\<close>

lemma mem_bit_upd:
  assumes "i < 18446744073709551616" and "k < 8 * 18446744073709551616"
  shows "mem_bit (m(a + of_nat i := v)) a k = (if k div 8 = i then bit v (k mod 8) else mem_bit m a k)"
proof -
  have "k div 8 < 18446744073709551616" using assms(2) by (simp add: div_less_iff_less_mult)
  then have "(of_nat (k div 8) :: u64) = of_nat i \<longleftrightarrow> k div 8 = i" using assms(1) by (simp add: word_unat_eq_iff unat_of_nat_u64)
  then show ?thesis by (simp add: mem_bit_def)
qed

lemma last_byte:
  assumes "0 < n mod 8"
  shows "(n + 7) div 8 = Suc (n div 8)" and "k div 8 = n div 8 \<Longrightarrow> k mod 8 < n mod 8 \<longleftrightarrow> k < n"
    and "k div 8 \<noteq> n div 8 \<Longrightarrow> k < 8 * Suc (n div 8) \<Longrightarrow> k < (n :: nat)"
proof -
  obtain q r where n: "n = 8 * q + r" "n div 8 = q" "n mod 8 = r" "r < 8" by (metis mult_div_mod_eq mod_less_divisor zero_less_numeral)
  obtain p t where k: "k = 8 * p + t" "k div 8 = p" "k mod 8 = t" "t < 8" by (metis mult_div_mod_eq mod_less_divisor zero_less_numeral)
  have "n + 7 = 8 * Suc q + (r - 1)" "r - 1 < 8" using assms n by simp_all
  then show "(n + 7) div 8 = Suc (n div 8)" unfolding n(2) by simp
  show "k mod 8 < n mod 8 \<longleftrightarrow> k < n" if "k div 8 = n div 8" using that n k by linarith
  show "k < n" if "k div 8 \<noteq> n div 8" "k < 8 * Suc (n div 8)"
  proof -
    have "p \<noteq> q" "k < 8 * q + 8" using that n(2) k(2) by simp_all
    then have "p < q" using k(1) by (cases p q rule: linorder_cases) simp_all
    then show ?thesis using n(1) k(1,4) by linarith
  qed
qed

lemma same_byte: "k div 8 = n div 8 \<Longrightarrow> k < 8 * Suc (n div 8)" for k n :: nat
  using dividend_less_times_div[of 8 k] by simp

lemma whole_bytes: "n mod 8 = 0 \<Longrightarrow> 8 * ((n + 7) div 8) = n" for n :: nat
  by (auto simp: mod_eq_0_iff_dvd elim!: dvdE)

lemma ceil_bytes: "uacpi_round_up_bits_to_bytes (ucast n) = of_nat ((unat (n :: u32) + 7) div 8)" "unat n < 4294967296"
proof -
  show s: "unat n < 4294967296" using unsigned_less[of n] by simp
  then have "unat (ucast n :: u64) = unat n" by (simp add: unsigned_ucast_eq take_bit_eq_mod)
  then show "uacpi_round_up_bits_to_bytes (ucast n) = of_nat ((unat n + 7) div 8)"
    using round_up_bits[of "ucast n"] s by (simp add: word_unat_eq_iff unat_of_nat_u64)
qed

lemma ceil_bytes_unat: "unat (of_nat ((unat (n :: u32) + 7) div 8) :: u64) = (unat n + 7) div 8"
  using ceil_bytes(2)[of n] by (simp add: unat_of_nat_u64)

lemma last_byte_index: "0 < unat (n :: u32) mod 8 \<Longrightarrow> (of_nat ((unat n + 7) div 8) - 1 :: u64) = of_nat (unat n div 8)"
  by (simp add: last_byte(1))

lemma cut_bits:
  assumes k: "k < 8 * 18446744073709551616"
  shows "mem_bit (cut_misaligned_tail a (of_nat ((unat n + 7) div 8) - 1) n m) a k \<longleftrightarrow>
    (if k < 8 * ((unat n + 7) div 8) then k < unat n \<and> mem_bit m a k else mem_bit m a k)"
proof -
  define r where "r = (ucast (n AND 7) :: u8)"
  have r: "unat r = unat n mod 8" unfolding r_def by (rule unat_low_bits32)
  show ?thesis
  proof (cases "unat n mod 8 = 0")
    case True
    then have "8 * ((unat n + 7) div 8) = unat n" by (rule whole_bytes)
    moreover have "r = 0" using r True by (simp add: word_unat_eq_iff)
    ultimately show ?thesis by (simp add: cut_misaligned_tail_def r_def Let_def)
  next
    case False
    then have nz: "0 < unat n mod 8" by simp
    note lb = last_byte[OF nz]
    have "r \<noteq> 0" using r False by auto
    then have e: "cut_misaligned_tail a (of_nat ((unat n + 7) div 8) - 1) n m =
        m(a + of_nat (unat n div 8) := ucast (ucast (m (a + of_nat (unat n div 8))) AND (2 ^ (unat n mod 8) - 1 :: u64)))"
      unfolding last_byte_index[OF nz] cut_misaligned_tail_def r_def[symmetric] Let_def r by simp
    have b: "mem_bit (cut_misaligned_tail a (of_nat ((unat n + 7) div 8) - 1) n m) a k =
        (if k div 8 = unat n div 8 then k mod 8 < unat n mod 8 \<and> mem_bit m a k else mem_bit m a k)"
      unfolding e by (subst mem_bit_upd[OF _ k]) (use ceil_bytes(2)[of n] in \<open>auto simp: bit_and_iff bit_ucast_iff bit_low_mask mem_bit_def\<close>)
    show ?thesis unfolding b using lb(2,3)[of k] same_byte[of k "unat n"] unfolding lb(1) by auto
  qed
qed

lemma bits_apart_bytes: "bits_apart p (8 * ((n + 7) div 8)) q b = bits_apart p n q b" "bits_apart p a q (8 * ((n + 7) div 8)) = bits_apart p a q n"
proof -
  have "8 * i < 8 * ((n + 7) div 8) \<longleftrightarrow> 8 * i < n" for i by auto
  then show "bits_apart p (8 * ((n + 7) div 8)) q b = bits_apart p n q b" "bits_apart p a q (8 * ((n + 7) div 8)) = bits_apart p a q n"
    unfolding bits_apart_def by simp_all
qed

lemma aligned_index:
  assumes "w AND 7 = 0"
  shows "w div 8 = of_nat (unat w div 8)" and "8 * (unat w div 8) = unat (w :: u64)"
proof -
  have "unat w mod 8 = 0" using unat_low_bits[of w] assms by simp
  then show "8 * (unat w div 8) = unat w" using span_split(2)[of w] by linarith
qed (rule span_split(1))

lemma misaligned_read_bits:
  assumes "bits_apart (field_data f) (field_start f + field_bits f) dst (field_bits f)" and "k < 8 * 18446744073709551616"
  shows "mem_bit (do_misaligned_buffer_read f dst m) dst k \<longleftrightarrow>
    (if k < 8 * ((field_bits f + 7) div 8) then k < field_bits f \<and> mem_bit m (field_data f) (field_start f + k) else mem_bit m dst k)"
proof -
  let ?n = "(field_bits f + 7) div 8"
  have n: "unat (of_nat ?n * 8 :: u64) = 8 * ?n"
    using ceil_bytes(2)[of "bit_length f"] by (subst unat_mult_no_wrap) (simp_all add: ceil_bytes_unat)
  have l: "unat (ucast (bit_length f) :: u64) = field_bits f"
    using ceil_bytes(2)[of "bit_length f"] by (simp add: unsigned_ucast_eq take_bit_eq_mod)
  show ?thesis
    unfolding do_misaligned_buffer_read_def ceil_bytes(1)
    by (subst bit_copy_bits[where dst = "\<lparr>span_data = dst, span_index = 0, span_length = of_nat ?n * 8\<rparr>", simplified])
      (use assms in \<open>simp_all add: n l bits_apart_bytes\<close>)
qed

lemma read_field_bits:
  assumes apart: "bits_apart (field_data f) (field_start f + field_bits f) dst (field_bits f)" and k: "k < 8 * 18446744073709551616"
  shows "mem_bit (uacpi_read_buffer_field f dst m) dst k \<longleftrightarrow>
    (if k < 8 * ((field_bits f + 7) div 8) then k < field_bits f \<and> mem_bit m (field_data f) (field_start f + k) else mem_bit m dst k)"
proof (cases "bit_index f AND 7 = 0")
  case False
  then show ?thesis using misaligned_read_bits[OF assms] by (simp add: uacpi_read_buffer_field_def)
next
  case True
  note i = aligned_index[OF True]
  have ap: "bits_apart (field_data f + of_nat (field_start f div 8)) (8 * ((field_bits f + 7) div 8)) dst (8 * ((field_bits f + 7) div 8))"
    unfolding bits_apart_bytes using bits_apart_shift[OF apart, of "field_bits f" "field_start f div 8" "field_bits f" 0] i(2) by simp
  show ?thesis
    unfolding uacpi_read_buffer_field_def if_P[OF True] Let_def ceil_bytes(1) cut_bits[OF k] i(1)
    using memcpy_bits[OF _ k, of "field_data f + of_nat (field_start f div 8)" "of_nat ((field_bits f + 7) div 8)" dst m] ap
    by (simp add: ceil_bytes_unat mem_bit_shift i(2))
qed

lemma zerout_bits:
  assumes apart: "bits_apart src (8 * unat sn) dst (8 * unat dn)" and kk: "k < 8 * 18446744073709551616"
  shows "mem_bit (uacpi_memcpy_zerout dst src dn sn m) dst k \<longleftrightarrow>
    (if k < 8 * unat dn then k < 8 * unat sn \<and> mem_bit m src k else mem_bit m dst k)"
proof -
  let ?n = "if sn < dn then sn else dn"
  have n: "unat ?n = min (unat sn) (unat dn)" by (simp add: word_less_nat_alt)
  have ap: "bits_apart src (8 * unat ?n) dst (8 * unat ?n)" using apart unfolding n by (rule bits_apart_mono) simp_all
  define m1 where "m1 = (if ?n \<noteq> 0 then snd (memcpy dst src ?n m) else m)"
  have m1: "mem_bit m1 dst j \<longleftrightarrow> (if j < 8 * unat ?n then mem_bit m src j else mem_bit m dst j)" if "j < 8 * 18446744073709551616" for j
    using memcpy_bits[OF ap that, of m] by (auto simp: m1_def)
  show ?thesis
  proof (cases "sn < dn")
    case False
    then show ?thesis using m1[OF kk] unfolding uacpi_memcpy_zerout_def Let_def m1_def[symmetric] by (simp add: word_less_nat_alt)
  next
    case True
    have d: "unat (dn - sn) = unat dn - unat sn" using True by (simp add: unat_sub word_le_nat_alt word_less_nat_alt)
    have "mem_bit (uacpi_memcpy_zerout dst src dn sn m) dst k = mem_bit (snd (memset (dst + sn) 0 (dn - sn) m1)) dst k"
      using True unfolding uacpi_memcpy_zerout_def Let_def m1_def[symmetric] by (simp add: m1_def)
    also have "\<dots> \<longleftrightarrow> (if k < 8 * unat dn then k < 8 * unat sn \<and> mem_bit m src k else mem_bit m dst k)"
    proof -
      have "k div 8 < 18446744073709551616" using kk by (simp add: div_less_iff_less_mult)
      then have u: "unat (of_nat (k div 8) :: u64) = k div 8" by (simp add: unat_of_nat_u64)
      have "unat (of_nat (k div 8) - sn) < unat (dn - sn) \<longleftrightarrow> 8 * unat sn \<le> k \<and> k < 8 * unat dn"
      proof (cases "8 * unat sn \<le> k")
        case True
        then have "unat sn \<le> k div 8" by simp
        then have "unat (of_nat (k div 8) - sn) = k div 8 - unat sn" using u by (simp add: unat_sub word_le_nat_alt)
        moreover have "k div 8 < unat dn \<longleftrightarrow> k < 8 * unat dn" by (simp add: div_less_iff_less_mult mult.commute)
        ultimately show ?thesis using True d \<open>unat sn \<le> k div 8\<close> by auto
      next
        case False
        then have lt: "k div 8 < unat sn" by simp
        have "unat (of_nat (k div 8) - sn) = 18446744073709551616 + k div 8 - unat sn"
          using lt u unat_lt_2p64[of sn] by (simp add: unat_sub_if_size word_size)
        then show ?thesis using False lt d unat_lt_2p64[of dn] by simp
      qed
      then show ?thesis using m1[OF kk] True by (auto simp: mem_bit_def memset_apply word_less_nat_alt)
    qed
    finally show ?thesis .
  qed
qed

text \<open>The last byte after the copy: its low bits are the copy's, its high bits those from before.\<close>

lemma tail_bits:
  fixes old new :: u8
  assumes ts: "ts < 8" and i: "i < 8"
  shows "bit (ucast (ucast (ucast (drop_bit (8 - ts) (ucast (ucast (push_bit (8 - ts) (ucast new) :: u32) :: u8)) :: u32) :: u8)
      OR push_bit ts (drop_bit ts (ucast old)) :: u32) :: u8) i \<longleftrightarrow> (if i < ts then bit new i else bit old i)"
  using assms by (auto simp: bit_or_iff bit_ucast_iff bit_push_bit_iff bit_drop_bit_eq dest: bit_imp_le_length)

lemma aligned_write_bits:
  assumes al: "bit_index f AND 7 = 0" and apart: "bits_apart src (8 * unat n) (field_data f) (field_start f + field_bits f)"
    and j: "j < 8 * 18446744073709551616"
  defines "dst \<equiv> field_data f + of_nat (field_start f div 8)"
  shows "mem_bit (uacpi_write_buffer_field f src n m) dst j \<longleftrightarrow> (if j < field_bits f then j < 8 * unat n \<and> mem_bit m src j else mem_bit m dst j)"
proof -
  let ?c = "(field_bits f + 7) div 8"
  let ?ts = "ucast (bit_length f AND 7) :: u8"
  note i = aligned_index[OF al]
  have ts: "unat ?ts = field_bits f mod 8" by (rule unat_low_bits32)
  have small: "field_bits f < 4294967296" by (rule ceil_bytes(2))
  have ap: "bits_apart src (8 * unat n) dst (8 * unat (of_nat ?c :: u64))"
    unfolding ceil_bytes_unat bits_apart_bytes dst_def
    using bits_apart_shift[OF apart, of "8 * unat n" 0 "field_bits f" "field_start f div 8"] i(2) by simp
  define z where "z = uacpi_memcpy_zerout dst src (of_nat ?c) n m"
  have z: "mem_bit z dst j \<longleftrightarrow> (if j < 8 * ?c then j < 8 * unat n \<and> mem_bit m src j else mem_bit m dst j)"
    using zerout_bits[OF ap j, of m] by (simp add: z_def ceil_bytes_unat)
  show ?thesis
  proof (cases "field_bits f mod 8 = 0")
    case True
    then have "?ts = 0" "8 * ?c = field_bits f" using ts whole_bytes[OF True] by (simp_all add: word_unat_eq_iff)
    then show ?thesis
      unfolding uacpi_write_buffer_field_def if_P[OF al] Let_def i(1) ceil_bytes(1) dst_def[symmetric] z_def[symmetric]
      using z by simp
  next
    case False
    then have nz: "0 < field_bits f mod 8" by simp
    have t0: "?ts \<noteq> 0" using ts False by auto
    have t8: "unat (8 - ?ts) = 8 - field_bits f mod 8" using unat_8_minus[of ?ts] ts by simp
    let ?q = "field_bits f div 8"
    define v where "v = (ucast (ucast (ucast (drop_bit (8 - field_bits f mod 8) (ucast (ucast (push_bit (8 - field_bits f mod 8) (ucast (z (dst + of_nat ?q))) :: u32) :: u8)) :: u32) :: u8)
      OR push_bit (field_bits f mod 8) (drop_bit (field_bits f mod 8) (ucast (m (dst + of_nat ?q)))) :: u32) :: u8)"
    have eq: "uacpi_write_buffer_field f src n m = z(dst + of_nat ?q := v)"
      unfolding uacpi_write_buffer_field_def if_P[OF al] Let_def i(1) ceil_bytes(1) dst_def[symmetric] z_def[symmetric] if_not_P[OF t0] last_byte_index[OF nz] t8 ts v_def
      by simp
    have "mem_bit (uacpi_write_buffer_field f src n m) dst j =
        (if j div 8 = ?q then if j mod 8 < field_bits f mod 8 then mem_bit z dst j else mem_bit m dst j else mem_bit z dst j)"
      unfolding eq by (subst mem_bit_upd[OF _ j]) (use small in \<open>simp_all add: v_def tail_bits mem_bit_def\<close>)
    moreover have "j < 8 * ?c" if "j div 8 = ?q" unfolding last_byte(1)[OF nz] by (rule same_byte[OF that])
    moreover have "j < field_bits f \<longleftrightarrow> j < 8 * ?c" if "j div 8 \<noteq> ?q"
    proof -
      have "field_bits f < 8 * Suc ?q" by (rule same_byte[OF refl])
      then show ?thesis using last_byte(3)[OF nz that] unfolding last_byte(1)[OF nz] by linarith
    qed
    ultimately show ?thesis using z last_byte(2)[OF nz, of j] by auto
  qed
qed

lemma mem_bit_rebase:
  assumes "k < 8 * 18446744073709551616" and "8 * q \<le> 18446744073709551616"
  obtains j where "j < 8 * 18446744073709551616" and "\<And>x. mem_bit x a k = mem_bit x (a + of_nat q) j"
    and "8 * q \<le> k \<Longrightarrow> j = k - 8 * q" and "k < 8 * q \<Longrightarrow> 7 * 18446744073709551616 \<le> j"
proof (cases "8 * q \<le> k")
  case True
  then show thesis using that[of "k - 8 * q"] assms by (simp add: mem_bit_shift)
next
  case False
  let ?j = "k + 8 * 18446744073709551616 - 8 * q"
  have "k + 8 * 18446744073709551616 = 8 * q + ?j" using assms(2) by simp
  then have "mem_bit x a k = mem_bit x (a + of_nat q) ?j" for x using mem_bit_wrap[of x a k] by (simp only: mem_bit_shift)
  then show thesis using that[of ?j] False assms(2) by simp
qed

lemma write_field_bits:
  assumes apart: "bits_apart src (8 * unat n) (field_data f) (field_start f + field_bits f)" and n: "unat n < 2305843009213693952"
    and k: "k < 8 * 18446744073709551616"
  shows "mem_bit (uacpi_write_buffer_field f src n m) (field_data f) k \<longleftrightarrow>
    (if field_start f \<le> k \<and> k < field_start f + field_bits f then k - field_start f < 8 * unat n \<and> mem_bit m src (k - field_start f)
     else mem_bit m (field_data f) k)"
proof (cases "bit_index f AND 7 = 0")
  case True
  note i = aligned_index[OF True]
  have small: "field_start f < 18446744073709551616" "field_bits f < 4294967296" by (rule unat_lt_2p64, rule ceil_bytes(2))
  have q: "8 * (field_start f div 8) \<le> 18446744073709551616" using small(1) unfolding i(2) by simp
  obtain j where j: "j < 8 * 18446744073709551616" "\<And>x. mem_bit x (field_data f) k = mem_bit x (field_data f + of_nat (field_start f div 8)) j"
    "field_start f \<le> k \<Longrightarrow> j = k - field_start f" "k < field_start f \<Longrightarrow> 7 * 18446744073709551616 \<le> j"
    using mem_bit_rebase[OF k q, of "field_data f"] unfolding i(2) by metis
  have "j < field_bits f \<longleftrightarrow> field_start f \<le> k \<and> k < field_start f + field_bits f"
    using j(3,4) small(2) by (cases "field_start f \<le> k") auto
  then show ?thesis
    unfolding j(2) aligned_write_bits[OF True apart j(1)] using j(3) by auto
next
  case False
  have l: "unat (ucast (bit_length f) :: u64) = field_bits f" "unat (n * 8) = 8 * unat n"
    using ceil_bytes(2)[of "bit_length f"] n by (simp add: unsigned_ucast_eq take_bit_eq_mod, subst unat_mult_no_wrap) simp_all
  show ?thesis
    unfolding uacpi_write_buffer_field_def if_not_P[OF False] do_write_misaligned_buffer_field_def
    by (subst bit_copy_bits[where dst = "\<lparr>span_data = field_data f, span_index = bit_index f, span_length = ucast (bit_length f)\<rparr>", simplified])
      (use apart k in \<open>simp_all add: l\<close>)
qed

text \<open>
  C12: Writing a value of \<open>n\<close> bytes to a field and reading the field back, at any offset and length, gives the value's bits up to the length of
  the field and zeros after them, also where the value is shorter than the field, and the bits of the buffer outside the field are those from
  before the write.
\<close>

theorem buffer_field_roundtrip:
  assumes "bits_apart src (8 * unat n) (field_data f) (field_start f + field_bits f)" and "unat n < 2305843009213693952"
    and "bits_apart (field_data f) (field_start f + field_bits f) dst (field_bits f)"
  shows "(\<forall>k < 8 * ((field_bits f + 7) div 8).
      mem_bit (uacpi_read_buffer_field f dst (uacpi_write_buffer_field f src n m)) dst k \<longleftrightarrow> k < field_bits f \<and> k < 8 * unat n \<and> mem_bit m src k) \<and>
    (\<forall>k < 8 * 18446744073709551616. k < field_start f \<or> field_start f + field_bits f \<le> k \<longrightarrow>
      mem_bit (uacpi_write_buffer_field f src n m) (field_data f) k = mem_bit m (field_data f) k)"
proof (intro conjI allI impI)
  let ?m = "uacpi_write_buffer_field f src n m"
  fix k assume k: "k < 8 * ((field_bits f + 7) div 8)"
  then have kk: "k < 8 * 18446744073709551616" using ceil_bytes(2)[of "bit_length f"] by simp
  have "mem_bit ?m (field_data f) (field_start f + k) \<longleftrightarrow> k < 8 * unat n \<and> mem_bit m src k" if "k < field_bits f"
    using write_field_bits[OF assms(1,2), of "field_start f + k" m] that ceil_bytes(2)[of "bit_length f"] unat_lt_2p64[of "bit_index f"] by simp
  then show "mem_bit (uacpi_read_buffer_field f dst ?m) dst k \<longleftrightarrow> k < field_bits f \<and> k < 8 * unat n \<and> mem_bit m src k"
    using read_field_bits[OF assms(3) kk, of ?m] k by auto
next
  fix k assume "k < 8 * 18446744073709551616" "k < field_start f \<or> field_start f + field_bits f \<le> k"
  then show "mem_bit (uacpi_write_buffer_field f src n m) (field_data f) k = mem_bit m (field_data f) k"
    using write_field_bits[OF assms(1,2), of k m] by auto
qed

text \<open>Eleven bits at offset 13, from a value of two bytes.\<close>

lemma bits_apart_below:
  assumes "unat p + (a + 7) div 8 \<le> unat q" and "unat q + (b + 7) div 8 \<le> 18446744073709551616"
  shows "bits_apart p a q b" and "bits_apart q b p a"
proof -
  have ne: "p + of_nat i \<noteq> q + of_nat j" if "8 * i < a" "8 * j < b" for i j
  proof -
    have i: "i < (a + 7) div 8" and j: "j < (b + 7) div 8" using that by simp_all
    have "unat (p + of_nat i) = unat p + i" "unat (q + of_nat j) = unat q + j"
      using i j assms by (simp_all add: unat_word_ariths unat_of_nat_u64)
    then show ?thesis using i assms(1) by auto
  qed
  show "bits_apart p a q b" "bits_apart q b p a" unfolding bits_apart_def using ne by (blast, metis)
qed

lemma buffer_field_roundtrip_witness:
  "let f = \<lparr>backing = \<lparr>ub_data = 0x1000, ub_size = 16\<rparr>, bit_index = 13, bit_length = 11, force_buffer = False\<rparr>;
       m = uacpi_write_buffer_field f 0x2000 2 (\<lambda>x. if x = 0x2001 then 0xFF else 0xA5)
   in mem_bit (uacpi_read_buffer_field f 0x3000 m) 0x3000 10 \<and> \<not> mem_bit (uacpi_read_buffer_field f 0x3000 m) 0x3000 11 \<and> mem_bit m 0x1000 24"
proof -
  let ?f = "\<lparr>backing = \<lparr>ub_data = 0x1000, ub_size = 16\<rparr>, bit_index = 13, bit_length = 11, force_buffer = False\<rparr>"
  have ap: "bits_apart 0x2000 (8 * unat 2) (field_data ?f) (field_start ?f + field_bits ?f)"
    "bits_apart (field_data ?f) (field_start ?f + field_bits ?f) 0x3000 (field_bits ?f)"
    by (simp_all add: bits_apart_below)
  note r = buffer_field_roundtrip[OF ap(1) _ ap(2), of "\<lambda>x. if x = 0x2001 then 0xFF else 0xA5", THEN conjunct1, rule_format]
  note w = buffer_field_roundtrip[OF ap(1) _ ap(2), of "\<lambda>x. if x = 0x2001 then 0xFF else 0xA5", THEN conjunct2, rule_format]
  show ?thesis unfolding Let_def using r[of 10] r[of 11] w[of 24] by (simp add: mem_bit_def)
qed

end
