(* ===== verification/UacpiText.thy ===== *)
theory UacpiText
  imports AcpiHost
begin

text \<open>
  The characters and numbers of uACPI, the first part of \<open>utilities.c\<close>: the classes of the ASCII characters, the conversion of text to an
  integer, the names of AML and the identifiers of EISA. A text is the list of its bytes up to its end; what lies at its end is read as a zero byte.
\<close>

section \<open>Statuses\<close>

definition UACPI_STATUS_MAPPING_FAILED :: u32 where "UACPI_STATUS_MAPPING_FAILED = 1"
definition UACPI_STATUS_OUT_OF_MEMORY :: u32 where "UACPI_STATUS_OUT_OF_MEMORY = 2"
definition UACPI_STATUS_NOT_FOUND :: u32 where "UACPI_STATUS_NOT_FOUND = 6"
definition UACPI_STATUS_INVALID_ARGUMENT :: u32 where "UACPI_STATUS_INVALID_ARGUMENT = 7"
definition UACPI_STATUS_UNIMPLEMENTED :: u32 where "UACPI_STATUS_UNIMPLEMENTED = 8"
definition UACPI_STATUS_ALREADY_EXISTS :: u32 where "UACPI_STATUS_ALREADY_EXISTS = 9"
definition UACPI_STATUS_INIT_LEVEL_MISMATCH :: u32 where "UACPI_STATUS_INIT_LEVEL_MISMATCH = 12"
definition UACPI_STATUS_HARDWARE_TIMEOUT :: u32 where "UACPI_STATUS_HARDWARE_TIMEOUT = 17"
definition UACPI_STATUS_TIMEOUT :: u32 where "UACPI_STATUS_TIMEOUT = 18"
definition UACPI_STATUS_DENIED :: u32 where "UACPI_STATUS_DENIED = 20"

lemmas uacpi_statuses = UACPI_STATUS_OK_def UACPI_STATUS_MAPPING_FAILED_def UACPI_STATUS_OUT_OF_MEMORY_def UACPI_STATUS_NOT_FOUND_def
  UACPI_STATUS_INVALID_ARGUMENT_def UACPI_STATUS_UNIMPLEMENTED_def UACPI_STATUS_ALREADY_EXISTS_def UACPI_STATUS_INIT_LEVEL_MISMATCH_def
  UACPI_STATUS_HARDWARE_TIMEOUT_def UACPI_STATUS_TIMEOUT_def UACPI_STATUS_DENIED_def

section \<open>Characters\<close>

definition CHAR_TYPE_CONTROL :: u8 where "CHAR_TYPE_CONTROL = 1"
definition CHAR_TYPE_SPACE :: u8 where "CHAR_TYPE_SPACE = 2"
definition CHAR_TYPE_BLANK :: u8 where "CHAR_TYPE_BLANK = 4"
definition CHAR_TYPE_PUNCTUATION :: u8 where "CHAR_TYPE_PUNCTUATION = 8"
definition CHAR_TYPE_LOWER :: u8 where "CHAR_TYPE_LOWER = 16"
definition CHAR_TYPE_UPPER :: u8 where "CHAR_TYPE_UPPER = 32"
definition CHAR_TYPE_DIGIT :: u8 where "CHAR_TYPE_DIGIT = 64"
definition CHAR_TYPE_HEX_DIGIT :: u8 where "CHAR_TYPE_HEX_DIGIT = 128"
definition CHAR_TYPE_ALPHA :: u8 where "CHAR_TYPE_ALPHA = CHAR_TYPE_LOWER OR CHAR_TYPE_UPPER"
definition CHAR_TYPE_ALHEX :: u8 where "CHAR_TYPE_ALHEX = CHAR_TYPE_ALPHA OR CHAR_TYPE_HEX_DIGIT"
definition CHAR_TYPE_ALNUM :: u8 where "CHAR_TYPE_ALNUM = CHAR_TYPE_ALPHA OR CHAR_TYPE_DIGIT"

lemmas char_types = CHAR_TYPE_CONTROL_def CHAR_TYPE_SPACE_def CHAR_TYPE_BLANK_def CHAR_TYPE_PUNCTUATION_def CHAR_TYPE_LOWER_def
  CHAR_TYPE_UPPER_def CHAR_TYPE_DIGIT_def CHAR_TYPE_HEX_DIGIT_def CHAR_TYPE_ALPHA_def CHAR_TYPE_ALHEX_def CHAR_TYPE_ALNUM_def

text \<open>The table by its runs of equal entries, each with its last character; the second half, which the source leaves out, is zero.\<close>

definition ascii_ranges :: "(u8 \<times> u8) list" where
  "ascii_ranges =
     [(8, CHAR_TYPE_CONTROL),
      (9, CHAR_TYPE_CONTROL OR CHAR_TYPE_SPACE OR CHAR_TYPE_BLANK),
      (13, CHAR_TYPE_CONTROL OR CHAR_TYPE_SPACE),
      (31, CHAR_TYPE_CONTROL),
      (32, CHAR_TYPE_SPACE OR CHAR_TYPE_BLANK),
      (47, CHAR_TYPE_PUNCTUATION),
      (57, CHAR_TYPE_DIGIT OR CHAR_TYPE_HEX_DIGIT),
      (64, CHAR_TYPE_PUNCTUATION),
      (70, CHAR_TYPE_UPPER OR CHAR_TYPE_HEX_DIGIT),
      (90, CHAR_TYPE_UPPER),
      (96, CHAR_TYPE_PUNCTUATION),
      (102, CHAR_TYPE_LOWER OR CHAR_TYPE_HEX_DIGIT),
      (122, CHAR_TYPE_LOWER),
      (126, CHAR_TYPE_PUNCTUATION),
      (127, CHAR_TYPE_CONTROL)]"

definition ascii_map :: "u8 \<Rightarrow> u8" where
  "ascii_map c = (case find (\<lambda>(last, _). c \<le> last) ascii_ranges of None \<Rightarrow> 0 | Some (_, t) \<Rightarrow> t)"

definition is_char :: "u8 \<Rightarrow> u8 \<Rightarrow> bool" where
  "is_char c typ \<longleftrightarrow> ascii_map c AND typ = typ"

definition to_lower :: "u8 \<Rightarrow> u8" where
  "to_lower c = (if is_char c CHAR_TYPE_UPPER then c + (0x61 - 0x41) else c)"

section \<open>Text to integer\<close>

type_synonym ctext = "u8 list"

definition chars :: "string \<Rightarrow> ctext" where
  "chars s = map of_char s"

definition deref :: "ctext \<Rightarrow> u8" where
  "deref s = (case s of [] \<Rightarrow> 0 | c # _ \<Rightarrow> c)"

text \<open>A function that takes a character returns what is left of the text and of its size.\<close>

definition peek_one :: "ctext \<Rightarrow> u64 \<Rightarrow> u8 option" where
  "peek_one str sz = (if sz = 0 then None else Some (deref str))"

definition consume_one :: "ctext \<Rightarrow> u64 \<Rightarrow> (u8 \<times> ctext \<times> u64) option" where
  "consume_one str sz = map_option (\<lambda>c. (c, drop 1 str, sz - 1)) (peek_one str sz)"

definition consume_if :: "u8 \<Rightarrow> ctext \<Rightarrow> u64 \<Rightarrow> (ctext \<times> u64) option" where
  "consume_if typ str sz =
     (case peek_one str sz of None \<Rightarrow> None | Some c \<Rightarrow> if \<not> is_char c typ then None else Some (drop 1 str, sz - 1))"

definition consume_if_equals :: "u8 \<Rightarrow> ctext \<Rightarrow> u64 \<Rightarrow> (ctext \<times> u64) option" where
  "consume_if_equals c str sz =
     (case peek_one str sz of None \<Rightarrow> None | Some c1 \<Rightarrow> if to_lower c1 \<noteq> c then None else Some (drop 1 str, sz - 1))"

lemma consume_one_less: "consume_one str sz = Some (c, str', sz') \<Longrightarrow> unat sz' < unat sz"
  by (auto simp: consume_one_def peek_one_def unat_minus_one unat_gt_0 split: if_splits)

lemma consume_if_less: "consume_if typ str sz = Some (str', sz') \<Longrightarrow> unat sz' < unat sz"
  by (auto simp: consume_if_def peek_one_def unat_minus_one unat_gt_0 split: if_splits)

function skip_while :: "u8 \<Rightarrow> ctext \<Rightarrow> u64 \<Rightarrow> ctext \<times> u64" where
  "skip_while typ str sz = (case consume_if typ str sz of None \<Rightarrow> (str, sz) | Some (str, sz) \<Rightarrow> skip_while typ str sz)"
  by pat_completeness auto

termination skip_while
  by (relation "measure (\<lambda>(_, _, sz). unat sz)") (auto dest: consume_if_less)

declare skip_while.simps [simp del]

definition UACPI_BASE_AUTO :: u64 where "UACPI_BASE_AUTO = 0"
definition UACPI_BASE_OCT :: u64 where "UACPI_BASE_OCT = 8"
definition UACPI_BASE_DEC :: u64 where "UACPI_BASE_DEC = 10"
definition UACPI_BASE_HEX :: u64 where "UACPI_BASE_HEX = 16"

lemmas uacpi_bases = UACPI_BASE_AUTO_def UACPI_BASE_OCT_def UACPI_BASE_DEC_def UACPI_BASE_HEX_def

text \<open>The value of one digit, \<open>None\<close> where the code leaves the loop.\<close>

definition digit_value :: "u64 \<Rightarrow> u8 \<Rightarrow> u64 option" where
  "digit_value base c =
     (let t = ascii_map c AND (CHAR_TYPE_DIGIT OR CHAR_TYPE_ALHEX)
      in if t = CHAR_TYPE_DIGIT OR CHAR_TYPE_HEX_DIGIT
         then let next = ucast (c - 0x30) in if base = UACPI_BASE_OCT \<and> 7 < next then None else Some next
         else if t = CHAR_TYPE_LOWER OR CHAR_TYPE_HEX_DIGIT \<or> t = CHAR_TYPE_UPPER OR CHAR_TYPE_HEX_DIGIT
         then if base \<noteq> UACPI_BASE_HEX then None else Some (10 + ucast (to_lower c - 0x61))
         else None)"

text \<open>The loop over the digits returns the value, the last character taken and the size left.\<close>

function digits_loop :: "u64 \<Rightarrow> ctext \<Rightarrow> u64 \<Rightarrow> u64 \<Rightarrow> u8 \<Rightarrow> u64 \<times> u8 \<times> u64" where
  "digits_loop base str sz val c =
     (case consume_one str sz of None \<Rightarrow> (val, c, sz)
      | Some (c, str, sz) \<Rightarrow>
        (case digit_value base c of None \<Rightarrow> (val, c, sz)
         | Some next \<Rightarrow> let next = val * base + next
                      in if next div base \<noteq> val then (0xFFFFFFFFFFFFFFFF, c, sz) else digits_loop base str sz next c))"
  by pat_completeness auto

termination digits_loop
  by (relation "measure (\<lambda>(_, _, sz, _, _). unat sz)") (auto dest: consume_one_less)

declare digits_loop.simps [simp del]

definition parse_sign :: "ctext \<Rightarrow> u64 \<Rightarrow> bool \<times> ctext \<times> u64" where
  "parse_sign str sz =
     (case consume_if_equals 0x2D str sz of Some (str, sz) \<Rightarrow> (True, str, sz)
      | None \<Rightarrow> (case consume_if_equals 0x2B str sz of Some (str, sz) \<Rightarrow> (False, str, sz) | None \<Rightarrow> (False, str, sz)))"

definition parse_base :: "u64 \<Rightarrow> ctext \<Rightarrow> u64 \<Rightarrow> u64 \<times> ctext \<times> u64" where
  "parse_base base str sz =
     (if base = UACPI_BASE_AUTO
      then (case consume_if_equals 0x30 str sz of None \<Rightarrow> (UACPI_BASE_DEC, str, sz)
            | Some (str, sz) \<Rightarrow>
              (case consume_if_equals 0x78 str sz of None \<Rightarrow> (UACPI_BASE_OCT, str, sz) | Some (str, sz) \<Rightarrow> (UACPI_BASE_HEX, str, sz)))
      else (base, str, sz))"

text \<open>The result is the status and the value, which is stored whatever the status is.\<close>

definition uacpi_string_to_integer :: "ctext \<Rightarrow> u64 \<Rightarrow> u64 \<Rightarrow> u32 \<times> u64" where
  "uacpi_string_to_integer str max_chars base =
     (let (str, sz) = skip_while CHAR_TYPE_SPACE str max_chars;
          (negative, str, sz) = parse_sign str sz;
          (base, str, sz) = parse_base base str sz;
          (val, c, sz) = digits_loop base str sz 0 0
      in (if sz = 0 \<or> c = 0 then UACPI_STATUS_OK else UACPI_STATUS_INVALID_ARGUMENT, if negative then - val else val))"

section \<open>Names and identifiers\<close>

definition is_valid_name_byte :: "u8 \<Rightarrow> bool" where
  "is_valid_name_byte c \<longleftrightarrow> c = 0x5F \<or> ascii_map c AND (CHAR_TYPE_DIGIT OR CHAR_TYPE_UPPER) \<noteq> 0"

definition uacpi_is_valid_nameseg :: "u64 \<Rightarrow> bytes \<Rightarrow> bool" where
  "uacpi_is_valid_nameseg nameseg m \<longleftrightarrow>
     is_valid_name_byte (m nameseg) \<and> is_valid_name_byte (m (nameseg + 1)) \<and> is_valid_name_byte (m (nameseg + 2)) \<and> is_valid_name_byte (m (nameseg + 3))"

definition eisa_hex_to_ascii :: "u32 \<Rightarrow> u8" where
  "eisa_hex_to_ascii d = chars ''0123456789ABCDEF'' ! unat (d AND 0x0F)"

text \<open>The bytes of the identifier are swapped first.\<close>

definition eisa_swapped :: "u32 \<Rightarrow> u32" where
  "eisa_swapped i =
     push_bit 24 (i AND 0xFF) OR push_bit 16 (drop_bit 8 i AND 0xFF) OR push_bit 8 (drop_bit 16 i AND 0xFF) OR drop_bit 24 i AND 0xFF"

definition uacpi_eisa_id_to_string :: "u32 \<Rightarrow> u64 \<Rightarrow> bytes \<Rightarrow> bytes" where
  "uacpi_eisa_id_to_string i out m =
     (let d = eisa_swapped i
      in m(out := ucast (0x40 + (drop_bit 26 d AND 0x1F)),
           out + 1 := ucast (0x40 + (drop_bit 21 d AND 0x1F)),
           out + 2 := ucast (0x40 + (drop_bit 16 d AND 0x1F)),
           out + 3 := eisa_hex_to_ascii (drop_bit 12 d),
           out + 4 := eisa_hex_to_ascii (drop_bit 8 d),
           out + 5 := eisa_hex_to_ascii (drop_bit 4 d),
           out + 6 := eisa_hex_to_ascii d,
           out + 7 := 0))"

end
