(* ===== verification/UacpiPrintf.thy ===== *)
theory UacpiPrintf
  imports UacpiText
begin

text \<open>
  uACPI's formatter, \<open>uacpi_vsnprintf\<close> of \<open>stdlib.c\<close>, which all its messages go through. A format is the list of its bytes, and the variable
  arguments are the list of the 64-bit words that hold them; taking an argument that is not there has no result.
\<close>

section \<open>Writing\<close>

record fmt_buf_state =
  fb_buffer :: u64
  fb_capacity :: u64
  bytes_written :: u64

record fmt_spec =
  is_signed :: bool
  prepend :: bool
  uppercase :: bool
  left_justify :: bool
  alternate_form :: bool
  has_precision :: bool
  pad_char :: u8
  prepend_char :: u8
  min_width :: u64
  precision :: u64
  fm_base :: u32

type_synonym fmt_out = "fmt_buf_state \<times> bytes"

definition write_one :: "u8 \<Rightarrow> fmt_out \<Rightarrow> fmt_out" where
  "write_one c = (\<lambda>(fb, m).
     (fb\<lparr>bytes_written := bytes_written fb + 1\<rparr>,
      if bytes_written fb < fb_capacity fb then m(fb_buffer fb + bytes_written fb := c) else m))"

text \<open>The bytes of a constant or of a local array are copied to memory.\<close>

definition store_text :: "u64 \<Rightarrow> u8 list \<Rightarrow> bytes \<Rightarrow> bytes" where
  "store_text a cs m = for_upto (length cs) (\<lambda>i m. m(a + i := cs ! unat i)) m"

definition write_many :: "u8 list \<Rightarrow> fmt_out \<Rightarrow> fmt_out" where
  "write_many string = (\<lambda>(fb, m).
     let count = of_nat (length string); written = bytes_written fb; room = fb_capacity fb - written
     in (fb\<lparr>bytes_written := written + count\<rparr>,
         if written < fb_capacity fb
         then let count_to_write = (if count < room then count else room) in store_text (fb_buffer fb + written) (take (unat count_to_write) string) m
         else m))"

definition hex_char :: "bool \<Rightarrow> u64 \<Rightarrow> u8" where
  "hex_char upper v = (if upper then chars ''0123456789ABCDEF'' else chars ''0123456789abcdef'') ! unat v"

primrec write_times :: "nat \<Rightarrow> u8 \<Rightarrow> fmt_out \<Rightarrow> fmt_out" where
  "write_times 0 c st = st"
| "write_times (Suc n) c st = write_times n c (write_one c st)"

definition write_padding :: "fmt_spec \<Rightarrow> u64 \<Rightarrow> fmt_out \<Rightarrow> fmt_out" where
  "write_padding fm repr_size st =
     (let mw = min_width fm
      in if mw \<le> repr_size then st
         else write_times (unat (mw - repr_size)) (if left_justify fm then 0x20 else pad_char fm) st)"

definition REPR_BUFFER_SIZE :: nat where
  "REPR_BUFFER_SIZE = 32"

text \<open>
  The local array is filled from its end, so that its contents from \<open>index\<close> on are a list that grows at its front; a list longer than the
  array is a store before its start, and there is no result then. A base below 2 would never use up the value.
\<close>

definition push_repr :: "u8 \<Rightarrow> u8 list \<Rightarrow> u8 list option" where
  "push_repr c repr = (if length repr < REPR_BUFFER_SIZE then Some (c # repr) else None)"

definition repr_char :: "fmt_spec \<Rightarrow> u64 \<Rightarrow> u8" where
  "repr_char fm remainder =
     (if fm_base fm = 16 then hex_char (uppercase fm) remainder
      else if fm_base fm = 8 \<or> fm_base fm = 10 then ucast remainder + 0x30
      else 0x3F)"

partial_function (option) repr_digits :: "fmt_spec \<Rightarrow> u64 \<Rightarrow> u8 list \<Rightarrow> u8 list option" where
  "repr_digits fm val repr =
     (if val = 0 then Some repr
      else do { repr \<leftarrow> push_repr (repr_char fm (val mod ucast (fm_base fm))) repr;
                repr_digits fm (val div ucast (fm_base fm)) repr })"

definition write_integer :: "fmt_spec \<Rightarrow> u64 \<Rightarrow> fmt_out \<Rightarrow> fmt_out option" where
  "write_integer fm val st =
     (let negative = (is_signed fm \<and> sint val < 0);
          val = (if negative then - val else val);
          st = (if prepend fm \<or> negative then write_one (if negative then 0x2D else prepend_char fm) st else st)
      in do { repr \<leftarrow> repr_digits fm val [];
              repr \<leftarrow> (if repr = [] then push_repr 0x30 repr else Some repr);
              repr \<leftarrow> (if \<not> alternate_form fm then Some repr
                       else if fm_base fm = 16 then do { repr \<leftarrow> push_repr (if uppercase fm then 0x58 else 0x78) repr; push_repr 0x30 repr }
                       else if fm_base fm = 8 then push_repr 0x30 repr
                       else Some repr);
              let repr_size = of_nat (length repr)
              in Some (if left_justify fm then write_padding fm repr_size (write_many repr st)
                       else write_many repr (write_padding fm repr_size st)) })"

section \<open>Reading the format\<close>

fun string_has_at_least :: "ctext \<Rightarrow> u64 \<Rightarrow> bool" where
  "string_has_at_least [] n = False"
| "string_has_at_least (c # cs) n = (if n - 1 = 0 then True else string_has_at_least cs (n - 1))"

fun count_digits :: "ctext \<Rightarrow> u64 \<Rightarrow> u64 \<times> ctext" where
  "count_digits [] n = (n, [])"
| "count_digits (c # cs) n = (if c < 0x30 \<or> 0x39 < c then (n, c # cs) else count_digits cs (n + 1))"

definition consume_digits :: "ctext \<Rightarrow> (u64 \<times> ctext) option" where
  "consume_digits string = (let (n, rest) = count_digits string 0 in if n = 0 then None else Some (n, rest))"

text \<open>\<open>must\<close> is the mode \<open>PARSE_NUMBER_MODE_MUST\<close>. Without digits the value stays what it was.\<close>

definition parse_number :: "ctext \<Rightarrow> bool \<Rightarrow> u64 \<Rightarrow> (u64 \<times> ctext) option" where
  "parse_number fmt must v =
     (case consume_digits fmt of None \<Rightarrow> if must then None else Some (v, fmt)
      | Some (num_digits, rest) \<Rightarrow>
        let (ret, v) = uacpi_string_to_integer fmt num_digits UACPI_BASE_DEC in if ret = UACPI_STATUS_OK then Some (v, rest) else None)"

definition consume :: "string \<Rightarrow> ctext \<Rightarrow> ctext option" where
  "consume token string =
     (let t = chars token
      in if \<not> string_has_at_least string (of_nat (length t)) then None
         else if take (length t) string = t then Some (drop (length t) string) else None)"

definition is_one_of :: "u8 \<Rightarrow> ctext \<Rightarrow> bool" where
  "is_one_of c list \<longleftrightarrow> c \<in> set list"

definition consume_one_of :: "string \<Rightarrow> ctext \<Rightarrow> (u8 \<times> ctext) option" where
  "consume_one_of list string =
     (case string of [] \<Rightarrow> None | c # rest \<Rightarrow> if is_one_of c (chars list) then Some (c, rest) else None)"

definition base_from_specifier :: "u8 \<Rightarrow> u32" where
  "base_from_specifier specifier = (if specifier = 0x78 \<or> specifier = 0x58 then 16 else if specifier = 0x6F then 8 else 10)"

definition is_uppercase_specifier :: "u8 \<Rightarrow> bool" where
  "is_uppercase_specifier specifier \<longleftrightarrow> specifier = 0x58"

text \<open>The text before the next conversion, and the format from there on.\<close>

fun find_next_conversion :: "ctext \<Rightarrow> ctext \<times> ctext" where
  "find_next_conversion [] = ([], [])"
| "find_next_conversion (c # cs) = (if c = 0x25 then ([], c # cs) else map_prod ((#) c) id (find_next_conversion cs))"

section \<open>Conversions\<close>

text \<open>
  A conversion writes a character, a string or an integer. \<open>Invalid\<close> stands for the return of -1, \<open>Missing\<close> for an argument that is not there.
\<close>

datatype fmt_item = Char_Item u8 | String_Item u64 fmt_spec | Integer_Item fmt_spec u64

datatype 'a parsed = Parsed 'a | Invalid | Missing

fun and_then :: "'a parsed \<Rightarrow> ('a \<Rightarrow> 'b parsed) \<Rightarrow> 'b parsed" where
  "and_then (Parsed x) f = f x"
| "and_then Invalid f = Invalid"
| "and_then Missing f = Missing"

definition va_arg :: "u64 list \<Rightarrow> (u64 \<times> u64 list) parsed" where
  "va_arg args = (case args of [] \<Rightarrow> Missing | a # rest \<Rightarrow> Parsed (a, rest))"

definition int_arg :: "u64 \<Rightarrow> u64" where
  "int_arg a = scast (ucast a :: u32)"

lemma consume_one_of_less: "consume_one_of l s = Some (c, r) \<Longrightarrow> length r < length s"
  by (auto simp: consume_one_of_def split: list.splits if_splits)

function parse_flags :: "fmt_spec \<Rightarrow> ctext \<Rightarrow> (fmt_spec \<times> ctext) parsed" where
  "parse_flags fm fmt =
     (case consume_one_of ''+- 0#'' fmt of None \<Rightarrow> Parsed (fm, fmt)
      | Some (flag, fmt) \<Rightarrow>
        if flag = 0x2B \<or> flag = 0x20 then parse_flags (fm\<lparr>prepend := True, prepend_char := flag\<rparr>) fmt
        else if flag = 0x2D then parse_flags (fm\<lparr>left_justify := True\<rparr>) fmt
        else if flag = 0x30 then parse_flags (fm\<lparr>pad_char := 0x30\<rparr>) fmt
        else if flag = 0x23 then parse_flags (fm\<lparr>alternate_form := True\<rparr>) fmt
        else Invalid)"
  by pat_completeness auto

termination parse_flags
  by (relation "measure (\<lambda>(_, fmt). length fmt)") (auto dest: consume_one_of_less)

declare parse_flags.simps [simp del]

definition parse_width :: "fmt_spec \<Rightarrow> ctext \<Rightarrow> u64 list \<Rightarrow> (fmt_spec \<times> ctext \<times> u64 list) parsed" where
  "parse_width fm fmt args =
     (case consume ''*'' fmt of Some fmt \<Rightarrow> and_then (va_arg args) (\<lambda>(a, args). Parsed (fm\<lparr>min_width := int_arg a\<rparr>, fmt, args))
      | None \<Rightarrow> (case parse_number fmt False (min_width fm) of None \<Rightarrow> Invalid | Some (v, fmt) \<Rightarrow> Parsed (fm\<lparr>min_width := v\<rparr>, fmt, args)))"

definition parse_precision :: "fmt_spec \<Rightarrow> ctext \<Rightarrow> u64 list \<Rightarrow> (fmt_spec \<times> ctext \<times> u64 list) parsed" where
  "parse_precision fm fmt args =
     (case consume ''.'' fmt of None \<Rightarrow> Parsed (fm, fmt, args)
      | Some fmt \<Rightarrow>
        let fm = fm\<lparr>has_precision := True\<rparr>
        in case consume ''*'' fmt of Some fmt \<Rightarrow> and_then (va_arg args) (\<lambda>(a, args). Parsed (fm\<lparr>precision := int_arg a\<rparr>, fmt, args))
           | None \<Rightarrow> (case parse_number fmt True (precision fm) of None \<Rightarrow> Invalid | Some (v, fmt) \<Rightarrow> Parsed (fm\<lparr>precision := v\<rparr>, fmt, args)))"

text \<open>The conversions of an integer that is passed in the low \<open>n\<close> bits of its word.\<close>

definition integer_conversion :: "nat \<Rightarrow> fmt_spec \<Rightarrow> ctext \<Rightarrow> u64 list \<Rightarrow> (fmt_item \<times> ctext \<times> u64 list) parsed" where
  "integer_conversion n fm fmt args =
     (let signed = (\<lambda>fmt. and_then (va_arg args) (\<lambda>(a, args). Parsed (Integer_Item (fm\<lparr>is_signed := True\<rparr>) (signed_take_bit (n - 1) a), fmt, args)))
      in case consume ''d'' fmt of Some fmt \<Rightarrow> signed fmt
         | None \<Rightarrow>
         (case consume ''i'' fmt of Some fmt \<Rightarrow> signed fmt
          | None \<Rightarrow>
          (case consume_one_of ''oxXu'' fmt of None \<Rightarrow> Invalid
           | Some (flag, fmt) \<Rightarrow>
             and_then (va_arg args) (\<lambda>(a, args).
               Parsed (Integer_Item (fm\<lparr>fm_base := base_from_specifier flag, uppercase := is_uppercase_specifier flag\<rparr>) (take_bit n a), fmt, args)))))"

definition parse_item :: "fmt_spec \<Rightarrow> ctext \<Rightarrow> u64 list \<Rightarrow> (fmt_item \<times> ctext \<times> u64 list) parsed" where
  "parse_item fm fmt args =
     (case consume ''c'' fmt of Some fmt \<Rightarrow> and_then (va_arg args) (\<lambda>(a, args). Parsed (Char_Item (ucast a), fmt, args))
      | None \<Rightarrow> (case consume ''s'' fmt of Some fmt \<Rightarrow> and_then (va_arg args) (\<lambda>(a, args). Parsed (String_Item a fm, fmt, args))
      | None \<Rightarrow> (case consume ''p'' fmt of Some fmt \<Rightarrow>
          and_then (va_arg args) (\<lambda>(a, args). Parsed (Integer_Item (fm\<lparr>fm_base := 16, min_width := 16, pad_char := 0x30\<rparr>) a, fmt, args))
      | None \<Rightarrow> (case consume ''hh'' fmt of Some fmt \<Rightarrow> integer_conversion 8 fm fmt args
      | None \<Rightarrow> (case consume ''h'' fmt of Some fmt \<Rightarrow> integer_conversion 16 fm fmt args
      | None \<Rightarrow> (case consume ''ll'' fmt of Some fmt \<Rightarrow> integer_conversion 64 fm fmt args
      | None \<Rightarrow> (case consume ''z'' fmt of Some fmt \<Rightarrow> integer_conversion 64 fm fmt args
      | None \<Rightarrow> (case consume ''l'' fmt of Some fmt \<Rightarrow> integer_conversion 32 fm fmt args
      | None \<Rightarrow> integer_conversion 32 fm fmt args))))))))"

definition initial_spec :: fmt_spec where
  "initial_spec =
     \<lparr>is_signed = False, prepend = False, uppercase = False, left_justify = False, alternate_form = False, has_precision = False,
      pad_char = 0x20, prepend_char = 0, min_width = 0, precision = 0, fm_base = 10\<rparr>"

definition parse_conversion :: "ctext \<Rightarrow> u64 list \<Rightarrow> (fmt_item \<times> ctext \<times> u64 list) parsed" where
  "parse_conversion fmt args =
     and_then (parse_flags initial_spec fmt) (\<lambda>(fm, fmt).
     and_then (parse_width fm fmt args) (\<lambda>(fm, fmt, args).
     and_then (parse_precision fm fmt args) (\<lambda>(fm, fmt, args). parse_item fm fmt args)))"

text \<open>The loop over a string, read by \<open>at\<close>, returns the number of characters written.\<close>

partial_function (option) string_loop :: "fmt_spec \<Rightarrow> (bytes \<Rightarrow> u64 \<Rightarrow> u8) \<Rightarrow> u64 \<Rightarrow> fmt_out \<Rightarrow> (u64 \<times> fmt_out) option" where
  "string_loop fm at i st =
     (if (\<not> has_precision fm \<or> i < precision fm) \<and> at (snd st) i \<noteq> 0
      then string_loop fm at (i + 1) (write_one (at (snd st) i) st)
      else Some (i, st))"

definition string_at :: "u64 \<Rightarrow> bytes \<Rightarrow> u64 \<Rightarrow> u8" where
  "string_at string m i = (if string = NULL then (chars ''<null>'' @ [0]) ! unat i else m (string + i))"

definition write_string :: "u64 \<Rightarrow> fmt_spec \<Rightarrow> fmt_out \<Rightarrow> fmt_out option" where
  "write_string string fm st =
     do { (i, st) \<leftarrow> string_loop fm (string_at string) 0 st;
          Some (if i < min_width fm then write_times (unat (min_width fm - i)) 0x20 st else st) }"

fun write_item :: "fmt_item \<Rightarrow> fmt_out \<Rightarrow> fmt_out option" where
  "write_item (Char_Item c) st = Some (write_one c st)"
| "write_item (String_Item string fm) st = write_string string fm st"
| "write_item (Integer_Item fm val) st = write_integer fm val st"

section \<open>The formatter\<close>

text \<open>The first component of the result is false for the return of -1.\<close>

partial_function (option) vsnprintf_loop :: "ctext \<Rightarrow> u64 list \<Rightarrow> fmt_out \<Rightarrow> (bool \<times> fmt_out) option" where
  "vsnprintf_loop fmt args st =
     (if fmt = [] then Some (True, st)
      else let (text, fmt) = find_next_conversion fmt;
               st = (if text \<noteq> [] then write_many text st else st)
           in if fmt = [] then Some (True, st)
              else (case consume ''%%'' fmt of Some fmt \<Rightarrow> vsnprintf_loop fmt args (write_one 0x25 st)
                    | None \<Rightarrow> (case parse_conversion (tl fmt) args of Invalid \<Rightarrow> Some (False, st) | Missing \<Rightarrow> None
                              | Parsed (item, fmt, args) \<Rightarrow> do { st \<leftarrow> write_item item st; vsnprintf_loop fmt args st })))"

definition uacpi_vsnprintf :: "u64 \<Rightarrow> u64 \<Rightarrow> ctext \<Rightarrow> u64 list \<Rightarrow> bytes \<Rightarrow> (int \<times> bytes) option" where
  "uacpi_vsnprintf buffer cap fmt args m =
     do { (ok, fb, m) \<leftarrow> vsnprintf_loop fmt args (\<lparr>fb_buffer = buffer, fb_capacity = cap, bytes_written = 0\<rparr>, m);
          if \<not> ok then Some (-1, m)
          else let last_char = (if bytes_written fb < cap - 1 then bytes_written fb else cap - 1)
               in Some (sint (ucast (bytes_written fb) :: u32), if cap \<noteq> 0 then m(buffer + last_char := 0) else m) }"

end
