(* ===== verification/UacpiGas.thy ===== *)
theory UacpiGas
  imports AcpiHostProps UacpiBits UacpiPrintf
begin

text \<open>
  The generic address structures of uACPI (\<open>io.c\<close>): a register in memory or in the port space, of any width up to 64 bits, is read and
  written in accesses of one width through the services of the kernel. The state is uACPI's context; the kernel is a part of it.
\<close>

section \<open>State\<close>

record acpi_gas =
  address_space_id :: u8
  register_bit_width :: u8
  register_bit_offset :: u8
  access_size :: u8
  gas_address :: u64

text \<open>The functions for reading, writing and unmapping are those of the port space or those of memory.\<close>

record uacpi_mapped_gas =
  mg_mapping :: u64
  access_bit_width :: u8
  total_bit_width :: u8
  mg_bit_offset :: u8
  mg_io :: bool

text \<open>
  The context, as far as the modelled parts use it, with the kernel. \<open>u_env\<close> is the kernel's environment, \<open>u_slot\<close> and \<open>u_buf\<close> are the places of a local word and of the message
  buffer on the stack, and \<open>u_text\<close> is the address of a string constant.
\<close>

record uacpi_rt =
  u_host :: acpi_host
  log_level :: u8
  init_level :: u8

record uacpi_env =
  u_env :: acpi_env
  u_slot :: u64
  u_buf :: u64
  u_text :: "string \<Rightarrow> u64"

definition set_host :: "acpi_host \<Rightarrow> 'a uacpi_rt_scheme \<Rightarrow> 'a uacpi_rt_scheme" where
  "set_host h rt = rt\<lparr>u_host := h\<rparr>"

definition UACPI_PLAIN_LOG_BUFFER_SIZE :: int where
  "UACPI_PLAIN_LOG_BUFFER_SIZE = 128"

definition uacpi_log :: "uacpi_env \<Rightarrow> u32 \<Rightarrow> string \<Rightarrow> u64 list \<Rightarrow> 'a uacpi_rt_scheme \<Rightarrow> 'a uacpi_rt_scheme option" where
  "uacpi_log e lvl str args rt =
     (let buf = u_buf e
      in do { (ret, m) \<leftarrow> uacpi_vsnprintf buf (of_int UACPI_PLAIN_LOG_BUFFER_SIZE) (chars str) args (h_mem (u_host rt));
              if ret < 0 then Some (set_host (set_mem m (u_host rt)) rt)
              else let m = (if UACPI_PLAIN_LOG_BUFFER_SIZE \<le> ret
                            then m(buf + 123 := 0x2E, buf + 124 := 0x2E, buf + 125 := 0x2E, buf + 126 := 0x0A) else m)
                   in map_option (\<lambda>h. set_host h rt) (uacpi_kernel_log (u_env e) lvl buf (set_mem m (u_host rt))) })"

definition uacpi_log_lvl :: "uacpi_env \<Rightarrow> u32 \<Rightarrow> string \<Rightarrow> u64 list \<Rightarrow> 'a uacpi_rt_scheme \<Rightarrow> 'a uacpi_rt_scheme option" where
  "uacpi_log_lvl e lvl str args rt = (if lvl \<le> ucast (log_level rt) then uacpi_log e lvl str args rt else Some rt)"

definition UACPI_INIT_LEVEL_SUBSYSTEM_INITIALIZED :: u8 where
  "UACPI_INIT_LEVEL_SUBSYSTEM_INITIALIZED = 1"

definition uacpi_init_level_to_string :: "nat \<Rightarrow> string" where
  "uacpi_init_level_to_string lvl =
     (if lvl = 0 then ''early'' else if lvl = 1 then ''subsystem initialized'' else if lvl = 2 then ''namespace loaded''
      else if lvl = 3 then ''namespace initialized'' else ''<invalid>'')"

text \<open>
  The check at the start of a function \<open>f\<close>: with too low a level it returns the status of the mismatch after a message. \<open>res\<close> makes the
  result from a status and the state.
\<close>

definition ensure_init_level :: "uacpi_env \<Rightarrow> string \<Rightarrow> u8 \<Rightarrow> (u32 \<Rightarrow> 'a uacpi_rt_scheme \<Rightarrow> 'r) \<Rightarrow> ('a uacpi_rt_scheme \<Rightarrow> 'r option) \<Rightarrow>
    'a uacpi_rt_scheme \<Rightarrow> 'r option" where
  "ensure_init_level e f lvl res k rt =
     (if init_level rt < lvl
      then map_option (res UACPI_STATUS_INIT_LEVEL_MISMATCH)
        (uacpi_log_lvl e UACPI_LOG_ERROR ''while evaluating %s: init level %d (%s) is too low, expected at least %d (%s)\<newline>''
          [u_text e f, ucast (init_level rt), u_text e (uacpi_init_level_to_string (unat (init_level rt))), ucast lvl,
           u_text e (uacpi_init_level_to_string (unat lvl))] rt)
      else k rt)"

section \<open>Access of one width\<close>

text \<open>A value of 1, 2, 4 or 8 bytes in memory, low byte first.\<close>

definition uacpi_system_memory_read :: "u64 \<Rightarrow> u64 \<Rightarrow> u8 \<Rightarrow> u64 \<Rightarrow> 'a uacpi_rt_scheme \<Rightarrow> u32 \<times> u64" where
  "uacpi_system_memory_read ptr offset width out rt =
     (let p = ptr + offset; m = h_mem (u_host rt)
      in if width = 1 then (UACPI_STATUS_OK, ucast (m p))
         else if width = 2 then (UACPI_STATUS_OK, take_bit 16 (ld64 m p))
         else if width = 4 then (UACPI_STATUS_OK, take_bit 32 (ld64 m p))
         else if width = 8 then (UACPI_STATUS_OK, ld64 m p)
         else (UACPI_STATUS_INVALID_ARGUMENT, out))"

definition store_bytes :: "nat \<Rightarrow> u64 \<Rightarrow> u64 \<Rightarrow> bytes \<Rightarrow> bytes" where
  "store_bytes n p v m = for_upto n (\<lambda>i m. m(p + i := ucast (drop_bit (8 * unat i) v))) m"

definition uacpi_system_memory_write :: "u64 \<Rightarrow> u64 \<Rightarrow> u8 \<Rightarrow> u64 \<Rightarrow> 'a uacpi_rt_scheme \<Rightarrow> u32 \<times> 'a uacpi_rt_scheme" where
  "uacpi_system_memory_write ptr offset width v rt =
     (let p = ptr + offset
      in if width = 1 \<or> width = 2 \<or> width = 4 \<or> width = 8
         then (UACPI_STATUS_OK, set_host (set_mem (store_bytes (unat width) p v (h_mem (u_host rt))) (u_host rt)) rt)
         else (UACPI_STATUS_INVALID_ARGUMENT, rt))"

text \<open>The local \<open>data\<close> is the word at \<open>u_slot\<close>, cleared before the kernel stores into it.\<close>

definition uacpi_system_io_read :: "uacpi_env \<Rightarrow> u64 \<Rightarrow> u64 \<Rightarrow> u8 \<Rightarrow> u64 \<Rightarrow> 'a uacpi_rt_scheme \<Rightarrow> (u32 \<times> u64 \<times> 'a uacpi_rt_scheme) option" where
  "uacpi_system_io_read e handle offset width out rt =
     (let h = set_mem (st64 (h_mem (u_host rt)) (u_slot e) 0) (u_host rt);
          done = (\<lambda>(ret, h). (ret, if ret = UACPI_STATUS_OK then ld64 (h_mem h) (u_slot e) else out, set_host h rt))
      in if width = 1 then Some (done (uacpi_kernel_io_read8 (u_env e) handle offset (u_slot e) h))
         else if width = 2 then Some (done (uacpi_kernel_io_read16 (u_env e) handle offset (u_slot e) h))
         else if width = 4 then map_option done (uacpi_kernel_io_read32 (u_env e) handle offset (u_slot e) h)
         else map_option (\<lambda>rt. (UACPI_STATUS_INVALID_ARGUMENT, out, rt))
           (uacpi_log_lvl e UACPI_LOG_ERROR ''invalid SystemIO read %p@%zu width=%d\<newline>'' [handle, offset, ucast width] (set_host h rt)))"

definition uacpi_system_io_write :: "uacpi_env \<Rightarrow> u64 \<Rightarrow> u64 \<Rightarrow> u8 \<Rightarrow> u64 \<Rightarrow> 'a uacpi_rt_scheme \<Rightarrow> (u32 \<times> 'a uacpi_rt_scheme) option" where
  "uacpi_system_io_write e handle offset width v rt =
     (let done = map_prod id (\<lambda>h. set_host h rt)
      in if width = 1 then Some (done (uacpi_kernel_io_write8 handle offset (ucast v) (u_host rt)))
         else if width = 2 then Some (done (uacpi_kernel_io_write16 handle offset (ucast v) (u_host rt)))
         else if width = 4 then map_option done (uacpi_kernel_io_write32 (u_env e) handle offset (ucast v) (u_host rt))
         else map_option (Pair UACPI_STATUS_INVALID_ARGUMENT)
           (uacpi_log_lvl e UACPI_LOG_ERROR ''invalid SystemIO write %p@%zu width=%d\<newline>'' [handle, offset, ucast width] rt))"

section \<open>Mapping a register\<close>

text \<open>The one-based position of the highest bit.\<close>

definition uacpi_bit_scan_backward :: "u64 \<Rightarrow> u8" where
  "uacpi_bit_scan_backward v = (case find (bit v) (rev [0..<64]) of None \<Rightarrow> 0 | Some i \<Rightarrow> of_nat (Suc i))"

definition UACPI_ADDRESS_SPACE_SYSTEM_MEMORY :: u8 where "UACPI_ADDRESS_SPACE_SYSTEM_MEMORY = 0"
definition UACPI_ADDRESS_SPACE_SYSTEM_IO :: u8 where "UACPI_ADDRESS_SPACE_SYSTEM_IO = 1"

text \<open>The loop that halves the width until the address is aligned.\<close>

partial_function (option) back_off :: "u64 \<Rightarrow> u8 \<Rightarrow> u8 option" where
  "back_off address width = (if address AND (ucast (width div 8) - 1) \<noteq> 0 then back_off address (width div 2) else Some width)"

definition gas_get_access_bit_width :: "acpi_gas \<Rightarrow> u8 option" where
  "gas_get_access_bit_width gas =
     do { w \<leftarrow>
            (if register_bit_offset gas = 0 \<and> register_bit_width gas AND (register_bit_width gas - 1) = 0 \<and> register_bit_width gas AND (8 - 1) = 0
             then Some (register_bit_width gas)
             else if access_size gas \<noteq> 0 then Some (access_size gas * 8)
             else let msb = uacpi_bit_scan_backward (ucast (register_bit_offset gas) + ucast (register_bit_width gas) - 1);
                      width = ucast (push_bit (unat msb) (1 :: u32)) :: u8
                  in if width \<le> 8 then Some 8 else back_off (gas_address gas) width);
          let most = (if address_space_id gas = UACPI_ADDRESS_SPACE_SYSTEM_IO then 32 else 64)
          in Some (if w < most then w else most) }"

definition uacpi_address_space_to_string :: "u32 \<Rightarrow> string" where
  "uacpi_address_space_to_string space =
     (if space = 0 then ''SystemMemory'' else if space = 1 then ''SystemIO'' else if space = 2 then ''PCI_Config''
      else if space = 3 then ''EmbeddedControl'' else if space = 4 then ''SMBus'' else if space = 5 then ''SystemCMOS''
      else if space = 6 then ''PciBarTarget'' else if space = 7 then ''IPMI'' else if space = 8 then ''GeneralPurposeIO''
      else if space = 9 then ''GenericSerialBus'' else if space = 0x0A then ''PCC'' else if space = 0x0B then ''PlatformRtMechanism''
      else if space = 0x7F then ''FFixedHW'' else if space = 0xDA1A then ''TableData'' else ''<vendor specific>'')"

text \<open>The result has the status and, when that is OK, the access width and the total width.\<close>

definition gas_validate :: "uacpi_env \<Rightarrow> acpi_gas option \<Rightarrow> 'a uacpi_rt_scheme \<Rightarrow> (u32 \<times> u8 \<times> u8 \<times> 'a uacpi_rt_scheme) option" where
  "gas_validate e g rt =
     (case g of None \<Rightarrow> Some (UACPI_STATUS_INVALID_ARGUMENT, 0, 0, rt)
      | Some gas \<Rightarrow>
        let refuse = (\<lambda>str args. map_option (\<lambda>rt. (UACPI_STATUS_UNIMPLEMENTED, 0, 0, rt)) (uacpi_log_lvl e UACPI_LOG_WARN str args rt))
        in if gas_address gas = 0 then Some (UACPI_STATUS_NOT_FOUND, 0, 0, rt)
           else if address_space_id gas \<noteq> UACPI_ADDRESS_SPACE_SYSTEM_IO \<and> address_space_id gas \<noteq> UACPI_ADDRESS_SPACE_SYSTEM_MEMORY
           then refuse ''unsupported GAS address space '%s' (%d)\<newline>'' [u_text e (uacpi_address_space_to_string (ucast (address_space_id gas))), ucast (address_space_id gas)]
           else if 4 < access_size gas then refuse ''unsupported GAS access size %d\<newline>'' [ucast (access_size gas)]
           else do { access \<leftarrow> gas_get_access_bit_width gas;
                     let total = ucast (register_bit_offset gas) + ucast (register_bit_width gas) :: u64
                     in if 64 < UACPI_ALIGN_UP_MASK total (ucast access - 1)
                        then refuse ''GAS register total width is too large: %zu\<newline>'' [total]
                        else Some (UACPI_STATUS_OK, access, ucast total, rt) })"

definition uacpi_map_gas_noalloc :: "uacpi_env \<Rightarrow> acpi_gas option \<Rightarrow> 'a uacpi_rt_scheme \<Rightarrow> (u32 \<times> uacpi_mapped_gas option \<times> 'a uacpi_rt_scheme) option" where
  "uacpi_map_gas_noalloc e g rt =
     do { (ret, access, total, rt) \<leftarrow> gas_validate e g rt;
          if ret \<noteq> UACPI_STATUS_OK then Some (ret, None, rt)
          else let gas = the g;
                   mapped = (\<lambda>addr io. \<lparr>mg_mapping = addr, access_bit_width = access, total_bit_width = total, mg_bit_offset = register_bit_offset gas, mg_io = io\<rparr>)
               in if address_space_id gas = UACPI_ADDRESS_SPACE_SYSTEM_MEMORY
                  then let addr = uacpi_kernel_map (gas_address gas) (ucast (total div 8))
                       in if addr = NULL then Some (UACPI_STATUS_MAPPING_FAILED, None, rt) else Some (UACPI_STATUS_OK, Some (mapped addr False), rt)
                  else let (ret, h) = uacpi_kernel_io_map (gas_address gas) (ucast (total div 8)) (u_slot e) (u_host rt)
                       in if ret \<noteq> UACPI_STATUS_OK then Some (ret, None, set_host h rt)
                          else Some (UACPI_STATUS_OK, Some (mapped (ld64 (h_mem h) (u_slot e)) True), set_host h rt) }"

definition uacpi_unmap_gas_nofree :: "uacpi_env \<Rightarrow> uacpi_mapped_gas \<Rightarrow> 'a uacpi_rt_scheme \<Rightarrow> 'a uacpi_rt_scheme option" where
  "uacpi_unmap_gas_nofree e g rt =
     (if mg_io g then map_option (\<lambda>h. set_host h rt) (uacpi_kernel_io_unmap (u_env e) (mg_mapping g) (u_host rt))
      else Some (set_host (uacpi_kernel_unmap (mg_mapping g) (ucast (access_bit_width g div 8)) (u_host rt)) rt))"

section \<open>Reading and writing a register\<close>

definition gas_read_access :: "uacpi_env \<Rightarrow> uacpi_mapped_gas \<Rightarrow> u64 \<Rightarrow> u8 \<Rightarrow> u64 \<Rightarrow> 'a uacpi_rt_scheme \<Rightarrow> (u32 \<times> u64 \<times> 'a uacpi_rt_scheme) option" where
  "gas_read_access e g offset width out rt =
     (if mg_io g then uacpi_system_io_read e (mg_mapping g) offset width out rt
      else let (ret, v) = uacpi_system_memory_read (mg_mapping g) offset width out rt in Some (ret, v, rt))"

definition gas_write_access :: "uacpi_env \<Rightarrow> uacpi_mapped_gas \<Rightarrow> u64 \<Rightarrow> u8 \<Rightarrow> u64 \<Rightarrow> 'a uacpi_rt_scheme \<Rightarrow> (u32 \<times> 'a uacpi_rt_scheme) option" where
  "gas_write_access e g offset width v rt =
     (if mg_io g then uacpi_system_io_write e (mg_mapping g) offset width v rt
      else Some (uacpi_system_memory_write (mg_mapping g) offset width v rt))"

definition access_mask :: "uacpi_mapped_gas \<Rightarrow> u64" where
  "access_mask g = (if access_bit_width g div 8 < 8 then NOT (push_bit (unat (access_bit_width g)) 0xFFFFFFFFFFFFFFFF) else 0xFFFFFFFFFFFFFFFF)"

text \<open>The loops, with the bit offset, the bits left, the index, the byte offset and the value so far.\<close>

partial_function (option) gas_read_loop :: "uacpi_env \<Rightarrow> uacpi_mapped_gas \<Rightarrow> u8 \<Rightarrow> u8 \<Rightarrow> u8 \<Rightarrow> u64 \<Rightarrow> u64 \<Rightarrow> 'a uacpi_rt_scheme \<Rightarrow>
    (u32 \<times> u64 \<times> 'a uacpi_rt_scheme) option" where
  "gas_read_loop e g bit_offset bits_left index offset out rt =
     (if bits_left = 0 then Some (UACPI_STATUS_OK, out, rt)
      else do { (ret, data, bit_offset, rt) \<leftarrow>
                  (if access_bit_width g \<le> bit_offset then Some (UACPI_STATUS_OK, 0, bit_offset - access_bit_width g, rt)
                   else map_option (\<lambda>(ret, data, rt). (ret, data, bit_offset, rt)) (gas_read_access e g offset (access_bit_width g div 8) 0 rt));
                if ret \<noteq> UACPI_STATUS_OK then Some (ret, out, rt)
                else gas_read_loop e g bit_offset (bits_left - (if bits_left < access_bit_width g then bits_left else access_bit_width g)) (index + 1)
                       (offset + ucast (access_bit_width g div 8))
                       (out OR push_bit (unat index * unat (access_bit_width g)) (data AND access_mask g)) rt })"

definition uacpi_gas_read_mapped :: "uacpi_env \<Rightarrow> uacpi_mapped_gas \<Rightarrow> 'a uacpi_rt_scheme \<Rightarrow> (u32 \<times> u64 \<times> 'a uacpi_rt_scheme) option" where
  "uacpi_gas_read_mapped e g rt = gas_read_loop e g (mg_bit_offset g) (total_bit_width g) 0 0 0 rt"

partial_function (option) gas_write_loop :: "uacpi_env \<Rightarrow> uacpi_mapped_gas \<Rightarrow> u64 \<Rightarrow> u8 \<Rightarrow> u8 \<Rightarrow> u8 \<Rightarrow> u64 \<Rightarrow> 'a uacpi_rt_scheme \<Rightarrow>
    (u32 \<times> 'a uacpi_rt_scheme) option" where
  "gas_write_loop e g v bit_offset bits_left index offset rt =
     (if bits_left = 0 then Some (UACPI_STATUS_OK, rt)
      else let data = drop_bit (unat index * unat (access_bit_width g)) v AND access_mask g
           in do { (ret, bit_offset, rt) \<leftarrow>
                     (if access_bit_width g \<le> bit_offset then Some (UACPI_STATUS_OK, bit_offset - access_bit_width g, rt)
                      else map_option (\<lambda>(ret, rt). (ret, bit_offset, rt)) (gas_write_access e g offset (access_bit_width g div 8) data rt));
                   if ret \<noteq> UACPI_STATUS_OK then Some (ret, rt)
                   else gas_write_loop e g v bit_offset (bits_left - (if bits_left < access_bit_width g then bits_left else access_bit_width g)) (index + 1)
                          (offset + ucast (access_bit_width g div 8)) rt })"

definition uacpi_gas_write_mapped :: "uacpi_env \<Rightarrow> uacpi_mapped_gas \<Rightarrow> u64 \<Rightarrow> 'a uacpi_rt_scheme \<Rightarrow> (u32 \<times> 'a uacpi_rt_scheme) option" where
  "uacpi_gas_write_mapped e g v rt = gas_write_loop e g v (mg_bit_offset g) (total_bit_width g) 0 0 rt"

definition uacpi_gas_read :: "uacpi_env \<Rightarrow> acpi_gas option \<Rightarrow> u64 \<Rightarrow> 'a uacpi_rt_scheme \<Rightarrow> (u32 \<times> u64 \<times> 'a uacpi_rt_scheme) option" where
  "uacpi_gas_read e gas out rt =
     do { (ret, g, rt) \<leftarrow> uacpi_map_gas_noalloc e gas rt;
          case g of None \<Rightarrow> Some (ret, out, rt)
          | Some g \<Rightarrow> do { (ret, v, rt) \<leftarrow> uacpi_gas_read_mapped e g rt; rt \<leftarrow> uacpi_unmap_gas_nofree e g rt; Some (ret, v, rt) } }"

definition uacpi_gas_write :: "uacpi_env \<Rightarrow> acpi_gas option \<Rightarrow> u64 \<Rightarrow> 'a uacpi_rt_scheme \<Rightarrow> (u32 \<times> 'a uacpi_rt_scheme) option" where
  "uacpi_gas_write e gas v rt =
     do { (ret, g, rt) \<leftarrow> uacpi_map_gas_noalloc e gas rt;
          case g of None \<Rightarrow> Some (ret, rt)
          | Some g \<Rightarrow> do { (ret, rt) \<leftarrow> uacpi_gas_write_mapped e g v rt; rt \<leftarrow> uacpi_unmap_gas_nofree e g rt; Some (ret, rt) } }"

end
