(* ===== verification/UacpiRegs.thy ===== *)
theory UacpiRegs
  imports UacpiGas
begin

text \<open>
  The fixed hardware registers of ACPI, \<open>registers.c\<close> of uACPI: which block of the FADT holds a register, the bits that a write preserves or
  may only set, and the fields. The kernel's shutdown and the events go through them.
\<close>

section \<open>Registers\<close>

text \<open>The blocks of the context, \<open>pm1a_status_blk\<close> and so on, and those of its copy of the FADT.\<close>

record fadt_blocks =
  pm1a_status_blk :: acpi_gas
  pm1b_status_blk :: acpi_gas
  pm1a_enable_blk :: acpi_gas
  pm1b_enable_blk :: acpi_gas
  x_pm1a_cnt_blk :: acpi_gas
  x_pm1b_cnt_blk :: acpi_gas
  x_pm_tmr_blk :: acpi_gas
  x_pm2_cnt_blk :: acpi_gas
  sleep_control_reg :: acpi_gas
  sleep_status_reg :: acpi_gas
  reset_reg :: acpi_gas
  smi_cmd :: u32

definition UACPI_REGISTER_PM1_STS :: u8 where "UACPI_REGISTER_PM1_STS = 0"
definition UACPI_REGISTER_PM1_EN :: u8 where "UACPI_REGISTER_PM1_EN = 1"
definition UACPI_REGISTER_PM1_CNT :: u8 where "UACPI_REGISTER_PM1_CNT = 2"
definition UACPI_REGISTER_PM_TMR :: u8 where "UACPI_REGISTER_PM_TMR = 3"
definition UACPI_REGISTER_PM2_CNT :: u8 where "UACPI_REGISTER_PM2_CNT = 4"
definition UACPI_REGISTER_SLP_CNT :: u8 where "UACPI_REGISTER_SLP_CNT = 5"
definition UACPI_REGISTER_SLP_STS :: u8 where "UACPI_REGISTER_SLP_STS = 6"
definition UACPI_REGISTER_RESET :: u8 where "UACPI_REGISTER_RESET = 7"
definition UACPI_REGISTER_SMI_CMD :: u8 where "UACPI_REGISTER_SMI_CMD = 8"
definition UACPI_REGISTER_MAX :: u8 where "UACPI_REGISTER_MAX = UACPI_REGISTER_SMI_CMD"

lemmas register_numbers = UACPI_REGISTER_PM1_STS_def UACPI_REGISTER_PM1_EN_def UACPI_REGISTER_PM1_CNT_def UACPI_REGISTER_PM_TMR_def
  UACPI_REGISTER_PM2_CNT_def UACPI_REGISTER_SLP_CNT_def UACPI_REGISTER_SLP_STS_def UACPI_REGISTER_RESET_def UACPI_REGISTER_SMI_CMD_def
  UACPI_REGISTER_MAX_def

definition REGISTER_KIND_GAS :: u8 where "REGISTER_KIND_GAS = 0"
definition REGISTER_KIND_IO :: u8 where "REGISTER_KIND_IO = 1"
definition REGISTER_ACCESS_KIND_PRESERVE :: u8 where "REGISTER_ACCESS_KIND_PRESERVE = 0"
definition REGISTER_ACCESS_KIND_WRITE_TO_CLEAR :: u8 where "REGISTER_ACCESS_KIND_WRITE_TO_CLEAR = 1"
definition REGISTER_ACCESS_KIND_NORMAL :: u8 where "REGISTER_ACCESS_KIND_NORMAL = 2"

lemmas register_kinds = REGISTER_KIND_GAS_def REGISTER_KIND_IO_def REGISTER_ACCESS_KIND_PRESERVE_def REGISTER_ACCESS_KIND_WRITE_TO_CLEAR_def
  REGISTER_ACCESS_KIND_NORMAL_def

text \<open>The accessors of a register of the kind GAS are blocks, that of the kind IO is a port number.\<close>

record register_spec =
  kind :: u8
  access_kind :: u8
  access_width :: u8
  accessors :: "nat \<Rightarrow> (fadt_blocks \<Rightarrow> acpi_gas) option"
  io_accessor :: "fadt_blocks \<Rightarrow> u32"
  write_only_mask :: u64
  preserve_mask :: u64

definition ACPI_PM1_STS_IGN0_MASK :: u64 where "ACPI_PM1_STS_IGN0_MASK = 0x800"
definition ACPI_PM1_CNT_SLP_EN_MASK :: u64 where "ACPI_PM1_CNT_SLP_EN_MASK = 0x2000"
definition ACPI_PM1_CNT_GBL_RLS_MASK :: u64 where "ACPI_PM1_CNT_GBL_RLS_MASK = 4"
definition ACPI_PM1_CNT_PRESERVE_MASK :: u64 where "ACPI_PM1_CNT_PRESERVE_MASK = 0xC3F8"
definition ACPI_PM2_CNT_PRESERVE_MASK :: u64 where "ACPI_PM2_CNT_PRESERVE_MASK = NOT 1"
definition ACPI_SLP_CNT_SLP_EN_MASK :: u64 where "ACPI_SLP_CNT_SLP_EN_MASK = 0x20"
definition ACPI_SLP_CNT_PRESERVE_MASK :: u64 where "ACPI_SLP_CNT_PRESERVE_MASK = 0xC3"
definition ACPI_SLP_STS_PRESERVE_MASK :: u64 where "ACPI_SLP_STS_PRESERVE_MASK = NOT 0x80"

lemmas register_masks = ACPI_PM1_STS_IGN0_MASK_def ACPI_PM1_CNT_SLP_EN_MASK_def ACPI_PM1_CNT_GBL_RLS_MASK_def ACPI_PM1_CNT_PRESERVE_MASK_def
  ACPI_PM2_CNT_PRESERVE_MASK_def ACPI_SLP_CNT_SLP_EN_MASK_def ACPI_SLP_CNT_PRESERVE_MASK_def ACPI_SLP_STS_PRESERVE_MASK_def

text \<open>What an initializer does not name is 0.\<close>

definition gas_register :: "u8 \<Rightarrow> (fadt_blocks \<Rightarrow> acpi_gas) list \<Rightarrow> u64 \<Rightarrow> u64 \<Rightarrow> register_spec" where
  "gas_register acc bs write_only preserve =
     \<lparr>kind = REGISTER_KIND_GAS, access_kind = acc, access_width = 0,
      accessors = (\<lambda>i. if i < length bs then Some (bs ! i) else None), io_accessor = (\<lambda>_. 0),
      write_only_mask = write_only, preserve_mask = preserve\<rparr>"

definition g_registers :: "u8 \<Rightarrow> register_spec" where
  "g_registers idx =
     (if idx = UACPI_REGISTER_PM1_STS
      then gas_register REGISTER_ACCESS_KIND_WRITE_TO_CLEAR [pm1a_status_blk, pm1b_status_blk] 0 ACPI_PM1_STS_IGN0_MASK
      else if idx = UACPI_REGISTER_PM1_EN then gas_register REGISTER_ACCESS_KIND_PRESERVE [pm1a_enable_blk, pm1b_enable_blk] 0 0
      else if idx = UACPI_REGISTER_PM1_CNT
      then gas_register REGISTER_ACCESS_KIND_PRESERVE [x_pm1a_cnt_blk, x_pm1b_cnt_blk] (ACPI_PM1_CNT_SLP_EN_MASK OR ACPI_PM1_CNT_GBL_RLS_MASK) ACPI_PM1_CNT_PRESERVE_MASK
      else if idx = UACPI_REGISTER_PM_TMR then gas_register REGISTER_ACCESS_KIND_PRESERVE [x_pm_tmr_blk] 0 0
      else if idx = UACPI_REGISTER_PM2_CNT then gas_register REGISTER_ACCESS_KIND_PRESERVE [x_pm2_cnt_blk] 0 ACPI_PM2_CNT_PRESERVE_MASK
      else if idx = UACPI_REGISTER_SLP_CNT
      then gas_register REGISTER_ACCESS_KIND_PRESERVE [sleep_control_reg] ACPI_SLP_CNT_SLP_EN_MASK ACPI_SLP_CNT_PRESERVE_MASK
      else if idx = UACPI_REGISTER_SLP_STS
      then gas_register REGISTER_ACCESS_KIND_WRITE_TO_CLEAR [sleep_status_reg] 0 ACPI_SLP_STS_PRESERVE_MASK
      else if idx = UACPI_REGISTER_RESET then gas_register REGISTER_ACCESS_KIND_NORMAL [reset_reg] 0 0
      else \<lparr>kind = REGISTER_KIND_IO, access_kind = REGISTER_ACCESS_KIND_NORMAL, access_width = 1, accessors = (\<lambda>_. None),
            io_accessor = smi_cmd, write_only_mask = 0, preserve_mask = 0\<rparr>)"

definition REGISTER_MAPPING_STATE_NONE :: u8 where "REGISTER_MAPPING_STATE_NONE = 0"
definition REGISTER_MAPPING_STATE_NOT_NEEDED :: u8 where "REGISTER_MAPPING_STATE_NOT_NEEDED = 1"
definition REGISTER_MAPPING_STATE_MAPPED :: u8 where "REGISTER_MAPPING_STATE_MAPPED = 2"

lemmas mapping_states = REGISTER_MAPPING_STATE_NONE_def REGISTER_MAPPING_STATE_NOT_NEEDED_def REGISTER_MAPPING_STATE_MAPPED_def

record register_mapping =
  mappings :: "nat \<Rightarrow> uacpi_mapped_gas"
  states :: "nat \<Rightarrow> u8"

record uacpi_regs = uacpi_rt +
  blocks :: fadt_blocks
  g_reg_lock :: u64
  g_register_mappings :: "u8 \<Rightarrow> register_mapping"

section \<open>Mapping\<close>

definition set_state :: "u8 \<Rightarrow> nat \<Rightarrow> u8 \<Rightarrow> 'a uacpi_regs_scheme \<Rightarrow> 'a uacpi_regs_scheme" where
  "set_state r idx v rt =
     (let mp = g_register_mappings rt r in rt\<lparr>g_register_mappings := (g_register_mappings rt)(r := mp\<lparr>states := (states mp)(idx := v)\<rparr>)\<rparr>)"

definition set_mapping :: "u8 \<Rightarrow> nat \<Rightarrow> uacpi_mapped_gas \<Rightarrow> 'a uacpi_regs_scheme \<Rightarrow> 'a uacpi_regs_scheme" where
  "set_mapping r idx g rt =
     (let mp = g_register_mappings rt r in rt\<lparr>g_register_mappings := (g_register_mappings rt)(r := mp\<lparr>mappings := (mappings mp)(idx := g)\<rparr>)\<rparr>)"

definition map_one :: "uacpi_env \<Rightarrow> u8 \<Rightarrow> nat \<Rightarrow> 'a uacpi_regs_scheme \<Rightarrow> (u32 \<times> 'a uacpi_regs_scheme) option" where
  "map_one e r idx rt =
     (let spec = g_registers r;
          not_needed = Some (UACPI_STATUS_OK, set_state r idx REGISTER_MAPPING_STATE_NOT_NEEDED rt);
          try_map = (\<lambda>gas. do { (ret, g, rt) \<leftarrow> uacpi_map_gas_noalloc e (Some gas) rt;
                      case g of None \<Rightarrow> Some (ret, rt)
                      | Some g \<Rightarrow> Some (ret, set_state r idx REGISTER_MAPPING_STATE_MAPPED (set_mapping r idx g rt)) })
      in if states (g_register_mappings rt r) idx \<noteq> REGISTER_MAPPING_STATE_NONE then Some (UACPI_STATUS_OK, rt)
         else if kind spec = REGISTER_KIND_GAS
         then (case accessors spec idx of None \<Rightarrow> not_needed
               | Some block \<Rightarrow> let gas = block (blocks rt) in if gas_address gas = 0 then not_needed else try_map gas)
         else if idx \<noteq> 0 then not_needed
         else try_map \<lparr>address_space_id = UACPI_ADDRESS_SPACE_SYSTEM_IO, register_bit_width = access_width spec * 8, register_bit_offset = 0,
                access_size = 0, gas_address = ucast (io_accessor spec (blocks rt))\<rparr>)"

definition reg_lock :: "'a uacpi_regs_scheme \<Rightarrow> (u64 \<times> 'a uacpi_regs_scheme) option" where
  "reg_lock rt = map_option (\<lambda>(flags, h). (flags, set_host h rt)) (uacpi_kernel_lock_spinlock (g_reg_lock rt) (u_host rt))"

definition reg_unlock :: "u64 \<Rightarrow> 'a uacpi_regs_scheme \<Rightarrow> 'a uacpi_regs_scheme" where
  "reg_unlock flags rt = set_host (uacpi_kernel_unlock_spinlock (g_reg_lock rt) flags (u_host rt)) rt"

definition ensure_register_mapped :: "uacpi_env \<Rightarrow> u8 \<Rightarrow> 'a uacpi_regs_scheme \<Rightarrow> (u32 \<times> 'a uacpi_regs_scheme) option" where
  "ensure_register_mapped e r rt =
     (let state = states (g_register_mappings rt r)
      in if \<not> (state 0 = REGISTER_MAPPING_STATE_NONE \<or> state 1 = REGISTER_MAPPING_STATE_NONE) then Some (UACPI_STATUS_OK, rt)
         else do { (flags, rt) \<leftarrow> reg_lock rt;
                   (ret, rt) \<leftarrow> map_one e r 0 rt;
                   (ret, rt) \<leftarrow> (if ret \<noteq> UACPI_STATUS_OK then Some (ret, rt) else map_one e r 1 rt);
                   Some (ret, reg_unlock flags rt) })"

section \<open>Reading and writing\<close>

definition do_read_one :: "uacpi_env \<Rightarrow> u8 \<Rightarrow> nat \<Rightarrow> 'a uacpi_regs_scheme \<Rightarrow> (u32 \<times> u64 \<times> 'a uacpi_regs_scheme) option" where
  "do_read_one e r idx rt =
     (let mp = g_register_mappings rt r
      in if states mp idx \<noteq> REGISTER_MAPPING_STATE_MAPPED then Some (UACPI_STATUS_OK, 0, rt) else uacpi_gas_read_mapped e (mappings mp idx) rt)"

definition do_read_register :: "uacpi_env \<Rightarrow> u8 \<Rightarrow> u64 \<Rightarrow> 'a uacpi_regs_scheme \<Rightarrow> (u32 \<times> u64 \<times> 'a uacpi_regs_scheme) option" where
  "do_read_register e r out rt =
     do { (ret, value0, rt) \<leftarrow> do_read_one e r 0 rt;
          if ret \<noteq> UACPI_STATUS_OK then Some (ret, out, rt)
          else do { (ret, value1, rt) \<leftarrow> do_read_one e r 1 rt;
                    if ret \<noteq> UACPI_STATUS_OK then Some (ret, out, rt)
                    else let v = value0 OR value1; w = write_only_mask (g_registers r)
                         in Some (UACPI_STATUS_OK, if w \<noteq> 0 then v AND NOT w else v, rt) } }"

definition do_write_one :: "uacpi_env \<Rightarrow> u8 \<Rightarrow> nat \<Rightarrow> u64 \<Rightarrow> 'a uacpi_regs_scheme \<Rightarrow> (u32 \<times> 'a uacpi_regs_scheme) option" where
  "do_write_one e r idx v rt =
     (let mp = g_register_mappings rt r
      in if states mp idx \<noteq> REGISTER_MAPPING_STATE_MAPPED then Some (UACPI_STATUS_OK, rt) else uacpi_gas_write_mapped e (mappings mp idx) v rt)"

definition write_both :: "uacpi_env \<Rightarrow> u8 \<Rightarrow> u64 \<Rightarrow> u64 \<Rightarrow> 'a uacpi_regs_scheme \<Rightarrow> (u32 \<times> 'a uacpi_regs_scheme) option" where
  "write_both e r v0 v1 rt =
     do { (ret, rt) \<leftarrow> do_write_one e r 0 v0 rt;
          if ret \<noteq> UACPI_STATUS_OK then Some (ret, rt) else do_write_one e r 1 v1 rt }"

definition do_write_register :: "uacpi_env \<Rightarrow> u8 \<Rightarrow> u64 \<Rightarrow> 'a uacpi_regs_scheme \<Rightarrow> (u32 \<times> 'a uacpi_regs_scheme) option" where
  "do_write_register e r v rt =
     (let p = preserve_mask (g_registers r)
      in if p = 0 then write_both e r v v rt
         else let v = v AND NOT p
              in if access_kind (g_registers r) \<noteq> REGISTER_ACCESS_KIND_PRESERVE then write_both e r v v rt
                 else do { (ret, data, rt) \<leftarrow> do_read_register e r 0 rt;
                           if ret \<noteq> UACPI_STATUS_OK then Some (ret, rt)
                           else let v = v OR (data AND p) in write_both e r v v rt })"

text \<open>A function on a register: the level, the number and the mapping are checked first. \<open>res\<close> is as in \<open>ensure_init_level\<close>.\<close>

definition with_register :: "uacpi_env \<Rightarrow> string \<Rightarrow> u8 \<Rightarrow> (u32 \<Rightarrow> 'a uacpi_regs_scheme \<Rightarrow> 'r) \<Rightarrow> ('a uacpi_regs_scheme \<Rightarrow> 'r option) \<Rightarrow>
    'a uacpi_regs_scheme \<Rightarrow> 'r option" where
  "with_register e f r res k rt =
     ensure_init_level e f UACPI_INIT_LEVEL_SUBSYSTEM_INITIALIZED res
       (\<lambda>rt. if UACPI_REGISTER_MAX < r then Some (res UACPI_STATUS_INVALID_ARGUMENT rt)
             else do { (ret, rt) \<leftarrow> ensure_register_mapped e r rt; if ret \<noteq> UACPI_STATUS_OK then Some (res ret rt) else k rt }) rt"

definition uacpi_read_register :: "uacpi_env \<Rightarrow> u8 \<Rightarrow> u64 \<Rightarrow> 'a uacpi_regs_scheme \<Rightarrow> (u32 \<times> u64 \<times> 'a uacpi_regs_scheme) option" where
  "uacpi_read_register e r out rt = with_register e ''uacpi_read_register'' r (\<lambda>ret rt. (ret, out, rt)) (do_read_register e r out) rt"

definition uacpi_write_register :: "uacpi_env \<Rightarrow> u8 \<Rightarrow> u64 \<Rightarrow> 'a uacpi_regs_scheme \<Rightarrow> (u32 \<times> 'a uacpi_regs_scheme) option" where
  "uacpi_write_register e r v rt = with_register e ''uacpi_write_register'' r Pair (do_write_register e r v) rt"

definition uacpi_write_registers :: "uacpi_env \<Rightarrow> u8 \<Rightarrow> u64 \<Rightarrow> u64 \<Rightarrow> 'a uacpi_regs_scheme \<Rightarrow> (u32 \<times> 'a uacpi_regs_scheme) option" where
  "uacpi_write_registers e r v0 v1 rt = with_register e ''uacpi_write_registers'' r Pair (write_both e r v0 v1) rt"

section \<open>Fields\<close>

record register_field =
  field_reg :: u8
  field_offset :: u8
  field_mask :: u16

text \<open>The fields, in the order of \<open>uacpi_register_field\<close>: register, offset and mask.\<close>

definition g_fields_table :: "(u8 \<times> u8 \<times> u16) list" where
  "g_fields_table =
     [(UACPI_REGISTER_PM1_STS, 0, 0x1),
      (UACPI_REGISTER_PM1_STS, 4, 0x10),
      (UACPI_REGISTER_PM1_STS, 5, 0x20),
      (UACPI_REGISTER_PM1_STS, 8, 0x100),
      (UACPI_REGISTER_PM1_STS, 9, 0x200),
      (UACPI_REGISTER_PM1_STS, 10, 0x400),
      (UACPI_REGISTER_PM1_STS, 14, 0x4000),
      (UACPI_REGISTER_SLP_STS, 7, 0x80),
      (UACPI_REGISTER_PM1_STS, 15, 0x8000),
      (UACPI_REGISTER_PM1_EN, 0, 0x1),
      (UACPI_REGISTER_PM1_EN, 5, 0x20),
      (UACPI_REGISTER_PM1_EN, 8, 0x100),
      (UACPI_REGISTER_PM1_EN, 9, 0x200),
      (UACPI_REGISTER_PM1_EN, 10, 0x400),
      (UACPI_REGISTER_PM1_EN, 14, 0x4000),
      (UACPI_REGISTER_PM1_CNT, 0, 0x1),
      (UACPI_REGISTER_PM1_CNT, 1, 0x2),
      (UACPI_REGISTER_PM1_CNT, 2, 0x4),
      (UACPI_REGISTER_PM1_CNT, 10, 0x1c00),
      (UACPI_REGISTER_SLP_CNT, 2, 0x1c),
      (UACPI_REGISTER_PM1_CNT, 13, 0x2000),
      (UACPI_REGISTER_SLP_CNT, 5, 0x20),
      (UACPI_REGISTER_PM2_CNT, 0, 0x1)]"

definition g_fields :: "u8 \<Rightarrow> register_field" where
  "g_fields i = (let (r, offset, msk) = g_fields_table ! unat i in \<lparr>field_reg = r, field_offset = offset, field_mask = msk\<rparr>)"

definition UACPI_REGISTER_FIELD_TMR_STS :: u8 where "UACPI_REGISTER_FIELD_TMR_STS = 0"
definition UACPI_REGISTER_FIELD_BM_STS :: u8 where "UACPI_REGISTER_FIELD_BM_STS = 1"
definition UACPI_REGISTER_FIELD_GBL_STS :: u8 where "UACPI_REGISTER_FIELD_GBL_STS = 2"
definition UACPI_REGISTER_FIELD_PWRBTN_STS :: u8 where "UACPI_REGISTER_FIELD_PWRBTN_STS = 3"
definition UACPI_REGISTER_FIELD_SLPBTN_STS :: u8 where "UACPI_REGISTER_FIELD_SLPBTN_STS = 4"
definition UACPI_REGISTER_FIELD_RTC_STS :: u8 where "UACPI_REGISTER_FIELD_RTC_STS = 5"
definition UACPI_REGISTER_FIELD_PCIEX_WAKE_STS :: u8 where "UACPI_REGISTER_FIELD_PCIEX_WAKE_STS = 6"
definition UACPI_REGISTER_FIELD_HWR_WAK_STS :: u8 where "UACPI_REGISTER_FIELD_HWR_WAK_STS = 7"
definition UACPI_REGISTER_FIELD_WAK_STS :: u8 where "UACPI_REGISTER_FIELD_WAK_STS = 8"
definition UACPI_REGISTER_FIELD_TMR_EN :: u8 where "UACPI_REGISTER_FIELD_TMR_EN = 9"
definition UACPI_REGISTER_FIELD_GBL_EN :: u8 where "UACPI_REGISTER_FIELD_GBL_EN = 10"
definition UACPI_REGISTER_FIELD_PWRBTN_EN :: u8 where "UACPI_REGISTER_FIELD_PWRBTN_EN = 11"
definition UACPI_REGISTER_FIELD_SLPBTN_EN :: u8 where "UACPI_REGISTER_FIELD_SLPBTN_EN = 12"
definition UACPI_REGISTER_FIELD_RTC_EN :: u8 where "UACPI_REGISTER_FIELD_RTC_EN = 13"
definition UACPI_REGISTER_FIELD_PCIEXP_WAKE_DIS :: u8 where "UACPI_REGISTER_FIELD_PCIEXP_WAKE_DIS = 14"
definition UACPI_REGISTER_FIELD_SCI_EN :: u8 where "UACPI_REGISTER_FIELD_SCI_EN = 15"
definition UACPI_REGISTER_FIELD_BM_RLD :: u8 where "UACPI_REGISTER_FIELD_BM_RLD = 16"
definition UACPI_REGISTER_FIELD_GBL_RLS :: u8 where "UACPI_REGISTER_FIELD_GBL_RLS = 17"
definition UACPI_REGISTER_FIELD_SLP_TYP :: u8 where "UACPI_REGISTER_FIELD_SLP_TYP = 18"
definition UACPI_REGISTER_FIELD_HWR_SLP_TYP :: u8 where "UACPI_REGISTER_FIELD_HWR_SLP_TYP = 19"
definition UACPI_REGISTER_FIELD_SLP_EN :: u8 where "UACPI_REGISTER_FIELD_SLP_EN = 20"
definition UACPI_REGISTER_FIELD_HWR_SLP_EN :: u8 where "UACPI_REGISTER_FIELD_HWR_SLP_EN = 21"
definition UACPI_REGISTER_FIELD_ARB_DIS :: u8 where "UACPI_REGISTER_FIELD_ARB_DIS = 22"
definition UACPI_REGISTER_FIELD_MAX :: u8 where "UACPI_REGISTER_FIELD_MAX = UACPI_REGISTER_FIELD_ARB_DIS"

definition with_field :: "uacpi_env \<Rightarrow> string \<Rightarrow> u8 \<Rightarrow> (u32 \<Rightarrow> 'a uacpi_regs_scheme \<Rightarrow> 'r) \<Rightarrow> ('a uacpi_regs_scheme \<Rightarrow> 'r option) \<Rightarrow>
    'a uacpi_regs_scheme \<Rightarrow> 'r option" where
  "with_field e f i res k rt =
     ensure_init_level e f UACPI_INIT_LEVEL_SUBSYSTEM_INITIALIZED res
       (\<lambda>rt. if UACPI_REGISTER_FIELD_MAX < i then Some (res UACPI_STATUS_INVALID_ARGUMENT rt)
             else do { (ret, rt) \<leftarrow> ensure_register_mapped e (field_reg (g_fields i)) rt; if ret \<noteq> UACPI_STATUS_OK then Some (res ret rt) else k rt }) rt"

definition uacpi_read_register_field :: "uacpi_env \<Rightarrow> u8 \<Rightarrow> u64 \<Rightarrow> 'a uacpi_regs_scheme \<Rightarrow> (u32 \<times> u64 \<times> 'a uacpi_regs_scheme) option" where
  "uacpi_read_register_field e i out rt =
     (let fd = g_fields i
      in with_field e ''uacpi_read_register_field'' i (\<lambda>ret rt. (ret, out, rt))
           (\<lambda>rt. do { (ret, v, rt) \<leftarrow> do_read_register e (field_reg fd) out rt;
                     if ret \<noteq> UACPI_STATUS_OK then Some (ret, v, rt)
                     else Some (UACPI_STATUS_OK, drop_bit (unat (field_offset fd)) (v AND ucast (field_mask fd)), rt) }) rt)"

text \<open>The test for a register that is cleared by writing ones compares the \<open>kind\<close> of the register, not its \<open>access_kind\<close>.\<close>

definition uacpi_write_register_field :: "uacpi_env \<Rightarrow> u8 \<Rightarrow> u64 \<Rightarrow> 'a uacpi_regs_scheme \<Rightarrow> (u32 \<times> 'a uacpi_regs_scheme) option" where
  "uacpi_write_register_field e i in_value rt =
     (let fd = g_fields i; r = field_reg fd; reg = g_registers r
      in with_field e ''uacpi_write_register_field'' i Pair
           (\<lambda>rt. let v = push_bit (unat (field_offset fd)) in_value AND ucast (field_mask fd)
                 in do { (flags, rt) \<leftarrow> reg_lock rt;
                         (ret, rt) \<leftarrow>
                           (if kind reg = REGISTER_ACCESS_KIND_WRITE_TO_CLEAR
                            then if v = 0 then Some (UACPI_STATUS_OK, rt) else do_write_register e r v rt
                            else do { (ret, data, rt) \<leftarrow> do_read_register e r 0 rt;
                                      if ret \<noteq> UACPI_STATUS_OK then Some (ret, rt)
                                      else do_write_register e r ((data AND NOT (ucast (field_mask fd))) OR v) rt });
                         Some (ret, reg_unlock flags rt) }) rt)"

section \<open>Start and end\<close>

definition uacpi_initialize_registers :: "uacpi_env \<Rightarrow> 'a uacpi_regs_scheme \<Rightarrow> (u32 \<times> 'a uacpi_regs_scheme) option" where
  "uacpi_initialize_registers e rt =
     do { (l, h) \<leftarrow> uacpi_kernel_create_spinlock (u_env e) (u_host rt);
          let rt = set_host h rt\<lparr>g_reg_lock := l\<rparr>
          in Some (if l = NULL then UACPI_STATUS_OUT_OF_MEMORY else UACPI_STATUS_OK, rt) }"

definition unmap_one :: "uacpi_env \<Rightarrow> u8 \<Rightarrow> nat \<Rightarrow> 'a uacpi_regs_scheme \<Rightarrow> 'a uacpi_regs_scheme option" where
  "unmap_one e r idx rt =
     (let mp = g_register_mappings rt r
      in if states mp idx = REGISTER_MAPPING_STATE_MAPPED then uacpi_unmap_gas_nofree e (mappings mp idx) rt else Some rt)"

fun unmap_registers :: "uacpi_env \<Rightarrow> nat \<Rightarrow> nat \<Rightarrow> 'a uacpi_regs_scheme \<Rightarrow> 'a uacpi_regs_scheme option" where
  "unmap_registers e i 0 rt = Some rt"
| "unmap_registers e i (Suc n) rt = do { rt \<leftarrow> unmap_one e (of_nat i) 0 rt; rt \<leftarrow> unmap_one e (of_nat i) 1 rt; unmap_registers e (Suc i) n rt }"

definition zero_gas :: uacpi_mapped_gas where
  "zero_gas = \<lparr>mg_mapping = NULL, access_bit_width = 0, total_bit_width = 0, mg_bit_offset = 0, mg_io = False\<rparr>"

definition uacpi_deinitialize_registers :: "uacpi_env \<Rightarrow> 'a uacpi_regs_scheme \<Rightarrow> 'a uacpi_regs_scheme option" where
  "uacpi_deinitialize_registers e rt =
     do { rt \<leftarrow> (if g_reg_lock rt \<noteq> NULL
                  then map_option (\<lambda>h. set_host h rt\<lparr>g_reg_lock := NULL\<rparr>) (uacpi_kernel_free_spinlock (u_env e) (g_reg_lock rt) (u_host rt))
                  else Some rt);
          rt \<leftarrow> unmap_registers e 0 (Suc (unat UACPI_REGISTER_MAX)) rt;
          Some (rt\<lparr>g_register_mappings := (\<lambda>_. \<lparr>mappings = (\<lambda>_. zero_gas), states = (\<lambda>_. REGISTER_MAPPING_STATE_NONE)\<rparr>)\<rparr>) }"

end
