(* ===== verification/UacpiRegsProps.thy ===== *)
theory UacpiRegsProps
  imports UacpiRegs
begin

text \<open>What a read and a write of a fixed register do to the ports, and where they go wrong.\<close>

section \<open>The host under the context\<close>

lemma set_host_simps [simp]:
  "u_host (set_host h rt) = h" "set_host h (set_host h' rt) = set_host h rt" "set_host (u_host rt) rt = rt"
  "log_level (set_host h rt) = log_level rt" "init_level (set_host h rt) = init_level rt"
  by (simp_all add: set_host_def)

lemma set_host_regs [simp]:
  "g_register_mappings (set_host h rt) = g_register_mappings rt" "blocks (set_host h rt) = blocks rt" "g_reg_lock (set_host h rt) = g_reg_lock rt"
  by (simp_all add: set_host_def)

lemma host_io_simps [simp]:
  "h_reads (set_mem m h) = h_reads h" "h_outw (set_mem m h) = h_outw h"
  by (simp_all add: set_mem_def)

section \<open>A 16-bit register in the port space\<close>

lemma ld64_word_stored:
  fixes v :: u16
  shows "ld64 ((st64 m a 0)(a := ucast v, a + 1 := ucast (drop_bit 8 v))) a = ucast v" (is "ld64 ?m a = _")
proof (rule bit_word_eqI)
  fix n assume n: "n < LENGTH(64)"
  have b: "bit (ld64 ?m a) n \<longleftrightarrow> bit (?m (a + of_nat (n div 8))) (n mod 8)" using n by (simp add: bit_ld64')
  have k: "n div 8 < 8" "8 * (n div 8) + n mod 8 = n" "n mod 8 < 8" using n by simp_all
  from less_8_cases[OF k(1)] show "bit (ld64 ?m a) n \<longleftrightarrow> bit (ucast v :: u64) n"
  proof (elim disjE)
    assume "n div 8 = 0" then show ?thesis unfolding b using k by (simp add: bit_ucast_iff)
  next
    assume "n div 8 = 1" then show ?thesis unfolding b using k by (auto simp: bit_ucast_iff bit_drop_bit_eq dest: bit_imp_le_length)
  qed (use k in \<open>auto simp: b bit_ucast_iff st64_apply dest!: bit_imp_le_length\<close>)
qed

definition port16 :: "u64 \<Rightarrow> uacpi_mapped_gas" where
  "port16 p = \<lparr>mg_mapping = p, access_bit_width = 16, total_bit_width = 16, mg_bit_offset = 0, mg_io = True\<rparr>"

lemma port16_simps [simp]:
  "mg_mapping (port16 p) = p" "access_bit_width (port16 p) = 16" "total_bit_width (port16 p) = 16" "mg_bit_offset (port16 p) = 0" "mg_io (port16 p)"
  "access_mask (port16 p) = 0xFFFF"
  by (simp_all add: port16_def access_mask_def)

lemma word16_mask: "ucast (v :: u16) AND 0xFFFF = (ucast v :: u64)" "ucast (w AND 0xFFFF :: u64) = (ucast w :: u16)"
proof -
  have m: "(0xFFFF :: u64) = mask 16" by (simp add: mask_eq_exp_minus_1)
  show "ucast v AND 0xFFFF = (ucast v :: u64)" unfolding m
    by (rule bit_word_eqI) (auto simp: bit_and_iff bit_mask_iff bit_ucast_iff dest: bit_imp_le_length)
  show "ucast (w AND 0xFFFF) = (ucast w :: u16)" unfolding m
    by (rule bit_word_eqI) (auto simp: bit_and_iff bit_mask_iff bit_ucast_iff)
qed

lemma port16_read:
  "\<exists>h. uacpi_gas_read_mapped e (port16 p) rt = Some (UACPI_STATUS_OK, ucast (device16 (u_env e) (h_reads (u_host rt)) (ucast p)), set_host h rt) \<and>
     h_outw h = h_outw (u_host rt) \<and> h_reads h = Suc (h_reads (u_host rt))"
proof -
  let ?v = "device16 (u_env e) (h_reads (u_host rt)) (ucast p)"
  obtain h where h: "uacpi_system_io_read e p 0 2 0 rt = Some (UACPI_STATUS_OK, ucast ?v, set_host h rt)"
    "h_outw h = h_outw (u_host rt)" "h_reads h = Suc (h_reads (u_host rt))"
    by (simp add: uacpi_system_io_read_def uacpi_kernel_io_read16_def ArIoInWord_def Amd64InWord_def Let_def ld64_word_stored)
  have "uacpi_gas_read_mapped e (port16 p) rt = Some (UACPI_STATUS_OK, ucast ?v AND 0xFFFF, set_host h rt)"
    unfolding uacpi_gas_read_mapped_def
    by (subst gas_read_loop.simps, subst gas_read_loop.simps) (simp add: gas_read_access_def h(1))
  then show ?thesis unfolding word16_mask using h(2,3) by blast
qed

lemma port16_write:
  "\<exists>h. uacpi_gas_write_mapped e (port16 p) v rt = Some (UACPI_STATUS_OK, set_host h rt) \<and>
     h_outw h = h_outw (u_host rt) @ [(length (ports (k_term (h_kernel (u_host rt)))), ucast p, ucast v)] \<and> h_reads h = h_reads (u_host rt)"
proof -
  obtain h where h: "uacpi_system_io_write e p 0 2 (v AND 0xFFFF) rt = Some (UACPI_STATUS_OK, set_host h rt)"
    "h_outw h = h_outw (u_host rt) @ [(length (ports (k_term (h_kernel (u_host rt)))), ucast p, ucast v)]" "h_reads h = h_reads (u_host rt)"
    by (simp add: uacpi_system_io_write_def uacpi_kernel_io_write16_def ArIoOutWord_def Amd64OutWord_def Let_def word16_mask(2))
  have "uacpi_gas_write_mapped e (port16 p) v rt = Some (UACPI_STATUS_OK, set_host h rt)"
    unfolding uacpi_gas_write_mapped_def
    by (subst gas_write_loop.simps, subst gas_write_loop.simps) (simp add: gas_write_access_def h(1))
  then show ?thesis using h(2,3) by blast
qed

text \<open>A register whose blocks, one or two, are mapped 16-bit ports.\<close>

fun at_ports16 :: "u8 \<Rightarrow> u64 list \<Rightarrow> 'a uacpi_regs_scheme \<Rightarrow> bool" where
  "at_ports16 r [p] rt \<longleftrightarrow> states (g_register_mappings rt r) 0 = REGISTER_MAPPING_STATE_MAPPED \<and>
     states (g_register_mappings rt r) 1 = REGISTER_MAPPING_STATE_NOT_NEEDED \<and> mappings (g_register_mappings rt r) 0 = port16 p"
| "at_ports16 r [p, q] rt \<longleftrightarrow> states (g_register_mappings rt r) 0 = REGISTER_MAPPING_STATE_MAPPED \<and>
     states (g_register_mappings rt r) 1 = REGISTER_MAPPING_STATE_MAPPED \<and>
     mappings (g_register_mappings rt r) 0 = port16 p \<and> mappings (g_register_mappings rt r) 1 = port16 q"
| "at_ports16 r _ rt \<longleftrightarrow> False"

lemma at_ports16_cases:
  assumes "at_ports16 r ps rt"
  obtains (one) p where "ps = [p]" | (two) p q where "ps = [p, q]"
  using assms by (cases "(r, ps, rt)" rule: at_ports16.cases) auto

lemma at_ports16_host [simp]: "at_ports16 r ps (set_host h rt) = at_ports16 r ps rt"
  by (cases "(r, ps, rt)" rule: at_ports16.cases) auto

text \<open>The words that a function writes to ports, after what was written before, and the number of words it reads.\<close>

definition port_words :: "'a uacpi_regs_scheme \<Rightarrow> (u16 \<times> u16) list" where
  "port_words rt = map snd (h_outw (u_host rt))"

abbreviation words_read :: "'a uacpi_regs_scheme \<Rightarrow> nat" where
  "words_read rt \<equiv> h_reads (u_host rt)"

text \<open>What the \<open>n\<close>-th read of a word gets, and the union of the reads of all ports, one after the other.\<close>

definition port_word :: "uacpi_env \<Rightarrow> nat \<Rightarrow> u64 \<Rightarrow> u64" where
  "port_word e n p = ucast (device16 (u_env e) n (ucast p))"

primrec ports_word :: "uacpi_env \<Rightarrow> nat \<Rightarrow> u64 list \<Rightarrow> u64" where
  "ports_word e n [] = 0"
| "ports_word e n (p # ps) = port_word e n p OR ports_word e (Suc n) ps"

lemma read_one_port:
  assumes "states (g_register_mappings rt r) i = REGISTER_MAPPING_STATE_MAPPED" and "mappings (g_register_mappings rt r) i = port16 p"
  shows "\<exists>h. do_read_one e r i rt = Some (UACPI_STATUS_OK, port_word e (words_read rt) p, set_host h rt) \<and>
    h_outw h = h_outw (u_host rt) \<and> h_reads h = Suc (words_read rt)"
  using port16_read[of e p rt] assms by (auto simp: do_read_one_def port_word_def)

lemma write_one_port:
  assumes "states (g_register_mappings rt r) i = REGISTER_MAPPING_STATE_MAPPED" and "mappings (g_register_mappings rt r) i = port16 p"
  shows "\<exists>h. do_write_one e r i v rt = Some (UACPI_STATUS_OK, set_host h rt) \<and>
    port_words (set_host h rt) = port_words rt @ [(ucast p, ucast v)] \<and> h_reads h = words_read rt"
  using port16_write[of e p v rt] assms by (auto simp: do_write_one_def port_words_def)

lemma read_at_ports16:
  assumes "at_ports16 r ps rt"
  shows "\<exists>h. do_read_register e r out rt = Some (UACPI_STATUS_OK, ports_word e (words_read rt) ps AND NOT (write_only_mask (g_registers r)), set_host h rt) \<and>
    port_words (set_host h rt) = port_words rt \<and> h_reads h = words_read rt + length ps"
  using assms
proof (cases rule: at_ports16_cases)
  case (one p)
  have st: "states (g_register_mappings rt r) 0 = REGISTER_MAPPING_STATE_MAPPED" "mappings (g_register_mappings rt r) 0 = port16 p"
    "states (g_register_mappings rt r) 1 = REGISTER_MAPPING_STATE_NOT_NEEDED" using assms one by simp_all
  obtain h where h: "do_read_one e r 0 rt = Some (UACPI_STATUS_OK, port_word e (words_read rt) p, set_host h rt)"
    "h_outw h = h_outw (u_host rt)" "h_reads h = Suc (words_read rt)" using read_one_port[OF st(1,2)] by blast
  have "do_read_one e r 1 (set_host h rt) = Some (UACPI_STATUS_OK, 0, set_host h rt)" using st(3) by (simp add: do_read_one_def Let_def mapping_states)
  then show ?thesis by (intro exI[of _ h]) (simp add: do_read_register_def h one port_words_def Let_def)
next
  case (two p q)
  have st: "states (g_register_mappings rt r) 0 = REGISTER_MAPPING_STATE_MAPPED" "mappings (g_register_mappings rt r) 0 = port16 p"
    "states (g_register_mappings rt r) 1 = REGISTER_MAPPING_STATE_MAPPED" "mappings (g_register_mappings rt r) 1 = port16 q"
    using assms two by simp_all
  obtain h where h: "do_read_one e r 0 rt = Some (UACPI_STATUS_OK, port_word e (words_read rt) p, set_host h rt)"
    "h_outw h = h_outw (u_host rt)" "h_reads h = Suc (words_read rt)" using read_one_port[OF st(1,2)] by blast
  obtain k where k: "do_read_one e r 1 (set_host h rt) = Some (UACPI_STATUS_OK, port_word e (Suc (words_read rt)) q, set_host k rt)"
    "h_outw k = h_outw (u_host rt)" "h_reads k = Suc (Suc (words_read rt))"
    using read_one_port[of "set_host h rt" r 1 q e] st(3,4) h(2,3) by auto
  show ?thesis by (intro exI[of _ k]) (simp add: do_read_register_def h(1) k two port_words_def Let_def del: One_nat_def)
qed

lemma write_at_ports16_both:
  assumes "at_ports16 r ps rt"
  shows "\<exists>h. write_both e r v v' rt = Some (UACPI_STATUS_OK, set_host h rt) \<and>
    port_words (set_host h rt) = port_words rt @ zip (map ucast ps) [ucast v, ucast v'] \<and> h_reads h = words_read rt"
  using assms
proof (cases rule: at_ports16_cases)
  case (one p)
  obtain h where h: "do_write_one e r 0 v rt = Some (UACPI_STATUS_OK, set_host h rt)"
    "port_words (set_host h rt) = port_words rt @ [(ucast p, ucast v)]" "h_reads h = words_read rt"
    using write_one_port[of rt r 0 p e v] assms one by auto
  have "do_write_one e r 1 v' (set_host h rt) = Some (UACPI_STATUS_OK, set_host h rt)" using assms one by (simp add: do_write_one_def Let_def mapping_states)
  then show ?thesis by (intro exI[of _ h]) (simp add: write_both_def h one)
next
  case (two p q)
  obtain h where h: "do_write_one e r 0 v rt = Some (UACPI_STATUS_OK, set_host h rt)"
    "port_words (set_host h rt) = port_words rt @ [(ucast p, ucast v)]" "h_reads h = words_read rt"
    using write_one_port[of rt r 0 p e v] assms two by auto
  obtain k where k: "do_write_one e r 1 v' (set_host h rt) = Some (UACPI_STATUS_OK, set_host k rt)"
    "port_words (set_host k rt) = port_words (set_host h rt) @ [(ucast q, ucast v')]" "h_reads k = words_read rt"
    using write_one_port[of "set_host h rt" r 1 q e v'] assms two h(3) by auto
  show ?thesis by (intro exI[of _ k]) (simp add: write_both_def h(1,2) k two del: One_nat_def)
qed

lemma write_at_ports16:
  assumes "at_ports16 r ps rt"
  shows "\<exists>h. write_both e r v v rt = Some (UACPI_STATUS_OK, set_host h rt) \<and>
    port_words (set_host h rt) = port_words rt @ map (\<lambda>p. (ucast p, ucast v)) ps \<and> h_reads h = words_read rt"
proof -
  have "zip (map ucast ps :: u16 list) [ucast v, ucast v :: u16] = map (\<lambda>p. (ucast p, ucast v)) ps"
    using assms by (rule at_ports16_cases) simp_all
  then show ?thesis using write_at_ports16_both[OF assms, of e v v] by simp
qed

text \<open>The value written, from the value to write and, for a register whose bits are preserved, what it reads.\<close>

lemma do_write_at_ports16:
  assumes at: "at_ports16 r ps rt"
  defines "pm \<equiv> preserve_mask (g_registers r)" and "wo \<equiv> write_only_mask (g_registers r)"
  shows "\<exists>h. do_write_register e r v rt = Some (UACPI_STATUS_OK, set_host h rt) \<and>
    port_words (set_host h rt) = port_words rt @ map (\<lambda>p. (ucast p, ucast ((v AND NOT pm) OR
      (if access_kind (g_registers r) = REGISTER_ACCESS_KIND_PRESERVE then (ports_word e (words_read rt) ps AND NOT wo) AND pm else 0)))) ps"
proof -
  consider "pm = 0" | "pm \<noteq> 0" "access_kind (g_registers r) \<noteq> REGISTER_ACCESS_KIND_PRESERVE"
    | "pm \<noteq> 0" "access_kind (g_registers r) = REGISTER_ACCESS_KIND_PRESERVE" by blast
  then show ?thesis
  proof cases
    case 1
    then show ?thesis using write_at_ports16[OF at, of e v] by (auto simp: do_write_register_def pm_def[symmetric])
  next
    case 2
    then show ?thesis using write_at_ports16[OF at, of e "v AND NOT pm"] by (auto simp: do_write_register_def pm_def[symmetric] Let_def)
  next
    case 3
    obtain h where h: "do_read_register e r 0 rt = Some (UACPI_STATUS_OK, ports_word e (words_read rt) ps AND NOT wo, set_host h rt)" "port_words (set_host h rt) = port_words rt"
      using read_at_ports16[OF at, of e 0] by (auto simp: wo_def)
    show ?thesis
      using 3 h write_at_ports16[of r ps "set_host h rt" e "v AND NOT pm OR ((ports_word e (words_read rt) ps AND NOT wo) AND pm)"] at
      by (auto simp: do_write_register_def pm_def[symmetric] Let_def)
  qed
qed

section \<open>Fields\<close>

lemma mapped_ports16: "at_ports16 r ps rt \<Longrightarrow> ensure_register_mapped e r rt = Some (UACPI_STATUS_OK, rt)"
  by (frule at_ports16_cases) (auto simp: ensure_register_mapped_def Let_def mapping_states)

lemma reg_lock_host:
  assumes "reg_lock rt = Some (flags, rt1)"
  shows "\<exists>h. rt1 = set_host h rt \<and> h_outw h = h_outw (u_host rt) \<and> h_reads h = words_read rt"
  using assms by (auto simp: reg_lock_def uacpi_kernel_lock_spinlock_def)

lemma port_words_unlock: "port_words (reg_unlock flags rt) = port_words rt"
  by (simp add: port_words_def reg_unlock_def uacpi_kernel_unlock_spinlock_def)

lemma write_field_at_ports16:
  fixes e :: uacpi_env and x :: u64 and rt :: "'a uacpi_regs_scheme"
  assumes "UACPI_INIT_LEVEL_SUBSYSTEM_INITIALIZED \<le> init_level rt" and "i \<le> UACPI_REGISTER_FIELD_MAX"
    and at: "at_ports16 (field_reg (g_fields i)) ps rt" and lock: "reg_lock rt = Some (flags, rt1)"
    and kind: "kind (g_registers (field_reg (g_fields i))) = REGISTER_KIND_GAS"
  defines "spec \<equiv> g_registers (field_reg (g_fields i))"
  defines "v \<equiv> (ports_word e (words_read rt) ps AND NOT (write_only_mask spec) AND NOT (ucast (field_mask (g_fields i)))) OR
    (push_bit (unat (field_offset (g_fields i))) x AND ucast (field_mask (g_fields i)))"
  defines "w \<equiv> (v AND NOT (preserve_mask spec)) OR (if access_kind spec = REGISTER_ACCESS_KIND_PRESERVE
      then (ports_word e (words_read rt + length ps) ps AND NOT (write_only_mask spec)) AND preserve_mask spec else 0)"
  shows "\<exists>rt'. uacpi_write_register_field e i x rt = Some (UACPI_STATUS_OK, rt') \<and>
    port_words rt' = port_words rt @ map (\<lambda>p. (ucast p, ucast w)) ps"
proof -
  let ?r = "field_reg (g_fields i)"
  obtain h1 where 1: "rt1 = set_host h1 rt" "h_outw h1 = h_outw (u_host rt)" "h_reads h1 = words_read rt" using reg_lock_host[OF lock] by blast
  have pw: "port_words (set_host h1 rt) = port_words rt" using 1 by (simp add: port_words_def)
  obtain h2 where 2: "do_read_register e ?r 0 (set_host h1 rt) = Some (UACPI_STATUS_OK, ports_word e (words_read rt) ps AND NOT (write_only_mask spec), set_host h2 rt)"
    "port_words (set_host h2 rt) = port_words rt" "h_reads h2 = words_read rt + length ps"
    using read_at_ports16[of ?r ps "set_host h1 rt" e 0] at 1(3) pw by (auto simp: spec_def)
  obtain h3 where 3: "do_write_register e ?r v (set_host h2 rt) = Some (UACPI_STATUS_OK, set_host h3 rt)"
    "port_words (set_host h3 rt) = port_words rt @ map (\<lambda>p. (ucast p, ucast w)) ps"
    using do_write_at_ports16[of ?r ps "set_host h2 rt" e v, folded spec_def] at 2(2,3) by (auto simp: w_def)
  have k: "kind (g_registers ?r) \<noteq> REGISTER_ACCESS_KIND_WRITE_TO_CLEAR" using kind by (simp add: register_kinds)
  have "uacpi_write_register_field e i x rt = Some (UACPI_STATUS_OK, reg_unlock flags (set_host h3 rt))"
    using leD[OF assms(1)] leD[OF assms(2)] mapped_ports16[OF at, of e] lock[unfolded 1(1)] 2(1) 3(1)[unfolded v_def] k
    by (simp add: uacpi_write_register_field_def with_field_def ensure_init_level_def Let_def and.assoc)
  then show ?thesis using 2(3) 3(2) port_words_unlock[of flags "set_host h3 rt"]
    by (intro exI[of _ "reg_unlock flags (set_host h3 rt)"]) simp
qed

lemma field_numbers: "UACPI_REGISTER_FIELD_MAX = 22" "UACPI_REGISTER_FIELD_ARB_DIS = 22"
  by (simp_all add: UACPI_REGISTER_FIELD_MAX_def UACPI_REGISTER_FIELD_ARB_DIS_def)

text \<open>
  C40: With uACPI initialised and the register lock free, writing a field of the status register whose blocks are mapped 16-bit ports clears more than the field: every other event that is pending in
  some port when the register is read is written back as a one to every port, whatever value the field gets, and a one clears it. The branch for
  registers of this kind is never taken.
\<close>

theorem status_field_write_clears_events:
  assumes "UACPI_INIT_LEVEL_SUBSYSTEM_INITIALIZED \<le> init_level rt" and "i \<le> UACPI_REGISTER_FIELD_MAX"
    and reg: "field_reg (g_fields i) = UACPI_REGISTER_PM1_STS" and "at_ports16 UACPI_REGISTER_PM1_STS ps rt" and "reg_lock rt = Some (flags, rt1)"
  shows "\<exists>rt' w. uacpi_write_register_field e i x rt = Some (UACPI_STATUS_OK, rt') \<and> port_words rt' = port_words rt @ map (\<lambda>p. (ucast p, w)) ps \<and>
    (\<forall>n < 16. n \<noteq> 11 \<and> \<not> bit (field_mask (g_fields i)) n \<longrightarrow> bit w n = bit (ports_word e (words_read rt) ps) n)"
proof -
  have spec: "g_registers (field_reg (g_fields i)) = gas_register REGISTER_ACCESS_KIND_WRITE_TO_CLEAR [pm1a_status_blk, pm1b_status_blk] 0 ACPI_PM1_STS_IGN0_MASK"
    by (simp add: reg g_registers_def)
  have ign0: "ACPI_PM1_STS_IGN0_MASK = 2 ^ 11" by (simp add: ACPI_PM1_STS_IGN0_MASK_def)
  have ign: "bit ACPI_PM1_STS_IGN0_MASK n \<longleftrightarrow> n = 11" for n unfolding ign0 bit_exp_iff by auto
  obtain rt' w where w: "uacpi_write_register_field e i x rt = Some (UACPI_STATUS_OK, rt')" "port_words rt' = port_words rt @ map (\<lambda>p. (ucast p, ucast w)) ps"
    "w = ((ports_word e (words_read rt) ps AND NOT (ucast (field_mask (g_fields i)))) OR (push_bit (unat (field_offset (g_fields i))) x AND ucast (field_mask (g_fields i)))) AND
      NOT ACPI_PM1_STS_IGN0_MASK"
    using write_field_at_ports16[OF assms(1,2) _ assms(5), of ps e x] assms(4)
    unfolding spec by (auto simp: reg gas_register_def register_kinds)
  have "bit (ucast w :: u16) n = bit (ports_word e (words_read rt) ps) n" if "n < 16" "n \<noteq> 11" "\<not> bit (field_mask (g_fields i)) n" for n
    using that by (simp add: w(3) bit_ucast_iff bit_and_iff bit_or_iff bit_not_iff ign)
  then show ?thesis using w(1,2) by blast
qed

text \<open>The bits of the constants, by the positions that \<open>acpi.h\<close> names.\<close>

lemma below_16:
  assumes "n < 16" and "\<forall>k \<in> set [0..<16]. P k"
  shows "P n"
  using assms by simp

lemma control_masks:
  assumes "n < 16"
  shows "bit ACPI_PM1_CNT_PRESERVE_MASK n \<longleftrightarrow> 3 \<le> n \<and> n \<le> 9 \<or> 14 \<le> n"
    and "bit (ACPI_PM1_CNT_SLP_EN_MASK OR ACPI_PM1_CNT_GBL_RLS_MASK) n \<longleftrightarrow> n = 2 \<or> n = 13"
  by (rule below_16[OF assms]; simp add: register_masks upt_rec)+

lemma control_fields:
  assumes "i \<le> UACPI_REGISTER_FIELD_MAX" and "field_reg (g_fields i) = UACPI_REGISTER_PM1_CNT" and "bit (field_mask (g_fields i)) n"
  shows "n \<in> {0, 1, 2, 10, 11, 12, 13}"
proof -
  have all: "\<forall>(r, offset, m) \<in> set g_fields_table. r = UACPI_REGISTER_PM1_CNT \<longrightarrow> m \<in> {0x1, 0x2, 0x4, 0x1C00, 0x2000}"
    by (simp add: g_fields_table_def register_numbers)
  have "length g_fields_table = 23" by (simp add: g_fields_table_def)
  then have "g_fields_table ! unat i \<in> set g_fields_table" using assms(1) by (intro nth_mem) (simp add: field_numbers word_le_nat_alt)
  then have m: "field_mask (g_fields i) \<in> {0x1, 0x2, 0x4, 0x1C00, 0x2000}"
    using all assms(2) by (auto simp: g_fields_def split: prod.splits)
  have "n < 16" using assms(3) by (auto dest: bit_imp_le_length)
  then have "\<forall>m \<in> {0x1, 0x2, 0x4, 0x1C00, 0x2000 :: u16}. bit m n \<longrightarrow> n \<in> {0, 1, 2, 10, 11, 12, 13}"
    by (rule below_16) (simp add: upt_rec)
  with m assms(3) show ?thesis by blast
qed

text \<open>
  C13: With uACPI initialised and the register lock free, writing a field of the control register whose blocks (PM1a and, where there is one, PM1b)
  are mapped 16-bit ports reads every port, reads every
  port again, and then writes the same word to each. Of that word the bits of the field are those of the new value; the two bits that only take
  effect when set (sleep and release of the global lock) are 0 unless they are the field; the reserved bits (3 to 9, 14 and 15) are set if the second
  read of some port had them set, and the other bits if the first read of some port had.
\<close>

theorem control_field_write_exact:
  assumes "UACPI_INIT_LEVEL_SUBSYSTEM_INITIALIZED \<le> init_level rt" and "i \<le> UACPI_REGISTER_FIELD_MAX"
    and reg: "field_reg (g_fields i) = UACPI_REGISTER_PM1_CNT" and "at_ports16 UACPI_REGISTER_PM1_CNT ps rt" and "reg_lock rt = Some (flags, rt1)"
  shows "\<exists>rt' w. uacpi_write_register_field e i x rt = Some (UACPI_STATUS_OK, rt') \<and> port_words rt' = port_words rt @ map (\<lambda>p. (ucast p, w)) ps \<and>
    (\<forall>n < 16. bit w n \<longleftrightarrow>
      (if bit (field_mask (g_fields i)) n then bit (push_bit (unat (field_offset (g_fields i))) x) n
       else if n = 2 \<or> n = 13 then False
       else if 3 \<le> n \<and> n \<le> 9 \<or> 14 \<le> n then bit (ports_word e (words_read rt + length ps) ps) n
       else bit (ports_word e (words_read rt) ps) n))"
proof -
  let ?fm = "ucast (field_mask (g_fields i)) :: u64" and ?wo = "ACPI_PM1_CNT_SLP_EN_MASK OR ACPI_PM1_CNT_GBL_RLS_MASK"
  let ?v = "ports_word e (words_read rt) ps" and ?v2 = "ports_word e (words_read rt + length ps) ps"
  have spec: "g_registers (field_reg (g_fields i)) =
      gas_register REGISTER_ACCESS_KIND_PRESERVE [x_pm1a_cnt_blk, x_pm1b_cnt_blk] ?wo ACPI_PM1_CNT_PRESERVE_MASK"
    by (simp add: reg g_registers_def register_numbers)
  obtain rt' w where w: "uacpi_write_register_field e i x rt = Some (UACPI_STATUS_OK, rt')" "port_words rt' = port_words rt @ map (\<lambda>p. (ucast p, ucast w)) ps"
    "w = (((?v AND NOT ?wo AND NOT ?fm) OR (push_bit (unat (field_offset (g_fields i))) x AND ?fm)) AND NOT ACPI_PM1_CNT_PRESERVE_MASK) OR
      ((?v2 AND NOT ?wo) AND ACPI_PM1_CNT_PRESERVE_MASK)"
    using write_field_at_ports16[OF assms(1,2) _ assms(5), of ps e x] assms(4)
    unfolding spec by (auto simp: reg gas_register_def register_kinds)
  have "bit (ucast w :: u16) n \<longleftrightarrow> (if bit (field_mask (g_fields i)) n then bit (push_bit (unat (field_offset (g_fields i))) x) n
      else if n = 2 \<or> n = 13 then False else if 3 \<le> n \<and> n \<le> 9 \<or> 14 \<le> n then bit ?v2 n else bit ?v n)"
    if n: "n < 16" for n
  proof -
    have f: "bit (field_mask (g_fields i)) n \<Longrightarrow> \<not> (3 \<le> n \<and> n \<le> 9 \<or> 14 \<le> n)" using control_fields[OF assms(2) reg, of n] by auto
    have "bit (ucast w :: u16) n \<longleftrightarrow>
        ((bit ?v n \<and> \<not> bit ?wo n \<and> \<not> bit (field_mask (g_fields i)) n) \<or> (bit (push_bit (unat (field_offset (g_fields i))) x) n \<and> bit (field_mask (g_fields i)) n)) \<and>
          \<not> bit ACPI_PM1_CNT_PRESERVE_MASK n \<or> (bit ?v2 n \<and> \<not> bit ?wo n) \<and> bit ACPI_PM1_CNT_PRESERVE_MASK n"
      using n unfolding w(3) by (simp add: bit_ucast_iff bit_and_iff bit_or_iff bit_not_iff)
    then show ?thesis unfolding control_masks[OF n] using f by auto
  qed
  then show ?thesis using w(1,2) by blast
qed

text \<open>
  \<open>uacpi_write_registers\<close> is documented to keep the preserved bits of a register and does not: the word on the port is the value given.
\<close>

lemma write_registers_preserves_nothing:
  assumes "UACPI_INIT_LEVEL_SUBSYSTEM_INITIALIZED \<le> init_level rt" and "r \<le> UACPI_REGISTER_MAX" and at: "at_ports16 r ps rt"
  shows "\<exists>rt'. uacpi_write_registers e r v0 v1 rt = Some (UACPI_STATUS_OK, rt') \<and>
    port_words rt' = port_words rt @ zip (map ucast ps) [ucast v0, ucast v1]"
  using leD[OF assms(1)] leD[OF assms(2)] mapped_ports16[OF at, of e] write_at_ports16_both[OF at, of e v0 v1]
  by (auto simp: uacpi_write_registers_def with_register_def ensure_init_level_def)

section \<open>A machine\<close>

text \<open>A machine with one block of status events and two control blocks. The words that the ports give may differ from read to read.\<close>

definition sample_uenv :: "(nat \<Rightarrow> u16 \<Rightarrow> u16) \<Rightarrow> uacpi_env" where
  "sample_uenv f = \<lparr>u_env = sample_env\<lparr>device16 := f\<rparr>, u_slot = 0x5000, u_buf = 0x6000, u_text = (\<lambda>_. 0x7000)\<rparr>"

definition sample_gas :: acpi_gas where
  "sample_gas = \<lparr>address_space_id = 1, register_bit_width = 16, register_bit_offset = 0, access_size = 2, gas_address = 0x600\<rparr>"

definition sample_blocks :: fadt_blocks where
  "sample_blocks = (let none = sample_gas\<lparr>gas_address := 0\<rparr>
     in \<lparr>pm1a_status_blk = sample_gas, pm1b_status_blk = none, pm1a_enable_blk = none, pm1b_enable_blk = none,
         x_pm1a_cnt_blk = sample_gas\<lparr>gas_address := 0x604\<rparr>, x_pm1b_cnt_blk = sample_gas\<lparr>gas_address := 0x608\<rparr>,
         x_pm_tmr_blk = none, x_pm2_cnt_blk = none,
         sleep_control_reg = none, sleep_status_reg = none, reset_reg = none, smi_cmd = 0xB2\<rparr>)"

definition sample_regs :: uacpi_regs where
  "sample_regs = \<lparr>u_host = set_mem (\<lambda>_. 0) sample_host, log_level = 3, init_level = 1, blocks = sample_blocks, g_reg_lock = 0x9000,
     g_register_mappings = (\<lambda>r. \<lparr>mappings = (\<lambda>i. port16 (if r = UACPI_REGISTER_PM1_STS then 0x600 else if i = 0 then 0x604 else 0x608)),
       states = (\<lambda>i. if i = 0 \<or> r = UACPI_REGISTER_PM1_CNT then REGISTER_MAPPING_STATE_MAPPED else REGISTER_MAPPING_STATE_NOT_NEEDED)\<rparr>)\<rparr>"

lemma sample_regs_facts:
  "UACPI_INIT_LEVEL_SUBSYSTEM_INITIALIZED \<le> init_level sample_regs" "at_ports16 UACPI_REGISTER_PM1_STS [0x600] sample_regs"
  "at_ports16 UACPI_REGISTER_PM1_CNT [0x604, 0x608] sample_regs" "\<exists>flags rt1. reg_lock sample_regs = Some (flags, rt1)" "port_words sample_regs = []"
  "port_word (sample_uenv f) n p = ucast (f n (ucast p))" "words_read sample_regs = 0"
proof -
  have "pm_mem (ga_pm (k_galloc (h_kernel (set_mem (\<lambda>_. 0) sample_host)))) 0x9000 = 0"
    using host_mem_simps(1)[of "\<lambda>_. 0" sample_host] by (simp add: h_mem_def k_pmm_def)
  then show "\<exists>flags rt1. reg_lock sample_regs = Some (flags, rt1)"
    by (simp add: reg_lock_def sample_regs_def uacpi_kernel_lock_spinlock_def acquire_at_def lock_at_def KeAcquireSpinLock_eq)
qed (simp_all add: sample_regs_def UACPI_INIT_LEVEL_SUBSYSTEM_INITIALIZED_def register_numbers port_words_def sample_host_def
       port_word_def sample_uenv_def sample_env_def)

text \<open>The timer event is acknowledged while the power button is pending, and the button's event is lost.\<close>

lemma status_field_write_clears_events_witness:
  "\<exists>rt' w. uacpi_write_register_field (sample_uenv (\<lambda>n p. 0x0101)) UACPI_REGISTER_FIELD_TMR_STS 1 sample_regs = Some (UACPI_STATUS_OK, rt') \<and>
     port_words rt' = [(0x600, w)] \<and> bit w 8"
proof -
  obtain flags rt1 where l: "reg_lock sample_regs = Some (flags, rt1)" using sample_regs_facts(4) by blast
  have f: "field_reg (g_fields UACPI_REGISTER_FIELD_TMR_STS) = UACPI_REGISTER_PM1_STS" "UACPI_REGISTER_FIELD_TMR_STS \<le> UACPI_REGISTER_FIELD_MAX"
    "\<not> bit (field_mask (g_fields UACPI_REGISTER_FIELD_TMR_STS)) 8"
    by (simp_all add: g_fields_def g_fields_table_def UACPI_REGISTER_FIELD_TMR_STS_def field_numbers)
  from status_field_write_clears_events[OF sample_regs_facts(1) f(2,1) sample_regs_facts(2) l, of "sample_uenv (\<lambda>n p. 0x0101)" 1] f(3) show ?thesis
    by (auto simp: sample_regs_facts bit_ucast_iff bit_or_iff)
qed

text \<open>
  The sleep type 5 is set. The first port has its bit 0 set at first and clear afterwards, and bit 14, a reserved one, only from its second read on;
  the second port has bit 1 set.
\<close>

definition sample_ports :: "nat \<Rightarrow> u16 \<Rightarrow> u16" where
  "sample_ports n p = (if p = 0x608 then 0x0002 else if n < 2 then 0xA001 else 0xE000)"

lemma control_field_write_exact_witness:
  "\<exists>rt' w. uacpi_write_register_field (sample_uenv sample_ports) UACPI_REGISTER_FIELD_SLP_TYP 5 sample_regs = Some (UACPI_STATUS_OK, rt') \<and>
     port_words rt' = [(0x604, w), (0x608, w)] \<and> bit w 15 \<and> bit w 14 \<and> bit w 12 \<and> \<not> bit w 13 \<and> bit w 1 \<and> bit w 0"
proof -
  obtain flags rt1 where l: "reg_lock sample_regs = Some (flags, rt1)" using sample_regs_facts(4) by blast
  have f: "field_reg (g_fields UACPI_REGISTER_FIELD_SLP_TYP) = UACPI_REGISTER_PM1_CNT" "UACPI_REGISTER_FIELD_SLP_TYP \<le> UACPI_REGISTER_FIELD_MAX"
    "field_mask (g_fields UACPI_REGISTER_FIELD_SLP_TYP) = 0x1C00" "field_offset (g_fields UACPI_REGISTER_FIELD_SLP_TYP) = 10"
    by (simp_all add: g_fields_def g_fields_table_def UACPI_REGISTER_FIELD_SLP_TYP_def field_numbers)
  have v: "ports_word (sample_uenv sample_ports) 0 [0x604, 0x608] = 0xA003" "ports_word (sample_uenv sample_ports) 2 [0x604, 0x608] = 0xE002"
    by (simp_all add: sample_regs_facts sample_ports_def)
  have len: "0 + length [0x604, 0x608 :: u64] = 2" by simp
  obtain rt' w where w: "uacpi_write_register_field (sample_uenv sample_ports) UACPI_REGISTER_FIELD_SLP_TYP 5 sample_regs = Some (UACPI_STATUS_OK, rt')"
    "port_words rt' = [(0x604, w), (0x608, w)]"
    "\<And>n. n < 16 \<Longrightarrow> bit w n \<longleftrightarrow> (if bit (0x1C00 :: u16) n then bit (push_bit 10 5 :: u64) n else if n = 2 \<or> n = 13 then False
      else if 3 \<le> n \<and> n \<le> 9 \<or> 14 \<le> n then bit (0xE002 :: u64) n else bit (0xA003 :: u64) n)"
    using control_field_write_exact[OF sample_regs_facts(1) f(2,1) sample_regs_facts(3) l, of "sample_uenv sample_ports" 5]
    unfolding f sample_regs_facts(5,7) len v by auto
  show ?thesis using w(1,2) w(3)[of 15] w(3)[of 14] w(3)[of 12] w(3)[of 13] w(3)[of 1] w(3)[of 0] by (intro exI[of _ rt'] exI[of _ w]) simp
qed

end
