(* ===== verification/UacpiTextProps.thy ===== *)
theory UacpiTextProps
  imports UacpiText
begin

text \<open>
  \<open>uacpi_string_to_integer\<close> is exact: it gives the number that its digits denote, and the largest one when that does not fit.
\<close>


section \<open>What the text denotes\<close>

text \<open>The classes by ranges of codes.\<close>

lemma ascii_map_ranges:
  "ascii_map c =
     (if c \<le> 8 then 1 else if c \<le> 9 then 7 else if c \<le> 13 then 3 else if c \<le> 31 then 1 else if c \<le> 32 then 6
      else if c \<le> 47 then 8 else if c \<le> 57 then 192 else if c \<le> 64 then 8 else if c \<le> 70 then 160
      else if c \<le> 90 then 32 else if c \<le> 96 then 8 else if c \<le> 102 then 144 else if c \<le> 122 then 16
      else if c \<le> 126 then 8 else if c \<le> 127 then 1 else 0)"
  by (simp add: ascii_map_def ascii_ranges_def char_types)

lemma digit_class:
  "ascii_map c AND (CHAR_TYPE_DIGIT OR CHAR_TYPE_ALHEX) = CHAR_TYPE_DIGIT OR CHAR_TYPE_HEX_DIGIT \<longleftrightarrow> 0x30 \<le> c \<and> c \<le> 0x39"
  "ascii_map c AND (CHAR_TYPE_DIGIT OR CHAR_TYPE_ALHEX) = CHAR_TYPE_UPPER OR CHAR_TYPE_HEX_DIGIT \<longleftrightarrow> 0x41 \<le> c \<and> c \<le> 0x46"
  "ascii_map c AND (CHAR_TYPE_DIGIT OR CHAR_TYPE_ALHEX) = CHAR_TYPE_LOWER OR CHAR_TYPE_HEX_DIGIT \<longleftrightarrow> 0x61 \<le> c \<and> c \<le> 0x66"
  unfolding ascii_map_ranges by (auto simp: char_types split: if_splits; simp add: word_le_nat_alt word_unat_eq_iff)+

lemma is_space: "is_char c CHAR_TYPE_SPACE \<longleftrightarrow> 9 \<le> c \<and> c \<le> 13 \<or> c = 32"
  unfolding is_char_def ascii_map_ranges by (auto simp: char_types split: if_splits; simp add: word_le_nat_alt word_unat_eq_iff)

lemma is_upper: "is_char c CHAR_TYPE_UPPER \<longleftrightarrow> 0x41 \<le> c \<and> c \<le> 0x5A"
  unfolding is_char_def ascii_map_ranges by (auto simp: char_types split: if_splits; simp add: word_le_nat_alt word_unat_eq_iff)

lemma unat_ucast_byte: "unat (ucast (x :: u8) :: u64) = unat x"
  using unsigned_less[of x, where ?'a = nat] by (simp add: unsigned_ucast_eq take_bit_eq_mod)

lemma digit_value_less:
  assumes "digit_value b c = Some d" and "b \<in> {UACPI_BASE_OCT, UACPI_BASE_DEC, UACPI_BASE_HEX}"
  shows "unat d < unat b"
proof -
  have l: "0x61 \<le> to_lower c \<and> to_lower c \<le> 0x66" if "0x61 \<le> c \<and> c \<le> 0x66 \<or> 0x41 \<le> c \<and> c \<le> 0x46"
    using that unfolding to_lower_def is_upper by (auto simp: word_le_nat_alt unat_word_ariths)
  have "unat (c - 0x30) \<le> 9" if "0x30 \<le> c \<and> c \<le> 0x39" using that by (auto simp: word_le_nat_alt unat_sub_if')
  moreover have "unat (to_lower c - 0x61) \<le> 5" if "0x61 \<le> c \<and> c \<le> 0x66 \<or> 0x41 \<le> c \<and> c \<le> 0x46"
    using l[OF that] by (auto simp: word_le_nat_alt unat_sub_if')
  ultimately show ?thesis
    using assms unfolding digit_value_def digit_class Let_def
    by (auto simp: uacpi_bases word_less_nat_alt unat_word_ariths unat_ucast_byte split: if_splits)
qed

text \<open>The test of the loop for overflow is exact.\<close>

lemma overflow_test:
  fixes v b d :: u64
  assumes "unat d < unat b"
  shows "(v * b + d) div b = v \<longleftrightarrow> unat v * unat b + unat d < 2 ^ 64"
proof
  assume "unat v * unat b + unat d < 2 ^ 64"
  then have "unat (v * b + d) = unat v * unat b + unat d" by (simp add: unat_word_ariths)
  then have "unat ((v * b + d) div b) = unat v" using assms by (simp add: unat_div)
  then show "(v * b + d) div b = v" by (rule word_unat_eq_iff[THEN iffD2])
next
  assume e: "(v * b + d) div b = v"
  show "unat v * unat b + unat d < 2 ^ 64"
  proof (rule ccontr)
    assume n: "\<not> ?thesis"
    have u: "unat (v * b + d) = (unat v * unat b + unat d) mod 2 ^ 64" by (simp add: unat_word_ariths mod_add_left_eq)
    obtain k where k: "unat v * unat b + unat d = 2 ^ 64 + k" using n by (metis le_iff_add not_less)
    have "(unat v * unat b + unat d) mod 2 ^ 64 = k mod 2 ^ 64" unfolding k by simp
    also have "\<dots> \<le> k" by simp
    also have "\<dots> < unat v * unat b" using k assms unsigned_less[of b, where ?'a = nat] by simp
    finally have "unat (v * b + d) div unat b < unat v" unfolding u by (rule less_mult_imp_div_less)
    then have "unat ((v * b + d) div b) < unat v" by (simp only: unat_div)
    then show False unfolding e by simp
  qed
qed

section \<open>Exactness\<close>

definition numeral_value :: "u64 \<Rightarrow> nat \<Rightarrow> ctext \<Rightarrow> nat" where
  "numeral_value b v cs = foldl (\<lambda>v c. v * unat b + unat (the (digit_value b c))) v cs"

lemma numeral_value_simps [simp]:
  "numeral_value b v [] = v" "numeral_value b v (c # cs) = numeral_value b (v * unat b + unat (the (digit_value b c))) cs"
  by (simp_all add: numeral_value_def)

lemma numeral_value_mono: "unat b \<noteq> 0 \<Longrightarrow> v \<le> numeral_value b v cs"
proof (induction cs arbitrary: v)
  case (Cons c cs)
  have "v \<le> v * unat b + unat (the (digit_value b c))" using Cons.prems by (metis le_add1 le_trans mult.commute mult_le_mono1 nat_mult_1 One_nat_def Suc_leI gr0I)
  also have "\<dots> \<le> numeral_value b v (c # cs)" using Cons by simp
  finally show ?case .
qed simp

lemma digit_value_zero: "digit_value b 0 = None"
  unfolding digit_value_def digit_class by (simp add: ascii_map_ranges char_types)

lemma unat_pred: "Suc k \<le> unat (n :: u64) \<Longrightarrow> n \<noteq> 0 \<and> unat (n - 1) = unat n - 1 \<and> k \<le> unat (n - 1)"
  using unat_minus_one[of n] by (cases "n = 0") auto

lemma unat_sub_of_nat: "k \<le> unat (n :: u64) \<Longrightarrow> unat (n - of_nat k) = unat n - k"
proof -
  assume k: "k \<le> unat n"
  then have "unat (of_nat k :: u64) = k" using unsigned_less[of n, where ?'a = nat] by (simp add: unat_of_nat take_bit_eq_mod)
  then show ?thesis using k unat_sub_le[of "of_nat k" n] by (simp add: word_le_nat_alt)
qed

lemma digits_loop_value:
  assumes b: "b \<in> {UACPI_BASE_OCT, UACPI_BASE_DEC, UACPI_BASE_HEX}" and "\<forall>c \<in> set cs. digit_value b c \<noteq> None" and "length cs \<le> unat n"
  shows "if numeral_value b (unat v) cs < 2 ^ 64
    then \<exists>c' n'. digits_loop b cs n v c0 = (of_nat (numeral_value b (unat v) cs), c', n') \<and> (n' = 0 \<or> c' = 0)
    else fst (digits_loop b cs n v c0) = 0xFFFFFFFFFFFFFFFF"
  using assms(2,3)
proof (induction cs arbitrary: n v c0)
  case Nil
  have "digits_loop b [] n v c0 = (if n = 0 then (v, c0, 0) else (v, 0, n - 1))"
    by (subst digits_loop.simps) (simp add: consume_one_def peek_one_def deref_def digit_value_zero)
  then show ?case using unsigned_less[of v, where ?'a = nat] by simp
next
  case (Cons c cs)
  obtain d where d: "digit_value b c = Some d" using Cons.prems by auto
  have n: "n \<noteq> 0" "length cs \<le> unat (n - 1)" using Cons.prems unat_pred[of "length cs" n] by auto
  let ?next = "v * b + d"
  note ov = overflow_test[OF digit_value_less[OF d b], of v]
  have step: "digits_loop b (c # cs) n v c0 =
      (if ?next div b \<noteq> v then (0xFFFFFFFFFFFFFFFF, c, n - 1) else digits_loop b cs (n - 1) ?next c)"
    by (subst digits_loop.simps) (simp add: consume_one_def peek_one_def deref_def n d Let_def)
  show ?case
  proof (cases "unat v * unat b + unat d < 2 ^ 64")
    case True
    then have e: "unat ?next = unat v * unat b + unat d" by (simp add: unat_word_ariths)
    show ?thesis using Cons.IH[of "n - 1" ?next c] Cons.prems n ov True d unfolding step by (auto simp: e split: if_splits)
  next
    case False
    have "unat v * unat b + unat d \<le> numeral_value b (unat v) (c # cs)"
      using numeral_value_mono[of b "unat v * unat b + unat d" cs] b d by (auto simp: uacpi_bases)
    with False ov show ?thesis unfolding step by simp
  qed
qed

lemma skip_while_prefix:
  assumes "\<forall>c \<in> set ws. is_char c t" and "\<not> is_char (deref rest) t" and "length ws \<le> unat n"
  shows "skip_while t (ws @ rest) n = (rest, n - of_nat (length ws))"
  using assms
proof (induction ws arbitrary: n)
  case Nil
  then show ?case by (subst skip_while.simps) (simp add: consume_if_def peek_one_def)
next
  case (Cons c ws)
  then have n: "n \<noteq> 0" and "length ws \<le> unat (n - 1)" using unat_pred[of "length ws" n] by auto
  with Cons show ?case by (subst skip_while.simps) (simp add: consume_if_def peek_one_def deref_def)
qed

lemma to_lower_keeps: "c < 0x41 \<Longrightarrow> to_lower c = c"
  by (simp add: to_lower_def is_upper word_le_nat_alt word_less_nat_alt)

lemma to_lower_sign: "to_lower c = 0x2D \<longleftrightarrow> c = 0x2D" "to_lower c = 0x2B \<longleftrightarrow> c = 0x2B"
proof -
  have "c + 0x20 \<noteq> 0x2D \<and> c + 0x20 \<noteq> 0x2B" if "0x41 \<le> c \<and> c \<le> 0x5A"
    using that by (auto simp: word_le_nat_alt word_unat_eq_iff unat_word_ariths)
  then show "to_lower c = 0x2D \<longleftrightarrow> c = 0x2D" "to_lower c = 0x2B \<longleftrightarrow> c = 0x2B"
    unfolding to_lower_def is_upper by (auto simp: word_le_nat_alt)
qed

text \<open>What the first character of a number cannot be.\<close>

lemma digit_is_digit:
  assumes "digit_value b c \<noteq> None"
  shows "0x30 \<le> c \<and> c \<le> 0x39 \<or> 0x41 \<le> c \<and> c \<le> 0x46 \<or> 0x61 \<le> c \<and> c \<le> 0x66"
  using assms unfolding digit_value_def Let_def digit_class by (auto split: if_splits)

lemma digits_start:
  assumes "\<forall>c \<in> set cs. digit_value b c \<noteq> None"
  shows "\<not> is_char (deref cs) CHAR_TYPE_SPACE" "deref cs \<noteq> 0x2D" "deref cs \<noteq> 0x2B"
proof -
  have "deref cs = 0 \<or> digit_value b (deref cs) \<noteq> None" using assms by (cases cs) (auto simp: deref_def)
  then have "deref cs = 0 \<or> 0x30 \<le> deref cs" using digit_is_digit[of b "deref cs"] by (auto simp: word_le_nat_alt)
  then show "\<not> is_char (deref cs) CHAR_TYPE_SPACE" "deref cs \<noteq> 0x2D" "deref cs \<noteq> 0x2B"
    unfolding is_space by (auto simp: word_le_nat_alt)
qed

lemma parse_sign_result:
  assumes "sign \<in> {[], [0x2D], [0x2B]}" and "deref cs \<noteq> 0x2D" "deref cs \<noteq> 0x2B" and "length sign \<le> unat n"
  shows "parse_sign (sign @ cs) n = (sign = [0x2D], cs, n - of_nat (length sign))"
  using assms
  by (auto simp: parse_sign_def consume_if_equals_def peek_one_def to_lower_sign deref_def)

text \<open>
  On white space, an optional sign and digits of the base, with no limit on the size below their length, the conversion succeeds with the number
  that the digits denote, negated after a minus sign, if that number fits in 64 bits; if it does not fit, the value stored is the largest
  one (negated: 1), never a wrapped one.
\<close>

lemma string_to_integer_exact:
  assumes b: "b \<in> {UACPI_BASE_OCT, UACPI_BASE_DEC, UACPI_BASE_HEX}" and ws: "\<forall>c \<in> set ws. is_char c CHAR_TYPE_SPACE"
    and sign: "sign \<in> {[], [0x2D], [0x2B]}" and ds: "\<forall>c \<in> set ds. digit_value b c \<noteq> None"
    and n: "length (ws @ sign @ ds) \<le> unat n" and v_def: "v = numeral_value b 0 ds"
  shows "if v < 2 ^ 64
    then uacpi_string_to_integer (ws @ sign @ ds) n b = (UACPI_STATUS_OK, if sign = [0x2D] then - of_nat v else of_nat v)
    else snd (uacpi_string_to_integer (ws @ sign @ ds) n b) = (if sign = [0x2D] then 1 else 0xFFFFFFFFFFFFFFFF)"
proof -
  note st = digits_start[OF ds]
  have start: "\<not> is_char (deref (sign @ ds)) CHAR_TYPE_SPACE" using sign st(1) by (auto simp: deref_def is_space)
  let ?n1 = "n - of_nat (length ws)" and ?n2 = "n - of_nat (length ws) - of_nat (length sign)"
  have n1: "unat ?n1 = unat n - length ws" using n by (simp add: unat_sub_of_nat)
  then have n2: "unat ?n2 = unat n - length ws - length sign" using n by (simp add: unat_sub_of_nat)
  have parse: "skip_while CHAR_TYPE_SPACE (ws @ sign @ ds) n = (sign @ ds, ?n1)" "parse_sign (sign @ ds) ?n1 = (sign = [0x2D], ds, ?n2)"
    using skip_while_prefix[OF ws start, of n] parse_sign_result[OF sign st(2,3), of ?n1] n n1 by auto
  have base: "parse_base b ds ?n2 = (b, ds, ?n2)" using b by (auto simp: parse_base_def uacpi_bases)
  have r: "uacpi_string_to_integer (ws @ sign @ ds) n b =
      (let (val, c, sz) = digits_loop b ds ?n2 0 0
       in (if sz = 0 \<or> c = 0 then UACPI_STATUS_OK else UACPI_STATUS_INVALID_ARGUMENT, if sign = [0x2D] then - val else val))"
    by (simp add: uacpi_string_to_integer_def parse base)
  have "if v < 2 ^ 64 then \<exists>c' n'. digits_loop b ds ?n2 0 0 = (of_nat v, c', n') \<and> (n' = 0 \<or> c' = 0)
      else fst (digits_loop b ds ?n2 0 0) = 0xFFFFFFFFFFFFFFFF"
    using digits_loop_value[OF b ds, of ?n2 0 0] n n2 unfolding v_def by (auto split: if_splits)
  then show ?thesis unfolding r by (cases "digits_loop b ds ?n2 0 0") (auto split: if_splits)
qed

lemma string_to_integer_exact_witness:
  "uacpi_string_to_integer (chars '' -17'') 4 UACPI_BASE_DEC = (UACPI_STATUS_OK, - 17)"
proof -
  have c: "chars '' -17'' = [0x20] @ [0x2D] @ [0x31, 0x37]" by (simp add: chars_def)
  have d: "digit_value UACPI_BASE_DEC 0x31 = Some 1" "digit_value UACPI_BASE_DEC 0x37 = Some 7"
    by (simp_all add: digit_value_def digit_class uacpi_bases)
  have "numeral_value UACPI_BASE_DEC 0 [0x31, 0x37] = 17" by (simp add: d) (simp add: uacpi_bases)
  then show ?thesis
    unfolding c using string_to_integer_exact[of UACPI_BASE_DEC "[0x20]" "[0x2D]" "[0x31, 0x37]" 4 17] by (simp add: d is_space)
qed

text \<open>A character that is no digit is accepted at the end of the limit, and an overflow there is not reported.\<close>

lemma string_to_integer_accepts_junk_at_limit:
  assumes b: "b \<in> {UACPI_BASE_OCT, UACPI_BASE_DEC, UACPI_BASE_HEX}" and "digit_value b d \<noteq> None" and "digit_value b c = None" and "c \<noteq> 0"
  shows "uacpi_string_to_integer [d, c] 2 b = (UACPI_STATUS_OK, the (digit_value b d))"
    "fst (uacpi_string_to_integer [d, c] 3 b) = UACPI_STATUS_INVALID_ARGUMENT"
proof -
  obtain x where x: "digit_value b d = Some x" using assms(2) by auto
  have "x div b = 0" using overflow_test[of x b 0] digit_value_less[OF x b] unsigned_less[of x, where ?'a = nat] by simp
  moreover have "\<forall>c \<in> set [d]. digit_value b c \<noteq> None" using assms(2) by simp
  note s = digits_start[OF this]
  have s': "\<not> is_char d CHAR_TYPE_SPACE" "d \<noteq> 0x2D" "d \<noteq> 0x2B" using s by (simp_all add: deref_def)
  have "skip_while CHAR_TYPE_SPACE [d, c] n = ([d, c], n)" for n
    by (subst skip_while.simps) (simp add: consume_if_def peek_one_def deref_def s')
  moreover have "parse_sign [d, c] n = (False, [d, c], n)" for n
    using s' by (simp add: parse_sign_def consume_if_equals_def peek_one_def deref_def to_lower_sign)
  moreover have "parse_base b str n = (b, str, n)" for str n using b by (auto simp: parse_base_def uacpi_bases)
  ultimately show "uacpi_string_to_integer [d, c] 2 b = (UACPI_STATUS_OK, the (digit_value b d))"
    "fst (uacpi_string_to_integer [d, c] 3 b) = UACPI_STATUS_INVALID_ARGUMENT"
    using assms(3,4)
    by (auto simp: uacpi_string_to_integer_def digits_loop.simps consume_one_def peek_one_def deref_def x UACPI_STATUS_OK_def UACPI_STATUS_INVALID_ARGUMENT_def)
qed

end
