(* ===== verification/UacpiPrintfProps.thy ===== *)
theory UacpiPrintfProps
  imports UacpiPrintf UacpiTextProps
begin

text \<open>
  The formatter as text: what a format and its arguments denote is defined without a buffer, by reading the whole format into its items and
  giving each item its text; \<open>uacpi_vsnprintf\<close> stores that text cut to its buffer, and nothing else.
\<close>

section \<open>Reading a format to its end\<close>

lemma consume_shortens: "consume token s = Some r \<Longrightarrow> length r \<le> length s \<and> (token \<noteq> [] \<longrightarrow> length r < length s)"
proof -
  assume a: "consume token s = Some r"
  then have "take (length (chars token)) s = chars token" "r = drop (length (chars token)) s"
    by (auto simp: consume_def Let_def split: if_splits)
  then show ?thesis by (metis chars_def diff_less drop_eq_Nil2 length_drop length_greater_0_conv length_map less_or_eq_imp_le diff_le_self take_Nil leI)
qed

lemma count_digits_shortens: "length (snd (count_digits s n)) \<le> length s"
  by (induction s n rule: count_digits.induct) auto

lemma parse_number_shortens: "parse_number s must v = Some (w, r) \<Longrightarrow> length r \<le> length s"
  using count_digits_shortens[of s 0]
  by (auto simp: parse_number_def consume_digits_def Let_def split: option.splits if_splits prod.splits)

lemma and_then_Parsed: "and_then p f = Parsed y \<longleftrightarrow> (\<exists>x. p = Parsed x \<and> f x = Parsed y)"
  by (cases p) auto

lemma and_then_cong [fundef_cong]: "p = p' \<Longrightarrow> (\<And>x. p' = Parsed x \<Longrightarrow> f x = f' x) \<Longrightarrow> and_then p f = and_then p' f'"
  by (cases p') auto

lemma parse_flags_shortens: "parse_flags fm s = Parsed (fm', r) \<Longrightarrow> length r \<le> length s"
proof (induction fm s rule: parse_flags.induct)
  case (1 fm s)
  show ?case
  proof (cases "consume_one_of ''+- 0#'' s")
    case None
    then show ?thesis using "1.prems" by (simp add: parse_flags.simps[of fm s])
  next
    case (Some a)
    obtain flag rest where a: "a = (flag, rest)" by fastforce
    note s = Some[unfolded a]
    note IH = "1.IH"[OF s refl]
    have "length r \<le> length rest"
      using "1.prems" IH unfolding parse_flags.simps[of fm s] s by (simp split: if_splits)
    then show ?thesis using consume_one_of_less[OF s] by simp
  qed
qed

lemma parse_width_shortens: "parse_width fm s args = Parsed (fm', r, args') \<Longrightarrow> length r \<le> length s"
  by (auto simp: parse_width_def and_then_Parsed dest!: consume_shortens parse_number_shortens split: option.splits prod.splits)

lemma parse_precision_shortens: "parse_precision fm s args = Parsed (fm', r, args') \<Longrightarrow> length r \<le> length s"
  by (auto simp: parse_precision_def Let_def and_then_Parsed dest!: consume_shortens parse_number_shortens split: option.splits prod.splits)

lemma integer_conversion_shortens: "integer_conversion n fm s args = Parsed (item, r, args') \<Longrightarrow> length r \<le> length s"
  by (auto simp: integer_conversion_def Let_def and_then_Parsed dest!: consume_shortens consume_one_of_less split: option.splits prod.splits)

lemma parse_item_shortens: "parse_item fm s args = Parsed (item, r, args') \<Longrightarrow> length r \<le> length s"
  by (auto simp: parse_item_def and_then_Parsed dest!: consume_shortens integer_conversion_shortens split: option.splits prod.splits)

lemma parse_conversion_shortens:
  assumes "parse_conversion s args = Parsed (item, r, args')"
  shows "length r \<le> length s"
proof -
  obtain fm1 s1 fm2 s2 args2 fm3 s3 args3 where "parse_flags initial_spec s = Parsed (fm1, s1)" "parse_width fm1 s1 args = Parsed (fm2, s2, args2)"
    "parse_precision fm2 s2 args2 = Parsed (fm3, s3, args3)" "parse_item fm3 s3 args3 = Parsed (item, r, args')"
    using assms by (auto simp: parse_conversion_def and_then_Parsed)
  then have "length s1 \<le> length s" "length s2 \<le> length s1" "length s3 \<le> length s2" "length r \<le> length s3"
    by (auto intro: parse_flags_shortens parse_width_shortens parse_precision_shortens parse_item_shortens)
  then show ?thesis by simp
qed

lemma find_next_conversion_split: "find_next_conversion s = (lit, rest) \<Longrightarrow> s = lit @ rest \<and> (rest = [] \<or> hd rest = 0x25)"
proof (induction s arbitrary: lit)
  case (Cons c s)
  then show ?case by (cases "find_next_conversion s") (auto split: if_splits)
qed simp

function format_items :: "ctext \<Rightarrow> u64 list \<Rightarrow> fmt_item list parsed" where
  "format_items fmt args =
     (case find_next_conversion fmt of (text, rest) \<Rightarrow>
        if rest = [] then Parsed (map Char_Item text)
        else (case consume ''%%'' rest of Some fmt \<Rightarrow> and_then (format_items fmt args) (\<lambda>items. Parsed (map Char_Item text @ Char_Item 0x25 # items))
              | None \<Rightarrow> and_then (parse_conversion (tl rest) args) (\<lambda>(item, fmt, args).
                         and_then (format_items fmt args) (\<lambda>items. Parsed (map Char_Item text @ item # items)))))"
  by pat_completeness auto

lemma after_percent: "(lit, rest) = find_next_conversion s \<Longrightarrow> length rest \<le> length s"
  by (drule sym, drule find_next_conversion_split) auto

termination format_items
  by (relation "measure (\<lambda>(fmt, _). length fmt)")
    (auto dest!: after_percent consume_shortens parse_conversion_shortens simp flip: length_greater_0_conv)

declare format_items.simps [simp del]

section \<open>The text of an item\<close>

text \<open>Digits, most significant first; the text of a number has at least one.\<close>

function numeral_text :: "bool \<Rightarrow> nat \<Rightarrow> nat \<Rightarrow> ctext" where
  "numeral_text upper b n = (if n = 0 \<or> b < 2 then [] else numeral_text upper b (n div b) @ [hex_char upper (of_nat (n mod b))])"
  by pat_completeness auto

termination numeral_text
  by (relation "measure (\<lambda>(_, _, n). n)") auto

declare numeral_text.simps [simp del]

definition number_text :: "fmt_spec \<Rightarrow> nat \<Rightarrow> ctext" where
  "number_text fm n =
     (if \<not> alternate_form fm then [] else if fm_base fm = 16 then [0x30, if uppercase fm then 0x58 else 0x78] else if fm_base fm = 8 then [0x30] else []) @
     (if n = 0 then [0x30] else numeral_text (uppercase fm) (unat (fm_base fm)) n)"

definition padded :: "fmt_spec \<Rightarrow> ctext \<Rightarrow> ctext" where
  "padded fm cs =
     (let k = unat (min_width fm) - length cs
      in if left_justify fm then cs @ replicate k 0x20 else replicate k (pad_char fm) @ cs)"

definition integer_text :: "fmt_spec \<Rightarrow> u64 \<Rightarrow> ctext" where
  "integer_text fm v =
     (let negative = (is_signed fm \<and> sint v < 0); n = (if is_signed fm then nat \<bar>sint v\<bar> else unat v)
      in (if negative then [0x2D] else if prepend fm then [prepend_char fm] else []) @ padded fm (number_text fm n))"

definition limited :: "fmt_spec \<Rightarrow> ctext \<Rightarrow> ctext" where
  "limited fm cs = (if has_precision fm then take (unat (precision fm)) cs else cs)"

text \<open>The characters behind a pointer are given by \<open>str\<close>.\<close>

definition string_text :: "(u64 \<Rightarrow> fmt_spec \<Rightarrow> ctext) \<Rightarrow> u64 \<Rightarrow> fmt_spec \<Rightarrow> ctext" where
  "string_text str p fm =
     (let cs = (if p = NULL then limited fm (chars ''<null>'') else str p fm) in cs @ replicate (unat (min_width fm) - length cs) 0x20)"

fun item_text :: "(u64 \<Rightarrow> fmt_spec \<Rightarrow> ctext) \<Rightarrow> fmt_item \<Rightarrow> ctext" where
  "item_text str (Char_Item c) = [c]"
| "item_text str (String_Item p fm) = string_text str p fm"
| "item_text str (Integer_Item fm v) = integer_text fm v"

section \<open>Writing to the buffer\<close>

lemma store_text_snoc:
  assumes "length cs < 2 ^ 64"
  shows "store_text a (cs @ [c]) m = (store_text a cs m)(a + of_nat (length cs) := c)"
proof -
  have l: "unat (of_nat k :: u64) = k" if "k \<le> length cs" for k using that assms by (simp add: unat_of_nat_u64)
  have "for_upto k (\<lambda>i m. m(a + i := (cs @ [c]) ! unat i)) m = for_upto k (\<lambda>i m. m(a + i := cs ! unat i)) m" if "k \<le> length cs" for k
    using that by (induction k) (auto simp: l nth_append)
  then show ?thesis by (simp add: store_text_def l)
qed

lemma store_text_append:
  assumes "length (xs @ ys) \<le> 2 ^ 64"
  shows "store_text a (xs @ ys) m = store_text (a + of_nat (length xs)) ys (store_text a xs m)"
  using assms
proof (induction ys rule: rev_induct)
  case (snoc y ys)
  then have "store_text a (xs @ ys @ [y]) m = (store_text a (xs @ ys) m)(a + of_nat (length (xs @ ys)) := y)"
    using store_text_snoc[of "xs @ ys" a y m] by simp
  with snoc show ?case using store_text_snoc[of ys "a + of_nat (length xs)" y "store_text a xs m"] by (simp add: add.assoc)
qed (simp add: store_text_def)

lemma store_text_at:
  assumes "length cs \<le> 2 ^ 64"
  shows "store_text a cs m x = (if unat (x - a) < length cs then cs ! unat (x - a) else m x)"
  using assms
proof (induction cs rule: rev_induct)
  case (snoc c cs)
  then have l: "length cs < 2 ^ 64" by simp
  then have "unat (of_nat (length cs) :: u64) = length cs" by (simp add: unat_of_nat_u64)
  then have "x = a + of_nat (length cs) \<longleftrightarrow> unat (x - a) = length cs" by (metis word_offset_cases add_diff_cancel_left')
  with snoc l show ?case by (auto simp: store_text_snoc nth_append less_Suc_eq)
qed (simp add: store_text_def)

text \<open>The state of the writer when the text \<open>t\<close> has gone through it.\<close>

definition printed :: "u64 \<Rightarrow> u64 \<Rightarrow> bytes \<Rightarrow> ctext \<Rightarrow> fmt_out \<Rightarrow> bool" where
  "printed buf cap m t st \<longleftrightarrow>
     st = (\<lparr>fb_buffer = buf, fb_capacity = cap, bytes_written = of_nat (length t)\<rparr>, store_text buf (take (unat cap) t) m)"

lemma printed_write_one:
  assumes "printed buf cap m t st" and "length t < 2 ^ 64 - 1"
  shows "printed buf cap m (t @ [c]) (write_one c st)"
proof -
  have u: "unat (of_nat (length t) :: u64) = length t" using assms(2) by (simp add: unat_of_nat_u64)
  then have w: "(of_nat (length t) :: u64) < cap \<longleftrightarrow> length t < unat cap" by (simp add: word_less_nat_alt)
  have s: "store_text buf (t @ [c]) m = (store_text buf t m)(buf + of_nat (length t) := c)" by (rule store_text_snoc) (use assms(2) in simp)
  show ?thesis
    using assms(1) by (auto simp: printed_def write_one_def w s add.commute)
qed

lemma printed_write_many:
  assumes "printed buf cap m t st" and "length (t @ cs) < 2 ^ 64"
  shows "printed buf cap m (t @ cs) (write_many cs st)"
proof -
  have u: "unat (of_nat (length t) :: u64) = length t" "unat (of_nat (length cs) :: u64) = length cs" using assms(2) by (simp_all add: unat_of_nat_u64)
  then have w: "(of_nat (length t) :: u64) < cap \<longleftrightarrow> length t < unat cap" by (simp add: word_less_nat_alt)
  have r: "unat (if (of_nat (length cs) :: u64) < cap - of_nat (length t) then of_nat (length cs) else cap - of_nat (length t)) = min (length cs) (unat cap - length t)"
    if "length t < unat cap"
    using that u unat_sub_of_nat[of "length t" cap] by (auto simp: word_less_nat_alt)
  have "store_text buf (take (unat cap) (t @ cs)) m =
      store_text (buf + of_nat (length t)) (take (min (length cs) (unat cap - length t)) cs) (store_text buf (take (unat cap) t) m)"
    if "length t < unat cap"
    using that store_text_append[of t "take (unat cap - length t) cs" buf m] assms(2)
    by (cases "length cs \<le> unat cap - length t") (auto simp: min_def)
  then show ?thesis
    using assms(1) w r by (auto simp: printed_def write_many_def Let_def)
qed

lemma printed_write_times:
  "printed buf cap m t st \<Longrightarrow> length t + n < 2 ^ 64 \<Longrightarrow> printed buf cap m (t @ replicate n c) (write_times n c st)"
proof (induction n arbitrary: t st)
  case (Suc n)
  then have "printed buf cap m ((t @ [c]) @ replicate n c) (write_times n c (write_one c st))"
    by (intro Suc.IH printed_write_one) auto
  then show ?case by simp
qed simp

section \<open>Integers\<close>

lemma hex_char_decimal: "k < 10 \<Longrightarrow> hex_char upper (of_nat k) = of_nat k + 0x30"
proof -
  assume "k < 10"
  then have "k = 0 \<or> k = 1 \<or> k = 2 \<or> k = 3 \<or> k = 4 \<or> k = 5 \<or> k = 6 \<or> k = 7 \<or> k = 8 \<or> k = 9" by arith
  then show ?thesis by (elim disjE) (simp_all add: hex_char_def chars_def)
qed

lemma numeral_text_length: "n < 8 ^ k \<Longrightarrow> 8 \<le> b \<Longrightarrow> length (numeral_text upper b n) \<le> k"
proof (induction k arbitrary: n)
  case 0
  then show ?case by (simp add: numeral_text.simps)
next
  case (Suc k)
  have "n div b \<le> n div 8" using Suc.prems(2) by (simp add: div_le_mono2)
  also have "\<dots> < 8 ^ k" using Suc.prems(1) by (simp add: less_mult_imp_div_less mult.commute)
  finally show ?case using Suc by (subst numeral_text.simps) simp
qed

lemma numeral_text_u64:
  assumes "8 \<le> b"
  shows "length (numeral_text upper b (unat (v :: u64))) \<le> 22"
  by (rule numeral_text_length) (use unat_lt_2p64[of v] assms in simp_all)

text \<open>The bases that a format can choose.\<close>

definition good_base :: "fmt_spec \<Rightarrow> bool" where
  "good_base fm \<longleftrightarrow> fm_base fm = 8 \<or> fm_base fm = 10 \<or> fm_base fm = 16"

lemma unat_base: "good_base fm \<Longrightarrow> unat (ucast (fm_base fm) :: u64) = unat (fm_base fm) \<and> 8 \<le> unat (fm_base fm) \<and> unat (fm_base fm) \<le> 16"
  by (auto simp: good_base_def)

lemma repr_char_digit:
  assumes "good_base fm" and "k < unat (fm_base fm)"
  shows "repr_char fm (of_nat k) = hex_char (uppercase fm) (of_nat k)"
proof -
  have "ucast (of_nat k :: u64) = (of_nat k :: u8)" by (simp add: word_unat_eq_iff unsigned_ucast_eq unsigned_of_nat take_bit_of_nat)
  then show ?thesis using assms hex_char_decimal[of k "uppercase fm"] by (auto simp: repr_char_def good_base_def)
qed

lemma repr_digits_numeral:
  assumes "good_base fm" and "length (numeral_text (uppercase fm) (unat (fm_base fm)) (unat v)) + length acc \<le> 32"
  shows "repr_digits fm v acc = Some (numeral_text (uppercase fm) (unat (fm_base fm)) (unat v) @ acc)"
  using assms(2)
proof (induction "unat v" arbitrary: v acc rule: less_induct)
  case less
  note b = unat_base[OF assms(1)]
  show ?case
  proof (cases "v = 0")
    case True
    then show ?thesis by (subst repr_digits.simps) (simp add: numeral_text.simps)
  next
    case False
    let ?b = "ucast (fm_base fm) :: u64" and ?N = "numeral_text (uppercase fm) (unat (fm_base fm))"
    have v: "0 < unat v" using False by (simp add: unat_gt_0)
    have d: "unat (v div ?b) = unat v div unat (fm_base fm)" "v mod ?b = of_nat (unat v mod unat (fm_base fm))"
      using b order.strict_trans2[OF mod_less_divisor[of "unat (fm_base fm)" "unat v"], of 16]
      by (auto simp: unat_div_u64 word_unat_eq_iff unat_mod_u64 unat_of_nat_u64)
    have n: "?N (unat v) = ?N (unat (v div ?b)) @ [hex_char (uppercase fm) (v mod ?b)]"
      using b by (subst numeral_text.simps) (simp add: d v)
    have r: "repr_char fm (v mod ?b) = hex_char (uppercase fm) (v mod ?b)"
      unfolding d(2) using b by (intro repr_char_digit assms(1)) simp
    have "repr_digits fm (v div ?b) (hex_char (uppercase fm) (v mod ?b) # acc) = Some (?N (unat (v div ?b)) @ hex_char (uppercase fm) (v mod ?b) # acc)"
      using less.prems v b n by (intro less.hyps) (simp_all add: d gr0_conv_Suc div_less_dividend)
    then show ?thesis
      using False less.prems n by (subst repr_digits.simps) (simp add: r push_repr_def REPR_BUFFER_SIZE_def)
  qed
qed

lemma unat_negated: "sint v < 0 \<Longrightarrow> unat (- v) = nat \<bar>sint (v :: u64)\<bar>"
proof -
  assume n: "sint v < 0"
  have "unat (of_int (- sint v) :: u64) = nat (take_bit 64 (- sint v))" by (subst unsigned_of_int) simp
  then have "unat (- v) = nat (take_bit 64 (- sint v))" by simp
  moreover have "take_bit 64 (- sint v) = - sint v"
    using n sint_greater_eq[of v] by (simp add: take_bit_int_eq_self)
  ultimately show ?thesis using n by simp
qed

lemma unat_nonnegative: "0 \<le> sint v \<Longrightarrow> unat v = nat \<bar>sint (v :: u64)\<bar>"
proof -
  assume n: "0 \<le> sint v"
  have "unat (of_int (sint v) :: u64) = nat (take_bit 64 (sint v))" by (subst unsigned_of_int) simp
  moreover have "take_bit 64 (sint v) = sint v"
    using n sint_less[of v] by (simp add: take_bit_int_eq_self)
  ultimately show ?thesis using n by simp
qed

lemma printed_write_padding:
  assumes "printed buf cap m t st" and "length t + (unat (min_width fm) - n) < 2 ^ 64" and "n < 2 ^ 64"
  shows "printed buf cap m (t @ replicate (unat (min_width fm) - n) (if left_justify fm then 0x20 else pad_char fm)) (write_padding fm (of_nat n) st)"
proof -
  have n: "unat (of_nat n :: u64) = n" using assms(3) by (simp add: unat_of_nat_u64)
  have "unat (min_width fm - of_nat n) = unat (min_width fm) - n" if "\<not> min_width fm \<le> of_nat n"
    using that n by (simp add: word_le_nat_alt unat_sub_of_nat)
  moreover have "unat (min_width fm) - n = 0" if "min_width fm \<le> of_nat n" using that n by (simp add: word_le_nat_alt)
  ultimately show ?thesis
    using assms(1) printed_write_times[OF assms(1,2)] by (auto simp: write_padding_def Let_def)
qed

lemma write_integer_text:
  assumes "good_base fm" and "printed buf cap m t st" and len: "length (t @ integer_text fm v) < 2 ^ 64"
  shows "\<exists>st'. write_integer fm v st = Some st' \<and> printed buf cap m (t @ integer_text fm v) st'"
proof -
  define neg where "neg \<longleftrightarrow> is_signed fm \<and> sint v < 0"
  define w where "w = (if neg then - v else v)"
  define n where "n = (if is_signed fm then nat \<bar>sint v\<bar> else unat v)"
  define sign where "sign = (if neg then [0x2D] else if prepend fm then [prepend_char fm] else [])"
  have n: "n = unat w" using unat_negated[of v] unat_nonnegative[of v] by (auto simp: n_def w_def neg_def not_less)
  have text_eq: "integer_text fm v = sign @ padded fm (number_text fm n)"
    by (simp add: integer_text_def neg_def n_def sign_def Let_def)
  let ?R = "number_text fm n"
  define N where "N = numeral_text (uppercase fm) (unat (fm_base fm)) n"
  have l: "length N \<le> 22" using numeral_text_u64 unat_base[OF assms(1)] unfolding n N_def by blast
  have digits: "repr_digits fm w [] = Some N" using repr_digits_numeral[OF assms(1), of w "[]"] l by (simp add: n N_def)
  have N: "N = [] \<longleftrightarrow> n = 0" using unat_base[OF assms(1)] unfolding N_def by (subst numeral_text.simps) auto
  have nt: "?R = (if \<not> alternate_form fm then [] else if fm_base fm = 16 then [0x30, if uppercase fm then 0x58 else 0x78]
      else if fm_base fm = 8 then [0x30] else []) @ (if n = 0 then [0x30] else N)" by (simp add: number_text_def N_def)
  have repr: "do { repr \<leftarrow> repr_digits fm w []; repr \<leftarrow> (if repr = [] then push_repr 0x30 repr else Some repr);
      if \<not> alternate_form fm then Some repr
      else if fm_base fm = 16 then do { repr \<leftarrow> push_repr (if uppercase fm then 0x58 else 0x78) repr; push_repr 0x30 repr }
      else if fm_base fm = 8 then push_repr 0x30 repr else Some repr } = Some ?R"
    unfolding digits nt using l N by (simp add: push_repr_def REPR_BUFFER_SIZE_def)
  have lr: "length ?R \<le> 25" using l by (simp add: nt)
  define st1 where "st1 = (if prepend fm \<or> neg then write_one (if neg then 0x2D else prepend_char fm) st else st)"
  have p1: "printed buf cap m (t @ sign) st1"
    using printed_write_one[OF assms(2)] assms(2) len unfolding st1_def text_eq by (auto simp: sign_def)
  have eq: "write_integer fm v st = Some (if left_justify fm then write_padding fm (of_nat (length ?R)) (write_many ?R st1)
      else write_many ?R (write_padding fm (of_nat (length ?R)) st1))"
    unfolding write_integer_def Let_def neg_def[symmetric] w_def[symmetric] st1_def[symmetric]
    by (subst bind_assoc[symmetric])+ (use repr in simp)
  show ?thesis
  proof (cases "left_justify fm")
    case True
    then have "length ((t @ sign) @ ?R) + (unat (min_width fm) - length ?R) < 2 ^ 64" using len by (simp add: text_eq padded_def Let_def)
    then show ?thesis
      using printed_write_padding[OF printed_write_many[OF p1], of ?R fm "length ?R"] lr True by (simp add: eq text_eq padded_def Let_def)
  next
    case False
    then have "length (t @ sign) + (unat (min_width fm) - length ?R) + length ?R < 2 ^ 64" using len by (simp add: text_eq padded_def Let_def)
    then show ?thesis
      using printed_write_many[OF printed_write_padding[OF p1, of fm "length ?R"], of ?R] lr False by (simp add: eq text_eq padded_def Let_def)
  qed
qed

section \<open>Strings\<close>

text \<open>
  \<open>cs\<close> are the characters that the formatter takes from \<open>p\<close>, up to a zero byte or the precision, and none of the bytes that it reads, the zero
  byte included, is in the buffer.
\<close>

definition prints_as :: "bytes \<Rightarrow> u64 \<Rightarrow> u64 \<Rightarrow> fmt_spec \<Rightarrow> u64 \<Rightarrow> ctext \<Rightarrow> bool" where
  "prints_as m buf cap fm p cs \<longleftrightarrow>
     length cs < 2 ^ 64 \<and> (has_precision fm \<longrightarrow> length cs \<le> unat (precision fm)) \<and>
     (\<forall>i < length cs. m (p + of_nat i) = cs ! i \<and> cs ! i \<noteq> 0 \<and> unat cap \<le> unat (p + of_nat i - buf)) \<and>
     (has_precision fm \<and> length cs = unat (precision fm) \<or> m (p + of_nat (length cs)) = 0 \<and> unat cap \<le> unat (p + of_nat (length cs) - buf))"

lemma string_loop_text:
  assumes printed: "printed buf cap m (t @ take i cs) st" and len: "length (t @ cs) < 2 ^ 64" "i \<le> length cs"
    and prec: "has_precision fm \<longrightarrow> length cs \<le> unat (precision fm)"
    and chars: "\<And>k t'. k < length cs \<Longrightarrow> at (store_text buf (take (unat cap) t') m) (of_nat k) = cs ! k \<and> cs ! k \<noteq> 0"
    and stop: "has_precision fm \<and> length cs = unat (precision fm) \<or> (\<forall>t'. at (store_text buf (take (unat cap) t') m) (of_nat (length cs)) = 0)"
  shows "\<exists>st'. string_loop fm at (of_nat i) st = Some (of_nat (length cs), st') \<and> printed buf cap m (t @ cs) st'"
  using printed len(2)
proof (induction "length cs - i" arbitrary: i st)
  case 0
  then have i: "i = length cs" by simp
  have u: "unat (of_nat (length cs) :: u64) = length cs" using len(1) by (simp add: unat_of_nat_u64)
  have st: "snd st = store_text buf (take (unat cap) (t @ cs)) m" using 0(2) i by (auto simp: printed_def)
  have stop': "has_precision fm \<and> length cs = unat (precision fm) \<or> at (snd st) (of_nat (length cs)) = 0" using stop unfolding st by blast
  have "\<not> ((\<not> has_precision fm \<or> (of_nat i :: u64) < precision fm) \<and> at (snd st) (of_nat i) \<noteq> 0)"
    using stop' u unfolding i by (auto simp: word_less_nat_alt)
  then show ?case using 0 i by (subst string_loop.simps) (cases st, auto)
next
  case (Suc d)
  then have i: "i < length cs" by simp
  have u: "unat (of_nat i :: u64) = i" using len(1) i by (simp add: unat_of_nat_u64)
  have st: "snd st = store_text buf (take (unat cap) (t @ take i cs)) m" using Suc.prems(1) by (auto simp: printed_def)
  have c: "at (snd st) (of_nat i) = cs ! i" "cs ! i \<noteq> 0" unfolding st using chars[OF i, of "t @ take i cs"] by blast+
  have "printed buf cap m ((t @ take i cs) @ [cs ! i]) (write_one (cs ! i) st)"
    using len(1) i by (intro printed_write_one Suc.prems) simp
  then have p: "printed buf cap m (t @ take (Suc i) cs) (write_one (cs ! i) st)" using i by (simp add: take_Suc_conv_app_nth)
  have "\<not> has_precision fm \<or> (of_nat i :: u64) < precision fm" using prec i u by (auto simp: word_less_nat_alt)
  then have "string_loop fm at (of_nat i) st = string_loop fm at (of_nat (Suc i)) (write_one (cs ! i) st)"
    using c by (subst string_loop.simps) (simp add: add.commute)
  then show ?case using Suc.hyps(1)[OF _ p] Suc.hyps(2) i by simp
qed


lemma write_string_text:
  assumes "printed buf cap m t st" and len: "length (t @ string_text str p fm) < 2 ^ 64" and cs: "p = NULL \<or> prints_as m buf cap fm p (str p fm)"
  shows "\<exists>st'. write_string p fm st = Some st' \<and> printed buf cap m (t @ string_text str p fm) st'"
proof -
  define cs where "cs = (if p = NULL then limited fm (chars ''<null>'') else str p fm)"
  have text_eq: "string_text str p fm = cs @ replicate (unat (min_width fm) - length cs) 0x20" by (simp add: string_text_def cs_def Let_def)
  have l: "length (t @ cs) < 2 ^ 64" "length cs < 2 ^ 64" using len by (simp_all add: text_eq)
  have null: "chars ''<null>'' = [0x3C, 0x6E, 0x75, 0x6C, 0x6C, 0x3E]" by (simp add: chars_def)
  have prec: "has_precision fm \<longrightarrow> length cs \<le> unat (precision fm)"
    using cs by (auto simp: cs_def prints_as_def limited_def)
  have outside: "store_text buf (take (unat cap) t') m x = m x" if "unat cap \<le> unat (x - buf)" for t' x
    using that unat_lt_2p64[of cap] by (subst store_text_at) auto
  have chars: "string_at p (store_text buf (take (unat cap) t') m) (of_nat k) = cs ! k \<and> cs ! k \<noteq> 0" if "k < length cs" for k t'
  proof (cases "p = NULL")
    case True
    then have k: "k < 6" "cs ! k = chars ''<null>'' ! k" using that null by (auto simp: cs_def limited_def split: if_splits)
    have "\<forall>k \<in> set [0..<6]. chars ''<null>'' ! k \<noteq> 0" unfolding null by (simp add: upt_rec)
    then show ?thesis using True k nth_append[of "chars ''<null>''" "[0]" k] by (simp add: string_at_def unat_of_nat_u64 null)
  next
    case False
    then show ?thesis using cs that outside by (simp add: string_at_def prints_as_def cs_def)
  qed
  have stop: "has_precision fm \<and> length cs = unat (precision fm) \<or> (\<forall>t'. string_at p (store_text buf (take (unat cap) t') m) (of_nat (length cs)) = 0)"
  proof (cases "p = NULL")
    case True
    then have "cs = limited fm (chars ''<null>'')" by (simp add: cs_def)
    then have "has_precision fm \<and> length cs = unat (precision fm) \<or> length cs = 6" by (auto simp: limited_def null min_def)
    then show ?thesis using True by (auto simp: string_at_def null)
  next
    case False
    then show ?thesis using cs outside by (auto simp: string_at_def prints_as_def cs_def)
  qed
  obtain st1 where st1: "string_loop fm (string_at p) 0 st = Some (of_nat (length cs), st1)" "printed buf cap m (t @ cs) st1"
    using string_loop_text[of buf cap m t 0 cs st fm "string_at p"] assms(1) l(1) prec chars stop by auto
  have u: "unat (of_nat (length cs) :: u64) = length cs" using l(2) by (simp add: unat_of_nat_u64)
  have w: "unat (min_width fm - of_nat (length cs)) = unat (min_width fm) - length cs" if "of_nat (length cs) < min_width fm"
    using that u by (simp add: word_less_nat_alt unat_sub_of_nat)
  have "unat (min_width fm) - length cs = 0" if "\<not> of_nat (length cs) < min_width fm" using that u by (simp add: word_less_nat_alt)
  then show ?thesis
    using st1 w printed_write_times[OF st1(2), of "unat (min_width fm) - length cs" "0x20"] len by (auto simp: write_string_def text_eq)
qed

lemma write_item_text:
  assumes "printed buf cap m t st" and "length (t @ item_text str item) < 2 ^ 64"
    and "\<And>fm v. item = Integer_Item fm v \<Longrightarrow> good_base fm"
    and "\<And>p fm. item = String_Item p fm \<Longrightarrow> p = NULL \<or> prints_as m buf cap fm p (str p fm)"
  shows "\<exists>st'. write_item item st = Some st' \<and> printed buf cap m (t @ item_text str item) st'"
proof (cases item)
  case (Char_Item c)
  then show ?thesis using printed_write_one[OF assms(1), of c] assms(2) by simp
next
  case (String_Item p fm)
  then show ?thesis using write_string_text[OF assms(1), of str p fm] assms(2,4) by simp
next
  case (Integer_Item fm v)
  then show ?thesis using write_integer_text[OF _ assms(1), of fm v] assms(2,3) by simp
qed


section \<open>The whole format\<close>

lemma items_good_base:
  assumes "parse_conversion s args = Parsed (Integer_Item fm v, r, args')"
  shows "good_base fm"
proof -
  have flags: "fm_base fm1 = 10" if "parse_flags fm0 s = Parsed (fm1, s1)" "fm_base fm0 = 10" for fm0 fm1 s s1
    using that
  proof (induction fm0 s rule: parse_flags.induct)
    case (1 fm0 s)
    show ?case
    proof (cases "consume_one_of ''+- 0#'' s")
      case None
      then show ?thesis using "1.prems" by (simp add: parse_flags.simps[of fm0 s])
    next
      case (Some a)
      obtain flag rest where a: "a = (flag, rest)" by fastforce
      show ?thesis
        using "1.prems" "1.IH"[OF Some[unfolded a] refl] unfolding parse_flags.simps[of fm0 s] Some[unfolded a] by (simp split: if_splits)
    qed
  qed
  have width: "fm_base fm2 = fm_base fm1" if "parse_width fm1 s args = Parsed (fm2, r)" for fm1 fm2 s args r
    using that by (auto simp: parse_width_def and_then_Parsed split: option.splits prod.splits)
  have prec: "fm_base fm2 = fm_base fm1" if "parse_precision fm1 s args = Parsed (fm2, r)" for fm1 fm2 s args r
    using that by (auto simp: parse_precision_def Let_def and_then_Parsed split: option.splits prod.splits)
  have int: "good_base fm" if "integer_conversion n fm1 s args = Parsed (Integer_Item fm v, r)" "fm_base fm1 = 10" for n fm1 s args r
    using that
    by (auto simp: integer_conversion_def Let_def and_then_Parsed good_base_def base_from_specifier_def split: option.splits prod.splits if_splits)
  obtain fm1 s1 fm2 s2 args2 fm3 s3 args3 where p: "parse_flags initial_spec s = Parsed (fm1, s1)" "parse_width fm1 s1 args = Parsed (fm2, s2, args2)"
    "parse_precision fm2 s2 args2 = Parsed (fm3, s3, args3)" "parse_item fm3 s3 args3 = Parsed (Integer_Item fm v, r, args')"
    using assms by (auto simp: parse_conversion_def and_then_Parsed)
  then have "fm_base fm3 = 10" using flags[OF p(1)] width[OF p(2)] prec[OF p(3)] by (simp add: initial_spec_def)
  then show ?thesis
    using p(4) int by (auto simp: parse_item_def and_then_Parsed good_base_def split: option.splits prod.splits)
qed

lemma vsnprintf_loop_text:
  assumes "format_items fmt args = Parsed items" and "printed buf cap m t st" and "length (t @ concat (map (item_text str) items)) < 2 ^ 64"
    and "\<And>p fm. String_Item p fm \<in> set items \<Longrightarrow> p = NULL \<or> prints_as m buf cap fm p (str p fm)"
  shows "\<exists>st'. vsnprintf_loop fmt args st = Some (True, st') \<and> printed buf cap m (t @ concat (map (item_text str) items)) st'"
  using assms
proof (induction fmt args arbitrary: items t st rule: format_items.induct)
  case (1 fmt args)
  obtain lit rest where nx: "find_next_conversion fmt = (lit, rest)" by fastforce
  have lit: "concat (map (item_text str) (map Char_Item lit)) = lit" by (induction lit) auto
  define st1 where "st1 = (if lit \<noteq> [] then write_many lit st else st)"
  have p1: "printed buf cap m (t @ lit) st1" if "length (t @ lit) < 2 ^ 64"
    using printed_write_many[OF "1.prems"(2) that] "1.prems"(2) by (simp add: st1_def)
  show ?case
  proof (cases "rest = []")
    case True
    have items: "items = map Char_Item lit" using "1.prems"(1) nx True by (simp add: format_items.simps[of fmt])
    have "vsnprintf_loop fmt args st = Some (True, st1)"
      using nx True by (subst vsnprintf_loop.simps) (auto simp: st1_def)
    then show ?thesis using p1 "1.prems"(3) lit unfolding items by simp
  next
    case False
    have fmt: "fmt \<noteq> []" using False nx find_next_conversion_split[OF nx] by auto
    show ?thesis
    proof (cases "consume ''%%'' rest")
      case (Some fmt1)
      obtain items1 where i1: "format_items fmt1 args = Parsed items1" "items = map Char_Item lit @ Char_Item 0x25 # items1"
        using "1.prems"(1) nx False Some by (auto simp: format_items.simps[of fmt] and_then_Parsed)
      have len: "length (t @ lit) < 2 ^ 64 - 1" using "1.prems"(3) lit unfolding i1(2) by simp
      then have p2: "printed buf cap m ((t @ lit) @ [0x25]) (write_one 0x25 st1)" by (intro printed_write_one p1) auto
      have "vsnprintf_loop fmt args st = vsnprintf_loop fmt1 args (write_one 0x25 st1)"
        using nx False Some fmt by (subst vsnprintf_loop.simps) (simp add: st1_def)
      then show ?thesis
        using "1.IH"(2)[OF nx[symmetric] False Some i1(1) p2] "1.prems"(3,4) lit unfolding i1(2) by simp
    next
      case None
      obtain item fmt1 args1 items1 where i1: "parse_conversion (tl rest) args = Parsed (item, fmt1, args1)"
        "format_items fmt1 args1 = Parsed items1" "items = map Char_Item lit @ item # items1"
        using "1.prems"(1) nx False None by (auto simp: format_items.simps[of fmt] and_then_Parsed)
      have len: "length ((t @ lit) @ item_text str item) < 2 ^ 64" using "1.prems"(3) lit unfolding i1(3) by simp
      then obtain st2 where st2: "write_item item st1 = Some st2" "printed buf cap m ((t @ lit) @ item_text str item) st2"
        using write_item_text[OF p1 len] items_good_base[of "tl rest" args] i1(1) "1.prems"(4) unfolding i1(3) by auto
      have "vsnprintf_loop fmt args st = vsnprintf_loop fmt1 args1 st2"
        using nx False None fmt i1(1) st2(1) by (subst vsnprintf_loop.simps) (simp add: st1_def)
      then show ?thesis
        using "1.IH"(1)[OF nx[symmetric] False None i1(1) refl refl i1(2) st2(2)] "1.prems"(3,4) lit unfolding i1(3) by simp
    qed
  qed
qed

text \<open>
  The formatter stores the text that the format and its arguments denote, as many characters of it as the buffer has room for and a zero byte after
  them, changes no other byte of memory, and returns the length of the whole text, for every capacity including 0; it always returns if its
  strings end or have a precision and lie outside the buffer.
\<close>

lemma vsnprintf_prints:
  assumes items: "format_items fmt args = Parsed items" and text_def: "content = concat (map (item_text str) items)" and len: "length content < 2 ^ 31"
    and strings: "\<And>p fm. String_Item p fm \<in> set items \<Longrightarrow> p = NULL \<or> prints_as m buf cap fm p (str p fm)"
  shows "\<exists>m'. uacpi_vsnprintf buf cap fmt args m = Some (int (length content), m') \<and>
    (cap = 0 \<longrightarrow> m' = m) \<and>
    (cap \<noteq> 0 \<longrightarrow> (let n = min (length content) (unat cap - 1)
      in (\<forall>i < n. m' (buf + of_nat i) = content ! i) \<and> m' (buf + of_nat n) = 0 \<and> (\<forall>x. n < unat (x - buf) \<longrightarrow> m' x = m x)))"
proof -
  let ?st0 = "(\<lparr>fb_buffer = buf, fb_capacity = cap, bytes_written = 0\<rparr>, m)"
  have "printed buf cap m [] ?st0" by (simp add: printed_def store_text_def)
  then obtain st where st: "vsnprintf_loop fmt args ?st0 = Some (True, st)" "printed buf cap m content st"
    using vsnprintf_loop_text[OF items, of buf cap m "[]" ?st0 str] len strings by (auto simp: text_def)
  let ?l = "of_nat (length content) :: u64" and ?n = "min (length content) (unat cap - 1)"
  have u: "unat ?l = length content" using len by (simp add: unat_of_nat_u64)
  have "signed_take_bit 31 (int (length content)) = int (length content)" using len by (simp add: signed_take_bit_int_eq_self)
  moreover have "ucast ?l = (of_nat (length content) :: u32)"
    by (simp add: word_unat_eq_iff unsigned_ucast_eq unsigned_of_nat take_bit_of_nat)
  ultimately have r: "sint (ucast ?l :: u32) = int (length content)" by (simp add: signed_of_nat)
  define m1 where "m1 = store_text buf (take (unat cap) content) m"
  have m1: "m1 x = (if unat (x - buf) < min (length content) (unat cap) then content ! unat (x - buf) else m x)" for x
    unfolding m1_def using len by (subst store_text_at) (auto simp: min_def)
  have last: "(if ?l < cap - 1 then ?l else cap - 1) = of_nat ?n" if "cap \<noteq> 0"
    using that u by (simp add: word_less_nat_alt unat_minus_one min_def word_unat_eq_iff unat_of_nat_u64 unat_of_nat_below)
  have res: "uacpi_vsnprintf buf cap fmt args m = Some (int (length content), if cap = 0 then m else m1(buf + of_nat ?n := 0))"
  proof -
    have "st = (\<lparr>fb_buffer = buf, fb_capacity = cap, bytes_written = ?l\<rparr>, m1)" using st(2) by (simp add: printed_def m1_def)
    then have "uacpi_vsnprintf buf cap fmt args m =
        Some (int (length content), if cap = 0 then m1 else m1(buf + (if ?l < cap - 1 then ?l else cap - 1) := 0))"
      using st(1) r by (simp add: uacpi_vsnprintf_def Let_def)
    moreover have "cap = 0 \<Longrightarrow> m1 = m" by (simp add: m1_def store_text_def)
    ultimately show ?thesis using last by simp
  qed
  have n: "unat (of_nat i :: u64) = i" if "i \<le> ?n" for i using that len by (simp add: unat_of_nat_u64)
  have other: "m1 x = m x \<and> x \<noteq> buf + of_nat ?n" if "cap \<noteq> 0" "?n < unat (x - buf)" for x
    using that n[of ?n] by (auto simp: m1 min_def split: if_splits)
  have "i < ?n \<Longrightarrow> (of_nat i :: u64) \<noteq> of_nat ?n" for i using n[of i] n[of ?n] by (metis less_imp_le less_irrefl order_refl)
  then show ?thesis
    using other n by (auto simp: res Let_def m1)
qed

end
