(* ===== verification/UacpiPrintfRead.thy ===== *)
theory UacpiPrintfRead
  imports UacpiPrintfProps
begin

text \<open>A printed number, read back, and two departures of the formatter from that of the C library.\<close>

section \<open>Numbers read back\<close>

lemmas parse_simps = chars_def consume_def consume_one_of_def is_one_of_def parse_number_def consume_digits_def va_arg_def Let_def
  parse_conversion_def parse_flags.simps parse_width_def parse_precision_def parse_item_def integer_conversion_def
  base_from_specifier_def is_uppercase_specifier_def initial_spec_def

lemma full_width: "take_bit 64 v = (v :: u64)" "signed_take_bit 63 v = v"
  by (rule bit_word_eqI; auto simp: bit_simps min_def dest: le_antisym)+

text \<open>The conversions of a whole word, each with the base that reads it back.\<close>

definition number_formats :: "(string \<times> u64) list" where
  "number_formats =
     [(''%llu'', UACPI_BASE_DEC), (''%lld'', UACPI_BASE_DEC), (''%zu'', UACPI_BASE_DEC), (''%llx'', UACPI_BASE_HEX), (''%llX'', UACPI_BASE_HEX), (''%llo'', UACPI_BASE_OCT)]"

definition plain_spec :: "bool \<Rightarrow> bool \<Rightarrow> u64 \<Rightarrow> fmt_spec" where
  "plain_spec sgned upper b = initial_spec\<lparr>is_signed := sgned, uppercase := upper, fm_base := ucast b\<rparr>"

lemma number_format_items:
  assumes "(f, b) \<in> set number_formats"
  shows "b \<in> {UACPI_BASE_OCT, UACPI_BASE_DEC, UACPI_BASE_HEX}"
    and "\<exists>sgned upper. format_items (chars f) [v] = Parsed [Integer_Item (plain_spec sgned upper b) v]"
proof -
  show "b \<in> {UACPI_BASE_OCT, UACPI_BASE_DEC, UACPI_BASE_HEX}" using assms by (auto simp: number_formats_def)
  have "format_items (chars f) [v] = Parsed [Integer_Item (plain_spec (f = ''%lld'') (f = ''%llX'') b) v]"
    using assms unfolding number_formats_def plain_spec_def
    by (simp, elim disjE) (simp_all add: format_items.simps parse_simps uacpi_bases full_width)
  then show "\<exists>sgned upper. format_items (chars f) [v] = Parsed [Integer_Item (plain_spec sgned upper b) v]" by blast
qed

lemma digit_of_hex_char:
  assumes "b \<in> {UACPI_BASE_OCT, UACPI_BASE_DEC, UACPI_BASE_HEX}" and "k < unat b"
  shows "digit_value b (hex_char upper (of_nat k)) = Some (of_nat k)"
proof -
  have "\<forall>k \<in> set [0..<8]. digit_value UACPI_BASE_OCT (hex_char upper (of_nat k)) = Some (of_nat k)"
    "\<forall>k \<in> set [0..<10]. digit_value UACPI_BASE_DEC (hex_char upper (of_nat k)) = Some (of_nat k)"
    "\<forall>k \<in> set [0..<16]. digit_value UACPI_BASE_HEX (hex_char upper (of_nat k)) = Some (of_nat k)"
    by (simp_all add: upt_rec hex_char_def chars_def digit_value_def digit_class uacpi_bases Let_def to_lower_def is_upper)
  then show ?thesis using assms by (auto simp: uacpi_bases)
qed

lemma numeral_value_snoc: "numeral_value b v (cs @ [c]) = numeral_value b v cs * unat b + unat (the (digit_value b c))"
  by (simp add: numeral_value_def)

lemma numeral_text_value:
  assumes b: "b \<in> {UACPI_BASE_OCT, UACPI_BASE_DEC, UACPI_BASE_HEX}"
  shows "(\<forall>c \<in> set (numeral_text upper (unat b) n). digit_value b c \<noteq> None) \<and> numeral_value b 0 (numeral_text upper (unat b) n) = n"
proof (induction n rule: less_induct)
  case (less n)
  have b2: "2 \<le> unat b" "unat b \<le> 16" using b by (auto simp: uacpi_bases)
  show ?case
  proof (cases "n = 0")
    case True
    then show ?thesis by (simp add: numeral_text.simps)
  next
    case False
    let ?k = "n mod unat b"
    have k: "?k < unat b" using b2 by simp
    then have "?k < 18446744073709551616" using b2 by linarith
    then have "unat (of_nat ?k :: u64) = ?k" by (rule unat_of_nat_u64)
    moreover have "n div unat b < n" using False b2 by simp
    ultimately show ?thesis
      using False b2 less.IH[of "n div unat b"] digit_of_hex_char[OF b k, of upper]
      by (subst (1 2) numeral_text.simps) (auto simp: numeral_value_snoc)
  qed
qed

lemma number_text_value:
  assumes b: "b \<in> {UACPI_BASE_OCT, UACPI_BASE_DEC, UACPI_BASE_HEX}"
  shows "(\<forall>c \<in> set (number_text (plain_spec sgned upper b) n). digit_value b c \<noteq> None) \<and>
    numeral_value b 0 (number_text (plain_spec sgned upper b) n) = n"
proof -
  have "unat (ucast b :: u32) = unat b" using b by (auto simp: uacpi_bases)
  moreover have "digit_value b 0x30 = Some 0" using digit_of_hex_char[OF b, of 0 False] b by (auto simp: uacpi_bases hex_char_def chars_def)
  ultimately show ?thesis
    using numeral_text_value[OF b] by (auto simp: number_text_def plain_spec_def initial_spec_def)
qed

text \<open>
  C20: Every 64-bit number that \<open>uacpi_vsnprintf\<close> prints with one of the formats \<open>%llu\<close>, \<open>%lld\<close>, \<open>%zu\<close>, \<open>%llx\<close>, \<open>%llX\<close> and \<open>%llo\<close> into a buffer of at least
  32 bytes, wherever it lies and whatever was in it, is read back by \<open>uacpi_string_to_integer\<close> as the same number, with status OK: from as many characters of
  the buffer as the formatter returned, in the base of the format.
\<close>

theorem printed_number_reads_back:
  assumes "(f, b) \<in> set number_formats" and "32 \<le> cap"
  shows "\<exists>n m'. uacpi_vsnprintf buf cap (chars f) [v] m = Some (int n, m') \<and>
    uacpi_string_to_integer (map (\<lambda>i. m' (buf + of_nat i)) [0..<n]) (of_nat n) b = (UACPI_STATUS_OK, v)"
proof -
  obtain sgned upper where items: "format_items (chars f) [v] = Parsed [Integer_Item (plain_spec sgned upper b) v]" using number_format_items(2)[OF assms(1)] by blast
  note b = number_format_items(1)[OF assms(1)]
  let ?fm = "plain_spec sgned upper b"
  define neg where "neg \<longleftrightarrow> sgned \<and> sint v < 0"
  define n where "n = (if sgned then nat \<bar>sint v\<bar> else unat v)"
  have n: "n = unat (if neg then - v else v)" using unat_negated[of v] unat_nonnegative[of v] by (auto simp: n_def neg_def not_less)
  define sign :: ctext where "sign = (if neg then [0x2D] else [])"
  let ?T = "sign @ number_text ?fm n"
  have eq: "integer_text ?fm v = ?T"
    by (simp add: integer_text_def plain_spec_def initial_spec_def padded_def neg_def n_def sign_def Let_def)
  have "8 \<le> unat (ucast b :: u32)" using b by (auto simp: uacpi_bases)
  then have l: "length ?T \<le> 23" using numeral_text_u64[of "unat (ucast b :: u32)" upper "if neg then - v else v"]
    by (auto simp: sign_def number_text_def plain_spec_def initial_spec_def n)
  have c: "cap \<noteq> 0" "min (length ?T) (unat cap - 1) = length ?T" using l assms(2) by (auto simp: word_le_nat_alt)
  obtain m' where m': "uacpi_vsnprintf buf cap (chars f) [v] m = Some (int (length ?T), m')" "\<forall>i < length ?T. m' (buf + of_nat i) = ?T ! i"
    using vsnprintf_prints[OF items refl, of "\<lambda>_ _. []" m buf cap] l c by (auto simp: eq Let_def)
  have read: "map (\<lambda>i. m' (buf + of_nat i)) [0..<length ?T] = ?T" using m'(2) by (intro nth_equalityI) auto
  have "n < 2 ^ 64" "of_nat n = (if neg then - v else v)" unfolding n using unat_lt_2p64 by simp_all
  moreover have "unat (of_nat (length ?T) :: u64) = length ?T" using l by (simp only: unat_of_nat_u64)
  ultimately have "uacpi_string_to_integer ([] @ ?T) (of_nat (length ?T)) b = (UACPI_STATUS_OK, v)"
    using string_to_integer_exact[OF b, of "[]" sign "number_text ?fm n" "of_nat (length ?T)" n] number_text_value[OF b] l
    by (simp add: sign_def split: if_splits)
  then show ?thesis using m'(1) read by (intro exI[of _ "length ?T"] exI[of _ m']) simp
qed

lemma printed_number_reads_back_witness:
  "\<exists>n m'. uacpi_vsnprintf 0x1000 32 (chars ''%llx'') [0xBEEF] (\<lambda>_. 0) = Some (int n, m') \<and>
    uacpi_string_to_integer (map (\<lambda>i. m' (0x1000 + of_nat i)) [0..<n]) (of_nat n) UACPI_BASE_HEX = (UACPI_STATUS_OK, 0xBEEF)"
  by (rule printed_number_reads_back) (simp_all add: number_formats_def)

text \<open>A message of the kernel interface, with a string, in a buffer that is too short for it.\<close>

lemma vsnprintf_prints_witness:
  "\<exists>m'. uacpi_vsnprintf 0x1000 8 (chars ''<%s %d>'') [0x2000, 7] (\<lambda>a. if a = 0x2000 then 0x41 else if a = 0x2001 then 0x42 else 0) = Some (6, m') \<and>
    m' 0x1000 = 0x3C \<and> m' 0x1006 = 0"
proof -
  let ?m = "\<lambda>a. if a = 0x2000 then 0x41 else if a = 0x2001 then 0x42 else 0 :: u8" and ?str = "\<lambda>_ _. [0x41, 0x42] :: ctext"
  let ?items = "[Char_Item 0x3C, String_Item 0x2000 initial_spec, Char_Item 0x20, Integer_Item (initial_spec\<lparr>is_signed := True\<rparr>) 7, Char_Item 0x3E]"
  have i: "format_items (chars ''<%s %d>'') [0x2000, 7] = Parsed ?items"
    by (simp add: format_items.simps parse_simps signed_take_bit_def)
  have s: "prints_as ?m 0x1000 8 initial_spec 0x2000 [0x41, 0x42]" by (simp add: prints_as_def initial_spec_def less_Suc_eq)
  have t: "concat (map (item_text ?str) ?items) = [0x3C, 0x41, 0x42, 0x20, 0x37, 0x3E]"
    by (simp add: string_text_def integer_text_def initial_spec_def padded_def number_text_def numeral_text.simps hex_char_def chars_def)
  obtain m' where "uacpi_vsnprintf 0x1000 8 (chars ''<%s %d>'') [0x2000, 7] ?m = Some (6, m')"
    "\<forall>i < 6. m' (0x1000 + of_nat i) = [0x3C, 0x41, 0x42, 0x20, 0x37, 0x3E] ! i" "m' 0x1006 = 0"
    using vsnprintf_prints[OF i refl, of ?str ?m "0x1000" 8] s unfolding t by (auto simp: Let_def)
  then show ?thesis by force
qed

section \<open>Departures from the C library\<close>

text \<open>The sign comes before the padding and is not counted in the width, and a string is padded on its right.\<close>

lemma sign_before_padding:
  "integer_text (initial_spec\<lparr>is_signed := True, min_width := 5\<rparr>) (- 7) = [0x2D] @ replicate 4 0x20 @ [0x37]"
  by (simp add: integer_text_def initial_spec_def padded_def number_text_def numeral_text.simps hex_char_def chars_def)

lemma string_padded_on_right:
  "string_text (\<lambda>_ _. [0x61]) 1 (initial_spec\<lparr>min_width := 4\<rparr>) = [0x61] @ replicate 3 0x20"
  by (simp add: string_text_def initial_spec_def)

end
