(* ===== verification/Spec2Isabelle.thy ===== *)
theory Spec2Isabelle
  imports QMemProps PmmProps VmmProps SpinLock GenAllocProps PmmServiceProps ArenaProps QStringProps TermProps EcsProps InterruptProps KernelProps LegacyAlloc AcpiHostProps LdrBoot LdrPaging Handover UacpiRegsProps UacpiPrintfRead
begin

text \<open>
  A verification development for \<^bold>\<open>nearlands\<close>: the UEFI loader \<open>nearmonia\<close> and the kernel \<open>narnify\<close> that it starts.

  \<^bold>\<open>The program.\<close> The loader asks the firmware for its memory map, builds page tables, reads the kernel's PE image from a file, maps it into
  the higher half, fills in the boot information and jumps. The kernel sets up its screen, its descriptor tables, its memory managers, its entity
  component system, its interrupt controller and ACPI, in this order; a phase that fails puts its status on the panic screen and hangs. The managers
  build on each other: page tables and general memory take pages from the physical memory manager, arenas and strings take general memory,
  entities take arenas, and everything prints to the terminal, which draws on the screen and writes to the serial port.

  \<^bold>\<open>Conventions.\<close> A C function is a function on the state it reads and writes, under its name in the source. Machine integers are words, pointers are
  64-bit words, \<open>bytes\<close> is the byte memory, and a structure that the code allocates is a record found by its address. A function that
  need not return has the type \<open>option\<close> and is a \<open>partial_function\<close>, with \<open>None\<close> for not returning, so that no fuel occurs anywhere; that it does return is proved where it is
  claimed. A status or \<open>boolean\<close> result is a value of its type. The panic is the outcome \<open>Hangs\<close> of \<open>run\<close>. What is outside the modelled sources is an argument: the formatter of
  nanoprintf, the parts of uACPI that are not listed below, port input, model specific registers, the assembly entry points and the services of the firmware.

  \<^bold>\<open>Foundations.\<close> \<open>NrPrelude\<close> (types, statuses, the loops of the code), \<open>NrMemory\<close> (64-bit loads and stores, pages), \<open>QMem\<close> and \<open>QMemProps\<close>
  (\<open>qol/qmem.c\<close>), \<open>NrBoot\<close> (\<open>bootinfo.h\<close>), \<open>DList\<close> (intrusive lists).

  \<^bold>\<open>Memory of the kernel.\<close> \<open>PageInterface\<close> states the contract of a single-page allocator as the locale \<open>page_allocator\<close>; \<open>PmmBitmap\<close> (\<open>pmms/bitmap.c\<close>) and \<open>PmmPageMap\<close>
  (\<open>pmms/pagemap.c\<close>) define the two managers and discharge it, \<open>PmmInit\<close> and \<open>PmmProps\<close> prove that initialisation establishes
  the invariant, that pages are distinct, and where the search for runs of pages goes wrong. \<open>Pmm\<close> and \<open>PmmServiceProps\<close> are \<open>pmm.c\<close>. \<open>Vmm\<close> (\<open>vmm.c\<close>) defines the page tables in memory; \<open>PageTables\<close> proves,
  in the locale \<open>page_tables\<close>, what a four-level walk does to the translation of every address, and \<open>VmmTree\<close> and \<open>VmmProps\<close> apply it to the kernel: the abstract specification is the map from
  virtual addresses to leaf entries, and mapping is an update of it. \<open>GenAlloc\<close> (\<open>alloc.c\<close>), with its invariant in \<open>GenAllocInv\<close>, the effect of each operation in \<open>GenAllocOps\<close> and the clients' view in \<open>GenAllocProps\<close>:
  the live allocations are disjoint and unmoved. That the pages of a new block lie in no old one is a condition there, \<open>fresh_block\<close>: it holds while the
  pages in use lie below a frontier, and the search for runs can break it once pages have been freed. \<open>LegacyAlloc\<close> is the earlier allocator. \<open>Arena\<close> and \<open>ArenaProps\<close> (\<open>arena.c\<close>), \<open>QString\<close> and \<open>QStringProps\<close> (\<open>qol/qstring.c\<close>).

  \<^bold>\<open>Services of the kernel.\<close> \<open>SpinLock\<close> (\<open>ke/amd64pc/spinlock.c\<close>: the functions, and a step relation of any number of processors). \<open>Ecs\<close>, \<open>EcsInv\<close>, \<open>EcsProps\<close> (\<open>ecs/ecs.c\<close>):
  the abstract state is the map from the handles of the live entities to their component types; creation and deletion refine its update, and the
  invariant holds in every state reachable by steps in which the allocator keeps its contract (\<open>node_fresh\<close>) and the arrays have at most \<open>10 ^ 9\<close> elements. \<open>Font\<close>, \<open>Graphics\<close>, \<open>Term\<close>, \<open>Panic\<close>, \<open>TermProps\<close> (\<open>ke/graphics.c\<close>, \<open>term.c\<close>, \<open>nrstatus.c\<close>, \<open>panic.c\<close>, \<open>splash.c\<close>). \<open>Interrupts\<close>, \<open>InterruptProps\<close>
  (\<open>ar/amd64pc\<close>), \<open>Apic\<close> (\<open>ki/amd64pc\<close>), \<open>AcpiHost\<close>, \<open>AcpiHostProps\<close> (\<open>acpi/uacpiwrap.c\<close>). \<open>Kernel\<close> composes them (\<open>mm.c\<close>, \<open>ke.c\<close>, \<open>binfo.c\<close>, \<open>thread.c\<close>,
  \<open>acpi.c\<close>, \<open>entry.c\<close>), \<open>KernelProps\<close> is about the composition.

  \<^bold>\<open>The loader.\<close> \<open>LdrTerm\<close>, \<open>LdrTermProps\<close> (\<open>ldr/graphics.c\<close>, \<open>term.c\<close>, \<open>panic.c\<close>): its drawing is the kernel's. \<open>LdrEfi\<close> has the data of the firmware and its services as the record \<open>firmware\<close>; \<open>LdrMem\<close>
  (\<open>mm/amd64pc\<close>), \<open>LdrFile\<close> (\<open>abs.c\<close>, \<open>gop.c\<close>, \<open>sfs.c\<close>, strings) and \<open>PeLdr\<close> (\<open>peldr.c\<close>, \<open>entry.c\<close>) the code. \<open>LdrProps\<close>: the memory map, the boot information
  and the sections as the kernel finds them. \<open>LdrTree\<close>: under the documented contract of the firmware's page allocator its tables satisfy the
  laws of \<open>page_tables\<close>, so that the kernel is mapped where the boot information says. \<open>LdrBoot\<close>: the only path on which the kernel is entered, and which key of the memory map the firmware is
  given then: \<open>keyed_map\<close> has the facts about the firmware that this rests on. \<open>LdrPaging\<close>: the paging that the loader sets up maps every page of the memory map.
  \<open>Handover\<close> composes the two programs: no memory that the firmware keeps is given out by the kernel's page allocator.

  \<^bold>\<open>uACPI.\<close> Of the ACPI library that the kernel contains, the parts that drive the hardware through the kernel's services and the parts that print are
  modelled. \<open>UacpiBits\<close> (\<open>io.c\<close>): bit fields of buffers, whose writes and reads are inverse to each other. \<open>UacpiGas\<close> (\<open>io.c\<close>, \<open>stdlib.c\<close>, \<open>context.h\<close>): the generic address
  structures, on the kernel's port and memory services of \<open>AcpiHost\<close>, and the messages. \<open>UacpiRegs\<close> and \<open>UacpiRegsProps\<close> (\<open>registers.c\<close>): the fixed registers and their fields; the
  properties are about registers whose one or two blocks are mapped 16-bit ports (\<open>at_ports16\<close>), the words that a device gives being a function of the
  number of the read and the port. \<open>UacpiText\<close> and \<open>UacpiTextProps\<close> (\<open>utilities.c\<close>): characters, text to integers, identifiers. \<open>UacpiPrintf\<close>, \<open>UacpiPrintfProps\<close> and \<open>UacpiPrintfRead\<close>
  (\<open>stdlib.c\<close>): the formatter stores the text that its format denotes, cut to the buffer, and a number that it prints is read back as the same number. \<open>long\<close> has 32 bits, as the
  target is a COFF one. The stack slots of locals whose address is taken are parameters of the environment.

  \<^bold>\<open>Bounds.\<close> Sizes in hypotheses keep sums of addresses below \<open>2 ^ 64\<close>, where the code does not test for wrap-around; the cases beyond them that are theorems of
  their own are the requests that make the general allocator, an arena and the search for runs of pages wrap. Regions end before the last page of the address
  space, as the code's loops in steps of a page do not end otherwise. The higher half has 512 GiB, \<open>0x8000000\<close> pages.

  \<^bold>\<open>Not modelled.\<close> The assembly files; the interpreter of uACPI, nanoprintf and the UEFI headers beyond the structures in use, which are third-party code; \<open>cpu.c\<close> and \<open>pit.c\<close>, which do nothing. Caches, the translation buffer and
  interrupts that arrive between two statements are not modelled, nor are processors other than in \<open>SpinLock\<close>. The memory map, its entries and the firmware's descriptors are found by their addresses
  apart from the byte memory, so that a section loaded over them would not show; the fields of the boot information are stored at once, when the last of them is known. Translation does not act on the model's
  loads and stores: the tables are data, and a store through the higher half does not show at its physical address.
\<close>

end
